(* ===== verification/Go_Prelude.thy ===== *)
theory Go_Prelude
  imports
    Main
    "HOL-Library.AList"
    "HOL-Library.Char_ord"
    "HOL-Library.List_Lexorder"
    "HOL-Library.Product_Lexorder"
begin

text \<open>
  Shared vocabulary of the development: what the Go sources use of the language and of its
  standard library (byte strings, maps, errors as values, timestamps, JSON values), the SQL table
  primitives the SQLite store is written with, the collections of rewrite rules the component
  proofs share, and the generic interfaces (locales) that several components implement.

  Conventions. A Go \<^verbatim>\<open>string\<close> is a HOL \<open>string\<close> (a list of bytes). A Go \<^verbatim>\<open>map[string]T\<close> is an
  association list with distinct keys, listed in the order in which one \<^verbatim>\<open>range\<close> loop visits it;
  a theorem about every such list is a theorem about every iteration order. A function that
  returns \<^verbatim>\<open>(T, error)\<close> returns a sum, \<open>Inl\<close> the error. A timestamp is an \<open>int\<close>: nanoseconds since
  Go's zero \<^verbatim>\<open>time.Time\<close>, so that \<^verbatim>\<open>IsZero\<close> is equality with 0. Go's \<^verbatim>\<open>int\<close> fields that the code only
  compares are \<open>int\<close>.
\<close>

section \<open>Collections of rules\<close>

named_theorems go_defs \<open>definitions of small helpers, unfolded in component proofs\<close>
named_theorems frame \<open>what an operation leaves unchanged\<close>

section \<open>Strings\<close>

text \<open>Letters, case and white space are those of ASCII; Go also folds and trims the other characters of Unicode.\<close>

definition lower_char :: "char \<Rightarrow> char" where
  "lower_char c = (if 65 \<le> (of_char c :: nat) \<and> (of_char c :: nat) \<le> 90
     then char_of ((of_char c :: nat) + 32) else c)"

text \<open>\<^verbatim>\<open>strings.ToLower\<close> and \<^verbatim>\<open>strings.EqualFold\<close> on ASCII text; other bytes stand for themselves.\<close>

definition ToLower :: "string \<Rightarrow> string" where
  "ToLower s = map lower_char s"

definition EqualFold :: "string \<Rightarrow> string \<Rightarrow> bool" where
  "EqualFold s t \<longleftrightarrow> ToLower s = ToLower t"

definition HasPrefix :: "string \<Rightarrow> string \<Rightarrow> bool" where
  "HasPrefix s p \<longleftrightarrow> take (length p) s = p"

fun Contains :: "string \<Rightarrow> string \<Rightarrow> bool" where
  "Contains [] p = (p = [])"
| "Contains (c # s) p = (HasPrefix (c # s) p \<or> Contains s p)"

definition is_space :: "char \<Rightarrow> bool" where
  "is_space c \<longleftrightarrow> (of_char c :: nat) \<in> {9, 10, 11, 12, 13, 32}"

definition TrimSpace :: "string \<Rightarrow> string" where
  "TrimSpace s = rev (dropWhile is_space (rev (dropWhile is_space s)))"

text \<open>\<^verbatim>\<open>strings.Split(s, sep)\<close> for a one-byte separator: never the empty list.\<close>

fun Split :: "string \<Rightarrow> char \<Rightarrow> string list" where
  "Split [] sep = [[]]"
| "Split (c # s) sep =
     (if c = sep then [] # Split s sep
      else case Split s sep of [] \<Rightarrow> [[c]] | w # ws \<Rightarrow> (c # w) # ws)"

fun Join :: "string list \<Rightarrow> string \<Rightarrow> string" where
  "Join [] sep = []"
| "Join [w] sep = w"
| "Join (w # ws) sep = w @ sep @ Join ws sep"

text \<open>Decimal rendering of a natural number padded to \<open>k\<close> digits, and lower-case hex of a byte.\<close>

fun pad_digits :: "nat \<Rightarrow> nat \<Rightarrow> string" where
  "pad_digits 0 n = []"
| "pad_digits (Suc k) n = pad_digits k (n div 10) @ [char_of (48 + n mod 10)]"

text \<open>The verb \<^verbatim>\<open>%d\<close> on a natural number and on an integer.\<close>

fun dec_nat :: "nat \<Rightarrow> string" where
  "dec_nat n = (if n < 10 then [] else dec_nat (n div 10)) @ [char_of (48 + n mod 10)]"

declare dec_nat.simps [simp del]

definition dec_int :: "int \<Rightarrow> string" where
  "dec_int i = (if i < 0 then ''-'' else []) @ dec_nat (nat \<bar>i\<bar>)"

definition hex_digit :: "nat \<Rightarrow> char" where
  "hex_digit n = char_of (if n < 10 then 48 + n else 87 + n)"

definition hex_byte :: "nat \<Rightarrow> string" where
  "hex_byte b = [hex_digit (b div 16 mod 16), hex_digit (b mod 16)]"

definition is_hex :: "char \<Rightarrow> bool" where
  "is_hex c \<longleftrightarrow> (48 \<le> (of_char c :: nat) \<and> (of_char c :: nat) \<le> 57)
     \<or> (97 \<le> (of_char c :: nat) \<and> (of_char c :: nat) \<le> 102)"

definition is_digit :: "char \<Rightarrow> bool" where
  "is_digit c \<longleftrightarrow> 48 \<le> (of_char c :: nat) \<and> (of_char c :: nat) \<le> 57"

text \<open>The anchored pattern \<^verbatim>\<open>^[a-f0-9]{64}$\<close>.\<close>

definition sha256_hex :: "string \<Rightarrow> bool" where
  "sha256_hex s \<longleftrightarrow> length s = 64 \<and> list_all is_hex s"

section \<open>Maps, JSON values\<close>

type_synonym 'v gomap = "(string \<times> 'v) list"

abbreviation keys :: "'v gomap \<Rightarrow> string list" where
  "keys m \<equiv> map fst m"

definition wf_map :: "'v gomap \<Rightarrow> bool" where
  "wf_map m \<longleftrightarrow> distinct (keys m)"

text \<open>Reading a \<^verbatim>\<open>map[string]bool\<close>: a missing key reads as false.\<close>

definition go_true :: "bool gomap \<Rightarrow> string \<Rightarrow> bool" where
  "go_true m k \<longleftrightarrow> map_of m k = Some True"

section \<open>Time\<close>

type_synonym time = int
type_synonym duration = int

definition Second :: duration where "Second = 1000000000"
definition Hour :: duration where "Hour = 3600 * Second"

definition IsZero :: "time \<Rightarrow> bool" where
  "IsZero t \<longleftrightarrow> t = 0"

text \<open>A 64-bit signed result wraps; \<^verbatim>\<open>time.Duration(n) * time.Second\<close> is such a product.\<close>

definition wrap64 :: "int \<Rightarrow> int" where
  "wrap64 x = (x + 2 ^ 63) mod 2 ^ 64 - 2 ^ 63"

definition Seconds :: "int \<Rightarrow> duration" where
  "Seconds n = wrap64 (n * Second)"

text \<open>\<^verbatim>\<open>t.Sub(u)\<close> saturates at the bounds of a 64-bit duration.\<close>

definition Sub :: "time \<Rightarrow> time \<Rightarrow> duration" where
  "Sub t u = max (- (2 ^ 63)) (min (2 ^ 63 - 1) (t - u))"

text \<open>Seconds since 1970; the times of the model count from the zero time of Go.\<close>

definition unix_epoch :: time where "unix_epoch = 62135596800 * Second"
definition Unix :: "time \<Rightarrow> int" where "Unix t = (t - unix_epoch) div Second"
definition from_unix :: "int \<Rightarrow> time" where "from_unix s = s * Second + unix_epoch"

text \<open>
  \<^verbatim>\<open>time.RFC3339Nano\<close> renders a UTC time as a date and time of fixed width, then the fraction of the
  second without its trailing zeros, then \<^verbatim>\<open>Z\<close>. SQLite compares the TEXT columns byte by byte, so
  an \<^verbatim>\<open>ORDER BY\<close> or a \<^verbatim>\<open><\<close> on such a column compares the whole seconds first (the fixed-width part) and
  then the rendered fractions as strings. \<open>rfc_key\<close> is that key.
\<close>

definition frac_text :: "time \<Rightarrow> string" where
  "frac_text t = (let n = nat (t mod Second) in
     if n = 0 then ''Z''
     else ''.'' @ rev (dropWhile (\<lambda>c. c = CHR ''0'') (rev (pad_digits 9 n))) @ ''Z'')"

definition rfc_key :: "time \<Rightarrow> int \<times> string" where
  "rfc_key t = (t div Second, frac_text t)"

definition text_before :: "time \<Rightarrow> time \<Rightarrow> bool" where
  "text_before t u \<longleftrightarrow> rfc_key t < rfc_key u"

section \<open>SQL tables\<close>

text \<open>A table is the list of its rows in insertion order.\<close>

definition find_row :: "('r \<Rightarrow> 'k) \<Rightarrow> 'k \<Rightarrow> 'r list \<Rightarrow> 'r option" where
  "find_row key k t = find (\<lambda>r. key r = k) t"

text \<open>\<^verbatim>\<open>INSERT OR IGNORE\<close> (and \<^verbatim>\<open>ON CONFLICT DO NOTHING\<close>) on a primary key.\<close>

definition insert_ignore :: "('r \<Rightarrow> 'k) \<Rightarrow> 'r \<Rightarrow> 'r list \<Rightarrow> 'r list" where
  "insert_ignore key r t = (case find_row key (key r) t of None \<Rightarrow> t @ [r] | Some _ \<Rightarrow> t)"

text \<open>\<^verbatim>\<open>UPDATE ... WHERE\<close>.\<close>

definition update_where :: "('r \<Rightarrow> bool) \<Rightarrow> ('r \<Rightarrow> 'r) \<Rightarrow> 'r list \<Rightarrow> 'r list" where
  "update_where p f t = map (\<lambda>r. if p r then f r else r) t"

text \<open>\<^verbatim>\<open>ORDER BY c ASC\<close> and \<^verbatim>\<open>DESC\<close> on a timestamp column, in the order of its texts; rows that tie keep insertion order, as do queries
  without \<^verbatim>\<open>ORDER BY\<close>, whose order SQLite does not promise.\<close>

definition order_asc :: "('r \<Rightarrow> time) \<Rightarrow> 'r list \<Rightarrow> 'r list" where
  "order_asc c t = sort_key (\<lambda>r. rfc_key (c r)) t"

definition order_desc :: "('r \<Rightarrow> time) \<Rightarrow> 'r list \<Rightarrow> 'r list" where
  "order_desc c t = rev (sort_key (\<lambda>r. rfc_key (c r)) (rev t))"

lemmas string_defs = lower_char_def ToLower_def EqualFold_def HasPrefix_def is_space_def TrimSpace_def

declare Second_def [go_defs] Hour_def [go_defs] IsZero_def [go_defs] go_true_def [go_defs]

section \<open>Lemmas on tables\<close>

lemma find_row_Some: "find_row key k t = Some r \<Longrightarrow> r \<in> set t \<and> key r = k"
  by (auto simp: find_row_def find_Some_iff)

lemma find_row_None: "find_row key k t = None \<longleftrightarrow> k \<notin> key ` set t"
  by (auto simp: find_row_def find_None_iff)

lemma find_row_append:
  "find_row key k (t @ u) = (case find_row key k t of None \<Rightarrow> find_row key k u | Some r \<Rightarrow> Some r)"
  by (induction t) (auto simp: find_row_def)

lemma find_row_Nil [simp]: "find_row key k [] = None"
  by (simp add: find_row_def)

lemma find_row_Cons [simp]:
  "find_row key k (r # t) = (if key r = k then Some r else find_row key k t)"
  by (simp add: find_row_def)

lemma find_row_distinct:
  assumes "distinct (map key t)" and "r \<in> set t"
  shows "find_row key (key r) t = Some r"
  using assms by (induction t) (auto simp: rev_image_eqI)

lemma set_insert_ignore:
  "set (insert_ignore key r t) = (if key r \<in> key ` set t then set t else insert r (set t))"
  using find_row_None [of key "key r" t]
  by (auto simp: insert_ignore_def split: option.splits)

lemma distinct_insert_ignore:
  "distinct (map key t) \<Longrightarrow> distinct (map key (insert_ignore key r t))"
  using find_row_None [of key "key r" t]
  by (auto simp: insert_ignore_def split: option.splits)

lemma map_update_where [simp]:
  assumes "\<And>r. key (f r) = key r"
  shows "map key (update_where p f t) = map key t"
  by (auto simp: update_where_def assms)

lemma length_update_where [simp]: "length (update_where p f t) = length t"
  by (simp add: update_where_def)

lemma set_update_where: "set (update_where p f t) = (\<lambda>r. if p r then f r else r) ` set t"
  by (simp add: update_where_def)

lemma find_row_update_where:
  assumes "\<And>r. key (f r) = key r"
  shows "find_row key k (update_where p f t) =
    map_option (\<lambda>r. if p r then f r else r) (find_row key k t)"
  by (induction t) (auto simp: update_where_def assms)

lemma update_where_Nil [simp]: "update_where p f [] = []"
  by (simp add: update_where_def)

lemma update_where_Cons [simp]:
  "update_where p f (r # t) = (if p r then f r else r) # update_where p f t"
  by (simp add: update_where_def)

lemma update_where_append [simp]:
  "update_where p f (t @ u) = update_where p f t @ update_where p f u"
  by (simp add: update_where_def)

lemma filter_update_where_stable:
  assumes "\<And>r. r \<in> set t \<Longrightarrow> p r \<Longrightarrow> q (f r) = q r"
  shows "filter q (update_where p f t) = update_where p f (filter q t)"
  using assms by (induction t) auto

lemma set_order_asc [simp]: "set (order_asc c t) = set t"
  by (simp add: order_asc_def)

lemma set_order_desc [simp]: "set (order_desc c t) = set t"
  by (simp add: order_desc_def)

section \<open>Lemmas on the text order of timestamps\<close>

lemma text_before_seconds:
  "t div Second < u div Second \<Longrightarrow> text_before t u"
  by (simp add: text_before_def rfc_key_def less_prod_def)

lemma text_before_imp_seconds:
  "text_before t u \<Longrightarrow> t div Second \<le> u div Second"
  by (auto simp: text_before_def rfc_key_def less_prod_def)

lemma text_before_within_second:
  assumes "text_before t u"
  shows "t < u + Second"
proof -
  have "t div Second \<le> u div Second"
    using assms by (rule text_before_imp_seconds)
  then have "Second * (t div Second) \<le> Second * (u div Second)"
    by (simp add: Second_def)
  moreover have "t mod Second < Second" "0 \<le> u mod Second"
    by (simp_all add: Second_def)
  moreover have "t = Second * (t div Second) + t mod Second"
      "u = Second * (u div Second) + u mod Second"
    by simp_all
  ultimately show ?thesis by linarith
qed

lemma text_before_after_second:
  assumes "t + Second \<le> u"
  shows "text_before t u"
proof (rule text_before_seconds)
  have "t div Second + 1 = (t + Second) div Second"
    by (simp add: Second_def)
  also have "\<dots> \<le> u div Second"
    using assms by (intro zdiv_mono1) (simp_all add: Second_def)
  finally show "t div Second < u div Second" by simp
qed

lemma text_before_irrefl [simp]: "\<not> text_before t t"
  by (simp add: text_before_def)

lemma text_before_trans: "text_before t u \<Longrightarrow> text_before u v \<Longrightarrow> text_before t v"
  by (auto simp: text_before_def)

text \<open>A descending list is in the order of whole seconds.\<close>

lemma order_desc_seconds:
  "sorted_wrt (\<lambda>r s. c s div Second \<le> c r div Second) (order_desc c t)"
proof -
  have "sorted_wrt (\<lambda>r s. rfc_key (c r) \<le> rfc_key (c s)) (sort_key (\<lambda>r. rfc_key (c r)) (rev t))"
    using sorted_sort_key [of "\<lambda>r. rfc_key (c r)" "rev t"] by (simp add: sorted_map)
  then have "sorted_wrt (\<lambda>r s. c r div Second \<le> c s div Second) (sort_key (\<lambda>r. rfc_key (c r)) (rev t))"
    by (rule sorted_wrt_mono_rel [rotated]) (auto simp: rfc_key_def less_eq_prod_def)
  then show ?thesis by (simp add: order_desc_def sorted_wrt_rev)
qed

lemma take_order_desc_seconds:
  assumes "r \<in> set (take n (order_desc c t))" "s \<in> set t" "s \<notin> set (take n (order_desc c t))"
  shows "c s div Second \<le> c r div Second"
proof -
  have "s \<in> set (drop n (order_desc c t))"
    using assms(2,3) set_append [of "take n (order_desc c t)" "drop n (order_desc c t)"] by auto
  moreover have "sorted_wrt (\<lambda>r s. c s div Second \<le> c r div Second) (take n (order_desc c t) @ drop n (order_desc c t))"
    using order_desc_seconds [of c t] by simp
  ultimately show ?thesis using assms(1) unfolding sorted_wrt_append by blast
qed

section \<open>Lemmas on joined strings\<close>

lemma Join_Cons: "ws \<noteq> [] \<Longrightarrow> Join (w # ws) sep = w @ sep @ Join ws sep"
  by (cases ws) auto

lemma append_sep_inject:
  assumes "c \<notin> set u" "c \<notin> set v" "u @ c # xs = v @ c # ys"
  shows "u = v \<and> xs = ys"
  using assms
proof (induction u arbitrary: v)
  case Nil
  then show ?case by (cases v) auto
next
  case (Cons x u)
  then show ?case by (cases v) auto
qed

lemma Join_inject:
  assumes "length us = length vs" "\<forall>u \<in> set us. c \<notin> set u" "\<forall>v \<in> set vs. c \<notin> set v"
    and "Join us [c] = Join vs [c]"
  shows "us = vs"
  using assms
proof (induction us vs rule: list_induct2)
  case Nil
  then show ?case by simp
next
  case (Cons u us v vs)
  show ?case
  proof (cases "us = []")
    case True
    with Cons show ?thesis by simp
  next
    case False
    with Cons.hyps have "vs \<noteq> []" by auto
    with False Cons.prems(3) have eq: "u @ c # Join us [c] = v @ c # Join vs [c]"
      by (simp add: Join_Cons)
    have "c \<notin> set u" "c \<notin> set v"
      using Cons.prems(1,2) by simp_all
    from append_sep_inject [OF this eq] have uv: "u = v" and rest: "Join us [c] = Join vs [c]"
      by blast+
    have "us = vs"
      by (rule Cons.IH) (use Cons.prems(1,2) rest in simp_all)
    with uv show ?thesis by simp
  qed
qed

lemma Split_no_sep: "sep \<notin> set u \<Longrightarrow> Split u sep = [u]"
  by (induction u) auto

lemma Split_sep: "sep \<notin> set u \<Longrightarrow> Split (u @ sep # v) sep = u # Split v sep"
  by (induction u) auto

lemma Split_two: "sep \<notin> set u \<Longrightarrow> sep \<notin> set v \<Longrightarrow> Split (u @ sep # v) sep = [u, v]"
  by (simp add: Split_sep Split_no_sep)

section \<open>Lemmas on whole seconds\<close>

lemma from_unix_bounds: "from_unix (Unix t) \<le> t" "t < from_unix (Unix t) + Second"
proof -
  have sec: "(0 :: int) < Second" by (simp add: Second_def)
  have "from_unix (Unix t) = t - (t - unix_epoch) mod Second"
    by (simp add: from_unix_def Unix_def minus_mod_eq_div_mult [symmetric])
  then show "from_unix (Unix t) \<le> t" "t < from_unix (Unix t) + Second"
    using pos_mod_bound [OF sec, of "t - unix_epoch"] pos_mod_sign [OF sec, of "t - unix_epoch"] by linarith+
qed

lemma wrap64_bounds: "- (2 ^ 63) \<le> wrap64 x" "wrap64 x < 2 ^ 63"
  by (simp_all add: wrap64_def)

lemma wrap64_id: "- (2 ^ 63) \<le> x \<Longrightarrow> x < 2 ^ 63 \<Longrightarrow> wrap64 x = x"
  by (simp add: wrap64_def)

lemma from_unix_mono: "s \<le> s' \<Longrightarrow> from_unix s \<le> from_unix s'"
  by (simp add: from_unix_def Second_def)

lemma from_unix_Suc: "from_unix (s + 1) = from_unix s + Second"
  by (simp add: from_unix_def algebra_simps)

lemma Unix_less: "Unix t < s \<longleftrightarrow> t < from_unix s"
proof
  assume "Unix t < s"
  then have "from_unix (Unix t + 1) \<le> from_unix s" by (intro from_unix_mono) simp
  then show "t < from_unix s" using from_unix_bounds(2) [of t] by (simp add: from_unix_Suc)
next
  assume "t < from_unix s"
  then show "Unix t < s" using from_unix_mono [of s "Unix t"] from_unix_bounds(1) [of t] by linarith
qed

section \<open>Interfaces\<close>

text \<open>
  A transition law: which moves a status may make and which statuses are terminal. Every status
  type of the program (Work states, lease statuses) implements it.
\<close>

locale transition_law =
  fixes allowed :: "'s \<Rightarrow> 's \<Rightarrow> bool"
    and terminal :: "'s \<Rightarrow> bool"
  assumes terminal_stuck: "terminal s \<Longrightarrow> \<not> allowed s t"
begin

lemma terminal_absorbing: "allowed\<^sup>*\<^sup>* s t \<Longrightarrow> terminal s \<Longrightarrow> t = s"
  by (induction rule: converse_rtranclp_induct) (auto simp: terminal_stuck)

lemma path_stays_live: "allowed\<^sup>*\<^sup>* s t \<Longrightarrow> \<not> terminal t \<Longrightarrow> \<not> terminal s"
  using terminal_absorbing by blast

end

text \<open>
  A table written through an insert that never overwrites: the contract of every idempotent
  append of the store.
\<close>

locale insert_once =
  fixes ins :: "'r \<Rightarrow> 't \<Rightarrow> 't"
    and look :: "'t \<Rightarrow> 'k \<Rightarrow> 'r option"
    and key :: "'r \<Rightarrow> 'k"
  assumes look_new: "look t (key r) = None \<Longrightarrow> look (ins r t) (key r) = Some r"
    and look_other: "k \<noteq> key r \<Longrightarrow> look (ins r t) k = look t k"
    and ins_old: "look t (key r) = Some r' \<Longrightarrow> ins r t = t"
begin

lemma look_ins:
  "look (ins r t) k = (if k = key r \<and> look t k = None then Some r else look t k)"
proof (cases "look t (key r)")
  case None
  then show ?thesis using look_new [OF None] look_other [of k r t] by auto
next
  case (Some r')
  then have "ins r t = t" by (rule ins_old)
  with Some show ?thesis by auto
qed

lemma first_write_wins: "look t k = Some r \<Longrightarrow> look (fold ins rs t) k = Some r"
  by (induction rs arbitrary: t) (auto simp: look_ins)

lemma replay_noop: "ins r (ins r t) = ins r t"
proof (cases "look t (key r)")
  case None
  then show ?thesis by (rule ins_old [OF look_new])
next
  case (Some r')
  then show ?thesis by (simp add: ins_old)
qed

lemma replay_later: "look t (key r) \<noteq> None \<Longrightarrow> ins r (fold ins rs t) = fold ins rs t"
  using first_write_wins ins_old by blast

end

text \<open>Operations that all keep one invariant keep it along every sequence of calls.\<close>

locale invariant_ops =
  fixes exec :: "'op \<Rightarrow> 's \<Rightarrow> 's"
    and inv :: "'s \<Rightarrow> bool"
  assumes inv_exec: "inv s \<Longrightarrow> inv (exec a s)"
begin

lemma inv_run: "inv s \<Longrightarrow> inv (fold exec as s)"
  by (induction as arbitrary: s) (auto simp: inv_exec)

end

interpretation sql_table: insert_once "insert_ignore key" "\<lambda>t k. find_row key k t" key
  by unfold_locales (auto simp: insert_ignore_def find_row_append split: option.splits)

end
