(* ===== verification/Go_Float.thy ===== *)
theory Go_Float
  imports Complex_Main Go_Prelude
begin

text \<open>
  Go's \<^verbatim>\<open>float64\<close>: IEEE 754 binary64 with round-to-nearest, ties to even. \<open>Fin m e\<close> is the number
  \<open>m * 2 ^ e\<close>; the operations compute the exact result on integers and round it once (adding zero changes nothing), so sums and
  products carry the rounding errors of the real program and a NaN compares false with everything.
  The two zeros are one value here: no operation the sources use (comparison, addition,
  subtraction, multiplication, division by a positive number) tells them apart. Products are rounded
  before they are added (no fused multiply-add, as on amd64).
\<close>

datatype float64 = NaN | PInf | NInf | Fin int int

fun bit_length :: "int \<Rightarrow> int" where
  "bit_length n = (if n \<le> 0 then 0 else 1 + bit_length (n div 2))"

declare bit_length.simps [simp del]

definition half_even :: "int \<Rightarrow> nat \<Rightarrow> int" where
  "half_even a k = (let q = a div 2 ^ k; r = a mod 2 ^ k in
     if 2 * r > 2 ^ k \<or> (2 * r = 2 ^ k \<and> odd q) then q + 1 else q)"

definition round_mag :: "int \<Rightarrow> int \<Rightarrow> int \<times> int" where
  "round_mag a e = (let s = max (bit_length a - 53) (- 1074 - e) in
     if s \<le> 0 then (a * 2 ^ nat (- s), e + s)
     else let q = half_even a (nat s) in
       if q = 2 ^ 53 then (2 ^ 52, e + s + 1) else (q, e + s))"

definition f_zero :: float64 where "f_zero = Fin 0 (- 1074)"

definition f_round :: "int \<Rightarrow> int \<Rightarrow> float64" where
  "f_round m e = (if m = 0 then f_zero
     else case round_mag \<bar>m\<bar> e of (a, x) \<Rightarrow>
       if x > 971 then (if m > 0 then PInf else NInf) else Fin (sgn m * a) x)"

fun f_neg :: "float64 \<Rightarrow> float64" where
  "f_neg NaN = NaN"
| "f_neg PInf = NInf"
| "f_neg NInf = PInf"
| "f_neg (Fin m e) = Fin (- m) e"

fun f_abs :: "float64 \<Rightarrow> float64" where
  "f_abs NaN = NaN"
| "f_abs PInf = PInf"
| "f_abs NInf = PInf"
| "f_abs (Fin m e) = Fin \<bar>m\<bar> e"

fun f_add :: "float64 \<Rightarrow> float64 \<Rightarrow> float64" where
  "f_add NaN _ = NaN"
| "f_add _ NaN = NaN"
| "f_add PInf y = (if y = NInf then NaN else PInf)"
| "f_add NInf y = (if y = PInf then NaN else NInf)"
| "f_add (Fin m e) PInf = PInf"
| "f_add (Fin m e) NInf = NInf"
| "f_add (Fin m e) (Fin n x) =
     (if m = 0 \<and> n = 0 then f_zero else if m = 0 then Fin n x else if n = 0 then Fin m e
      else let k = min e x in f_round (m * 2 ^ nat (e - k) + n * 2 ^ nat (x - k)) k)"

definition f_sub :: "float64 \<Rightarrow> float64 \<Rightarrow> float64" where
  "f_sub x y = f_add x (f_neg y)"

fun f_pos :: "float64 \<Rightarrow> bool" where
  "f_pos NaN = False"
| "f_pos PInf = True"
| "f_pos NInf = False"
| "f_pos (Fin m e) = (m > 0)"

fun f_is_zero :: "float64 \<Rightarrow> bool" where
  "f_is_zero (Fin m e) = (m = 0)"
| "f_is_zero _ = False"

fun f_mul :: "float64 \<Rightarrow> float64 \<Rightarrow> float64" where
  "f_mul NaN _ = NaN"
| "f_mul _ NaN = NaN"
| "f_mul (Fin m e) (Fin n x) = f_round (m * n) (e + x)"
| "f_mul x y = (if f_is_zero x \<or> f_is_zero y then NaN else if f_pos x = f_pos y then PInf else NInf)"

text \<open>The quotient of two integers scaled by \<open>2 ^ x\<close>: at least 55 bits and a sticky bit, then rounded.\<close>

definition f_quot :: "int \<Rightarrow> int \<Rightarrow> int \<Rightarrow> float64" where
  "f_quot n d x = (let s = max 0 (56 + bit_length \<bar>d\<bar> - bit_length \<bar>n\<bar>);
      a = \<bar>n\<bar> * 2 ^ nat s; q = a div \<bar>d\<bar>;
      m = 2 * q + (if a mod \<bar>d\<bar> = 0 then 0 else 1)
    in f_round (sgn n * sgn d * m) (x - s - 1))"

fun f_div :: "float64 \<Rightarrow> float64 \<Rightarrow> float64" where
  "f_div NaN _ = NaN"
| "f_div _ NaN = NaN"
| "f_div (Fin m e) (Fin n x) =
     (if n = 0 then (if m = 0 then NaN else if m > 0 then PInf else NInf)
      else f_quot m n (e - x))"
| "f_div (Fin m e) _ = f_zero"
| "f_div x (Fin n y) = (if f_pos x = (n \<ge> 0) then PInf else NInf)"
| "f_div _ _ = NaN"

fun f_lt :: "float64 \<Rightarrow> float64 \<Rightarrow> bool" where
  "f_lt (Fin m e) (Fin n x) = (let k = min e x in m * 2 ^ nat (e - k) < n * 2 ^ nat (x - k))"
| "f_lt (Fin m e) PInf = True"
| "f_lt NInf PInf = True"
| "f_lt NInf (Fin n x) = True"
| "f_lt _ _ = False"

definition f_gt :: "float64 \<Rightarrow> float64 \<Rightarrow> bool" where
  "f_gt x y = f_lt y x"

definition f_ge :: "float64 \<Rightarrow> float64 \<Rightarrow> bool" where
  "f_ge x y \<longleftrightarrow> x \<noteq> NaN \<and> y \<noteq> NaN \<and> \<not> f_lt x y"

definition f_le :: "float64 \<Rightarrow> float64 \<Rightarrow> bool" where
  "f_le x y = f_ge y x"

text \<open>A decimal literal \<open>n / d\<close> of the source, and the conversion \<^verbatim>\<open>float64(i)\<close> of an integer.\<close>

definition f_lit :: "int \<Rightarrow> int \<Rightarrow> float64" where
  "f_lit n d = f_quot n d 0"

definition f_of_int :: "int \<Rightarrow> float64" where
  "f_of_int i = f_round i 0"

text \<open>The verb \<^verbatim>\<open>%.3f\<close>: the exact value rounded to thousandths, ties to even.\<close>

definition thousandths :: "int \<Rightarrow> int \<Rightarrow> nat" where
  "thousandths m e = nat (if e \<ge> 0 then \<bar>m\<bar> * 1000 * 2 ^ nat e else half_even (\<bar>m\<bar> * 1000) (nat (- e)))"

fun fmt_3f :: "float64 \<Rightarrow> string" where
  "fmt_3f NaN = ''NaN''"
| "fmt_3f PInf = ''+Inf''"
| "fmt_3f NInf = ''-Inf''"
| "fmt_3f (Fin m e) = (let k = thousandths m e in
     (if m < 0 then ''-'' else []) @ dec_nat (k div 1000) @ ''.'' @ pad_digits 3 (k mod 1000))"

text \<open>Evaluation of closed terms: the equations of \<open>bit_length\<close> for literals only.\<close>

lemma bit_length_eval:
  "bit_length 0 = 0"
  "bit_length 1 = 1"
  "bit_length (numeral n) = 1 + bit_length (numeral n div 2)"
  by (simp_all add: bit_length.simps)

lemmas f_eval = f_lit_def f_of_int_def f_quot_def f_round_def round_mag_def half_even_def
  f_zero_def f_sub_def f_gt_def f_ge_def f_le_def bit_length_eval

section \<open>Order laws\<close>

definition f_val :: "float64 \<Rightarrow> rat" where
  "f_val x = (case x of Fin m e \<Rightarrow> of_int m * 2 powi e | _ \<Rightarrow> 0)"

lemma scaled_val:
  assumes "k \<le> e"
  shows "(of_int (m * 2 ^ nat (e - k)) :: rat) = of_int m * 2 powi e / 2 powi k"
proof -
  have "(2 :: rat) powi (e - k) = 2 ^ nat (e - k)"
    using assms by (simp add: power_int_def)
  then have "(2 :: rat) ^ nat (e - k) = 2 powi e / 2 powi k"
    by (simp add: power_int_diff)
  then show ?thesis by simp
qed

lemma f_lt_val: "f_lt (Fin m e) (Fin n x) \<longleftrightarrow> f_val (Fin m e) < f_val (Fin n x)"
proof -
  let ?k = "min e x"
  have "f_lt (Fin m e) (Fin n x) \<longleftrightarrow>
      (of_int (m * 2 ^ nat (e - ?k)) :: rat) < of_int (n * 2 ^ nat (x - ?k))"
    unfolding of_int_less_iff by (simp add: Let_def)
  also have "\<dots> \<longleftrightarrow> of_int m * 2 powi e / 2 powi ?k < (of_int n * 2 powi x / 2 powi ?k :: rat)"
    by (simp only: scaled_val min.cobounded1 min.cobounded2)
  also have "\<dots> \<longleftrightarrow> (of_int m * 2 powi e :: rat) < of_int n * 2 powi x"
    using zero_less_power_int [of "2 :: rat" ?k]
    by (simp add: divide_less_cancel less_not_sym)
  finally show ?thesis by (simp add: f_val_def)
qed

lemma f_lt_irrefl [simp]: "\<not> f_lt x x"
  by (cases x) (simp_all add: f_lt_val del: f_lt.simps(1))

lemma f_lt_trans: "f_lt x y \<Longrightarrow> f_lt y z \<Longrightarrow> f_lt x z"
  by (cases x; cases y; cases z) (auto simp: f_lt_val simp del: f_lt.simps(1))

lemma f_ge_refl [simp]: "f_ge x x \<longleftrightarrow> x \<noteq> NaN"
  by (simp add: f_ge_def)

lemma f_ge_cases: "x \<noteq> NaN \<Longrightarrow> y \<noteq> NaN \<Longrightarrow> f_ge x y \<or> f_lt x y"
  by (simp add: f_ge_def)

lemma f_lt_not_nan: "f_lt x y \<Longrightarrow> x \<noteq> NaN \<and> y \<noteq> NaN"
  by (cases x; cases y) auto

section \<open>Differences\<close>

lemma f_round_neg: "f_round (- m) e = f_neg (f_round m e)"
  by (auto simp: f_round_def f_zero_def sgn_if split: prod.splits)

lemma f_abs_neg: "f_abs (f_neg x) = f_abs x"
  by (cases x) auto

lemma f_sub_swap: "f_sub y x = f_neg (f_sub x y)"
proof (cases "\<exists>m e n z. x = Fin m e \<and> y = Fin n z")
  case True
  then obtain m e n z where xy: "x = Fin m e" "y = Fin n z" by blast
  have "n * 2 ^ nat (z - min z e) + (- m) * 2 ^ nat (e - min z e)
      = - (m * 2 ^ nat (e - min e z) + (- n) * 2 ^ nat (z - min e z))"
    by (simp add: min.commute)
  then have "f_round (n * 2 ^ nat (z - min z e) + (- m) * 2 ^ nat (e - min z e)) (min z e)
      = f_neg (f_round (m * 2 ^ nat (e - min e z) + (- n) * 2 ^ nat (z - min e z)) (min e z))"
    by (simp only: f_round_neg [symmetric] min.commute [of z e])
  then show ?thesis
    by (cases "m = 0"; cases "n = 0") (simp_all add: xy f_sub_def f_zero_def Let_def)
next
  case False
  then show ?thesis
    by (cases x; cases y) (auto simp: f_sub_def)
qed

lemma f_abs_sub_commute: "f_abs (f_sub x y) = f_abs (f_sub y x)"
  by (metis f_sub_swap f_abs_neg)

lemma f_sub_self: "f_sub (Fin m e) (Fin m e) = f_zero"
  by (simp add: f_sub_def f_round_def)

end
