(* ===== verification/Workgraph.thy ===== *)
theory Workgraph
  imports Go_Float
begin

text \<open>
  The durable Work primitive and its state machine: package \<^verbatim>\<open>packages/workgraph\<close>
  (\<^verbatim>\<open>workgraph.go\<close>, \<^verbatim>\<open>evidence_hash.go\<close>). States and lease statuses are the string constants of the
  source plus one constructor for any other string a caller or a database row may hold. The budget
  ledger of the same file is in \<open>Budget_Ledger\<close>.
\<close>

section \<open>States and transitions\<close>

datatype State =
    StateCreated | StatePlanning | StateQueued | StateRunning | StateVerifying | StateSucceeded
  | StateBlocked | StateFailed | StateCancelled
  | StateWaitingHuman | StateSuspended | StateBudgetExhausted
  | StateOther string

fun IsTerminal :: "State \<Rightarrow> bool" where
  "IsTerminal StateSucceeded = True"
| "IsTerminal StateFailed = True"
| "IsTerminal StateCancelled = True"
| "IsTerminal _ = False"

text \<open>The table \<^verbatim>\<open>validTransitions\<close>: the targets listed for a state, \<open>None\<close> where it has no entry.\<close>

fun validTransitions :: "State \<Rightarrow> State list option" where
  "validTransitions StateCreated =
     Some [StatePlanning, StateQueued, StateCancelled, StateFailed, StateBlocked]"
| "validTransitions StatePlanning = Some [StateQueued, StateFailed, StateBlocked, StateCancelled]"
| "validTransitions StateQueued = Some [StateRunning, StateCancelled, StateFailed, StateBlocked]"
| "validTransitions StateRunning =
     Some [StateVerifying, StateFailed, StateCancelled, StateWaitingHuman, StateSuspended,
           StateBudgetExhausted]"
| "validTransitions StateVerifying =
     Some [StateSucceeded, StateFailed, StateCancelled, StateWaitingHuman, StateSuspended]"
| "validTransitions StateWaitingHuman =
     Some [StateRunning, StateFailed, StateBlocked, StateCancelled]"
| "validTransitions StateSuspended =
     Some [StateRunning, StateWaitingHuman, StateFailed, StateBlocked, StateCancelled]"
| "validTransitions StateBudgetExhausted = Some [StateSuspended, StateFailed, StateCancelled]"
| "validTransitions _ = None"

definition missionOnlyStates :: "State \<Rightarrow> bool" where
  "missionOnlyStates s \<longleftrightarrow> s \<in> {StateWaitingHuman, StateSuspended, StateBudgetExhausted}"

definition CanTransition :: "State \<Rightarrow> State \<Rightarrow> bool" where
  "CanTransition from to =
     (if IsTerminal from then False
      else if to = StateCancelled then True
      else case validTransitions from of None \<Rightarrow> False | Some allowed \<Rightarrow> to \<in> set allowed)"

section \<open>The Work and its parts\<close>

record RetrySpec =
  MaxAttempts :: int
  Backoff :: string
  RetryOn :: "string list"

record CacheSpec =
  Enabled :: bool
  KeyInputs :: "string list"
  Scope :: string

record EvidenceSpec =
  Required :: bool
  Types :: "string list"

record Node =
  node_ID :: string
  Run :: string
  Needs :: "string list"
  Cache :: bool
  node_Evidence :: EvidenceSpec
  Env :: "string gomap"
  TimeoutS :: int
  RuntimeImage :: string
  Permissions :: "string list"
  SideEffects :: "string list"
  Retries :: "RetrySpec option"
  node_CacheSpec :: "CacheSpec option"

record Source =
  src_Type :: string
  Repository :: string
  Revision :: string
  Ref :: string
  Actor :: string
  Branch :: string
  SHA :: string
  HTMLURL :: string
  CloneURL :: string
  PRNumber :: int
  PRAction :: string
  PRHead :: string
  PRBase :: string

text \<open>An \<^verbatim>\<open>any\<close> that holds decoded JSON.\<close>

datatype json = JNull | JBool bool | JNum float64 | JStr string | JArr "json list"
  | JObj "(string \<times> json) list"

record Objective =
  obj_Type :: string
  Description :: string
  Constraints :: "json gomap"

record Requirements =
  OS :: string
  Arch :: string
  CPUMilli :: int
  MemoryMiB :: int
  Confidence :: string
  MaxCostUSD :: float64
  Pool :: string

record Policy =
  ProductionAccess :: bool
  SecretsScope :: "string list"
  ForkPolicy :: string
  TrustClass :: string

record Attempt =
  att_ID :: string
  att_NodeID :: string
  att_WorkerID :: string
  StartedAt :: time
  FinishedAt :: time
  ExitCode :: int
  att_Status :: string
  LogRef :: string
  ArtifactIDs :: "string list"
  att_Error :: string

record Artifact =
  art_ID :: string
  MimeType :: string
  Size :: int
  art_NodeID :: string
  Path :: string

record Evidence =
  ev_ID :: string
  ev_NodeID :: string
  ev_AttemptID :: string
  ev_Type :: string
  Result :: string
  RecordedAt :: time
  ev_ArtifactID :: string
  Signer :: string
  Environment :: string
  Details :: "json gomap option"
  Hash :: string

record BudgetCeiling =
  ComputeEUR :: float64
  WallClockH :: float64

record VerificationCriterion =
  Criterion :: string
  crit_Kind :: string

record MissionContract =
  mc_BudgetCeiling :: "BudgetCeiling option"
  Verification :: "VerificationCriterion list"
  PurposeBindings :: "string list"
  KillSwitch :: string

record Work =
  work_ID :: string
  CreatedAt :: time
  UpdatedAt :: time
  work_Source :: Source
  work_Objective :: Objective
  Graph :: "Node gomap"
  work_Requirements :: Requirements
  work_Policy :: Policy
  work_State :: State
  Attempts :: "Attempt list"
  Artifacts :: "Artifact list"
  work_Evidence :: "Evidence list"
  IdempotencyKey :: string
  CorrelationID :: string
  CreationIntentHash :: string
  AdmissionDefaultsJSON :: string
  QueueRequested :: "bool option"
  Mission :: "MissionContract option"

section \<open>Leases and handoffs\<close>

datatype LeaseStatus = LeaseActive | LeaseExpired | LeaseRevoked | LeaseReleased | LeaseOther string

fun LeaseIsTerminal :: "LeaseStatus \<Rightarrow> bool" where
  "LeaseIsTerminal LeaseExpired = True"
| "LeaseIsTerminal LeaseRevoked = True"
| "LeaseIsTerminal LeaseReleased = True"
| "LeaseIsTerminal _ = False"

record Lease =
  lease_ID :: string
  lease_WorkID :: string
  lease_NodeID :: string
  lease_WorkerID :: string
  lease_AttemptID :: string
  GrantedAt :: time
  ExpiresAt :: time
  LastBeatAt :: time
  lease_Status :: LeaseStatus

definition ValidateLeaseTransition :: "LeaseStatus \<Rightarrow> LeaseStatus \<Rightarrow> bool" where
  "ValidateLeaseTransition from to =
     (if from = to then False
      else if LeaseIsTerminal from then False
      else to \<in> {LeaseExpired, LeaseRevoked, LeaseReleased})"

record Handoff =
  StateSnapshot :: "json gomap option"
  Narrative :: string
  DecisionLog :: "string list"
  PriorityQueue :: "string list"
  Warnings :: "string list"
  PayloadSchema :: string

definition HandoffVersion :: string where
  "HandoffVersion = ''handoff/1.0''"

section \<open>Errors of the package\<close>

datatype work_error =
    WorkIDRequired
  | ObjectiveTypeRequired
  | NodesRequired
  | NodeRunRequired string
  | NodeNeedsUndeclared string string
  | StateRequiresMission string State
  | CeilingUnset
  | CeilingNegative
  | VerificationRequired
  | CriterionRequired nat
  | UnknownKind nat string
  | BadKillSwitch
  | ErrInvalidTransition State State
  | TransitionRequiresMission State State
  | SuspendTargetInvalid State
  | HandoffRequired
  | SnapshotRequired
  | NarrativeRequired
  | SchemaUnsupported string

text \<open>
  \<^verbatim>\<open>ValidateHandoff\<close> fills an empty payload schema in place, so on success it returns the
  handoff as the caller sees it afterwards. A nil pointer is \<open>None\<close>.
\<close>

definition ValidateHandoff :: "Handoff option \<Rightarrow> work_error + Handoff" where
  "ValidateHandoff ho = (case ho of None \<Rightarrow> Inl HandoffRequired
    | Some h \<Rightarrow>
       if StateSnapshot h = None then Inl SnapshotRequired
       else if TrimSpace (Narrative h) = [] then Inl NarrativeRequired
       else let h' = (if PayloadSchema h = [] then h\<lparr>PayloadSchema := HandoffVersion\<rparr> else h) in
         if PayloadSchema h' \<noteq> HandoffVersion then Inl (SchemaUnsupported (PayloadSchema h'))
         else Inr h')"

section \<open>Operations of the Work\<close>

definition IsMission :: "Work \<Rightarrow> bool" where
  "IsMission w = (case Mission w of None \<Rightarrow> False | Some m \<Rightarrow> mc_BudgetCeiling m \<noteq> None)"

text \<open>The loop over \<^verbatim>\<open>n.Needs\<close>: the first dependency that is not a declared node.\<close>

fun check_needs :: "Node gomap \<Rightarrow> string \<Rightarrow> string list \<Rightarrow> work_error option" where
  "check_needs g nid [] = None"
| "check_needs g nid (dep # deps) =
     (if map_of g dep = None then Some (NodeNeedsUndeclared nid dep) else check_needs g nid deps)"

text \<open>The loop over the nodes, in the order the map is visited.\<close>

fun check_nodes :: "Node gomap \<Rightarrow> Node gomap \<Rightarrow> work_error option" where
  "check_nodes g [] = None"
| "check_nodes g ((nid, n) # rest) =
     (if Run n = [] then Some (NodeRunRequired nid)
      else case check_needs g nid (Needs n) of Some e \<Rightarrow> Some e | None \<Rightarrow> check_nodes g rest)"

definition Validate :: "Work \<Rightarrow> work_error option" where
  "Validate w =
     (if work_ID w = [] then Some WorkIDRequired
      else if obj_Type (work_Objective w) = [] then Some ObjectiveTypeRequired
      else if Graph w = [] then Some NodesRequired
      else check_nodes (Graph w) (Graph w))"

text \<open>The loop over the verification criteria, \<open>i\<close> the index of the current one.\<close>

fun check_criteria :: "nat \<Rightarrow> VerificationCriterion list \<Rightarrow> work_error option" where
  "check_criteria i [] = None"
| "check_criteria i (v # vs) =
     (if Criterion v = [] then Some (CriterionRequired i)
      else if crit_Kind v \<in> {[], ''deterministic'', ''human_review''} then check_criteria (Suc i) vs
      else Some (UnknownKind i (crit_Kind v)))"

definition ValidateMissionWork :: "Work \<Rightarrow> work_error option" where
  "ValidateMissionWork w =
     (if \<not> IsMission w then
        (if missionOnlyStates (work_State w) then Some (StateRequiresMission (work_ID w) (work_State w))
         else None)
      else case Mission w of None \<Rightarrow> None
      | Some m \<Rightarrow> (case mc_BudgetCeiling m of None \<Rightarrow> None
        | Some c \<Rightarrow>
          if f_le (ComputeEUR c) f_zero \<and> f_le (WallClockH c) f_zero then Some CeilingUnset
          else if f_lt (ComputeEUR c) f_zero \<or> f_lt (WallClockH c) f_zero then Some CeilingNegative
          else if Verification m = [] then Some VerificationRequired
          else case check_criteria 0 (Verification m) of Some e \<Rightarrow> Some e
            | None \<Rightarrow> if KillSwitch m \<in> {''always'', ''policy''} then None else Some BadKillSwitch))"

definition ValidateTransition :: "Work \<Rightarrow> State \<Rightarrow> work_error option" where
  "ValidateTransition w to =
     (if \<not> CanTransition (work_State w) to then Some (ErrInvalidTransition (work_State w) to)
      else if missionOnlyStates to \<and> \<not> IsMission w
        then Some (TransitionRequiresMission (work_State w) to)
      else None)"

definition SuspendFields :: "Work \<Rightarrow> State \<Rightarrow> work_error option" where
  "SuspendFields w to =
     (if to \<noteq> StateWaitingHuman \<and> to \<noteq> StateSuspended then Some (SuspendTargetInvalid to)
      else ValidateTransition w to)"

text \<open>The two sets \<^verbatim>\<open>ReadyNodes\<close> builds from the attempts, and the loop over the nodes.\<close>

definition succeeded_nodes :: "Attempt list \<Rightarrow> string set" where
  "succeeded_nodes as = att_NodeID ` set (filter (\<lambda>a. att_Status a = ''succeeded'') as)"

definition in_flight_nodes :: "Attempt list \<Rightarrow> string set" where
  "in_flight_nodes as = att_NodeID ` set (filter (\<lambda>a. att_Status a = ''running'') as)"

definition node_ready :: "Attempt list \<Rightarrow> bool gomap \<Rightarrow> string \<Rightarrow> Node \<Rightarrow> bool" where
  "node_ready as active nid n =
     (if nid \<in> succeeded_nodes as \<or> nid \<in> in_flight_nodes as then False
      else if go_true active nid then False
      else list_all (\<lambda>dep. dep \<in> succeeded_nodes as) (Needs n))"

definition ReadyNodes :: "Work \<Rightarrow> bool gomap \<Rightarrow> string list" where
  "ReadyNodes w active =
     (if work_State w \<noteq> StateQueued \<and> work_State w \<noteq> StateRunning then []
      else map fst (filter (\<lambda>(nid, n). node_ready (Attempts w) active nid n) (Graph w)))"

definition ReadyNodesNoLeases :: "Work \<Rightarrow> string list" where
  "ReadyNodesNoLeases w = ReadyNodes w []"

text \<open>\<^verbatim>\<open>NewID\<close> with the 16 bytes \<^verbatim>\<open>crypto/rand\<close> delivered as an argument.\<close>

definition NewID :: "string \<Rightarrow> nat list \<Rightarrow> string" where
  "NewID prefix bytes = prefix @ ''_'' @ concat (map hex_byte bytes)"

section \<open>Evidence sealing\<close>

text \<open>
  \<open>sha\<close> is the hex SHA-256 of a byte string and \<open>fmt\<close> the rendering of a timestamp with nine
  fraction digits; both are parameters.
\<close>

definition RecomputedHash :: "(string \<Rightarrow> string) \<Rightarrow> (time \<Rightarrow> string) \<Rightarrow> Evidence \<Rightarrow> string" where
  "RecomputedHash sha fmt e = sha (Join
     [ev_ID e, ev_NodeID e, ev_AttemptID e, ev_Type e, Result e, fmt (RecordedAt e),
      ev_ArtifactID e, Signer e, Environment e] ''|'')"

definition Seal :: "(string \<Rightarrow> string) \<Rightarrow> (time \<Rightarrow> string) \<Rightarrow> Evidence \<Rightarrow> Evidence" where
  "Seal sha fmt e = e\<lparr>Hash := RecomputedHash sha fmt e\<rparr>"

definition HashValid :: "(string \<Rightarrow> string) \<Rightarrow> (time \<Rightarrow> string) \<Rightarrow> Evidence \<Rightarrow> bool \<times> bool" where
  "HashValid sha fmt e =
     (if Hash e = [] then (False, True) else (Hash e = RecomputedHash sha fmt e, False))"

definition VerifyEvidence :: "(string \<Rightarrow> string) \<Rightarrow> (time \<Rightarrow> string) \<Rightarrow> Evidence \<Rightarrow> string" where
  "VerifyEvidence sha fmt e = (case HashValid sha fmt e of (valid, unsealed) \<Rightarrow>
     if unsealed then ''unsealed'' else if valid then ''ok'' else ''tampered'')"

text \<open>The fields the seal covers, as the list that is joined and hashed.\<close>

definition sealed_fields :: "(time \<Rightarrow> string) \<Rightarrow> Evidence \<Rightarrow> string list" where
  "sealed_fields fmt e =
     [ev_ID e, ev_NodeID e, ev_AttemptID e, ev_Type e, Result e, fmt (RecordedAt e),
      ev_ArtifactID e, Signer e, Environment e]"

text \<open>The zero values of the structs, used to write concrete inputs.\<close>

definition zero_Node :: Node where
  "zero_Node = \<lparr>node_ID = [], Run = [], Needs = [], Cache = False,
     node_Evidence = \<lparr>Required = False, Types = []\<rparr>, Env = [], TimeoutS = 0, RuntimeImage = [],
     Permissions = [], SideEffects = [], Retries = None, node_CacheSpec = None\<rparr>"

definition zero_Work :: Work where
  "zero_Work = \<lparr>work_ID = [], CreatedAt = 0, UpdatedAt = 0,
     work_Source = \<lparr>src_Type = [], Repository = [], Revision = [], Ref = [], Actor = [], Branch = [],
       SHA = [], HTMLURL = [], CloneURL = [], PRNumber = 0, PRAction = [], PRHead = [], PRBase = []\<rparr>,
     work_Objective = \<lparr>obj_Type = [], Description = [], Constraints = []\<rparr>, Graph = [],
     work_Requirements = \<lparr>OS = [], Arch = [], CPUMilli = 0, MemoryMiB = 0, Confidence = [],
       MaxCostUSD = f_zero, Pool = []\<rparr>,
     work_Policy = \<lparr>ProductionAccess = False, SecretsScope = [], ForkPolicy = [], TrustClass = []\<rparr>,
     work_State = StateOther [], Attempts = [], Artifacts = [], work_Evidence = [],
     IdempotencyKey = [], CorrelationID = [], CreationIntentHash = [], AdmissionDefaultsJSON = [],
     QueueRequested = None, Mission = None\<rparr>"

definition zero_Evidence :: Evidence where
  "zero_Evidence = \<lparr>ev_ID = [], ev_NodeID = [], ev_AttemptID = [], ev_Type = [], Result = [],
     RecordedAt = 0, ev_ArtifactID = [], Signer = [], Environment = [], Details = None, Hash = []\<rparr>"

definition zero_Attempt :: Attempt where
  "zero_Attempt = \<lparr>att_ID = [], att_NodeID = [], att_WorkerID = [], StartedAt = 0, FinishedAt = 0,
     ExitCode = 0, att_Status = [], LogRef = [], ArtifactIDs = [], att_Error = []\<rparr>"

section \<open>The state machine\<close>

interpretation work_states: transition_law CanTransition IsTerminal
  by unfold_locales (simp add: CanTransition_def)

interpretation lease_states: transition_law ValidateLeaseTransition LeaseIsTerminal
  by unfold_locales (simp add: ValidateLeaseTransition_def)

lemma CanTransition_cases:
  "CanTransition s t \<Longrightarrow>
    \<not> IsTerminal s \<and> (t = StateCancelled \<or> (\<exists>ts. validTransitions s = Some ts \<and> t \<in> set ts))"
  by (auto simp: CanTransition_def split: if_splits option.splits)

lemma lease_only_from_active:
  "ValidateLeaseTransition s t \<Longrightarrow> LeaseIsTerminal t \<and> \<not> LeaseIsTerminal s"
  by (auto simp: ValidateLeaseTransition_def split: if_splits)

text \<open>
  A path that starts inside \<open>S\<close> and avoids \<open>b\<close> stays inside \<open>S\<close>, when every step out of \<open>S\<close> goes to \<open>b\<close>.
\<close>

lemma successively_confined:
  assumes "successively R (x # p)" and "x \<in> S" and "b \<notin> set p"
    and "\<And>s t. s \<in> S \<Longrightarrow> R s t \<Longrightarrow> t \<noteq> b \<Longrightarrow> t \<in> S"
  shows "set p \<subseteq> S"
  using assms
proof (induction p arbitrary: x)
  case Nil
  then show ?case by simp
next
  case (Cons y p)
  then have "y \<in> S" by (auto simp: successively_Cons)
  moreover have "set p \<subseteq> S"
    by (rule Cons.IH [OF _ \<open>y \<in> S\<close>]) (use Cons.prems in \<open>auto simp: successively_Cons\<close>)
  ultimately show ?case by simp
qed

lemma path_needs:
  assumes "successively CanTransition (StateCreated # p)" and "StateSucceeded \<in> set p"
    and "StateCreated \<in> S" and "StateSucceeded \<notin> S"
    and "\<And>s t. s \<in> S \<Longrightarrow> CanTransition s t \<Longrightarrow> t \<noteq> b \<Longrightarrow> t \<in> S"
  shows "b \<in> set p"
  using successively_confined [of CanTransition StateCreated p S b] assms by blast

lemma path_needs_queued:
  assumes "successively CanTransition (StateCreated # p)" and "StateSucceeded \<in> set p"
  shows "StateQueued \<in> set p"
proof (rule path_needs [OF assms, where S = "{StateCreated, StatePlanning, StateFailed,
      StateBlocked, StateCancelled}"])
  fix s t
  assume "s \<in> {StateCreated, StatePlanning, StateFailed, StateBlocked, StateCancelled}"
    "CanTransition s t" "t \<noteq> StateQueued"
  then show "t \<in> {StateCreated, StatePlanning, StateFailed, StateBlocked, StateCancelled}"
    by (auto dest!: CanTransition_cases)
qed auto

lemma path_needs_running:
  assumes "successively CanTransition (StateCreated # p)" and "StateSucceeded \<in> set p"
  shows "StateRunning \<in> set p"
proof (rule path_needs [OF assms, where S = "{StateCreated, StatePlanning, StateQueued,
      StateFailed, StateBlocked, StateCancelled}"])
  fix s t
  assume "s \<in> {StateCreated, StatePlanning, StateQueued, StateFailed, StateBlocked, StateCancelled}"
    "CanTransition s t" "t \<noteq> StateRunning"
  then show "t \<in> {StateCreated, StatePlanning, StateQueued, StateFailed, StateBlocked, StateCancelled}"
    by (auto dest!: CanTransition_cases)
qed auto

lemma path_needs_verifying:
  assumes "successively CanTransition (StateCreated # p)" and "StateSucceeded \<in> set p"
  shows "StateVerifying \<in> set p"
proof (rule path_needs [OF assms, where S = "- {StateVerifying, StateSucceeded}"])
  fix s t
  assume s: "s \<in> - {StateVerifying, StateSucceeded}" and "CanTransition s t" "t \<noteq> StateVerifying"
  then show "t \<in> - {StateVerifying, StateSucceeded}"
    by (cases s) (auto dest!: CanTransition_cases)
qed auto

section \<open>Validation and readiness\<close>

lemma check_needs_None: "check_needs g nid deps = None \<longleftrightarrow> set deps \<subseteq> dom (map_of g)"
  by (induction deps) (auto simp: domIff)

lemma check_nodes_Cons_None:
  "check_nodes g ((nid, n) # rest) = None \<longleftrightarrow>
     Run n \<noteq> [] \<and> set (Needs n) \<subseteq> dom (map_of g) \<and> check_nodes g rest = None"
  unfolding check_needs_None [of g nid, symmetric] by (auto split: option.splits)

lemma check_nodes_None:
  "check_nodes g ns = None \<longleftrightarrow>
     (\<forall>(nid, n) \<in> set ns. Run n \<noteq> [] \<and> set (Needs n) \<subseteq> dom (map_of g))"
  by (induction ns) (auto simp: check_nodes_Cons_None simp del: check_nodes.simps(2))

lemma Validate_None:
  "Validate w = None \<longleftrightarrow> work_ID w \<noteq> [] \<and> obj_Type (work_Objective w) \<noteq> [] \<and> Graph w \<noteq> [] \<and>
     (\<forall>(nid, n) \<in> set (Graph w). Run n \<noteq> [] \<and> set (Needs n) \<subseteq> set (keys (Graph w)))"
  by (simp add: Validate_def check_nodes_None dom_map_of_conv_image_fst)

lemma ReadyNodes_iff:
  assumes "wf_map (Graph w)"
  shows "nid \<in> set (ReadyNodes w active) \<longleftrightarrow>
    (work_State w = StateQueued \<or> work_State w = StateRunning) \<and>
    (\<exists>n. map_of (Graph w) nid = Some n \<and> node_ready (Attempts w) active nid n)"
  using assms by (force simp: ReadyNodes_def wf_map_def)

lemma node_ready_iff:
  "node_ready as active nid n \<longleftrightarrow>
     nid \<notin> succeeded_nodes as \<and> nid \<notin> in_flight_nodes as \<and> \<not> go_true active nid \<and>
     set (Needs n) \<subseteq> succeeded_nodes as"
  by (auto simp: node_ready_def list_all_iff)

text \<open>No shortcut to success: every path of the state machine from CREATED to SUCCEEDED goes
  through QUEUED, RUNNING and VERIFYING.\<close>

theorem succeeded_only_after_queue_run_verify:
  assumes "successively CanTransition (StateCreated # p)" and "StateSucceeded \<in> set p"
  shows "{StateQueued, StateRunning, StateVerifying} \<subseteq> set p"
  using path_needs_queued [OF assms] path_needs_running [OF assms] path_needs_verifying [OF assms]
  by simp

theorem succeeded_only_after_queue_run_verify_witness:
  "successively CanTransition [StateCreated, StateQueued, StateRunning, StateVerifying, StateSucceeded]
   \<and> {StateQueued, StateRunning, StateVerifying}
       \<subseteq> set [StateQueued, StateRunning, StateVerifying, StateSucceeded]"
proof -
  have path: "successively CanTransition
      (StateCreated # [StateQueued, StateRunning, StateVerifying, StateSucceeded])"
    by (simp add: CanTransition_def)
  then show ?thesis
    using succeeded_only_after_queue_run_verify [OF path] by simp
qed

text \<open>C3. Progress of the scheduler's input: a valid Work in QUEUED or RUNNING whose dependency
  relation has no cycle (it is ranked), with nothing in flight and no active lease, offers a ready
  node as long as some node has not succeeded.\<close>

theorem ReadyNodes_progress:
  assumes "Validate w = None" and wf: "wf_map (Graph w)"
    and state: "work_State w = StateQueued \<or> work_State w = StateRunning"
    and ranked: "\<And>nid n dep. map_of (Graph w) nid = Some n \<Longrightarrow> dep \<in> set (Needs n) \<Longrightarrow>
                   rank dep < (rank nid :: nat)"
    and idle: "in_flight_nodes (Attempts w) = {}" and free: "\<And>nid. \<not> go_true active nid"
    and left: "\<exists>nid \<in> set (keys (Graph w)). nid \<notin> succeeded_nodes (Attempts w)"
  shows "ReadyNodes w active \<noteq> []"
proof -
  let ?open = "\<lambda>nid. nid \<in> set (keys (Graph w)) \<and> nid \<notin> succeeded_nodes (Attempts w)"
  obtain nid where nid: "?open nid" and least: "\<And>m. ?open m \<Longrightarrow> rank nid \<le> rank m"
    using left ex_has_least_nat [of ?open _ rank] by blast
  obtain n where n: "map_of (Graph w) nid = Some n"
    using nid wf by (auto simp: wf_map_def)
  have "set (Needs n) \<subseteq> set (keys (Graph w))"
    using \<open>Validate w = None\<close> map_of_SomeD [OF n] by (auto simp: Validate_None)
  moreover have "\<not> ?open dep" if "dep \<in> set (Needs n)" for dep
    using least [of dep] ranked [OF n that] by linarith
  ultimately have "set (Needs n) \<subseteq> succeeded_nodes (Attempts w)" by blast
  then have "nid \<in> set (ReadyNodes w active)"
    using nid n state idle free by (simp add: ReadyNodes_iff [OF wf] node_ready_iff)
  then show ?thesis by auto
qed

theorem ReadyNodes_progress_witness:
  "ReadyNodes (zero_Work\<lparr>work_ID := ''wrk'', work_Objective := \<lparr>obj_Type = ''build'', Description = [],
       Constraints = []\<rparr>, work_State := StateQueued,
       Graph := [(''test'', zero_Node\<lparr>Run := ''go test'', Needs := [''build'']\<rparr>),
                 (''build'', zero_Node\<lparr>Run := ''go build''\<rparr>)]\<rparr>) [] \<noteq> []"
  by (rule ReadyNodes_progress [where rank = "\<lambda>nid. if nid = ''test'' then 1 else 0"])
    (auto simp: zero_Work_def zero_Node_def Validate_None wf_map_def in_flight_nodes_def
      succeeded_nodes_def go_true_def split: if_splits)

text \<open>Validation accepts dependency cycles, and a node on a cycle never becomes ready: if every
  node of a non-empty set has a dependency inside the set and none of them has succeeded, no node of
  the set is offered. (The package calls the graph a DAG; \<^verbatim>\<open>Validate\<close> does not check it.)\<close>

theorem dependency_cycle_validates_but_starves:
  "Validate (zero_Work\<lparr>work_ID := ''wrk'', work_Objective := \<lparr>obj_Type = ''build'', Description = [],
       Constraints = []\<rparr>, Graph := [(''a'', zero_Node\<lparr>Run := ''x'', Needs := [''b'']\<rparr>),
                                     (''b'', zero_Node\<lparr>Run := ''y'', Needs := [''a'']\<rparr>)]\<rparr>) = None
   \<and> (\<forall>w active S. wf_map (Graph w) \<and> S \<inter> succeeded_nodes (Attempts w) = {} \<and>
        (\<forall>nid n. nid \<in> S \<longrightarrow> map_of (Graph w) nid = Some n \<longrightarrow> set (Needs n) \<inter> S \<noteq> {})
        \<longrightarrow> set (ReadyNodes w active) \<inter> S = {})"
proof (intro conjI allI impI, goal_cases)
  case 1
  show ?case by (simp add: zero_Work_def zero_Node_def Validate_None)
next
  case (2 w active S)
  have False if x: "x \<in> S" and "map_of (Graph w) x = Some n"
    and "set (Needs n) \<subseteq> succeeded_nodes (Attempts w)" for x n
    using 2 that by blast
  then show ?case using 2 by (auto simp: ReadyNodes_iff node_ready_iff)
qed

theorem dependency_cycle_validates_but_starves_witness:
  "set (ReadyNodes (zero_Work\<lparr>work_State := StateQueued, Graph := [(''a'', zero_Node\<lparr>Needs := [''a'']\<rparr>)]\<rparr>) [])
     \<inter> {''a''} = {}"
  using dependency_cycle_validates_but_starves
  by (auto simp: zero_Work_def zero_Node_def wf_map_def succeeded_nodes_def)

section \<open>Evidence sealing\<close>

lemma RecomputedHash_fields: "RecomputedHash sha fmt e = sha (Join (sealed_fields fmt e) ''|'')"
  by (simp add: RecomputedHash_def sealed_fields_def)

lemma RecomputedHash_ignores [simp]:
  "RecomputedHash sha fmt (e\<lparr>Hash := h\<rparr>) = RecomputedHash sha fmt e"
  "RecomputedHash sha fmt (e\<lparr>Details := d\<rparr>) = RecomputedHash sha fmt e"
  by (simp_all add: RecomputedHash_def)

text \<open>Sealing and verifying agree: a sealed record verifies as ok, also after its free-form
  details are replaced, for any hash function that never returns the empty string.\<close>

theorem sealed_evidence_verifies:
  assumes "\<And>x. sha x \<noteq> []"
  shows "VerifyEvidence sha fmt ((Seal sha fmt e)\<lparr>Details := d\<rparr>) = ''ok''"
  by (simp add: VerifyEvidence_def HashValid_def Seal_def, simp add: RecomputedHash_def assms)

theorem sealed_evidence_verifies_witness:
  "VerifyEvidence (\<lambda>x. CHR ''h'' # x) (\<lambda>_. ''t'') ((Seal (\<lambda>x. CHR ''h'' # x) (\<lambda>_. ''t'') zero_Evidence)
     \<lparr>Details := Some []\<rparr>) = ''ok''"
  by (rule sealed_evidence_verifies) simp

text \<open>Tamper detection: if a record carries the hash of a sealed one and still verifies as ok,
  and no sealed field of either contains the delimiter, then either no sealed field was changed or
  the two records exhibit a collision of the hash function.\<close>

theorem tampering_needs_collision:
  assumes ok: "VerifyEvidence sha fmt e' = ''ok''" and hash: "Hash e' = Hash (Seal sha fmt e)"
    and clean: "\<forall>f \<in> set (sealed_fields fmt e). CHR ''|'' \<notin> set f"
      "\<forall>f \<in> set (sealed_fields fmt e'). CHR ''|'' \<notin> set f"
  shows "sealed_fields fmt e' = sealed_fields fmt e \<or> (\<exists>x y. x \<noteq> y \<and> sha x = sha y)"
proof (rule disjCI)
  assume "\<not> (\<exists>x y. x \<noteq> y \<and> sha x = sha y)"
  then have inj: "\<And>x y. sha x = sha y \<Longrightarrow> x = y" by blast
  have "Hash e' = RecomputedHash sha fmt e'"
    using ok by (auto simp: VerifyEvidence_def HashValid_def split: if_splits)
  with hash have "sha (Join (sealed_fields fmt e') ''|'') = sha (Join (sealed_fields fmt e) ''|'')"
    by (simp add: Seal_def RecomputedHash_fields)
  then have joined: "Join (sealed_fields fmt e') ''|'' = Join (sealed_fields fmt e) ''|''"
    by (rule inj)
  show "sealed_fields fmt e' = sealed_fields fmt e"
    by (rule Join_inject [OF _ clean(2,1) joined]) (simp add: sealed_fields_def)
qed

theorem tampering_needs_collision_witness:
  "sealed_fields (\<lambda>_. ''t'') (Seal (\<lambda>x. CHR ''h'' # x) (\<lambda>_. ''t'') (zero_Evidence\<lparr>ev_ID := ''evd''\<rparr>))
     = sealed_fields (\<lambda>_. ''t'') (zero_Evidence\<lparr>ev_ID := ''evd''\<rparr>)
   \<or> (\<exists>x y. x \<noteq> y \<and> CHR ''h'' # x = CHR ''h'' # (y :: string))"
proof (rule tampering_needs_collision [where sha = "\<lambda>x. CHR ''h'' # x" and fmt = "\<lambda>_. ''t''"])
  let ?e = "zero_Evidence\<lparr>ev_ID := ''evd''\<rparr>"
  show "VerifyEvidence (\<lambda>x. CHR ''h'' # x) (\<lambda>_. ''t'') (Seal (\<lambda>x. CHR ''h'' # x) (\<lambda>_. ''t'') ?e) = ''ok''"
    by (simp add: VerifyEvidence_def HashValid_def Seal_def RecomputedHash_def)
qed (simp_all add: Seal_def sealed_fields_def zero_Evidence_def)

text \<open>The delimiter is not escaped: whatever the hash function, moving it across a field border
  yields a different record with the same hash, which verifies as ok under the seal of the first.\<close>

theorem delimiter_forgery_verifies:
  assumes "\<And>x. sha x \<noteq> []"
    and "e = (zero_Evidence\<lparr>ev_NodeID := ''a'', ev_AttemptID := ''b|c''\<rparr>)"
    and "e' = (zero_Evidence\<lparr>ev_NodeID := ''a|b'', ev_AttemptID := ''c''\<rparr>)"
  shows "sealed_fields fmt e' \<noteq> sealed_fields fmt e
    \<and> VerifyEvidence sha fmt (e'\<lparr>Hash := Hash (Seal sha fmt e)\<rparr>) = ''ok''"
  using assms by (simp add: sealed_fields_def VerifyEvidence_def HashValid_def Seal_def
      RecomputedHash_def zero_Evidence_def)

theorem delimiter_forgery_verifies_witness:
  "VerifyEvidence (\<lambda>x. CHR ''h'' # x) (\<lambda>_. ''t'')
     ((zero_Evidence\<lparr>ev_NodeID := ''a|b'', ev_AttemptID := ''c''\<rparr>)\<lparr>Hash :=
        Hash (Seal (\<lambda>x. CHR ''h'' # x) (\<lambda>_. ''t'') (zero_Evidence\<lparr>ev_NodeID := ''a'', ev_AttemptID := ''b|c''\<rparr>))\<rparr>)
   = ''ok''"
  using delimiter_forgery_verifies [of "\<lambda>x. CHR ''h'' # x", OF _ refl refl] by simp

end
