(* ===== verification/Scheduler.thy ===== *)
theory Scheduler
  imports Workgraph "HOL-Library.Multiset"
begin

text \<open>
  The capability-aware scheduler (\<^verbatim>\<open>internal/scheduler/scheduler.go\<close>): the hard constraints in
  their order, the soft score computed in \<^verbatim>\<open>float64\<close> arithmetic, and \<^verbatim>\<open>Select\<close> with its linear scan and
  decision record. Go visits a map in an unspecified order, anew for each loop: the two loops over maps
  inside \<^verbatim>\<open>softScore\<close> (the sum over the components, the search for a region over the graph's nodes)
  take the visited keys as an argument, one \<open>visit\<close> per call, so that a theorem about all visits is a theorem about
  every order the runtime may choose.

  The lemmas show that only runners that meet every hard constraint are selected, that the decision
  record accounts for the whole pool, that the choice is the best runner and independent of the
  pool's order and of the map orders whenever scores are separated, and that without separation it is not.
\<close>

section \<open>Types\<close>

record Runner =
  RunnerID :: string
  r_Tenant :: string
  r_TrustClass :: string
  Lifecycle :: string
  r_OS :: "string list"
  r_Arch :: "string list"
  r_CPUMilli :: int
  r_MemoryMiB :: int
  r_GPU :: int
  Toolchains :: "string list"
  Labels :: "string list"
  QueueDepth :: int
  Utilization :: float64
  CostUSDPerHr :: float64
  Region :: string
  SuccessRate :: float64
  CacheHits :: int
  TotalRuns :: int

record Assignment =
  SelectedRunner :: "Runner option"
  EligibleCount :: nat
  PoolSize :: nat
  RejectedConstraints :: "nat gomap"
  ScoreComponents :: "float64 gomap"
  TotalScore :: float64
  FallbackReason :: string
  Reasoning :: string

record eligible =
  el_runner :: Runner
  components :: "float64 gomap"
  total :: float64
  draining :: bool

datatype scheduler_error = ErrNilWork | ErrNilNode | ErrEmptyPool | ErrNoEligibleRunner

text \<open>The order in which one call of \<^verbatim>\<open>softScore\<close> visits its two maps.\<close>

record visit =
  score_order :: "string list"
  node_order :: "string list"

section \<open>Hard constraints\<close>

definition RejectLifecycle :: string where "RejectLifecycle = ''lifecycle_not_active''"
definition RejectOS :: string where "RejectOS = ''os_mismatch''"
definition RejectArch :: string where "RejectArch = ''arch_mismatch''"
definition RejectCPU :: string where "RejectCPU = ''cpu_insufficient''"
definition RejectMemory :: string where "RejectMemory = ''memory_insufficient''"
definition RejectNetwork :: string where "RejectNetwork = ''network_blocked''"
definition RejectTrust :: string where "RejectTrust = ''trust_insufficient''"
definition RejectTenant :: string where "RejectTenant = ''tenant_mismatch''"
definition RejectPool :: string where "RejectPool = ''pool_mismatch''"
definition RejectProduction :: string where "RejectProduction = ''production_requires_privileged''"
definition RejectNoIdentity :: string where "RejectNoIdentity = ''no_identity''"

lemmas reject_codes = RejectLifecycle_def RejectOS_def RejectArch_def RejectCPU_def RejectMemory_def
  RejectNetwork_def RejectTrust_def RejectTenant_def RejectPool_def RejectProduction_def
  RejectNoIdentity_def

fun containsFold :: "string list \<Rightarrow> string \<Rightarrow> bool" where
  "containsFold [] needle = False"
| "containsFold (s # ss) needle = (if EqualFold s needle then True else containsFold ss needle)"

fun hasLabel :: "string list \<Rightarrow> string \<Rightarrow> bool" where
  "hasLabel [] want = False"
| "hasLabel (s # ss) want = (if s = want then True else hasLabel ss want)"

definition hasNetworkEgress :: "Node \<Rightarrow> bool" where
  "hasNetworkEgress n \<longleftrightarrow>
     list_ex (\<lambda>s. s = ''network_egress'' \<or> s = ''external_api_call'') (SideEffects n)"

definition runnerHasNetwork :: "Runner \<Rightarrow> bool" where
  "runnerHasNetwork r \<longleftrightarrow>
     list_ex (\<lambda>l. EqualFold l ''network:enabled'' \<or> EqualFold l ''network:on'') (Labels r)
     \<or> list_ex (\<lambda>t. Contains (ToLower t) ''net'') (Toolchains r)"

definition trust_rank :: "string \<Rightarrow> int" where
  "trust_rank t = (let s = ToLower t in
     if s = ''privileged'' then 3 else if s = ''standard'' then 2
     else if s = ''untrusted'' then 1 else 0)"

definition trustMeets :: "string \<Rightarrow> string \<Rightarrow> bool" where
  "trustMeets runnerTrust workTrust =
     (if workTrust = [] then True else trust_rank runnerTrust \<ge> trust_rank workTrust)"

definition tenantOf :: "Work \<Rightarrow> string" where
  "tenantOf w =
     (if Repository (work_Source w) \<noteq> [] then
        let parts = Split (Repository (work_Source w)) CHR ''/'' in
        if length parts \<ge> 2 then ToLower (parts ! (length parts - 2)) else ToLower (parts ! 0)
      else [])"

definition hardFilter :: "Runner \<Rightarrow> Work \<Rightarrow> Node \<Rightarrow> string" where
  "hardFilter r work node =
     (if RunnerID r = [] then RejectNoIdentity
      else if Lifecycle r \<noteq> ''active'' \<and> Lifecycle r \<noteq> [] then
        (if Lifecycle r = ''draining'' then RejectLifecycle else RejectLifecycle)
      else let req = work_Requirements work in
      if OS req \<noteq> [] \<and> \<not> containsFold (r_OS r) (OS req) then RejectOS
      else if Arch req \<noteq> [] \<and> \<not> containsFold (r_Arch r) (Arch req) then RejectArch
      else if CPUMilli req > 0 \<and> r_CPUMilli r < CPUMilli req then RejectCPU
      else if MemoryMiB req > 0 \<and> r_MemoryMiB r < MemoryMiB req then RejectMemory
      else if hasNetworkEgress node \<and> \<not> runnerHasNetwork r then RejectNetwork
      else if \<not> trustMeets (r_TrustClass r) (TrustClass (work_Policy work)) then RejectTrust
      else let t = tenantOf work in
      if t \<noteq> [] \<and> r_Tenant r \<noteq> [] \<and> \<not> EqualFold (r_Tenant r) t then RejectTenant
      else if Pool req \<noteq> [] \<and> \<not> hasLabel (Labels r) (''pool:'' @ Pool req) then RejectPool
      else if ProductionAccess (work_Policy work) \<and> r_TrustClass r \<noteq> ''privileged'' then RejectProduction
      else [])"

section \<open>Soft scoring\<close>

definition wCacheLocality :: float64 where "wCacheLocality = f_lit 20 100"
definition wQueuePressure :: float64 where "wQueuePressure = f_lit 20 100"
definition wUtilization :: float64 where "wUtilization = f_lit 15 100"
definition wCost :: float64 where "wCost = f_lit 15 100"
definition wNetworkProx :: float64 where "wNetworkProx = f_lit 10 100"
definition wReliability :: float64 where "wReliability = f_lit 15 100"

text \<open>\<^verbatim>\<open>wExpectedRuntime * 0.5\<close> is a constant expression: exact, then rounded once.\<close>

definition expected_runtime_term :: float64 where "expected_runtime_term = f_lit 25 1000"

definition clamp01 :: "float64 \<Rightarrow> float64" where
  "clamp01 x = (if x = NaN \<or> f_lt x f_zero then f_zero
     else if f_gt x (f_of_int 1) then f_of_int 1 else x)"

definition minInt :: "int \<Rightarrow> int \<Rightarrow> int" where
  "minInt a b = (if a < b then a else b)"

definition cacheLocality :: "Runner \<Rightarrow> Node \<Rightarrow> float64" where
  "cacheLocality r n =
     (if \<not> Cache n then f_lit 5 10
      else if CacheHits r = 0 then f_lit 2 10
      else clamp01 (f_add (f_lit 5 10) (f_mul (f_lit 1 10) (f_of_int (minInt (CacheHits r) 5)))))"

definition queuePressure :: "Runner \<Rightarrow> float64" where
  "queuePressure r =
     (if QueueDepth r \<le> 0 then f_of_int 1
      else if QueueDepth r \<ge> 10 then f_zero
      else f_sub (f_of_int 1) (f_div (f_of_int (QueueDepth r)) (f_of_int 10)))"

definition costScore :: "Runner \<Rightarrow> Work \<Rightarrow> float64" where
  "costScore r work =
     (if f_le (CostUSDPerHr r) f_zero then f_lit 7 10
      else let ceiling = (if f_gt (MaxCostUSD (work_Requirements work)) f_zero
                          then MaxCostUSD (work_Requirements work) else f_of_int 1) in
      if f_ge (CostUSDPerHr r) ceiling then f_lit 5 10
      else clamp01 (f_sub (f_of_int 1) (f_div (CostUSDPerHr r) ceiling)))"

fun workRegion :: "string list \<Rightarrow> Node gomap \<Rightarrow> string" where
  "workRegion [] g = []"
| "workRegion (k # ks) g =
     (case map_of g k of None \<Rightarrow> workRegion ks g
      | Some n \<Rightarrow> (case map_of (Env n) ''WORKS_REGION'' of
          Some v \<Rightarrow> if v \<noteq> [] then ToLower v else workRegion ks g
        | None \<Rightarrow> workRegion ks g))"

definition networkProximity :: "string list \<Rightarrow> Runner \<Rightarrow> Work \<Rightarrow> float64" where
  "networkProximity node_ord r work = (let want = workRegion node_ord (Graph work) in
     if want = [] then
       (if list_ex (\<lambda>l. EqualFold l ''network:low_latency'') (Labels r) then f_of_int 1
        else if Region r \<noteq> [] then f_lit 5 10 else f_lit 5 10)
     else if Region r = [] then f_lit 5 10
     else if EqualFold (Region r) want then f_of_int 1 else f_zero)"

definition score_components :: "string list \<Rightarrow> Runner \<Rightarrow> Work \<Rightarrow> Node \<Rightarrow> float64 gomap" where
  "score_components node_ord r work node =
     [(''cache_locality'', f_mul wCacheLocality (cacheLocality r node)),
      (''expected_runtime'', expected_runtime_term),
      (''queue_pressure'', f_mul wQueuePressure (queuePressure r)),
      (''utilization'', f_mul wUtilization (f_sub (f_of_int 1) (clamp01 (Utilization r)))),
      (''cost'', f_mul wCost (costScore r work)),
      (''network_proximity'', f_mul wNetworkProx (networkProximity node_ord r work)),
      (''reliability'', f_mul wReliability (clamp01 (SuccessRate r)))]"

fun sum_visit :: "string list \<Rightarrow> float64 gomap \<Rightarrow> float64 \<Rightarrow> float64" where
  "sum_visit [] m t = t"
| "sum_visit (k # ks) m t =
     (case map_of m k of None \<Rightarrow> sum_visit ks m t | Some v \<Rightarrow> sum_visit ks m (f_add t v))"

definition softScore :: "visit \<Rightarrow> Runner \<Rightarrow> Work \<Rightarrow> Node \<Rightarrow> float64 gomap \<times> float64" where
  "softScore v r work node = (let cs = score_components (node_order v) r work node
     in (cs, sum_visit (score_order v) cs f_zero))"

section \<open>Selection\<close>

definition eps :: float64 where "eps = f_lit 1 1000000000"

definition runnerLess :: "eligible \<Rightarrow> eligible \<Rightarrow> bool" where
  "runnerLess a b =
     (if f_gt (f_abs (f_sub (total a) (total b))) eps then f_gt (total a) (total b)
      else if QueueDepth (el_runner a) \<noteq> QueueDepth (el_runner b)
        then QueueDepth (el_runner a) < QueueDepth (el_runner b)
      else if f_gt (f_abs (f_sub (SuccessRate (el_runner a)) (SuccessRate (el_runner b)))) eps
        then f_gt (SuccessRate (el_runner a)) (SuccessRate (el_runner b))
      else RunnerID (el_runner a) < RunnerID (el_runner b))"

definition tally :: "string \<Rightarrow> nat gomap \<Rightarrow> nat gomap" where
  "tally k m = AList.update k (case map_of m k of None \<Rightarrow> 1 | Some n \<Rightarrow> n + 1) m"

text \<open>Pass 1. The \<open>i\<close>-th runner of the pool is scored with the visit \<open>vs i\<close>.\<close>

fun filter_pass :: "(nat \<Rightarrow> visit) \<Rightarrow> Work \<Rightarrow> Node \<Rightarrow> nat \<Rightarrow> Runner list \<Rightarrow> eligible list \<Rightarrow> nat gomap
    \<Rightarrow> eligible list \<times> nat gomap" where
  "filter_pass vs work node i [] es m = (es, m)"
| "filter_pass vs work node i (r # rs) es m =
     (let reason = hardFilter r work node in
      if reason = [] then
        (case softScore (vs i) r work node of (cs, tot) \<Rightarrow>
           filter_pass vs work node (i + 1) rs
             (es @ [\<lparr>el_runner = r, components = cs, total = tot,
                draining = (Lifecycle r = ''draining'')\<rparr>]) m)
      else filter_pass vs work node (i + 1) rs es (tally reason m))"

text \<open>Pass 2: the linear scan.\<close>

fun best_scan :: "eligible option \<Rightarrow> eligible list \<Rightarrow> eligible option" where
  "best_scan best [] = best"
| "best_scan best (e # es) =
     (case best of None \<Rightarrow> best_scan (Some e) es
      | Some b \<Rightarrow> if runnerLess e b then best_scan (Some e) es else best_scan (Some b) es)"

definition reject_summary :: "nat gomap \<Rightarrow> string" where
  "reject_summary m = Join (sort (map (\<lambda>(k, v). k @ ''='' @ dec_nat v) m)) '', ''"

definition quote :: "string \<Rightarrow> string" where
  "quote s = [CHR 0x22] @ s @ [CHR 0x22]"

definition Select ::
  "(nat \<Rightarrow> visit) \<Rightarrow> Work option \<Rightarrow> Node option \<Rightarrow> Runner list
    \<Rightarrow> Assignment option \<times> scheduler_error option" where
  "Select vs wo no runners =
     (case wo of None \<Rightarrow> (None, Some ErrNilWork) | Some work \<Rightarrow>
     (case no of None \<Rightarrow> (None, Some ErrNilNode) | Some node \<Rightarrow>
     if runners = [] then (None, Some ErrEmptyPool)
     else let (es, rejected) = filter_pass vs work node 0 runners [] [];
       a = \<lparr>SelectedRunner = None, EligibleCount = length es, PoolSize = length runners,
            RejectedConstraints = rejected, ScoreComponents = [], TotalScore = f_zero,
            FallbackReason = [], Reasoning = []\<rparr>
     in case best_scan None es of
       None \<Rightarrow> (Some (a\<lparr>Reasoning := ''no eligible runner for '' @ work_ID work @ ''/'' @ node_ID node
           @ '' (pool='' @ dec_nat (length runners) @ '' rejected=['' @ reject_summary rejected @ ''])''\<rparr>),
         Some ErrNoEligibleRunner)
     | Some winner \<Rightarrow>
         let fb = (if list_all draining es then ''only_draining_runners_eligible'' else [])
         in (Some (a\<lparr>SelectedRunner := Some (el_runner winner), ScoreComponents := components winner,
             TotalScore := total winner, FallbackReason := fb,
             Reasoning := ''selected runner '' @ RunnerID (el_runner winner) @ '' for '' @ work_ID work
               @ ''/'' @ node_ID node @ '' (score='' @ fmt_3f (total winner) @ '', eligible=''
               @ dec_nat (length es) @ ''/'' @ dec_nat (length runners) @ '', fallback='' @ quote fb @ '')''\<rparr>),
             None)))"

definition zero_Runner :: Runner where
  "zero_Runner = \<lparr>RunnerID = [], r_Tenant = [], r_TrustClass = [], Lifecycle = [], r_OS = [],
     r_Arch = [], r_CPUMilli = 0, r_MemoryMiB = 0, r_GPU = 0, Toolchains = [], Labels = [],
     QueueDepth = 0, Utilization = f_zero, CostUSDPerHr = f_zero, Region = [], SuccessRate = f_zero,
     CacheHits = 0, TotalRuns = 0\<rparr>"

section \<open>The decision record\<close>

lemma containsFold_iff: "containsFold hs x \<longleftrightarrow> (\<exists>h \<in> set hs. EqualFold h x)"
  by (induction hs) auto

lemma hasLabel_iff [simp]: "hasLabel ls x \<longleftrightarrow> x \<in> set ls"
  by (induction ls) auto

text \<open>What a runner that passes the hard constraints satisfies, constraint by constraint.\<close>

definition meets_requirements :: "Work \<Rightarrow> Node \<Rightarrow> Runner \<Rightarrow> bool" where
  "meets_requirements w n r \<longleftrightarrow>
     RunnerID r \<noteq> [] \<and> (Lifecycle r = ''active'' \<or> Lifecycle r = [])
     \<and> (OS (work_Requirements w) \<noteq> [] \<longrightarrow> (\<exists>x \<in> set (r_OS r). EqualFold x (OS (work_Requirements w))))
     \<and> (Arch (work_Requirements w) \<noteq> [] \<longrightarrow> (\<exists>x \<in> set (r_Arch r). EqualFold x (Arch (work_Requirements w))))
     \<and> (CPUMilli (work_Requirements w) > 0 \<longrightarrow> CPUMilli (work_Requirements w) \<le> r_CPUMilli r)
     \<and> (MemoryMiB (work_Requirements w) > 0 \<longrightarrow> MemoryMiB (work_Requirements w) \<le> r_MemoryMiB r)
     \<and> (hasNetworkEgress n \<longrightarrow> runnerHasNetwork r)
     \<and> trustMeets (r_TrustClass r) (TrustClass (work_Policy w))
     \<and> (tenantOf w \<noteq> [] \<and> r_Tenant r \<noteq> [] \<longrightarrow> EqualFold (r_Tenant r) (tenantOf w))
     \<and> (Pool (work_Requirements w) \<noteq> [] \<longrightarrow> ''pool:'' @ Pool (work_Requirements w) \<in> set (Labels r))
     \<and> (ProductionAccess (work_Policy w) \<longrightarrow> r_TrustClass r = ''privileged'')"

lemma hardFilter_pass_iff: "hardFilter r w n = [] \<longleftrightarrow> meets_requirements w n r"
  by (simp add: hardFilter_def meets_requirements_def Let_def reject_codes containsFold_iff not_less)

lemma hardFilter_pass_lifecycle: "hardFilter r w n = [] \<Longrightarrow> Lifecycle r = ''active'' \<or> Lifecycle r = []"
  unfolding hardFilter_pass_iff meets_requirements_def by (elim conjE)

text \<open>The entry that \<^verbatim>\<open>Select\<close> builds for a runner, given the visit of its \<^verbatim>\<open>softScore\<close> call.\<close>

definition entry :: "Work \<Rightarrow> Node \<Rightarrow> visit \<Rightarrow> Runner \<Rightarrow> eligible" where
  "entry w n v r = \<lparr>el_runner = r, components = fst (softScore v r w n), total = snd (softScore v r w n),
     draining = (Lifecycle r = ''draining'')\<rparr>"

definition entries :: "(nat \<Rightarrow> visit) \<Rightarrow> Work \<Rightarrow> Node \<Rightarrow> nat \<Rightarrow> Runner list \<Rightarrow> eligible list" where
  "entries vs w n i rs = map (\<lambda>(j, r). entry w n (vs j) r)
     (filter (\<lambda>(j, r). hardFilter r w n = []) (enumerate i rs))"

definition tallies :: "Work \<Rightarrow> Node \<Rightarrow> Runner list \<Rightarrow> nat gomap \<Rightarrow> nat gomap" where
  "tallies w n rs m = fold (\<lambda>r. tally (hardFilter r w n)) (filter (\<lambda>r. hardFilter r w n \<noteq> []) rs) m"

lemma filter_pass_eq:
  "filter_pass vs w n i rs es m = (es @ entries vs w n i rs, tallies w n rs m)"
  by (induction rs arbitrary: i es m)
    (auto simp: entries_def tallies_def entry_def Let_def split: prod.splits)

lemma runners_of_entries:
  "map el_runner (entries vs w n i rs) = filter (\<lambda>r. hardFilter r w n = []) rs"
  by (induction rs arbitrary: i) (auto simp: entries_def entry_def)

lemma entries_eq_Nil: "entries vs w n i rs = [] \<longleftrightarrow> (\<forall>r \<in> set rs. hardFilter r w n \<noteq> [])"
proof -
  have "entries vs w n i rs = [] \<longleftrightarrow> map el_runner (entries vs w n i rs) = []"
    by simp
  then show ?thesis
    by (simp only: runners_of_entries filter_empty_conv)
qed

lemma sum_update:
  "distinct (map fst m) \<Longrightarrow> sum_list (map snd (tally k m)) = Suc (sum_list (map snd m))"
proof (induction m)
  case Nil
  then show ?case by (simp add: tally_def)
next
  case (Cons p m)
  then have "fst p \<noteq> k \<Longrightarrow> tally k (p # m) = p # tally k m"
    by (cases p) (simp add: tally_def)
  moreover have "fst p = k \<Longrightarrow> tally k (p # m) = (k, snd p + 1) # m"
    by (cases p) (simp add: tally_def)
  ultimately show ?case
    using Cons by (cases "fst p = k") auto
qed

lemma distinct_tally: "distinct (map fst m) \<Longrightarrow> distinct (map fst (tally k m))"
  by (simp add: tally_def distinct_update)

lemma fold_tally_total:
  "distinct (map fst m) \<Longrightarrow>
     sum_list (map snd (fold (\<lambda>r. tally (f r)) rs m)) = length rs + sum_list (map snd m)"
  by (induction rs arbitrary: m) (auto simp: sum_update distinct_tally)

lemma map_of_tally: "map_of (tally k m) x = (if x = k then Some (case map_of m k of None \<Rightarrow> 1 | Some v \<Rightarrow> v + 1) else map_of m x)"
  by (simp add: tally_def update_conv)

lemma fold_tally_count:
  "map_of (fold (\<lambda>r. tally (f r)) rs m) k =
     (if count_list (map f rs) k = 0 then map_of m k
      else Some (count_list (map f rs) k + (case map_of m k of None \<Rightarrow> 0 | Some v \<Rightarrow> v)))"
  by (induction rs arbitrary: m) (auto simp: map_of_tally split: option.splits)

text \<open>The scan returns one of the entries, and none only when there is none.\<close>

lemma best_scan_Some: "\<exists>b'. best_scan (Some b) es = Some b' \<and> b' \<in> insert b (set es)"
  by (induction es arbitrary: b) auto

lemma best_scan_None: "best_scan None es = None \<longleftrightarrow> es = []"
proof (cases es)
  case (Cons e es')
  then show ?thesis
    using best_scan_Some [of e es'] by auto
qed simp

lemma best_scan_in: "best_scan None es = Some b \<Longrightarrow> b \<in> set es"
proof (cases es)
  case (Cons e es')
  then show "best_scan None es = Some b \<Longrightarrow> b \<in> set es"
    using best_scan_Some [of e es'] by auto
qed simp

lemma Select_error:
  assumes "rs \<noteq> []"
  shows "snd (Select vs (Some w) (Some n) rs) =
    (if entries vs w n 0 rs = [] then Some ErrNoEligibleRunner else None)"
  using assms best_scan_None [of "entries vs w n 0 rs"]
  by (auto simp: Select_def filter_pass_eq Let_def split: option.splits)

lemma Select_counts:
  assumes "rs \<noteq> []"
  shows "\<exists>a. fst (Select vs (Some w) (Some n) rs) = Some a \<and> PoolSize a = length rs
    \<and> EligibleCount a = length (entries vs w n 0 rs) \<and> RejectedConstraints a = tallies w n rs []"
  using assms by (simp add: Select_def filter_pass_eq Let_def split: option.splits)

lemma Select_winner:
  assumes "Select vs (Some w) (Some n) rs = (Some a, None)"
  obtains b where "best_scan None (entries vs w n 0 rs) = Some b" "SelectedRunner a = Some (el_runner b)"
    "ScoreComponents a = components b" "TotalScore a = total b"
    "FallbackReason a = (if list_all draining (entries vs w n 0 rs) then ''only_draining_runners_eligible'' else [])"
  using assms by (auto simp: Select_def filter_pass_eq Let_def split: option.splits if_splits)

lemma entries_elim:
  assumes "e \<in> set (entries vs w n i rs)"
  obtains j r where "e = entry w n (vs j) r" "r \<in> set rs" "hardFilter r w n = []"
  using assms by (auto simp: entries_def in_set_enumerate_eq)

text \<open>C5. Placement safety: whatever order the runtime visits its maps in, a runner that \<^verbatim>\<open>Select\<close>
  returns is one of the pool and meets every hard constraint of the Work and node: identity,
  lifecycle, OS, architecture, CPU, memory, network, trust floor, tenant, pool isolation and production
  authority. The recorded score is that runner's own.\<close>

theorem selected_runner_meets_requirements:
  assumes "Select vs (Some w) (Some n) rs = (Some a, None)"
  shows "\<exists>r j. SelectedRunner a = Some r \<and> r \<in> set rs \<and> meets_requirements w n r
    \<and> (ScoreComponents a, TotalScore a) = softScore (vs j) r w n"
proof -
  from assms obtain b where b: "best_scan None (entries vs w n 0 rs) = Some b"
    "SelectedRunner a = Some (el_runner b)" "ScoreComponents a = components b" "TotalScore a = total b"
    by (rule Select_winner)
  from best_scan_in [OF b(1)] obtain j r where
    "b = entry w n (vs j) r" "r \<in> set rs" "hardFilter r w n = []"
    by (rule entries_elim)
  with b show ?thesis
    by (auto simp: entry_def hardFilter_pass_iff)
qed

text \<open>The decision record accounts for the pool: with a non-empty pool \<^verbatim>\<open>Select\<close> always returns a record whose pool
  size is the number of runners, equal to the eligible count plus the sum of the rejection tallies;
  each tally is the number of runners rejected for that reason, and the error is
  \<^verbatim>\<open>ErrNoEligibleRunner\<close> exactly when every runner fails a hard constraint.\<close>

theorem decision_record_accounts_for_pool:
  assumes "rs \<noteq> []"
  shows "\<exists>a. Select vs (Some w) (Some n) rs =
      (Some a, if \<forall>r \<in> set rs. \<not> meets_requirements w n r then Some ErrNoEligibleRunner else None)
    \<and> PoolSize a = length rs
    \<and> PoolSize a = EligibleCount a + sum_list (map snd (RejectedConstraints a))
    \<and> EligibleCount a = length (filter (meets_requirements w n) rs)
    \<and> (\<forall>k. k \<noteq> [] \<longrightarrow> (case map_of (RejectedConstraints a) k of None \<Rightarrow> 0 | Some c \<Rightarrow> c)
        = length (filter (\<lambda>r. hardFilter r w n = k) rs))"
proof -
  let ?es = "entries vs w n 0 rs" and ?no = "\<lambda>r. hardFilter r w n \<noteq> []"
  obtain a where a: "fst (Select vs (Some w) (Some n) rs) = Some a" "PoolSize a = length rs"
    "EligibleCount a = length ?es" "RejectedConstraints a = tallies w n rs []"
    using Select_counts [OF assms] by blast
  have len: "length ?es = length (filter (meets_requirements w n) rs)"
    using arg_cong [OF runners_of_entries [of vs w n 0 rs], of length]
    by (simp add: hardFilter_pass_iff)
  have sum: "sum_list (map snd (RejectedConstraints a)) = length (filter ?no rs)"
    by (simp add: a tallies_def fold_tally_total)
  have total: "length rs = length (filter (meets_requirements w n) rs) + length (filter ?no rs)"
    using sum_length_filter_compl [of "meets_requirements w n" rs] by (simp add: hardFilter_pass_iff)
  have err: "snd (Select vs (Some w) (Some n) rs) =
      (if \<forall>r \<in> set rs. \<not> meets_requirements w n r then Some ErrNoEligibleRunner else None)"
    by (simp only: Select_error [OF assms] entries_eq_Nil hardFilter_pass_iff)
  have tal: "(case map_of (tallies w n rs []) k of None \<Rightarrow> 0 | Some c \<Rightarrow> c)
      = length (filter (\<lambda>r. hardFilter r w n = k) rs)" if "k \<noteq> []" for k
  proof -
    have "count_list (map (\<lambda>r. hardFilter r w n) (filter ?no rs)) k
        = length (filter (\<lambda>r. hardFilter r w n = k) rs)"
      using that by (induction rs) auto
    then show ?thesis by (simp add: tallies_def fold_tally_count)
  qed
  show ?thesis
  proof (intro exI [of _ a] conjI allI impI)
    show "Select vs (Some w) (Some n) rs =
        (Some a, if \<forall>r \<in> set rs. \<not> meets_requirements w n r then Some ErrNoEligibleRunner else None)"
      by (rule prod_eqI) (simp_all only: a err fst_conv snd_conv)
    show "PoolSize a = EligibleCount a + sum_list (map snd (RejectedConstraints a))"
      by (simp only: a(2,3) len sum total)
    show "(case map_of (RejectedConstraints a) k of None \<Rightarrow> 0 | Some c \<Rightarrow> c)
        = length (filter (\<lambda>r. hardFilter r w n = k) rs)" if "k \<noteq> []" for k
      unfolding a(4) by (rule tal [OF that])
  qed (simp_all only: a len)
qed

text \<open>A draining runner is never selected and no assignment is ever flagged as degraded: on
  success the fallback reason is always empty.\<close>

theorem fallback_never_reported:
  assumes "Select vs (Some w) (Some n) rs = (Some a, None)"
  shows "FallbackReason a = [] \<and> (\<forall>r. SelectedRunner a = Some r \<longrightarrow> Lifecycle r \<noteq> ''draining'')"
proof -
  from assms obtain b where b: "best_scan None (entries vs w n 0 rs) = Some b"
    "SelectedRunner a = Some (el_runner b)"
    "FallbackReason a = (if list_all draining (entries vs w n 0 rs) then ''only_draining_runners_eligible'' else [])"
    by (rule Select_winner)
  from best_scan_in [OF b(1)] obtain j r where
    r: "b = entry w n (vs j) r" "hardFilter r w n = []"
    by (rule entries_elim)
  have live: "Lifecycle r \<noteq> ''draining''"
    using hardFilter_pass_lifecycle [OF r(2)] by auto
  then have "\<not> draining b"
    by (simp add: r(1) entry_def)
  then have "\<not> list_all draining (entries vs w n 0 rs)"
    using best_scan_in [OF b(1)] by (auto simp: list_all_iff)
  then show ?thesis
    using live by (simp add: b(2,3) r(1) entry_def)
qed

section \<open>The choice\<close>

text \<open>
  Scores are compared with a tolerance, so being tied is not transitive in general. \<open>ranked rk sk E\<close>
  says that on the entries \<open>E\<close> it is: scores fall into classes numbered by \<open>rk\<close>, success rates into
  classes numbered by \<open>sk\<close>; within a class they differ by at most the tolerance, between classes by more.
\<close>

definition apart :: "float64 \<Rightarrow> float64 \<Rightarrow> bool" where
  "apart x y \<longleftrightarrow> f_gt (f_abs (f_sub x y)) eps"

definition ranked :: "(Runner \<Rightarrow> int) \<Rightarrow> (Runner \<Rightarrow> int) \<Rightarrow> eligible set \<Rightarrow> bool" where
  "ranked rk sk E \<longleftrightarrow> (\<forall>a \<in> E. \<forall>b \<in> E. let r = el_runner a; s = el_runner b in
     apart (total a) (total b) = (rk r \<noteq> rk s)
     \<and> (rk r > rk s \<longrightarrow> f_gt (total a) (total b))
     \<and> apart (SuccessRate r) (SuccessRate s) = (sk r \<noteq> sk s)
     \<and> (sk r > sk s \<longrightarrow> f_gt (SuccessRate r) (SuccessRate s)))"

definition rank_key :: "(Runner \<Rightarrow> int) \<Rightarrow> (Runner \<Rightarrow> int) \<Rightarrow> Runner \<Rightarrow> int \<times> int \<times> int \<times> string" where
  "rank_key rk sk r = (- rk r, QueueDepth r, - sk r, RunnerID r)"

lemma f_gt_asym: "f_gt x y \<Longrightarrow> \<not> f_gt y x"
  unfolding f_gt_def using f_lt_trans f_lt_irrefl by blast

lemma runnerLess_rank_key:
  assumes "ranked rk sk E" "a \<in> E" "b \<in> E"
  shows "runnerLess a b \<longleftrightarrow> rank_key rk sk (el_runner a) < rank_key rk sk (el_runner b)"
proof -
  let ?r = "el_runner a" and ?s = "el_runner b"
  have ab: "apart (total a) (total b) = (rk ?r \<noteq> rk ?s)"
    "apart (SuccessRate ?r) (SuccessRate ?s) = (sk ?r \<noteq> sk ?s)"
    using assms by (auto simp: ranked_def Let_def)
  have gt: "rk ?r \<noteq> rk ?s \<Longrightarrow> f_gt (total a) (total b) = (rk ?r > rk ?s)"
    "sk ?r \<noteq> sk ?s \<Longrightarrow> f_gt (SuccessRate ?r) (SuccessRate ?s) = (sk ?r > sk ?s)"
    using assms f_gt_asym [of "total a" "total b"] f_gt_asym [of "SuccessRate ?r" "SuccessRate ?s"]
    unfolding ranked_def Let_def by (meson linorder_neqE)+
  show ?thesis
    using ab gt unfolding runnerLess_def apart_def
    by (cases "rk ?r = rk ?s"; cases "sk ?r = sk ?s") (auto simp: rank_key_def less_prod_def)
qed

lemma best_scan_least:
  assumes "\<And>a b. a \<in> E \<Longrightarrow> b \<in> E \<Longrightarrow> runnerLess a b = (key (el_runner a) < (key (el_runner b) :: 'k :: linorder))"
    and "b \<in> E" "set es \<subseteq> E"
  shows "\<exists>b'. best_scan (Some b) es = Some b' \<and> b' \<in> insert b (set es)
    \<and> (\<forall>e \<in> insert b (set es). key (el_runner b') \<le> key (el_runner e))"
  using assms(2,3)
proof (induction es arbitrary: b)
  case Nil
  then show ?case by simp
next
  case (Cons e es)
  let ?c = "if runnerLess e b then e else b"
  have c: "?c \<in> E" "key (el_runner ?c) \<le> key (el_runner e)" "key (el_runner ?c) \<le> key (el_runner b)"
    using Cons.prems assms(1) [of e b] by (auto simp: not_less)
  obtain b' where "best_scan (Some ?c) es = Some b'" "b' \<in> insert ?c (set es)"
    "\<forall>x \<in> insert ?c (set es). key (el_runner b') \<le> key (el_runner x)"
    using Cons.IH [OF c(1)] Cons.prems by auto
  then show ?case
    using c by (intro exI [of _ b']) (auto split: if_splits)
qed

lemma best_scan_least_None:
  assumes "\<And>a b. a \<in> E \<Longrightarrow> b \<in> E \<Longrightarrow> runnerLess a b = (key (el_runner a) < (key (el_runner b) :: 'k :: linorder))"
    and "best_scan None es = Some b" "set es \<subseteq> E"
  shows "b \<in> set es \<and> (\<forall>e \<in> set es. key (el_runner b) \<le> key (el_runner e))"
proof (cases es)
  case (Cons x xs)
  then show ?thesis
    using best_scan_least [where E = E and key = key and b = x and es = xs] assms by auto
qed (use assms(2) in simp)

lemma selected_least:
  assumes "ranked rk sk E" "set (entries vs w n 0 rs) \<subseteq> E"
    and "best_scan None (entries vs w n 0 rs) = Some b"
  shows "el_runner b \<in> set (filter (meets_requirements w n) rs)
    \<and> (\<forall>r \<in> set (filter (meets_requirements w n) rs). rank_key rk sk (el_runner b) \<le> rank_key rk sk r)"
proof -
  let ?es = "entries vs w n 0 rs"
  have least: "b \<in> set ?es \<and> (\<forall>e \<in> set ?es. rank_key rk sk (el_runner b) \<le> rank_key rk sk (el_runner e))"
    by (rule best_scan_least_None [OF runnerLess_rank_key [OF assms(1)] assms(3,2)])
  have "set (filter (meets_requirements w n) rs) = el_runner ` set ?es"
    using arg_cong [OF runners_of_entries [of vs w n 0 rs], of set] by (simp add: hardFilter_pass_iff)
  with least show ?thesis by auto
qed

text \<open>The choice is the best runner and nothing else matters: when scores and success rates fall into
  classes separated by more than the tolerance and runner ids are distinct, two calls on the
  same runners in any two orders, with any map iteration orders, select the same runner; it is the one
  with the best score class, then the shortest queue, then the best success class, then the smallest id,
  among the runners that meet the hard constraints.\<close>

theorem selection_independent_of_order:
  assumes "mset rs = mset rs'" and "distinct (map RunnerID rs)"
    and "ranked rk sk (set (entries vs w n 0 rs) \<union> set (entries vs' w n 0 rs'))"
    and "Select vs (Some w) (Some n) rs = (Some a, None)"
  shows "\<exists>a' r. Select vs' (Some w) (Some n) rs' = (Some a', None)
    \<and> SelectedRunner a = Some r \<and> SelectedRunner a' = Some r
    \<and> (\<forall>s \<in> set rs. meets_requirements w n s \<longrightarrow> rank_key rk sk r \<le> rank_key rk sk s)"
proof -
  let ?ok = "\<lambda>rs. set (filter (meets_requirements w n) rs)"
  let ?E = "set (entries vs w n 0 rs) \<union> set (entries vs' w n 0 rs')"
  have same: "set rs' = set rs" "rs \<noteq> []"
    using assms(1,4) by (auto simp: Select_def dest: mset_eq_setD)
  then have ne: "rs' \<noteq> []" by auto
  obtain b where b: "best_scan None (entries vs w n 0 rs) = Some b" "SelectedRunner a = Some (el_runner b)"
    using assms(4) by (rule Select_winner)
  have low: "el_runner b \<in> ?ok rs \<and> (\<forall>r \<in> ?ok rs. rank_key rk sk (el_runner b) \<le> rank_key rk sk r)"
    by (rule selected_least [OF assms(3) _ b(1)]) simp
  then have "entries vs' w n 0 rs' \<noteq> []"
    using same by (auto simp: entries_eq_Nil hardFilter_pass_iff)
  then obtain b' a' where b': "best_scan None (entries vs' w n 0 rs') = Some b'"
    and a': "Select vs' (Some w) (Some n) rs' = (Some a', None)"
    using Select_error [OF ne, of vs' w n] Select_counts [OF ne, of vs' w n]
      best_scan_None [of "entries vs' w n 0 rs'"]
    by (cases "Select vs' (Some w) (Some n) rs'") auto
  have "el_runner b' \<in> ?ok rs' \<and> (\<forall>r \<in> ?ok rs'. rank_key rk sk (el_runner b') \<le> rank_key rk sk r)"
    by (rule selected_least [OF assms(3) _ b']) simp
  with low have "rank_key rk sk (el_runner b') = rank_key rk sk (el_runner b)"
    "el_runner b' \<in> set rs" "el_runner b \<in> set rs"
    using same(1) by (auto intro: antisym)
  then have "el_runner b' = el_runner b"
    using assms(2) by (auto simp: rank_key_def distinct_map dest: inj_onD)
  moreover obtain b'' where "best_scan None (entries vs' w n 0 rs') = Some b''"
    "SelectedRunner a' = Some (el_runner b'')"
    using a' by (rule Select_winner)
  ultimately show ?thesis
    using a' b(2) b' low by auto
qed

section \<open>Concrete pools\<close>

definition std_visit :: visit where
  "std_visit = \<lparr>score_order = [''cache_locality'', ''expected_runtime'', ''queue_pressure'', ''utilization'',
     ''cost'', ''network_proximity'', ''reliability''], node_order = []\<rparr>"

definition demo_runner :: "string \<Rightarrow> float64 \<Rightarrow> Runner" where
  "demo_runner rid u = zero_Runner\<lparr>RunnerID := rid, Utilization := u\<rparr>"

lemma demo_terms:
  "f_mul wCacheLocality (f_lit 5 10) = Fin 7205759403792794 (-56)"
  "expected_runtime_term = Fin 7205759403792794 (-58)"
  "f_mul wQueuePressure (f_of_int 1) = Fin 7205759403792794 (-55)"
  "f_mul wCost (f_lit 7 10) = Fin 7566047373982433 (-56)"
  "f_mul wNetworkProx (f_lit 5 10) = Fin 7205759403792794 (-57)"
  "f_mul wReliability (clamp01 f_zero) = f_zero"
  by (simp_all add: f_eval clamp01_def wCacheLocality_def expected_runtime_term_def wQueuePressure_def
      wCost_def
      wNetworkProx_def wReliability_def)

lemma demo_components:
  "score_components [] (demo_runner rid u) zero_Work zero_Node =
     [(''cache_locality'', Fin 7205759403792794 (-56)), (''expected_runtime'', Fin 7205759403792794 (-58)),
      (''queue_pressure'', Fin 7205759403792794 (-55)),
      (''utilization'', f_mul wUtilization (f_sub (f_of_int 1) (clamp01 u))),
      (''cost'', Fin 7566047373982433 (-56)), (''network_proximity'', Fin 7205759403792794 (-57)),
      (''reliability'', f_zero)]"
  by (simp add: score_components_def cacheLocality_def queuePressure_def costScore_def networkProximity_def
     demo_runner_def zero_Runner_def zero_Work_def zero_Node_def demo_terms f_le_def f_ge_def f_zero_def [symmetric])
    (simp add: f_zero_def)

lemma demo_utilization:
  "f_mul wUtilization (f_sub (f_of_int 1) (clamp01 f_zero)) = Fin 5404319552844595 (- 55)"
  "f_mul wUtilization (f_sub (f_of_int 1) (clamp01 (f_lit 4 1000000000))) = Fin 5404319531227317 (- 55)"
  "f_mul wUtilization (f_sub (f_of_int 1) (clamp01 (f_lit 8 1000000000))) = Fin 5404319509610039 (- 55)"
  "f_mul wUtilization (f_sub (f_of_int 1) (clamp01 (f_of_int 1))) = f_zero"
  by (simp_all add: f_eval clamp01_def wUtilization_def)

lemma demo_totals:
  "snd (softScore std_visit (demo_runner rid f_zero) zero_Work zero_Node) = Fin 5674535530486825 (- 53)"
  "snd (softScore std_visit (demo_runner rid (f_lit 4 1000000000)) zero_Work zero_Node) = Fin 5674535525082506 (- 53)"
  "snd (softScore std_visit (demo_runner rid (f_lit 8 1000000000)) zero_Work zero_Node) = Fin 5674535519678186 (- 53)"
  by (simp_all add: softScore_def std_visit_def demo_components demo_utilization) (simp_all add: f_eval)

definition swapped_visit :: visit where
  "swapped_visit = \<lparr>score_order = [''cache_locality'', ''expected_runtime'', ''utilization'', ''queue_pressure'',
     ''cost'', ''network_proximity'', ''reliability''], node_order = []\<rparr>"

lemma demo_totals_swapped:
  "snd (softScore swapped_visit (demo_runner rid f_zero) zero_Work zero_Node) = Fin 5674535530486826 (- 53)"
  "snd (softScore std_visit (demo_runner rid (f_of_int 1)) zero_Work zero_Node) = Fin 8646911284551352 (- 54)"
  "snd (softScore swapped_visit (demo_runner rid (f_of_int 1)) zero_Work zero_Node) = Fin 8646911284551352 (- 54)"
  by (simp_all add: softScore_def swapped_visit_def std_visit_def demo_components demo_utilization)
    (simp_all add: f_eval)

lemma demo_pass [simp]: "hardFilter (demo_runner (c # rid) u) zero_Work zero_Node = []"
  by (simp add: hardFilter_def demo_runner_def zero_Runner_def zero_Work_def zero_Node_def trustMeets_def
      tenantOf_def hasNetworkEgress_def)

lemma demo_entries:
  "entries vs zero_Work zero_Node i [] = []"
  "entries vs zero_Work zero_Node i (demo_runner (c # rid) u # rs) =
     entry zero_Work zero_Node (vs i) (demo_runner (c # rid) u) # entries vs zero_Work zero_Node (Suc i) rs"
  by (simp_all add: entries_def)

lemma demo_runner_fields [simp]:
  "RunnerID (demo_runner rid u) = rid" "QueueDepth (demo_runner rid u) = 0"
  "SuccessRate (demo_runner rid u) = f_zero"
  by (simp_all add: demo_runner_def zero_Runner_def)

lemma entry_fields [simp]:
  "el_runner (entry w n v r) = r" "total (entry w n v r) = snd (softScore v r w n)"
  by (simp_all add: entry_def)

lemma Select_by_scan:
  assumes "best_scan None (entries vs w n 0 rs) = Some b"
  shows "\<exists>a. Select vs (Some w) (Some n) rs = (Some a, None) \<and> SelectedRunner a = Some (el_runner b)"
proof -
  have "rs \<noteq> []" using assms by (auto simp: entries_def)
  with assms show ?thesis by (simp add: Select_def filter_pass_eq Let_def)
qed

text \<open>\<^verbatim>\<open>runnerLess\<close> is not the strict total order its comment promises: the tolerance makes it cyclic, and the
  selected runner depends on the order of the pool. Three idle runners whose utilizations differ by
  four billionths are placed differently when the same pool is listed in reverse.\<close>

theorem selection_depends_on_pool_order:
  "\<exists>rs a a'. distinct (map RunnerID rs)
    \<and> Select (\<lambda>_. std_visit) (Some zero_Work) (Some zero_Node) rs = (Some a, None)
    \<and> Select (\<lambda>_. std_visit) (Some zero_Work) (Some zero_Node) (rev rs) = (Some a', None)
    \<and> SelectedRunner a \<noteq> SelectedRunner a'"
proof -
  let ?e = "\<lambda>rid u. entry zero_Work zero_Node std_visit (demo_runner rid u)"
  let ?a = "?e ''r3'' f_zero" and ?b = "?e ''r2'' (f_lit 4 1000000000)" and ?c = "?e ''r1'' (f_lit 8 1000000000)"
  let ?rs = "map el_runner [?a, ?b, ?c]"
  have close: "\<not> f_gt (f_abs f_zero) eps"
    by (simp add: f_eval eps_def)
  have ba: "runnerLess ?b ?a" and cb: "runnerLess ?c ?b" and bc: "\<not> runnerLess ?b ?c" and ac: "runnerLess ?a ?c"
    by (simp_all add: runnerLess_def demo_totals f_sub_self [of 0 "- 1074", folded f_zero_def] close)
      (simp_all add: f_eval eps_def)
  have "best_scan None (entries (\<lambda>_. std_visit) zero_Work zero_Node 0 ?rs) = Some ?c"
    using ba cb by (simp add: demo_entries)
  then obtain a where a: "Select (\<lambda>_. std_visit) (Some zero_Work) (Some zero_Node) ?rs = (Some a, None)"
    "SelectedRunner a = Some (demo_runner ''r1'' (f_lit 8 1000000000))"
    using Select_by_scan by fastforce
  have "best_scan None (entries (\<lambda>_. std_visit) zero_Work zero_Node 0 (rev ?rs)) = Some ?a"
    using bc ac by (simp add: demo_entries)
  then obtain a' where a': "Select (\<lambda>_. std_visit) (Some zero_Work) (Some zero_Node) (rev ?rs) = (Some a', None)"
    "SelectedRunner a' = Some (demo_runner ''r3'' f_zero)"
    using Select_by_scan by fastforce
  have "SelectedRunner a \<noteq> SelectedRunner a'" "distinct (map RunnerID ?rs)"
    using a(2) a'(2) by (auto dest: arg_cong [of _ _ RunnerID])
  with a(1) a'(1) show ?thesis by blast
qed

section \<open>Witnesses\<close>

abbreviation demo_pool :: "Runner list" where
  "demo_pool \<equiv> [demo_runner ''r1'' f_zero, demo_runner ''r2'' (f_of_int 1)]"

lemma demo_ranked:
  "ranked (\<lambda>r. if RunnerID r = ''r1'' then 1 else 0) (\<lambda>r. 0)
     (set (entries (\<lambda>_. std_visit) zero_Work zero_Node 0 demo_pool)
      \<union> set (entries (\<lambda>_. swapped_visit) zero_Work zero_Node 0 (rev demo_pool)))"
proof -
  have zero: "\<not> apart f_zero f_zero"
    by (simp add: apart_def f_eval eps_def)
  have diffs: "apart (Fin 5674535530486825 (- 53)) (Fin 8646911284551352 (- 54))"
    "apart (Fin 5674535530486826 (- 53)) (Fin 8646911284551352 (- 54))"
    "apart (Fin 8646911284551352 (- 54)) (Fin 5674535530486825 (- 53))"
    "apart (Fin 8646911284551352 (- 54)) (Fin 5674535530486826 (- 53))"
    "\<not> apart (Fin 5674535530486825 (- 53)) (Fin 5674535530486826 (- 53))"
    "\<not> apart (Fin 5674535530486826 (- 53)) (Fin 5674535530486825 (- 53))"
    "\<not> apart (Fin 5674535530486826 (- 53)) (Fin 5674535530486826 (- 53))"
    "\<not> apart (Fin 5674535530486825 (- 53)) (Fin 5674535530486825 (- 53))"
    "\<not> apart (Fin 8646911284551352 (- 54)) (Fin 8646911284551352 (- 54))"
    by (simp_all add: apart_def f_eval eps_def)
  have gts: "f_gt (Fin 5674535530486825 (- 53)) (Fin 8646911284551352 (- 54))"
    "f_gt (Fin 5674535530486826 (- 53)) (Fin 8646911284551352 (- 54))"
    by (simp_all add: f_gt_def)
  show ?thesis
    by (simp add: ranked_def Let_def demo_entries demo_totals demo_totals_swapped zero diffs gts)
qed

lemma demo_select:
  "\<exists>a. Select (\<lambda>_. std_visit) (Some zero_Work) (Some zero_Node) demo_pool = (Some a, None)"
  by (simp add: Select_def filter_pass_eq demo_entries Let_def)

theorem selected_runner_meets_requirements_witness:
  "\<exists>a r. Select (\<lambda>_. std_visit) (Some zero_Work) (Some zero_Node) demo_pool = (Some a, None)
    \<and> SelectedRunner a = Some r \<and> meets_requirements zero_Work zero_Node r"
  using demo_select selected_runner_meets_requirements by blast

theorem decision_record_accounts_for_pool_witness:
  "\<exists>a. Select (\<lambda>_. std_visit) (Some zero_Work) (Some zero_Node) demo_pool = (Some a, None)
    \<and> PoolSize a = 2 \<and> EligibleCount a = 2"
  using decision_record_accounts_for_pool [of demo_pool "\<lambda>_. std_visit" zero_Work zero_Node]
  by (auto simp flip: hardFilter_pass_iff)

theorem fallback_never_reported_witness:
  "\<exists>a. Select (\<lambda>_. std_visit) (Some zero_Work) (Some zero_Node) demo_pool = (Some a, None)
    \<and> FallbackReason a = []"
  using demo_select fallback_never_reported by blast

theorem selection_independent_of_order_witness:
  "\<exists>a a' r. Select (\<lambda>_. std_visit) (Some zero_Work) (Some zero_Node) demo_pool = (Some a, None)
    \<and> Select (\<lambda>_. swapped_visit) (Some zero_Work) (Some zero_Node) (rev demo_pool) = (Some a', None)
    \<and> SelectedRunner a = Some r \<and> SelectedRunner a' = Some r"
proof -
  obtain a where a: "Select (\<lambda>_. std_visit) (Some zero_Work) (Some zero_Node) demo_pool = (Some a, None)"
    using demo_select by blast
  have "mset demo_pool = mset (rev demo_pool)" "distinct (map RunnerID demo_pool)"
    by simp_all
  from selection_independent_of_order [OF this demo_ranked a] a show ?thesis by blast
qed

end
