(* ===== verification/Admission.thy ===== *)
theory Admission
  imports Workgraph
begin

text \<open>
  Admission control, \<^verbatim>\<open>internal/manifest/admission.go\<close>: before a Work is persisted every node gets safe
  defaults for what it does not declare and is rejected when it declares a permission, side effect,
  retry policy or cache scope outside the allow-lists.
\<close>

section \<open>Model\<close>

definition DefaultTimeoutSeconds :: int where "DefaultTimeoutSeconds = 600"
definition DefaultRetryMaxAttempts :: int where "DefaultRetryMaxAttempts = 2"
definition DefaultBackoff :: string where "DefaultBackoff = ''exponential''"
definition DefaultCacheScope :: string where "DefaultCacheScope = ''organization''"

definition AllowedPermissions :: "string list" where
  "AllowedPermissions = [''read'', ''write'', ''execute'', ''network'', ''secrets'', ''privileged'']"

definition AllowedSideEffects :: "string list" where
  "AllowedSideEffects = [''network_egress'', ''filesystem_write'', ''deployment'',
     ''secret_consumption'', ''external_api_call'', ''state_mutation'']"

definition AllowedBackoffs :: "string list" where
  "AllowedBackoffs = [''none'', ''linear'', ''exponential'']"

definition AllowedCacheScopes :: "string list" where
  "AllowedCacheScopes = [''worker-local'', ''organization'', ''global'']"

text \<open>The three sentinel errors with the node and the offending value; \<open>ErrInvalidCapability\<close> also
  covers the whole-graph refusals, with an empty node id.\<close>

datatype admission_error =
    ErrUndeclaredPermission string string
  | ErrUndeclaredSideEffect string string
  | ErrInvalidCapability string

fun contains :: "string list \<Rightarrow> string \<Rightarrow> bool" where
  "contains [] v = False"
| "contains (s # ss) v = (if s = v then True else contains ss v)"

text \<open>The first element that is not on the allow-list (a loop with an early return).\<close>

fun first_disallowed :: "string list \<Rightarrow> string list \<Rightarrow> string option" where
  "first_disallowed allowed [] = None"
| "first_disallowed allowed (p # ps) =
     (if \<not> contains allowed p then Some p else first_disallowed allowed ps)"

definition enrich_retries :: "RetrySpec option \<Rightarrow> RetrySpec option" where
  "enrich_retries ro = (case ro of
       None \<Rightarrow> Some \<lparr>MaxAttempts = DefaultRetryMaxAttempts, Backoff = DefaultBackoff, RetryOn = []\<rparr>
     | Some r \<Rightarrow>
         if MaxAttempts r < 1 \<or> MaxAttempts r > 5 then None
         else let r' = (if Backoff r = [] then r\<lparr>Backoff := DefaultBackoff\<rparr> else r) in
           if \<not> contains AllowedBackoffs (Backoff r') then None else Some r')"

definition enrich_cache :: "CacheSpec option \<Rightarrow> CacheSpec option" where
  "enrich_cache co = (case co of
       None \<Rightarrow> Some \<lparr>Enabled = False, KeyInputs = [], Scope = DefaultCacheScope\<rparr>
     | Some c \<Rightarrow>
         if Scope c = [] then Some (c\<lparr>Scope := DefaultCacheScope\<rparr>)
         else if \<not> contains AllowedCacheScopes (Scope c) then None else Some c)"

definition validateAndEnrichNode :: "string \<Rightarrow> Node \<Rightarrow> admission_error + Node" where
  "validateAndEnrichNode nid n =
     (if Run n = [] then Inl (ErrInvalidCapability nid)
      else let n = (if TimeoutS n = 0 then n\<lparr>TimeoutS := DefaultTimeoutSeconds\<rparr> else n) in
      if TimeoutS n < 1 \<or> TimeoutS n > 86400 then Inl (ErrInvalidCapability nid)
      else let n = (if Permissions n = [] then n\<lparr>Permissions := [''read'']\<rparr> else n) in
      case first_disallowed AllowedPermissions (Permissions n) of
        Some p \<Rightarrow> Inl (ErrUndeclaredPermission nid p)
      | None \<Rightarrow> (case first_disallowed AllowedSideEffects (SideEffects n) of
        Some s \<Rightarrow> Inl (ErrUndeclaredSideEffect nid s)
      | None \<Rightarrow> (case enrich_retries (Retries n) of
        None \<Rightarrow> Inl (ErrInvalidCapability nid)
      | Some r \<Rightarrow> let n = n\<lparr>Retries := Some r\<rparr> in
        (case enrich_cache (node_CacheSpec n) of
          None \<Rightarrow> Inl (ErrInvalidCapability nid)
        | Some c \<Rightarrow> Inr (n\<lparr>node_CacheSpec := Some c\<rparr>)))))"

text \<open>The loop of \<^verbatim>\<open>ValidateAndEnrich\<close>: the graph as written so far and the first error.\<close>

fun enrich_loop :: "Node gomap \<Rightarrow> Node gomap \<Rightarrow> Node gomap \<times> admission_error option" where
  "enrich_loop [] g = (g, None)"
| "enrich_loop ((nid, n) # rest) g =
     (case validateAndEnrichNode nid n of Inl e \<Rightarrow> (g, Some e)
      | Inr n' \<Rightarrow> enrich_loop rest (AList.update nid n' g))"

text \<open>The Work as mutated in place (also when an error is returned) and the error. A nil Work is
  \<open>None\<close>.\<close>

definition ValidateAndEnrich :: "Work option \<Rightarrow> Work option \<times> admission_error option" where
  "ValidateAndEnrich wo = (case wo of None \<Rightarrow> (None, Some (ErrInvalidCapability []))
    | Some w \<Rightarrow> if Graph w = [] then (Some w, Some (ErrInvalidCapability []))
      else case enrich_loop (Graph w) (Graph w) of (g, e) \<Rightarrow> (Some (w\<lparr>Graph := g\<rparr>), e))"

section \<open>What admission guarantees\<close>

text \<open>A node as the rest of the control plane may rely on it.\<close>

definition admitted_node :: "Node \<Rightarrow> bool" where
  "admitted_node n \<longleftrightarrow> Run n \<noteq> [] \<and> 1 \<le> TimeoutS n \<and> TimeoutS n \<le> 86400
     \<and> Permissions n \<noteq> [] \<and> set (Permissions n) \<subseteq> set AllowedPermissions
     \<and> set (SideEffects n) \<subseteq> set AllowedSideEffects
     \<and> (\<exists>r. Retries n = Some r \<and> 1 \<le> MaxAttempts r \<and> MaxAttempts r \<le> 5
            \<and> Backoff r \<in> set AllowedBackoffs)
     \<and> (\<exists>c. node_CacheSpec n = Some c \<and> Scope c \<in> set AllowedCacheScopes)"

lemmas admission_defaults = DefaultTimeoutSeconds_def DefaultRetryMaxAttempts_def DefaultBackoff_def
  DefaultCacheScope_def AllowedPermissions_def AllowedSideEffects_def AllowedBackoffs_def
  AllowedCacheScopes_def

lemma contains_iff [simp]: "contains ss v \<longleftrightarrow> v \<in> set ss"
  by (induction ss) auto

lemma first_disallowed_None [simp]: "first_disallowed allowed ps = None \<longleftrightarrow> set ps \<subseteq> set allowed"
  by (induction ps) auto

lemma enrich_retries_Some:
  "enrich_retries ro = Some r \<Longrightarrow>
     1 \<le> MaxAttempts r \<and> MaxAttempts r \<le> 5 \<and> Backoff r \<in> set AllowedBackoffs"
  by (auto simp: enrich_retries_def Let_def admission_defaults split: option.splits if_splits)

lemma enrich_cache_Some: "enrich_cache co = Some c \<Longrightarrow> Scope c \<in> set AllowedCacheScopes"
  by (auto simp: enrich_cache_def admission_defaults split: option.splits if_splits)

lemma default_ranges [simp]:
  "1 \<le> DefaultTimeoutSeconds" "DefaultTimeoutSeconds \<le> 86400" "''read'' \<in> set AllowedPermissions"
  by (simp_all add: admission_defaults)

lemma validateAndEnrichNode_admitted:
  assumes "validateAndEnrichNode nid n = Inr n'"
  shows "admitted_node n'"
  using assms
  by (auto simp: validateAndEnrichNode_def Let_def admitted_node_def
      dest!: enrich_retries_Some enrich_cache_Some split: if_splits option.splits)

lemma validateAndEnrichNode_keeps:
  assumes "validateAndEnrichNode nid n = Inr n'"
  shows "Run n' = Run n" "Needs n' = Needs n" "SideEffects n' = SideEffects n"
    "node_Evidence n' = node_Evidence n" "Cache n' = Cache n" "Env n' = Env n"
  using assms by (auto simp: validateAndEnrichNode_def Let_def split: if_splits option.splits)

lemma enrich_retries_fixed:
  "1 \<le> MaxAttempts r \<Longrightarrow> MaxAttempts r \<le> 5 \<Longrightarrow> Backoff r \<in> set AllowedBackoffs \<Longrightarrow>
     enrich_retries (Some r) = Some r"
  by (auto simp: enrich_retries_def Let_def AllowedBackoffs_def)

lemma enrich_cache_fixed:
  "Scope c \<in> set AllowedCacheScopes \<Longrightarrow> enrich_cache (Some c) = Some c"
  by (auto simp: enrich_cache_def AllowedCacheScopes_def)

lemma validateAndEnrichNode_fixed:
  assumes "admitted_node n"
  shows "validateAndEnrichNode nid n = Inr n"
proof -
  obtain r c where r: "Retries n = Some r" "enrich_retries (Retries n) = Some r"
    and c: "node_CacheSpec n = Some c" "enrich_cache (node_CacheSpec n) = Some c"
    using assms by (auto simp: admitted_node_def enrich_retries_fixed enrich_cache_fixed)
  have perms: "first_disallowed AllowedPermissions (Permissions n) = None"
    "first_disallowed AllowedSideEffects (SideEffects n) = None"
    using assms by (simp_all add: admitted_node_def)
  have limits: "Run n \<noteq> []" "\<not> TimeoutS n < 1" "\<not> 86400 < TimeoutS n" "TimeoutS n \<noteq> 0" "Permissions n \<noteq> []"
    using assms by (auto simp: admitted_node_def)
  have unchanged: "n\<lparr>TimeoutS := TimeoutS n, Permissions := Permissions n, Retries := Some r,
      node_CacheSpec := Some c\<rparr> = n"
    using r(1) c(1) by (cases n) simp
  show ?thesis
    using perms limits r c unchanged
    by (simp add: validateAndEnrichNode_def Let_def del: first_disallowed_None)
qed

subsection \<open>The loop\<close>

definition node_outcome :: "string \<times> Node \<Rightarrow> string \<times> Node" where
  "node_outcome p = (fst p, case validateAndEnrichNode (fst p) (snd p) of Inl _ \<Rightarrow> snd p | Inr n \<Rightarrow> n)"

definition node_ok :: "string \<times> Node \<Rightarrow> bool" where
  "node_ok p \<longleftrightarrow> \<not> isl (validateAndEnrichNode (fst p) (snd p))"

lemma update_middle:
  "k \<notin> set (keys pre) \<Longrightarrow> AList.update k v (pre @ (k, u) # rest) = pre @ (k, v) # rest"
  by (induction pre) auto

lemma enrich_loop_ok:
  assumes "wf_map (pre @ rest)" and "\<forall>p \<in> set rest. node_ok p"
  shows "enrich_loop rest (pre @ rest) = (pre @ map node_outcome rest, None)"
  using assms
proof (induction rest arbitrary: pre)
  case Nil
  then show ?case by simp
next
  case (Cons p rest)
  obtain nid n where p: "p = (nid, n)" by (cases p)
  with Cons.prems obtain n' where n': "validateAndEnrichNode nid n = Inr n'"
    by (cases "validateAndEnrichNode nid n") (auto simp: node_ok_def)
  have "enrich_loop rest ((pre @ [(nid, n')]) @ rest) = ((pre @ [(nid, n')]) @ map node_outcome rest, None)"
    by (rule Cons.IH) (use Cons.prems p in \<open>auto simp: wf_map_def\<close>)
  moreover have "nid \<notin> set (keys pre)"
    using Cons.prems p by (auto simp: wf_map_def)
  ultimately show ?case
    using p n' by (simp add: update_middle node_outcome_def)
qed

lemma enrich_loop_error:
  "snd (enrich_loop rest g) = None \<Longrightarrow> \<forall>p \<in> set rest. node_ok p"
  by (induction rest g rule: enrich_loop.induct) (auto simp: node_ok_def split: sum.splits)

lemma ValidateAndEnrich_accepts:
  assumes "wf_map (Graph w)"
  shows "snd (ValidateAndEnrich (Some w)) = None \<longleftrightarrow> Graph w \<noteq> [] \<and> (\<forall>p \<in> set (Graph w). node_ok p)"
  using enrich_loop_ok [of "[]" "Graph w"] enrich_loop_error [of "Graph w" "Graph w"] assms
  by (auto simp: ValidateAndEnrich_def split: prod.splits)

lemma ValidateAndEnrich_result:
  assumes "wf_map (Graph w)" and "ValidateAndEnrich (Some w) = (wo, None)"
  shows "wo = Some (w\<lparr>Graph := map node_outcome (Graph w)\<rparr>) \<and> (\<forall>p \<in> set (Graph w). node_ok p)"
proof -
  have ok: "Graph w \<noteq> []" "\<forall>p \<in> set (Graph w). node_ok p"
    using ValidateAndEnrich_accepts [OF assms(1)] assms(2) by simp_all
  then show ?thesis
    using enrich_loop_ok [of "[]" "Graph w"] assms by (simp add: ValidateAndEnrich_def)
qed

lemma node_outcome_admitted: "node_ok p \<Longrightarrow> admitted_node (snd (node_outcome p))"
  by (auto simp: node_ok_def node_outcome_def validateAndEnrichNode_admitted split: sum.splits)

lemma keys_node_outcome [simp]: "map (fst \<circ> node_outcome) g = keys g"
  by (simp add: node_outcome_def)

text \<open>What is admitted: when admission accepts a Work, the persisted graph has the same nodes in
  the same places, every node is within the platform limits (timeout, permissions, side effects,
  retries, backoff, cache scope), and neither its command, dependencies nor declared side effects
  were changed.\<close>

theorem admission_enforces_limits:
  assumes "wf_map (Graph w)" and "ValidateAndEnrich (Some w) = (Some w', None)"
  shows "keys (Graph w') = keys (Graph w)
    \<and> (\<forall>n \<in> snd ` set (Graph w'). admitted_node n)
    \<and> map (\<lambda>(nid, n). (nid, Run n, Needs n, SideEffects n)) (Graph w')
      = map (\<lambda>(nid, n). (nid, Run n, Needs n, SideEffects n)) (Graph w)"
proof -
  have w': "Graph w' = map node_outcome (Graph w)" and ok: "\<forall>p \<in> set (Graph w). node_ok p"
    using ValidateAndEnrich_result [OF assms] by auto
  have "(fst (node_outcome p), Run (snd (node_outcome p)), Needs (snd (node_outcome p)),
      SideEffects (snd (node_outcome p))) = (fst p, Run (snd p), Needs (snd p), SideEffects (snd p))"
    for p
    by (auto simp: node_outcome_def validateAndEnrichNode_keeps split: sum.splits)
  then show ?thesis
    using ok by (auto simp: w' case_prod_unfold node_outcome_admitted)
qed

theorem admission_enforces_limits_witness:
  "let w = zero_Work\<lparr>Graph := [(''build'', zero_Node\<lparr>Run := ''make''\<rparr>)]\<rparr>
   in \<forall>n \<in> snd ` set (Graph (the (fst (ValidateAndEnrich (Some w))))). admitted_node n"
proof -
  let ?w = "zero_Work\<lparr>Graph := [(''build'', zero_Node\<lparr>Run := ''make''\<rparr>)]\<rparr>"
  have wf: "wf_map (Graph ?w)" by (simp add: wf_map_def)
  have "ValidateAndEnrich (Some ?w) = (Some (the (fst (ValidateAndEnrich (Some ?w)))), None)"
    by (simp add: ValidateAndEnrich_def validateAndEnrichNode_def zero_Node_def enrich_retries_def
        enrich_cache_def admission_defaults)
  from admission_enforces_limits [OF wf this] show ?thesis by (simp add: Let_def)
qed

text \<open>Admission is idempotent: admitting an admitted Work again accepts it and changes nothing, so
  the persisted defaults are a fixed point.\<close>

theorem admission_idempotent:
  assumes "wf_map (Graph w)" and "ValidateAndEnrich (Some w) = (Some w', None)"
  shows "ValidateAndEnrich (Some w') = (Some w', None)"
proof -
  have w': "Graph w' = map node_outcome (Graph w)" and ok: "\<forall>p \<in> set (Graph w). node_ok p"
    using ValidateAndEnrich_result [OF assms] by auto
  have "Graph w \<noteq> []"
    using ValidateAndEnrich_accepts [OF assms(1)] assms(2) by simp
  have fixed: "validateAndEnrichNode (fst q) (snd q) = Inr (snd q)" if "q \<in> set (Graph w')" for q
    using that ok by (auto simp: w' intro!: validateAndEnrichNode_fixed node_outcome_admitted)
  then have same: "map node_outcome (Graph w') = Graph w'" and again: "\<forall>q \<in> set (Graph w'). node_ok q"
    by (auto simp: node_outcome_def node_ok_def intro!: map_idI)
  have "wf_map ([] @ Graph w')"
    using assms(1) by (simp add: w' wf_map_def)
  from enrich_loop_ok [OF this again] have "enrich_loop (Graph w') (Graph w') = (Graph w', None)"
    by (simp add: same)
  moreover have "Graph w' \<noteq> []"
    using \<open>Graph w \<noteq> []\<close> by (simp add: w')
  ultimately show ?thesis
    by (simp add: ValidateAndEnrich_def)
qed

theorem admission_idempotent_witness:
  "let w' = the (fst (ValidateAndEnrich (Some (zero_Work\<lparr>Graph := [(''build'', zero_Node\<lparr>Run := ''make''\<rparr>)]\<rparr>))))
   in ValidateAndEnrich (Some w') = (Some w', None)"
proof -
  let ?w = "zero_Work\<lparr>Graph := [(''build'', zero_Node\<lparr>Run := ''make''\<rparr>)]\<rparr>"
  have wf: "wf_map (Graph ?w)" by (simp add: wf_map_def)
  have "ValidateAndEnrich (Some ?w) = (Some (the (fst (ValidateAndEnrich (Some ?w)))), None)"
    by (simp add: ValidateAndEnrich_def validateAndEnrichNode_def zero_Node_def enrich_retries_def
        enrich_cache_def admission_defaults)
  from admission_idempotent [OF wf this] show ?thesis by (simp add: Let_def)
qed

end
