(* ===== verification/Budget_Ledger.thy ===== *)
theory Budget_Ledger
  imports Workgraph
begin

text \<open>
  The budget ledger of a mission (type \<^verbatim>\<open>BudgetLedger\<close> of \<^verbatim>\<open>packages/workgraph/workgraph.go\<close>): amounts
  reserved and consumed against a ceiling, a metering clock that runs, is paused while a human is
  asked, or is stopped for good, and late provider bills that are recorded but never metered.
\<close>

record LateBill =
  AmountEUR :: float64
  lb_Reason :: string

record BudgetLedger =
  bl_WorkID :: string
  Ceiling :: BudgetCeiling
  Reserved :: float64
  Consumed :: float64
  ClockState :: string
  HardStop :: string
  LateBillEntries :: "LateBill list"

definition CanReserve :: "BudgetLedger \<Rightarrow> float64 \<Rightarrow> bool" where
  "CanReserve b delta =
     f_le (f_add (Reserved b) delta) (f_add (ComputeEUR (Ceiling b)) (f_lit 1 1000000000))"

text \<open>\<^verbatim>\<open>Consume\<close> returns the ledger as mutated and whether the hard stop was hit.\<close>

definition Consume :: "BudgetLedger \<Rightarrow> float64 \<Rightarrow> BudgetLedger \<times> bool" where
  "Consume b delta =
     (if ClockState b = ''STOPPED'' then (b, False)
      else if ClockState b = ''PAUSED_WAITING_HUMAN'' then (b, False)
      else if f_ge (f_add (Consumed b) delta) (ComputeEUR (Ceiling b)) then
        (b\<lparr>Consumed := ComputeEUR (Ceiling b), ClockState := ''STOPPED'', HardStop := ''compute''\<rparr>, True)
      else (b\<lparr>Consumed := f_add (Consumed b) delta\<rparr>, False))"

definition PauseClock :: "BudgetLedger \<Rightarrow> BudgetLedger" where
  "PauseClock b = (if ClockState b = ''RUNNING'' then b\<lparr>ClockState := ''PAUSED_WAITING_HUMAN''\<rparr> else b)"

definition ResumeClock :: "BudgetLedger \<Rightarrow> BudgetLedger" where
  "ResumeClock b = (if ClockState b = ''PAUSED_WAITING_HUMAN'' then b\<lparr>ClockState := ''RUNNING''\<rparr> else b)"

definition RecordLateBill :: "BudgetLedger \<Rightarrow> float64 \<Rightarrow> string \<Rightarrow> BudgetLedger" where
  "RecordLateBill b amount reason =
     b\<lparr>LateBillEntries := LateBillEntries b @ [\<lparr>AmountEUR = amount, lb_Reason = reason\<rparr>]\<rparr>"

text \<open>A call on the ledger, and its effect.\<close>

datatype ledger_call = CallConsume float64 | CallPause | CallResume | CallLateBill float64 string

fun exec_ledger :: "ledger_call \<Rightarrow> BudgetLedger \<Rightarrow> BudgetLedger" where
  "exec_ledger (CallConsume d) b = fst (Consume b d)"
| "exec_ledger CallPause b = PauseClock b"
| "exec_ledger CallResume b = ResumeClock b"
| "exec_ledger (CallLateBill a r) b = RecordLateBill b a r"

text \<open>
  What the ledger promises: consumption is never reported above the ceiling, and a ledger whose
  clock the meter stopped reports exactly the ceiling.
\<close>

definition within_ceiling :: "BudgetLedger \<Rightarrow> bool" where
  "within_ceiling b \<longleftrightarrow> \<not> f_gt (Consumed b) (ComputeEUR (Ceiling b))
     \<and> (HardStop b = ''compute'' \<longrightarrow>
          ClockState b = ''STOPPED'' \<and> Consumed b = ComputeEUR (Ceiling b))"

lemmas ledger_defs = Consume_def PauseClock_def ResumeClock_def RecordLateBill_def

interpretation ledger: invariant_ops exec_ledger within_ceiling
proof
  fix b call
  assume inv: "within_ceiling b"
  show "within_ceiling (exec_ledger call b)"
  proof (cases call)
    case (CallConsume d)
    with inv show ?thesis
      by (auto simp: within_ceiling_def Consume_def f_gt_def f_ge_def dest: f_lt_not_nan f_lt_trans)
  qed (use inv in \<open>auto simp: within_ceiling_def ledger_defs\<close>)
qed

lemma exec_ledger_stopped:
  "ClockState b = ''STOPPED'' \<Longrightarrow>
     exec_ledger call b = b\<lparr>LateBillEntries := LateBillEntries (exec_ledger call b)\<rparr>"
  by (cases call) (auto simp: ledger_defs)

lemma exec_ledger_ceiling [frame]: "Ceiling (exec_ledger call b) = Ceiling b"
  by (cases call) (auto simp: ledger_defs)

text \<open>C4. Along any sequence of ledger calls, whatever amounts are metered (rounding, infinities and
  NaN included), consumption is never reported above the ceiling, and once the compute hard stop has
  been flagged the clock stays stopped at exactly the ceiling.\<close>

theorem ledger_never_exceeds_ceiling:
  assumes "within_ceiling b"
  shows "\<not> f_gt (Consumed (fold exec_ledger calls b)) (ComputeEUR (Ceiling b))
    \<and> (HardStop (fold exec_ledger calls b) = ''compute'' \<longrightarrow>
         ClockState (fold exec_ledger calls b) = ''STOPPED''
         \<and> Consumed (fold exec_ledger calls b) = ComputeEUR (Ceiling b))"
proof -
  have "Ceiling (fold exec_ledger calls b) = Ceiling b"
    by (induction calls arbitrary: b) (simp_all add: frame)
  then show ?thesis
    using ledger.inv_run [OF assms, of calls] by (simp add: within_ceiling_def)
qed

theorem ledger_never_exceeds_ceiling_witness:
  "let b = fold exec_ledger [CallConsume (f_lit 1 20), CallConsume (f_lit 1 5)]
           \<lparr>bl_WorkID = ''w'', Ceiling = \<lparr>ComputeEUR = f_lit 1 10, WallClockH = f_zero\<rparr>, Reserved = f_zero,
            Consumed = f_zero, ClockState = ''RUNNING'', HardStop = [], LateBillEntries = []\<rparr>
   in \<not> f_gt (Consumed b) (f_lit 1 10) \<and> HardStop b = ''compute''"
proof -
  let ?b = "\<lparr>bl_WorkID = ''w'', Ceiling = \<lparr>ComputeEUR = f_lit 1 10, WallClockH = f_zero\<rparr>, Reserved = f_zero,
            Consumed = f_zero, ClockState = ''RUNNING'', HardStop = [], LateBillEntries = []\<rparr>"
  have "within_ceiling ?b"
    by (simp add: within_ceiling_def f_eval)
  note run = ledger_never_exceeds_ceiling [OF this, of "[CallConsume (f_lit 1 20), CallConsume (f_lit 1 5)]"]
  have half: "f_add f_zero (f_lit 1 20) = f_lit 1 20" "\<not> f_ge (f_lit 1 20) (f_lit 1 10)"
    and full: "f_ge (f_add (f_lit 1 20) (f_lit 1 5)) (f_lit 1 10)"
    by (simp_all add: f_eval)
  show ?thesis
    using run by (simp add: Consume_def half full Let_def)
qed

text \<open>A stopped clock never meters again: after a stop, no sequence of calls changes anything but
  the list of late bills, which only grows.\<close>

theorem stopped_ledger_only_collects_late_bills:
  assumes "ClockState b = ''STOPPED''"
  shows "\<exists>bills. fold exec_ledger calls b = b\<lparr>LateBillEntries := LateBillEntries b @ bills\<rparr>"
  using assms
proof (induction calls arbitrary: b)
  case Nil
  then show ?case by (intro exI [of _ "[]"]) simp
next
  case (Cons call calls)
  let ?b = "exec_ledger call b"
  obtain new where new: "LateBillEntries ?b = LateBillEntries b @ new"
    by (cases call) (use Cons.prems in \<open>auto simp: ledger_defs\<close>)
  have stopped: "?b = b\<lparr>LateBillEntries := LateBillEntries b @ new\<rparr>"
    using exec_ledger_stopped [OF Cons.prems, of call] new by simp
  moreover have "ClockState ?b = ''STOPPED''"
    using Cons.prems by (subst stopped) simp
  then obtain bills where "fold exec_ledger calls ?b = ?b\<lparr>LateBillEntries := LateBillEntries ?b @ bills\<rparr>"
    using Cons.IH by blast
  ultimately show ?case
    by (intro exI [of _ "new @ bills"]) simp
qed

theorem stopped_ledger_only_collects_late_bills_witness:
  "\<exists>bills. fold exec_ledger [CallResume, CallLateBill f_zero ''late'', CallConsume (f_lit 1 1)]
      \<lparr>bl_WorkID = ''w'', Ceiling = \<lparr>ComputeEUR = f_zero, WallClockH = f_zero\<rparr>, Reserved = f_zero,
       Consumed = f_zero, ClockState = ''STOPPED'', HardStop = ''compute'', LateBillEntries = []\<rparr>
    = \<lparr>bl_WorkID = ''w'', Ceiling = \<lparr>ComputeEUR = f_zero, WallClockH = f_zero\<rparr>, Reserved = f_zero,
       Consumed = f_zero, ClockState = ''STOPPED'', HardStop = ''compute'', LateBillEntries = bills\<rparr>"
  using stopped_ledger_only_collects_late_bills
    [of "\<lparr>bl_WorkID = ''w'', Ceiling = \<lparr>ComputeEUR = f_zero, WallClockH = f_zero\<rparr>, Reserved = f_zero,
       Consumed = f_zero, ClockState = ''STOPPED'', HardStop = ''compute'', LateBillEntries = []\<rparr>"
     "[CallResume, CallLateBill f_zero ''late'', CallConsume (f_lit 1 1)]"]
  by auto

end
