(* ===== verification/Work_Store.thy ===== *)
theory Work_Store
  imports Workgraph
begin

text \<open>
  The durable store (\<^verbatim>\<open>services/work/store\<close>): its tables as one record, the journal of Work events
  (\<^verbatim>\<open>events.go\<close>), the audit stream it emits (\<^verbatim>\<open>services/audit/cloud_events.go\<close>), and the canonical operations
  on Works, attempts, evidence, artifacts, provenance and webhooks (\<^verbatim>\<open>store.go\<close>, \<^verbatim>\<open>work_idempotency.go\<close>).

  The store has one write connection, so each call is one atomic step on the tables; a call that
  rolls back returns the tables unchanged. Columns that hold JSON or a timestamp are kept decoded:
  \<^verbatim>\<open>encoding/json\<close> and the RFC3339 format are exact on the values the store writes. Columns a table does not have are
  erased when a row is written (\<open>attempt_columns\<close>, \<open>evidence_columns\<close>). Constraints (primary keys, \<^verbatim>\<open>UNIQUE\<close>,
  foreign keys) fail as in SQLite; other failures of the database are not modelled, nor is the panic of \<^verbatim>\<open>mustJSON\<close> on a NaN or an infinity,
  which no decoded request contains.

  The clock and the random source are arguments: \<open>env\<close> gives the value of every read of the clock and of every
  random identifier, indexed by the path of calls that reaches it, so that the theorems hold for all
  clocks and all identifiers, colliding ones included.
\<close>

section \<open>Environment and results\<close>

record env =
  nows :: "nat list \<Rightarrow> time"
  idents :: "nat list \<Rightarrow> nat list"

definition Now :: "env \<Rightarrow> nat \<Rightarrow> time" where
  "Now e i = nows e [i]"

definition fresh :: "env \<Rightarrow> nat \<Rightarrow> string \<Rightarrow> string" where
  "fresh e i prefix = NewID prefix (idents e [i])"

text \<open>The environment of the \<open>i\<close>-th call made by an operation.\<close>

definition call :: "nat \<Rightarrow> env \<Rightarrow> env" where
  "call i e = \<lparr>nows = (\<lambda>p. nows e (i # p)), idents = (\<lambda>p. idents e (i # p))\<rparr>"

datatype store_error =
    ErrNotFound
  | ErrIdempotencyConflict
  | ErrLeaseConflict
  | ErrLeaseNotActive
  | ErrTerminalWork State
  | ErrRequired string
  | ErrConstraint string
  | ErrInvalid work_error
  | ErrLeaseTransition LeaseStatus LeaseStatus
  | ErrCorruptHandoff
  | ErrNoHandoff
  | ErrStaleHandoff
  | ErrReconciliationRequired
  | ErrInvalidReconciliationCheckpoint
  | ErrEventEmission store_error
  | ErrEncoding
  | ErrInvalidJSON

type_synonym 'a result = "store_error + 'a"

section \<open>Tables\<close>

record attempt_row =
  ar_work :: string
  ar_attempt :: Attempt
  ar_lease :: string

record handoff_row =
  ho_ID :: string
  ho_WorkID :: string
  ho_ToState :: State
  ho_PayloadHash :: string
  ho_Payload :: string
  ho_CreatedAt :: time

text \<open>The bytes of a \<^verbatim>\<open>json.RawMessage\<close>: empty, text that is not JSON, or the text of a JSON value.\<close>

datatype raw_message = RawEmpty | RawInvalid string | RawJSON json

record WorkEvent =
  Sequence :: int
  we_ID :: string
  we_WorkID :: string
  we_Type :: string
  ObservedAt :: time
  Data :: raw_message

record CloudEvent =
  ce_ID :: string
  ce_Time :: time
  ce_Type :: string
  ce_Subject :: string
  ce_WorkID :: string
  FromState :: string
  ToState :: string
  ce_CorrelationID :: string

record Provenance =
  pv_WorkID :: string
  Attestation :: string
  Signature :: string
  KeyID :: string
  BuilderID :: string
  ProducedAt :: time

record webhook_row =
  wh_DeliveryID :: string
  wh_Event :: string
  wh_WorkID :: string
  wh_ReceivedAt :: time
  wh_Body :: string

record db =
  works :: "Work list"
  attempts :: "attempt_row list"
  artifacts :: "(string \<times> Artifact) list"
  evidences :: "(string \<times> Evidence) list"
  leases :: "Lease list"
  handoffs :: "handoff_row list"
  events :: "WorkEvent list"
  next_seq :: int
  audits :: "CloudEvent list"
  provenances :: "Provenance list"
  webhooks :: "webhook_row list"

definition empty_db :: db where
  "empty_db = \<lparr>works = [], attempts = [], artifacts = [], evidences = [], leases = [], handoffs = [],
     events = [], next_seq = 1, audits = [], provenances = [], webhooks = []\<rparr>"

text \<open>The columns of \<^verbatim>\<open>works\<close>, \<^verbatim>\<open>work_attempts\<close> and \<^verbatim>\<open>work_evidence\<close>.\<close>

definition work_columns :: "Work \<Rightarrow> Work" where
  "work_columns w = w\<lparr>Attempts := [], Artifacts := [], work_Evidence := []\<rparr>"

definition attempt_columns :: "Attempt \<Rightarrow> Attempt" where
  "attempt_columns a = a\<lparr>ArtifactIDs := []\<rparr>"

definition evidence_columns :: "Evidence \<Rightarrow> Evidence" where
  "evidence_columns e = e\<lparr>Hash := []\<rparr>"

fun state_text :: "State \<Rightarrow> string" where
  "state_text StateCreated = ''CREATED''"
| "state_text StatePlanning = ''PLANNING''"
| "state_text StateQueued = ''QUEUED''"
| "state_text StateRunning = ''RUNNING''"
| "state_text StateVerifying = ''VERIFYING''"
| "state_text StateSucceeded = ''SUCCEEDED''"
| "state_text StateBlocked = ''BLOCKED''"
| "state_text StateFailed = ''FAILED''"
| "state_text StateCancelled = ''CANCELLED''"
| "state_text StateWaitingHuman = ''WAITING_HUMAN''"
| "state_text StateSuspended = ''SUSPENDED''"
| "state_text StateBudgetExhausted = ''BUDGET_EXHAUSTED''"
| "state_text (StateOther s) = s"

definition get_row :: "string \<Rightarrow> db \<Rightarrow> Work option" where
  "get_row wid db = find_row work_ID wid (works db)"

definition set_state :: "string \<Rightarrow> State \<Rightarrow> time \<Rightarrow> db \<Rightarrow> db" where
  "set_state wid s t db =
     db\<lparr>works := update_where (\<lambda>w. work_ID w = wid) (\<lambda>w. w\<lparr>work_State := s, UpdatedAt := t\<rparr>) (works db)\<rparr>"

definition touch :: "string \<Rightarrow> time \<Rightarrow> db \<Rightarrow> db" where
  "touch wid t db =
     db\<lparr>works := update_where (\<lambda>w. work_ID w = wid) (\<lambda>w. w\<lparr>UpdatedAt := t\<rparr>) (works db)\<rparr>"

section \<open>The event journal\<close>

definition EventWorkCreated :: string where "EventWorkCreated = ''work.created''"
definition EventWorkStateChanged :: string where "EventWorkStateChanged = ''work.state.changed''"
definition EventActivityAttempt :: string where "EventActivityAttempt = ''activity.attempt.changed''"
definition EventEvidenceRecorded :: string where "EventEvidenceRecorded = ''evidence.recorded''"
definition EventArtifactCreated :: string where "EventArtifactCreated = ''artifact.created''"
definition EventWorkerLeaseGranted :: string where "EventWorkerLeaseGranted = ''worker.lease.granted''"
definition EventWorkerLeaseRenewed :: string where "EventWorkerLeaseRenewed = ''worker.lease.renewed''"
definition EventWorkerLeaseRelease :: string where "EventWorkerLeaseRelease = ''worker.lease.released''"
definition EventWorkerLeaseRevoke :: string where "EventWorkerLeaseRevoke = ''worker.lease.revoked''"
definition EventWorkerLeaseDone :: string where "EventWorkerLeaseDone = ''worker.lease.completed''"
definition EventWorkWaitingHuman :: string where "EventWorkWaitingHuman = ''work.waiting_human''"
definition EventWorkSuspended :: string where "EventWorkSuspended = ''work.suspended''"
definition EventWorkResumed :: string where "EventWorkResumed = ''work.resumed''"

definition getWorkEventByID :: "string \<Rightarrow> db \<Rightarrow> WorkEvent result" where
  "getWorkEventByID eid db = (case find_row we_ID eid (events db) of
     None \<Rightarrow> Inl ErrNotFound | Some ev \<Rightarrow> Inr ev)"

definition AppendWorkEvent :: "env \<Rightarrow> WorkEvent \<Rightarrow> db \<Rightarrow> WorkEvent result \<times> db" where
  "AppendWorkEvent e event db =
     (if we_ID event = [] then (Inl (ErrRequired ''event.ID''), db)
      else if we_WorkID event = [] then (Inl (ErrRequired ''event.WorkID''), db)
      else if we_Type event = [] then (Inl (ErrRequired ''event.Type''), db)
      else let obs = (if IsZero (ObservedAt event) then Now e 0 else ObservedAt event);
          data = (if Data event = RawEmpty then RawJSON (JObj []) else Data event) in
      case data of
        RawEmpty \<Rightarrow> (Inl ErrInvalidJSON, db)
      | RawInvalid s \<Rightarrow> (Inl ErrInvalidJSON, db)
      | RawJSON j \<Rightarrow>
        (if get_row (we_WorkID event) db \<noteq> None \<and> find_row we_ID (we_ID event) (events db) = None then
           let db' = db\<lparr>events := events db @
               [event\<lparr>Sequence := next_seq db, ObservedAt := obs, Data := RawJSON j\<rparr>],
               next_seq := next_seq db + 1\<rparr>
           in (getWorkEventByID (we_ID event) db', db')
         else case getWorkEventByID (we_ID event) db of
             Inl _ \<Rightarrow> (Inl ErrNotFound, db)
           | Inr existing \<Rightarrow>
               if we_WorkID existing \<noteq> we_WorkID event then
                 (if get_row (we_WorkID event) db = None then (Inl ErrNotFound, db) else (Inr existing, db))
               else (getWorkEventByID (we_ID event) db, db)))"

text \<open>\<^verbatim>\<open>emitJournalEvent\<close> (and \<^verbatim>\<open>journalWorkEvent\<close>, which only calls it).\<close>

definition emitJournalEvent ::
  "env \<Rightarrow> string \<Rightarrow> string \<Rightarrow> string \<Rightarrow> (string \<times> json) list \<Rightarrow> db \<Rightarrow> unit result \<times> db" where
  "emitJournalEvent e eid wid typ data db =
     (case AppendWorkEvent (call 0 e) \<lparr>Sequence = 0, we_ID = eid, we_WorkID = wid, we_Type = typ,
         ObservedAt = Now e 0, Data = RawJSON (JObj data)\<rparr> db of
        (Inl x, db') \<Rightarrow> (Inl (ErrEventEmission x), db')
      | (Inr _, db') \<Rightarrow> (Inr (), db'))"

definition journalWorkEvent ::
  "env \<Rightarrow> string \<Rightarrow> string \<Rightarrow> (string \<times> json) list \<Rightarrow> db \<Rightarrow> unit result \<times> db" where
  "journalWorkEvent e wid typ data db = emitJournalEvent (call 0 e) (fresh e 0 ''evt'') wid typ data db"

definition ListWorkEventsAfter :: "string \<Rightarrow> int \<Rightarrow> int \<Rightarrow> db \<Rightarrow> WorkEvent list" where
  "ListWorkEventsAfter wid after limit db =
     (let limit = (if limit < 1 then 1 else limit); limit = (if limit > 1000 then 1000 else limit)
      in take (nat limit) (sort_key Sequence
           (filter (\<lambda>ev. we_WorkID ev = wid \<and> Sequence ev > after) (events db))))"

text \<open>\<^verbatim>\<open>workEventBoundary\<close> with the aggregate as an argument; \<open>None\<close> of the aggregate is SQL's NULL.\<close>

definition workEventBoundary :: "(int list \<Rightarrow> int option) \<Rightarrow> string \<Rightarrow> db \<Rightarrow> int result" where
  "workEventBoundary agg wid db =
     (if get_row wid db = None then Inl ErrNotFound
      else case agg (map Sequence (filter (\<lambda>ev. we_WorkID ev = wid) (events db))) of
        None \<Rightarrow> Inr 0 | Some s \<Rightarrow> Inr s)"

definition OldestWorkEventSequence :: "string \<Rightarrow> db \<Rightarrow> int result" where
  "OldestWorkEventSequence = workEventBoundary (\<lambda>xs. if xs = [] then None else Some (Min (set xs)))"

definition LatestWorkEventSequence :: "string \<Rightarrow> db \<Rightarrow> int result" where
  "LatestWorkEventSequence = workEventBoundary (\<lambda>xs. if xs = [] then None else Some (Max (set xs)))"

section \<open>The audit stream\<close>

definition TypeWorkCreated :: string where "TypeWorkCreated = ''com.works-execution.work.created''"
definition TypeWorkStateChanged :: string where
  "TypeWorkStateChanged = ''com.works-execution.work.state_changed''"

text \<open>\<^verbatim>\<open>SQLiteEmitter.Emit\<close>. An event is kept without its constant attributes and without its payload, which
  repeats the other fields; the boundary check before it accepts every event. Its error is dropped by \<^verbatim>\<open>auditEmit\<close>.\<close>

definition Emit :: "CloudEvent \<Rightarrow> db \<Rightarrow> unit result \<times> db" where
  "Emit ev db =
     (if ce_ID ev = [] then (Inl (ErrRequired ''event ID''), db)
      else if ce_Type ev = [] then (Inl (ErrRequired ''event type''), db)
      else if find_row ce_ID (ce_ID ev) (audits db) \<noteq> None then (Inl (ErrConstraint ''work_audit_events''), db)
      else (Inr (), db\<lparr>audits := audits db @ [ev]\<rparr>))"

definition auditEmit :: "CloudEvent \<Rightarrow> db \<Rightarrow> db" where
  "auditEmit ev db = snd (Emit ev db)"

record ListFilter =
  Since :: time
  Until :: time
  lf_WorkID :: string
  lf_Type :: string
  Limit :: int

definition Query :: "ListFilter \<Rightarrow> db \<Rightarrow> CloudEvent list" where
  "Query f db =
     (let limit = (if Limit f \<le> 0 \<or> Limit f > 1000 then 200 else Limit f)
      in take (nat limit) (sort_key (\<lambda>ev. (rfc_key (ce_Time ev), ce_ID ev))
        (filter (\<lambda>ev. (IsZero (Since f) \<or> \<not> text_before (ce_Time ev) (Since f))
            \<and> (IsZero (Until f) \<or> \<not> text_before (Until f) (ce_Time ev))
            \<and> (lf_WorkID f = [] \<or> ce_WorkID ev = lf_WorkID f)
            \<and> (lf_Type f = [] \<or> ce_Type ev = lf_Type f)) (audits db))))"

section \<open>Works\<close>

text \<open>The defaults \<^verbatim>\<open>CreateWork\<close> writes into its argument.\<close>

definition stamp_work :: "env \<Rightarrow> Work \<Rightarrow> Work" where
  "stamp_work e w =
     (let w = (if IsZero (CreatedAt w) then w\<lparr>CreatedAt := Now e 0\<rparr> else w);
          w = w\<lparr>UpdatedAt := Now e 1\<rparr>
      in if work_State w = StateOther [] then w\<lparr>work_State := StateCreated\<rparr> else w)"

definition CreateWork :: "env \<Rightarrow> Work \<Rightarrow> db \<Rightarrow> Work result \<times> db" where
  "CreateWork e w db =
     (if work_ID w = [] then (Inl (ErrRequired ''work.ID''), db)
      else case Validate w of Some x \<Rightarrow> (Inl (ErrInvalid x), db)
      | None \<Rightarrow>
        let w = stamp_work e w
        in case (if IdempotencyKey w = [] then None else find_row IdempotencyKey (IdempotencyKey w) (works db)) of
          Some old \<Rightarrow>
            if work_ID old \<noteq> work_ID w then (Inl ErrIdempotencyConflict, db)
            else if CreationIntentHash w \<noteq> [] \<and>
              (CreationIntentHash old \<noteq> CreationIntentHash w \<or> AdmissionDefaultsJSON old = []
               \<or> QueueRequested w = None \<or> QueueRequested old = None \<or> QueueRequested old \<noteq> QueueRequested w)
              then (Inl ErrIdempotencyConflict, db)
            else (Inr w, db)
        | None \<Rightarrow>
            if get_row (work_ID w) db \<noteq> None then (Inl (ErrConstraint ''works''), db)
            else (Inr w, auditEmit \<lparr>ce_ID = NewID ''evt'' (idents e [0]), ce_Time = Now e 2, ce_Type = TypeWorkCreated,
                ce_Subject = work_ID w, ce_WorkID = work_ID w, FromState = [],
                ToState = state_text (work_State w), ce_CorrelationID = CorrelationID w\<rparr>
              (db\<lparr>works := works db @ [work_columns w]\<rparr>)))"

text \<open>The child rows of a Work in the order both read paths deliver them.\<close>

definition attempts_of :: "string \<Rightarrow> db \<Rightarrow> Attempt list" where
  "attempts_of wid db = order_asc StartedAt (map ar_attempt (filter (\<lambda>r. ar_work r = wid) (attempts db)))"

definition artifacts_of :: "string \<Rightarrow> db \<Rightarrow> Artifact list" where
  "artifacts_of wid db = map snd (filter (\<lambda>r. fst r = wid) (artifacts db))"

definition evidence_of :: "string \<Rightarrow> db \<Rightarrow> Evidence list" where
  "evidence_of wid db = order_asc RecordedAt (map snd (filter (\<lambda>r. fst r = wid) (evidences db)))"

definition GetWork :: "string \<Rightarrow> db \<Rightarrow> Work result" where
  "GetWork wid db = (case get_row wid db of None \<Rightarrow> Inl ErrNotFound
     | Some w \<Rightarrow> Inr (w\<lparr>Attempts := attempts_of wid db, Artifacts := artifacts_of wid db,
         work_Evidence := evidence_of wid db\<rparr>))"

definition UpdateState :: "env \<Rightarrow> string \<Rightarrow> State \<Rightarrow> db \<Rightarrow> Work result \<times> db" where
  "UpdateState e wid to db =
     (case get_row wid db of None \<Rightarrow> (Inl ErrNotFound, db)
      | Some w \<Rightarrow>
        let current = work_State w in
        if \<not> CanTransition current to then (Inl (ErrInvalid (ErrInvalidTransition current to)), db)
        else let db' = auditEmit \<lparr>ce_ID = NewID ''evt'' (idents e [0]), ce_Time = Now e 1,
              ce_Type = TypeWorkStateChanged, ce_Subject = wid, ce_WorkID = wid,
              FromState = state_text current, ToState = state_text to, ce_CorrelationID = []\<rparr>
            (set_state wid to (Now e 0) db)
          in (GetWork wid db', db'))"

text \<open>The upsert of \<^verbatim>\<open>AppendAttempt\<close>; a new row needs an existing Work (foreign key).\<close>

definition AppendAttempt :: "env \<Rightarrow> string \<Rightarrow> Attempt \<Rightarrow> db \<Rightarrow> Work result \<times> db" where
  "AppendAttempt e wid a db =
     (if att_ID a = [] then (Inl (ErrRequired ''attempt.ID''), db)
      else let a = (if IsZero (StartedAt a) then a\<lparr>StartedAt := Now e 0\<rparr> else a) in
      case find_row (\<lambda>r. att_ID (ar_attempt r)) (att_ID a) (attempts db) of
        Some _ \<Rightarrow>
          let db' = touch wid (Now e 1) (db\<lparr>attempts := update_where (\<lambda>r. att_ID (ar_attempt r) = att_ID a)
            (\<lambda>r. r\<lparr>ar_attempt := (ar_attempt r)\<lparr>FinishedAt := FinishedAt a, ExitCode := ExitCode a,
               att_Status := att_Status a, LogRef := LogRef a, att_Error := att_Error a\<rparr>\<rparr>) (attempts db)\<rparr>)
          in (GetWork wid db', db')
      | None \<Rightarrow>
          if get_row wid db = None then (Inl (ErrConstraint ''work_attempts''), db)
          else let db' = touch wid (Now e 1) (db\<lparr>attempts := attempts db @
              [\<lparr>ar_work = wid, ar_attempt = attempt_columns a, ar_lease = []\<rparr>]\<rparr>)
            in (GetWork wid db', db'))"

text \<open>\<^verbatim>\<open>json.Marshal\<close> refuses numbers that are not finite.\<close>

fun json_ok :: "json \<Rightarrow> bool" where
  "json_ok (JNum x) = (case x of Fin _ _ \<Rightarrow> True | _ \<Rightarrow> False)"
| "json_ok (JArr xs) = list_all json_ok xs"
| "json_ok (JObj kvs) = list_all (\<lambda>kv. json_ok (snd kv)) kvs"
| "json_ok _ = True"

definition AppendEvidence :: "env \<Rightarrow> string \<Rightarrow> Evidence \<Rightarrow> db \<Rightarrow> Work result \<times> db" where
  "AppendEvidence e wid ev db =
     (if ev_ID ev = [] then (Inl (ErrRequired ''evidence.ID''), db)
      else let ev = (if IsZero (RecordedAt ev) then ev\<lparr>RecordedAt := Now e 0\<rparr> else ev) in
      if (case Details ev of None \<Rightarrow> False | Some d \<Rightarrow> \<not> json_ok (JObj d)) then (Inl ErrEncoding, db)
      else if get_row wid db = None \<and> find_row (\<lambda>r. ev_ID (snd r)) (ev_ID ev) (evidences db) = None
        then (Inl (ErrConstraint ''work_evidence''), db)
      else let db' = touch wid (Now e 1)
          (db\<lparr>evidences := insert_ignore (\<lambda>r. ev_ID (snd r)) (wid, evidence_columns ev) (evidences db)\<rparr>)
        in (GetWork wid db', db'))"

definition AppendArtifact :: "env \<Rightarrow> string \<Rightarrow> Artifact \<Rightarrow> db \<Rightarrow> Work result \<times> db" where
  "AppendArtifact e wid art db =
     (if art_ID art = [] then (Inl (ErrRequired ''artifact.ID''), db)
      else if get_row wid db = None \<and> find_row (\<lambda>r. (fst r, art_ID (snd r))) (wid, art_ID art) (artifacts db) = None
        then (Inl (ErrConstraint ''work_artifacts''), db)
      else let db' = touch wid (Now e 0)
          (db\<lparr>artifacts := insert_ignore (\<lambda>r. (fst r, art_ID (snd r))) (wid, art) (artifacts db)\<rparr>)
        in (GetWork wid db', db'))"

definition GetWorkByIdempotencyKey :: "string \<Rightarrow> db \<Rightarrow> Work result" where
  "GetWorkByIdempotencyKey key db =
     (if key = [] then Inl ErrNotFound
      else case find_row IdempotencyKey key (works db) of None \<Rightarrow> Inl ErrNotFound
      | Some w \<Rightarrow> GetWork (work_ID w) db)"

section \<open>Lists\<close>

text \<open>The list query does not select the three creation-intent columns.\<close>

definition list_columns :: "Work \<Rightarrow> Work" where
  "list_columns w = w\<lparr>CreationIntentHash := [], AdmissionDefaultsJSON := [], QueueRequested := None\<rparr>"

text \<open>One chunk of \<^verbatim>\<open>hydrateChildren\<close>: three set-based queries, their rows handed to the owning Works.\<close>

definition hydrate_part :: "db \<Rightarrow> string list \<Rightarrow> Work list \<Rightarrow> Work list" where
  "hydrate_part db part ws =
     (let atts = order_asc (\<lambda>r. StartedAt (ar_attempt r)) (filter (\<lambda>r. ar_work r \<in> set part) (attempts db));
          arts = filter (\<lambda>r. fst r \<in> set part) (artifacts db);
          evs = order_asc (\<lambda>r. RecordedAt (snd r)) (filter (\<lambda>r. fst r \<in> set part) (evidences db))
      in map (\<lambda>w. w\<lparr>
           Attempts := Attempts w @ map ar_attempt (filter (\<lambda>r. ar_work r = work_ID w) atts),
           Artifacts := Artifacts w @ map snd (filter (\<lambda>r. fst r = work_ID w) arts),
           work_Evidence := work_Evidence w @ map snd (filter (\<lambda>r. fst r = work_ID w) evs)\<rparr>) ws)"

function hydrateChildren :: "db \<Rightarrow> string list \<Rightarrow> Work list \<Rightarrow> Work list" where
  "hydrateChildren db ids ws =
     (if ids = [] then ws else hydrateChildren db (drop 400 ids) (hydrate_part db (take 400 ids) ws))"
  by auto
termination
  by (relation "measure (\<lambda>(_, ids, _). length ids)") auto

declare hydrateChildren.simps [simp del]

definition listWorksWhere :: "(Work \<Rightarrow> bool) \<Rightarrow> int \<Rightarrow> db \<Rightarrow> Work list" where
  "listWorksWhere p limit db =
     (let ws = map list_columns (take (nat limit) (order_desc UpdatedAt (filter p (works db))))
      in if ws = [] then ws else hydrateChildren db (map work_ID ws) ws)"

definition ListWorks :: "int \<Rightarrow> db \<Rightarrow> Work list" where
  "ListWorks limit db = listWorksWhere (\<lambda>_. True) (if limit \<le> 0 then 50 else limit) db"

definition ListSchedulableWorks :: "int \<Rightarrow> db \<Rightarrow> Work list" where
  "ListSchedulableWorks limit db =
     listWorksWhere (\<lambda>w. work_State w \<in> {StateQueued, StateRunning}) (if limit \<le> 0 then 50 else limit) db"

record WorkSummary =
  ws_ID :: string
  ws_State :: State
  ws_Type :: string
  ws_Repo :: string
  ws_SHA :: string
  ws_UpdatedAt :: time

definition ListWorkSummaries :: "int \<Rightarrow> db \<Rightarrow> WorkSummary list" where
  "ListWorkSummaries limit db =
     map (\<lambda>w. \<lparr>ws_ID = work_ID w, ws_State = work_State w, ws_Type = src_Type (work_Source w),
         ws_Repo = Repository (work_Source w), ws_SHA = SHA (work_Source w), ws_UpdatedAt = UpdatedAt w\<rparr>)
       (take (nat (if limit \<le> 0 then 50 else limit)) (order_desc UpdatedAt (works db)))"

section \<open>Provenance and webhooks\<close>

definition SaveProvenance :: "env \<Rightarrow> Provenance \<Rightarrow> db \<Rightarrow> unit result \<times> db" where
  "SaveProvenance e p db =
     (if pv_WorkID p = [] then (Inl (ErrRequired ''provenance.work_id''), db)
      else if Attestation p = [] then (Inl (ErrRequired ''provenance.attestation''), db)
      else if Signature p = [] then (Inl (ErrRequired ''provenance.signature''), db)
      else let p = (if IsZero (ProducedAt p) then p\<lparr>ProducedAt := Now e 0\<rparr> else p) in
      if KeyID p = [] \<or> BuilderID p = [] then (Inl (ErrConstraint ''work_provenance''), db)
      else case find_row pv_WorkID (pv_WorkID p) (provenances db) of
        Some _ \<Rightarrow> (Inr (), db\<lparr>provenances := update_where (\<lambda>r. pv_WorkID r = pv_WorkID p) (\<lambda>_. p) (provenances db)\<rparr>)
      | None \<Rightarrow> if get_row (pv_WorkID p) db = None then (Inl (ErrConstraint ''work_provenance''), db)
          else (Inr (), db\<lparr>provenances := provenances db @ [p]\<rparr>))"

definition GetProvenance :: "string \<Rightarrow> db \<Rightarrow> Provenance result" where
  "GetProvenance wid db = (case find_row pv_WorkID wid (provenances db) of
     None \<Rightarrow> Inl ErrNotFound | Some p \<Rightarrow> Inr p)"

definition LookupWebhookDelivery :: "string \<Rightarrow> db \<Rightarrow> string" where
  "LookupWebhookDelivery did db =
     (if did = [] then [] else case find_row wh_DeliveryID did (webhooks db) of
        None \<Rightarrow> [] | Some r \<Rightarrow> wh_WorkID r)"

definition RecordWebhookDelivery ::
  "env \<Rightarrow> string \<Rightarrow> string \<Rightarrow> string \<Rightarrow> string \<Rightarrow> db \<Rightarrow> unit result \<times> db" where
  "RecordWebhookDelivery e did event wid body db =
     (if did = [] then (Inl (ErrRequired ''delivery_id''), db)
      else (Inr (), db\<lparr>webhooks := insert_ignore wh_DeliveryID
        \<lparr>wh_DeliveryID = did, wh_Event = event, wh_WorkID = wid, wh_ReceivedAt = Now e 0, wh_Body = body\<rparr>
        (webhooks db)\<rparr>))"

section \<open>Journal-owned wrappers\<close>

text \<open>The shape all wrappers of \<^verbatim>\<open>events_journal.go\<close> share: after the canonical mutation has succeeded,
  append a journal record; a failed append is the wrapper's error.\<close>

definition then_journal ::
  "env \<Rightarrow> ('a \<Rightarrow> string \<times> string \<times> (string \<times> json) list) \<Rightarrow> 'a result \<times> db \<Rightarrow> 'a result \<times> db" where
  "then_journal e describe outcome =
     (case outcome of (Inl x, db) \<Rightarrow> (Inl x, db)
      | (Inr a, db) \<Rightarrow> (case describe a of (wid, typ, data) \<Rightarrow>
          (case journalWorkEvent e wid typ data db of
             (Inl x, db') \<Rightarrow> (Inl x, db') | (Inr _, db') \<Rightarrow> (Inr a, db'))))"

definition CreateWorkEventful :: "env \<Rightarrow> Work \<Rightarrow> db \<Rightarrow> Work result \<times> db" where
  "CreateWorkEventful e w db = then_journal (call 1 e)
     (\<lambda>w. (work_ID w, EventWorkCreated,
       [(''state'', JStr (state_text (work_State w))), (''work_id'', JStr (work_ID w))]))
     (CreateWork (call 0 e) w db)"

definition UpdateStateEventful :: "env \<Rightarrow> string \<Rightarrow> State \<Rightarrow> db \<Rightarrow> Work result \<times> db" where
  "UpdateStateEventful e wid to db =
     (case GetWork wid db of Inl x \<Rightarrow> (Inl x, db)
      | Inr prev \<Rightarrow> then_journal (call 1 e)
          (\<lambda>_. (wid, EventWorkStateChanged,
            [(''from'', JStr (state_text (work_State prev))), (''state'', JStr (state_text to)), (''work_id'', JStr wid)]))
          (UpdateState (call 0 e) wid to db))"

definition AppendAttemptEventful :: "env \<Rightarrow> string \<Rightarrow> Attempt \<Rightarrow> db \<Rightarrow> Work result \<times> db" where
  "AppendAttemptEventful e wid a db = then_journal (call 1 e)
     (\<lambda>_. (wid, EventActivityAttempt,
       [(''attempt_id'', JStr (att_ID a)), (''node_id'', JStr (att_NodeID a)), (''status'', JStr (att_Status a)),
        (''work_id'', JStr wid)]))
     (AppendAttempt (call 0 e) wid a db)"

definition AppendEvidenceEventful :: "env \<Rightarrow> string \<Rightarrow> Evidence \<Rightarrow> db \<Rightarrow> Work result \<times> db" where
  "AppendEvidenceEventful e wid ev db = then_journal (call 1 e)
     (\<lambda>_. (wid, EventEvidenceRecorded,
       [(''evidence_id'', JStr (ev_ID ev)), (''node_id'', JStr (ev_NodeID ev)), (''type'', JStr (ev_Type ev)),
        (''work_id'', JStr wid)]))
     (AppendEvidence (call 0 e) wid ev db)"

definition AppendArtifactEventful :: "env \<Rightarrow> string \<Rightarrow> Artifact \<Rightarrow> db \<Rightarrow> Work result \<times> db" where
  "AppendArtifactEventful e wid art db = then_journal (call 1 e)
     (\<lambda>_. (wid, EventArtifactCreated,
       [(''artifact_id'', JStr (art_ID art)), (''node_id'', JStr (art_NodeID art)), (''path'', JStr (Path art)),
        (''work_id'', JStr wid)]))
     (AppendArtifact (call 0 e) wid art db)"

section \<open>Frames: which tables an operation writes\<close>

lemma set_state_frame [simp]:
  "map work_ID (works (set_state wid s t db)) = map work_ID (works db)"
  "attempts (set_state wid s t db) = attempts db" "artifacts (set_state wid s t db) = artifacts db"
  "evidences (set_state wid s t db) = evidences db" "leases (set_state wid s t db) = leases db"
  "handoffs (set_state wid s t db) = handoffs db" "events (set_state wid s t db) = events db"
  "next_seq (set_state wid s t db) = next_seq db"
  by (simp_all add: set_state_def)

lemma touch_frame [simp]:
  "map work_ID (works (touch wid t db)) = map work_ID (works db)"
  "attempts (touch wid t db) = attempts db" "artifacts (touch wid t db) = artifacts db"
  "evidences (touch wid t db) = evidences db" "leases (touch wid t db) = leases db"
  "handoffs (touch wid t db) = handoffs db" "events (touch wid t db) = events db"
  "next_seq (touch wid t db) = next_seq db"
  by (simp_all add: touch_def)

lemma auditEmit_frame [simp]:
  "works (auditEmit ev db) = works db" "attempts (auditEmit ev db) = attempts db"
  "artifacts (auditEmit ev db) = artifacts db" "evidences (auditEmit ev db) = evidences db"
  "leases (auditEmit ev db) = leases db" "handoffs (auditEmit ev db) = handoffs db"
  "events (auditEmit ev db) = events db" "next_seq (auditEmit ev db) = next_seq db"
  by (simp_all add: auditEmit_def Emit_def)

lemma AppendWorkEvent_frame:
  "snd (AppendWorkEvent e ev db) =
     db\<lparr>events := events (snd (AppendWorkEvent e ev db)), next_seq := next_seq (snd (AppendWorkEvent e ev db))\<rparr>"
  by (auto simp: AppendWorkEvent_def Let_def split: raw_message.split sum.split)

lemma snd_journalWorkEvent:
  "snd (journalWorkEvent e wid typ data db) = snd (AppendWorkEvent (call 0 (call 0 e))
     \<lparr>Sequence = 0, we_ID = fresh e 0 ''evt'', we_WorkID = wid, we_Type = typ,
       ObservedAt = Now (call 0 e) 0, Data = RawJSON (JObj data)\<rparr> db)"
  by (simp add: journalWorkEvent_def emitJournalEvent_def split: prod.split sum.split)

lemma journal_frame [simp]:
  "works (snd (AppendWorkEvent e ev db)) = works db" "attempts (snd (AppendWorkEvent e ev db)) = attempts db"
  "artifacts (snd (AppendWorkEvent e ev db)) = artifacts db"
  "evidences (snd (AppendWorkEvent e ev db)) = evidences db"
  "leases (snd (AppendWorkEvent e ev db)) = leases db" "handoffs (snd (AppendWorkEvent e ev db)) = handoffs db"
  by (subst AppendWorkEvent_frame, simp)+

lemma journalWorkEvent_frame [simp]:
  "works (snd (journalWorkEvent e wid typ data db)) = works db"
  "attempts (snd (journalWorkEvent e wid typ data db)) = attempts db"
  "artifacts (snd (journalWorkEvent e wid typ data db)) = artifacts db"
  "evidences (snd (journalWorkEvent e wid typ data db)) = evidences db"
  "leases (snd (journalWorkEvent e wid typ data db)) = leases db"
  "handoffs (snd (journalWorkEvent e wid typ data db)) = handoffs db"
  by (simp_all add: snd_journalWorkEvent)

lemma snd_then_journal:
  "snd (then_journal e d r) = (case fst r of Inl _ \<Rightarrow> snd r
     | Inr a \<Rightarrow> (case d a of (wid, typ, data) \<Rightarrow> snd (journalWorkEvent e wid typ data (snd r))))"
  by (auto simp: then_journal_def split: prod.splits sum.splits)

lemma then_journal_frame [simp]:
  "works (snd (then_journal e d r)) = works (snd r)" "attempts (snd (then_journal e d r)) = attempts (snd r)"
  "artifacts (snd (then_journal e d r)) = artifacts (snd r)"
  "evidences (snd (then_journal e d r)) = evidences (snd r)"
  "leases (snd (then_journal e d r)) = leases (snd r)" "handoffs (snd (then_journal e d r)) = handoffs (snd r)"
  by (simp_all add: snd_then_journal split: sum.split prod.split)

lemma get_row_in: "get_row wid db = Some w \<Longrightarrow> w \<in> set (works db) \<and> work_ID w = wid"
  unfolding get_row_def by (rule find_row_Some)

lemma get_row_None: "get_row wid db = None \<longleftrightarrow> wid \<notin> work_ID ` set (works db)"
  by (simp add: get_row_def find_row_None)

lemma get_row_set_state:
  "get_row k (set_state wid s t db) =
     map_option (\<lambda>w. if work_ID w = wid then w\<lparr>work_State := s, UpdatedAt := t\<rparr> else w) (get_row k db)"
  by (simp add: get_row_def set_state_def find_row_update_where)

lemma get_row_touch:
  "get_row k (touch wid t db) = map_option (\<lambda>w. if work_ID w = wid then w\<lparr>UpdatedAt := t\<rparr> else w) (get_row k db)"
  by (simp add: get_row_def touch_def find_row_update_where)

lemma get_row_cong: "works db = works db' \<Longrightarrow> get_row wid db = get_row wid db'"
  by (simp add: get_row_def)

section \<open>The journal\<close>

text \<open>Rows in the order of their sequence numbers, all below the next one, identifiers unique.\<close>

definition journal_ok :: "db \<Rightarrow> bool" where
  "journal_ok db \<longleftrightarrow> sorted_wrt (<) (map Sequence (events db)) \<and> distinct (map we_ID (events db))
     \<and> (\<forall>ev \<in> set (events db). 1 \<le> Sequence ev \<and> Sequence ev < next_seq db
          \<and> we_WorkID ev \<in> work_ID ` set (works db))"

text \<open>What an append does: nothing, or one row at the end.\<close>

lemma AppendWorkEvent_effect:
  "snd (AppendWorkEvent e ev db) = db \<or>
   (\<exists>row. snd (AppendWorkEvent e ev db) = db\<lparr>events := events db @ [row], next_seq := next_seq db + 1\<rparr>
      \<and> fst (AppendWorkEvent e ev db) = Inr row
      \<and> Sequence row = next_seq db \<and> we_ID row = we_ID ev \<and> we_WorkID row = we_WorkID ev
      \<and> find_row we_ID (we_ID ev) (events db) = None \<and> get_row (we_WorkID ev) db \<noteq> None)"
  by (auto simp: AppendWorkEvent_def Let_def getWorkEventByID_def find_row_append
      split: raw_message.split sum.split option.split)

lemma AppendWorkEvent_journal_ok:
  assumes "journal_ok db" "1 \<le> next_seq db"
  shows "journal_ok (snd (AppendWorkEvent e ev db)) \<and> 1 \<le> next_seq (snd (AppendWorkEvent e ev db))"
  using AppendWorkEvent_effect [of e ev db]
proof
  assume "snd (AppendWorkEvent e ev db) = db"
  with assms show ?thesis by simp
next
  assume "\<exists>row. snd (AppendWorkEvent e ev db) = db\<lparr>events := events db @ [row], next_seq := next_seq db + 1\<rparr>
      \<and> fst (AppendWorkEvent e ev db) = Inr row
      \<and> Sequence row = next_seq db \<and> we_ID row = we_ID ev \<and> we_WorkID row = we_WorkID ev
      \<and> find_row we_ID (we_ID ev) (events db) = None \<and> get_row (we_WorkID ev) db \<noteq> None"
  with assms show ?thesis
    by (auto simp: journal_ok_def sorted_wrt_append find_row_None get_row_None) force
qed

text \<open>The surviving row of an append answers every later append with the same identifier.\<close>

lemma AppendWorkEvent_stored:
  assumes "AppendWorkEvent e ev db = (Inr row, db')"
  shows "find_row we_ID (we_ID ev) (events db') = Some row \<and> we_ID ev \<noteq> []
    \<and> we_WorkID ev \<noteq> [] \<and> we_Type ev \<noteq> [] \<and> (\<forall>s. Data ev \<noteq> RawInvalid s)"
  using assms
  by (auto simp: AppendWorkEvent_def Let_def getWorkEventByID_def find_row_append
      split: if_splits raw_message.splits sum.splits option.splits)

lemma AppendWorkEvent_keeps_rows:
  "find_row we_ID k (events db) = Some row \<Longrightarrow> find_row we_ID k (events (snd (AppendWorkEvent e ev db))) = Some row"
  using AppendWorkEvent_effect [of e ev db] by (auto simp: find_row_append)

definition append_all :: "(env \<times> WorkEvent) list \<Rightarrow> db \<Rightarrow> db" where
  "append_all calls db = fold (\<lambda>(e, ev) db. snd (AppendWorkEvent e ev db)) calls db"

lemma append_all_keeps_rows:
  "find_row we_ID k (events db) = Some row \<Longrightarrow> find_row we_ID k (events (append_all calls db)) = Some row"
  by (induction calls arbitrary: db) (auto simp: append_all_def AppendWorkEvent_keeps_rows)

text \<open>Journal appends are idempotent by event id: once an append has returned a row, a retry with the same id for the
  same Work returns that very row (its original sequence number) and changes nothing, however many other
  appends happened in between.\<close>

theorem journal_retry_returns_original_row:
  assumes "AppendWorkEvent e ev db = (Inr row, db')" and "we_WorkID row = we_WorkID ev"
  shows "AppendWorkEvent e' ev (append_all calls db') = (Inr row, append_all calls db')"
proof -
  have stored: "find_row we_ID (we_ID ev) (events (append_all calls db')) = Some row"
    using AppendWorkEvent_stored [OF assms(1)] append_all_keeps_rows by blast
  with AppendWorkEvent_stored [OF assms(1)] assms(2) show ?thesis
    by (auto simp: AppendWorkEvent_def Let_def getWorkEventByID_def split: raw_message.split)
qed

lemma sorted_events_strict:
  "sorted_wrt (<) (map Sequence evs) \<Longrightarrow> sort_key Sequence (filter p evs) = filter p evs"
proof (rule sort_key_id_if_sorted)
  assume "sorted_wrt (<) (map Sequence evs)"
  then have "sorted_wrt (\<lambda>a b. Sequence a < Sequence b) (filter p evs)"
    by (simp add: sorted_wrt_map sorted_wrt_filter)
  then have "sorted_wrt (\<lambda>a b. Sequence a \<le> Sequence b) (filter p evs)"
    by (rule sorted_wrt_mono_rel [rotated]) simp
  then show "sorted (map Sequence (filter p evs))"
    by (simp add: sorted_wrt_map)
qed

text \<open>A journal cursor loses nothing and repeats nothing: the page returned for a cursor, followed
  by everything after the last row of that page, is exactly everything after the cursor, in journal order;
  the page is empty only when nothing is left.\<close>

theorem journal_paging_complete:
  assumes "journal_ok db"
  shows "let pending = (\<lambda>c. filter (\<lambda>ev. we_WorkID ev = wid \<and> Sequence ev > c) (events db));
      page = ListWorkEventsAfter wid after limit db;
      cursor = (if page = [] then after else Sequence (last page))
    in pending after = page @ pending cursor \<and> (page = [] \<longleftrightarrow> pending after = [])
       \<and> length page \<le> 1000"
proof -
  define n where "n = nat (let l = (if limit < 1 then 1 else limit) in if l > 1000 then 1000 else l)"
  define evs where "evs = filter (\<lambda>ev. we_WorkID ev = wid \<and> Sequence ev > after) (events db)"
  have n: "0 < n" "n \<le> 1000" by (auto simp: n_def Let_def)
  have sorted: "sorted_wrt (<) (map Sequence (events db))"
    using assms by (simp add: journal_ok_def)
  have page: "ListWorkEventsAfter wid after limit db = take n evs"
    using sorted_events_strict [OF sorted]
    by (simp add: ListWorkEventsAfter_def evs_def n_def Let_def)
  have evs_sorted: "sorted_wrt (\<lambda>a b. Sequence a < Sequence b) evs"
    using sorted by (simp add: evs_def sorted_wrt_map sorted_wrt_filter)
  have rest: "filter (\<lambda>ev. we_WorkID ev = wid \<and> Sequence ev > Sequence (last (take n evs))) (events db) = drop n evs"
    if ne: "evs \<noteq> []"
  proof -
    let ?l = "last (take n evs)"
    have tk: "take n evs \<noteq> []" using ne n by simp
    then have l_in: "?l \<in> set (take n evs)" by (rule last_in_set)
    have parts: "sorted_wrt (\<lambda>a b. Sequence a < Sequence b) (butlast (take n evs) @ ?l # drop n evs)"
      using evs_sorted append_butlast_last_id [OF tk] append_take_drop_id [of n evs]
      by (metis append.assoc append_Cons append_Nil)
    have "filter (\<lambda>ev. Sequence ev > Sequence ?l) evs = drop n evs"
    proof -
      have "filter (\<lambda>ev. Sequence ev > Sequence ?l) (butlast (take n evs) @ ?l # drop n evs) = drop n evs"
        using parts by (auto simp: sorted_wrt_append filter_empty_conv intro!: filter_True)
      then show ?thesis
        using append_butlast_last_id [OF tk] append_take_drop_id [of n evs]
        by (metis append.assoc append_Cons append_Nil)
    qed
    moreover have "Sequence ?l > after"
      using l_in set_take_subset [of n evs] by (auto simp: evs_def)
    then have "filter (\<lambda>ev. we_WorkID ev = wid \<and> Sequence ev > Sequence ?l) (events db)
        = filter (\<lambda>ev. Sequence ev > Sequence ?l) evs"
      by (auto simp: evs_def intro!: filter_cong)
    ultimately show ?thesis by simp
  qed
  show ?thesis
    using n rest unfolding Let_def page evs_def [symmetric]
    by (cases "evs = []") (auto simp: evs_def [symmetric])
qed

section \<open>The store invariant\<close>

definition bare :: "Work \<Rightarrow> bool" where
  "bare w \<longleftrightarrow> Attempts w = [] \<and> Artifacts w = [] \<and> work_Evidence w = []"

definition works_ok :: "db \<Rightarrow> bool" where
  "works_ok db \<longleftrightarrow> distinct (map work_ID (works db))
     \<and> (\<forall>w \<in> set (works db). work_ID w \<noteq> [] \<and> bare w)
     \<and> distinct (filter (\<lambda>k. k \<noteq> []) (map IdempotencyKey (works db)))"

definition children_ok :: "db \<Rightarrow> bool" where
  "children_ok db \<longleftrightarrow> distinct (map (\<lambda>r. att_ID (ar_attempt r)) (attempts db))
     \<and> distinct (map (\<lambda>r. ev_ID (snd r)) (evidences db))
     \<and> distinct (map (\<lambda>r. (fst r, art_ID (snd r))) (artifacts db))
     \<and> (\<forall>r \<in> set (attempts db). ar_work r \<in> work_ID ` set (works db))
     \<and> (\<forall>r \<in> set (evidences db). fst r \<in> work_ID ` set (works db) \<and> Hash (snd r) = [])
     \<and> (\<forall>r \<in> set (artifacts db). fst r \<in> work_ID ` set (works db))"

text \<open>At most one ACTIVE lease per Work and node.\<close>

definition exclusive :: "Lease list \<Rightarrow> bool" where
  "exclusive ls \<longleftrightarrow> distinct (map (\<lambda>l. (lease_WorkID l, lease_NodeID l)) (filter (\<lambda>l. lease_Status l = LeaseActive) ls))"

definition leases_ok :: "db \<Rightarrow> bool" where
  "leases_ok db \<longleftrightarrow> distinct (map lease_ID (leases db)) \<and> exclusive (leases db)
     \<and> (\<forall>l \<in> set (leases db). lease_WorkID l \<in> work_ID ` set (works db))"

definition handoffs_ok :: "db \<Rightarrow> bool" where
  "handoffs_ok db \<longleftrightarrow> distinct (map ho_ID (handoffs db))
     \<and> (\<forall>h \<in> set (handoffs db). ho_WorkID h \<in> work_ID ` set (works db))"

definition store_ok :: "db \<Rightarrow> bool" where
  "store_ok db \<longleftrightarrow> works_ok db \<and> children_ok db \<and> leases_ok db \<and> handoffs_ok db
     \<and> journal_ok db \<and> 1 \<le> next_seq db"

lemma empty_db_ok: "store_ok empty_db"
  by (simp add: store_ok_def works_ok_def children_ok_def leases_ok_def exclusive_def handoffs_ok_def
      journal_ok_def empty_db_def)

text \<open>What the other tables see of \<^verbatim>\<open>works\<close> is the list of its identifiers.\<close>

lemma set_map_work_ID: "work_ID ` set (works db) = set (map work_ID (works db))"
  by simp

lemma works_ok_cong:
  assumes "map work_ID (works db') = map work_ID (works db)"
    "map IdempotencyKey (works db') = map IdempotencyKey (works db)"
    "\<forall>w \<in> set (works db'). bare w" "works_ok db"
  shows "works_ok db'"
proof -
  have "\<forall>w \<in> set (works db'). work_ID w \<noteq> []"
    using assms(1,4) unfolding works_ok_def by (metis image_iff list.set_map)
  with assms show ?thesis by (simp add: works_ok_def)
qed

lemma ids_cong:
  assumes "map work_ID (works db') = map work_ID (works db)"
  shows "work_ID ` set (works db') = work_ID ` set (works db)"
  using assms unfolding set_map_work_ID by simp

lemma children_ok_cong:
  assumes "work_ID ` set (works db) \<subseteq> work_ID ` set (works db')" "children_ok db"
    "attempts db' = attempts db" "evidences db' = evidences db" "artifacts db' = artifacts db"
  shows "children_ok db'"
  using assms by (auto simp: children_ok_def subset_iff)

lemma rest_ok_cong:
  assumes "work_ID ` set (works db) \<subseteq> work_ID ` set (works db')"
  shows "leases db' = leases db \<Longrightarrow> leases_ok db \<Longrightarrow> leases_ok db'"
    and "handoffs db' = handoffs db \<Longrightarrow> handoffs_ok db \<Longrightarrow> handoffs_ok db'"
    and "events db' = events db \<Longrightarrow> next_seq db' = next_seq db \<Longrightarrow> journal_ok db \<Longrightarrow> journal_ok db'"
  using assms by (auto simp: leases_ok_def handoffs_ok_def journal_ok_def subset_iff)

lemma works_ok_update:
  assumes "\<And>w. work_ID (f w) = work_ID w" "\<And>w. IdempotencyKey (f w) = IdempotencyKey w"
    "\<And>w. bare w \<Longrightarrow> bare (f w)"
    and "works_ok db"
  shows "works_ok (db\<lparr>works := update_where p f (works db)\<rparr>)"
proof (rule works_ok_cong [OF _ _ _ assms(4)])
  show "\<forall>w \<in> set (works (db\<lparr>works := update_where p f (works db)\<rparr>)). bare w"
    using assms(3,4) by (auto simp: works_ok_def set_update_where)
qed (simp_all add: assms)

lemma store_ok_update_works:
  assumes "\<And>w. work_ID (f w) = work_ID w" "\<And>w. IdempotencyKey (f w) = IdempotencyKey w"
    "\<And>w. bare w \<Longrightarrow> bare (f w)" "store_ok db"
  shows "store_ok (db\<lparr>works := update_where p f (works db)\<rparr>)"
proof -
  let ?db = "db\<lparr>works := update_where p f (works db)\<rparr>"
  have ids: "work_ID ` set (works db) \<subseteq> work_ID ` set (works ?db)"
    using ids_cong [of ?db db] by (simp add: assms(1))
  show ?thesis
    using assms(4) works_ok_update [OF assms(1-3)] children_ok_cong [OF ids] rest_ok_cong [OF ids]
    by (simp add: store_ok_def)
qed

lemma store_ok_set_state: "store_ok db \<Longrightarrow> store_ok (set_state wid s t db)"
  unfolding set_state_def by (rule store_ok_update_works) (simp_all add: bare_def)

lemma store_ok_touch: "store_ok db \<Longrightarrow> store_ok (touch wid t db)"
  unfolding touch_def by (rule store_ok_update_works) (simp_all add: bare_def)

lemma store_ok_auditEmit: "store_ok db \<Longrightarrow> store_ok (auditEmit ev db)"
  by (simp add: store_ok_def works_ok_def children_ok_def leases_ok_def handoffs_ok_def journal_ok_def)

lemma store_ok_AppendWorkEvent: "store_ok db \<Longrightarrow> store_ok (snd (AppendWorkEvent e ev db))"
  using AppendWorkEvent_journal_ok [of db e ev]
  by (simp add: store_ok_def works_ok_def children_ok_def leases_ok_def handoffs_ok_def)

lemma store_ok_journal: "store_ok db \<Longrightarrow> store_ok (snd (journalWorkEvent e wid typ data db))"
  by (simp add: snd_journalWorkEvent store_ok_AppendWorkEvent)

lemma store_ok_then_journal: "store_ok (snd r) \<Longrightarrow> store_ok (snd (then_journal e d r))"
  by (auto simp: snd_then_journal store_ok_journal split: sum.split prod.split)

lemmas store_ok_intros = store_ok_set_state store_ok_touch store_ok_auditEmit store_ok_journal
  store_ok_then_journal

lemma idempotency_row_unique:
  assumes "works_ok db" "w \<in> set (works db)" "v \<in> set (works db)" "IdempotencyKey w = IdempotencyKey v"
    "IdempotencyKey w \<noteq> []"
  shows "w = v"
proof -
  have "distinct (map IdempotencyKey (filter (\<lambda>w. IdempotencyKey w \<noteq> []) (works db)))"
    using assms(1) by (simp add: works_ok_def filter_map o_def)
  then show ?thesis
    using assms by (auto simp: distinct_map dest: inj_onD)
qed

lemma store_ok_new_work:
  assumes "store_ok db" "work_ID w \<noteq> []" "get_row (work_ID w) db = None" "bare w"
    and "IdempotencyKey w \<noteq> [] \<Longrightarrow> find_row IdempotencyKey (IdempotencyKey w) (works db) = None"
  shows "store_ok (db\<lparr>works := works db @ [w]\<rparr>)"
proof -
  let ?db = "db\<lparr>works := works db @ [w]\<rparr>"
  have ids: "work_ID ` set (works db) \<subseteq> work_ID ` set (works ?db)" by auto
  have "works_ok ?db"
    using assms by (auto simp: store_ok_def works_ok_def get_row_None find_row_None)
  then show ?thesis
    using assms(1) children_ok_cong [OF ids] rest_ok_cong [OF ids] by (simp add: store_ok_def)
qed

subsection \<open>Every operation keeps it\<close>

lemma stamp_work_fields [simp]:
  "work_ID (stamp_work e w) = work_ID w" "IdempotencyKey (stamp_work e w) = IdempotencyKey w"
  "CreationIntentHash (stamp_work e w) = CreationIntentHash w" "QueueRequested (stamp_work e w) = QueueRequested w"
  "AdmissionDefaultsJSON (stamp_work e w) = AdmissionDefaultsJSON w"
  by (simp_all add: stamp_work_def Let_def)

lemma CreateWork_effect:
  "(\<exists>x. CreateWork e w db = (Inl x, db)) \<or> (\<exists>w'. CreateWork e w db = (Inr w', db))
   \<or> (\<exists>w' ev. CreateWork e w db = (Inr w', auditEmit ev (db\<lparr>works := works db @ [work_columns w']\<rparr>))
       \<and> work_ID w' = work_ID w \<and> work_ID w \<noteq> [] \<and> get_row (work_ID w) db = None
       \<and> IdempotencyKey w' = IdempotencyKey w
       \<and> (IdempotencyKey w \<noteq> [] \<longrightarrow> find_row IdempotencyKey (IdempotencyKey w) (works db) = None))"
proof (cases "work_ID w = [] \<or> Validate w \<noteq> None")
  case True
  then show ?thesis by (auto simp: CreateWork_def)
next
  case False
  let ?old = "if IdempotencyKey w = [] then None else find_row IdempotencyKey (IdempotencyKey w) (works db)"
  show ?thesis
  proof (cases ?old)
    case None
    with False show ?thesis
      by (cases "get_row (work_ID w) db") (auto simp: CreateWork_def Let_def split: if_splits)
  next
    case (Some old)
    then have key: "IdempotencyKey w \<noteq> []" "find_row IdempotencyKey (IdempotencyKey w) (works db) = Some old"
      by (simp_all split: if_splits)
    have "\<exists>r. CreateWork e w db = (r, db)"
      using False key by (auto simp: CreateWork_def Let_def)
    then obtain r where "CreateWork e w db = (r, db)" ..
    then show ?thesis by (cases r) auto
  qed
qed

lemma work_columns_fields [simp]:
  "work_ID (work_columns w) = work_ID w" "IdempotencyKey (work_columns w) = IdempotencyKey w"
  "bare (work_columns w)" "work_State (work_columns w) = work_State w"
  by (simp_all add: work_columns_def bare_def)

lemma CreateWork_ok: "store_ok db \<Longrightarrow> store_ok (snd (CreateWork e w db))"
  using CreateWork_effect [of e w db]
  by (auto intro!: store_ok_auditEmit store_ok_new_work)

lemma UpdateState_effect:
  "(\<exists>x. UpdateState e wid to db = (Inl x, db))
   \<or> (\<exists>w ev t. get_row wid db = Some w \<and> CanTransition (work_State w) to
        \<and> snd (UpdateState e wid to db) = auditEmit ev (set_state wid to t db))"
  by (auto simp: UpdateState_def Let_def split: option.split)

lemma UpdateState_ok: "store_ok db \<Longrightarrow> store_ok (snd (UpdateState e wid to db))"
  using UpdateState_effect [of e wid to db] by (auto intro!: store_ok_auditEmit store_ok_set_state)

lemma store_ok_attempts:
  assumes "store_ok db" "distinct (map (\<lambda>r. att_ID (ar_attempt r)) rows)"
    and "ar_work ` set rows \<subseteq> work_ID ` set (works db)"
  shows "store_ok (db\<lparr>attempts := rows\<rparr>)"
  using assms
  by (simp add: store_ok_def works_ok_def children_ok_def leases_ok_def handoffs_ok_def journal_ok_def)
    blast

lemma ar_work_update:
  assumes "\<And>r. ar_work (f r) = ar_work r"
  shows "ar_work ` set (update_where p f rows) = ar_work ` set rows"
  unfolding list.set_map [symmetric] by (simp add: assms)

lemma store_ok_update_attempts:
  assumes "store_ok db" "\<And>r. att_ID (ar_attempt (f r)) = att_ID (ar_attempt r)" "\<And>r. ar_work (f r) = ar_work r"
  shows "store_ok (db\<lparr>attempts := update_where p f (attempts db)\<rparr>)"
  using assms(1) by (intro store_ok_attempts) (auto simp: assms(2,3) ar_work_update store_ok_def children_ok_def)

lemma store_ok_new_attempt:
  assumes "store_ok db" "att_ID (ar_attempt r) \<notin> (\<lambda>r. att_ID (ar_attempt r)) ` set (attempts db)"
    and "ar_work r \<in> work_ID ` set (works db)"
  shows "store_ok (db\<lparr>attempts := attempts db @ [r]\<rparr>)"
  using assms by (intro store_ok_attempts) (auto simp: store_ok_def children_ok_def)

lemma AppendAttempt_ok: "store_ok db \<Longrightarrow> store_ok (snd (AppendAttempt e wid a db))"
  by (auto simp: AppendAttempt_def Let_def attempt_columns_def find_row_None get_row_None
      intro!: store_ok_touch store_ok_update_attempts store_ok_new_attempt split: option.split)

lemma store_ok_evidence:
  assumes "store_ok db" "get_row wid db \<noteq> None \<or> find_row (\<lambda>r. ev_ID (snd r)) (ev_ID ev) (evidences db) \<noteq> None"
    and "Hash ev = []"
  shows "store_ok (db\<lparr>evidences := insert_ignore (\<lambda>r. ev_ID (snd r)) (wid, ev) (evidences db)\<rparr>)"
  using assms distinct_insert_ignore [of "\<lambda>r. ev_ID (snd r)" "evidences db" "(wid, ev)"]
  by (auto simp: store_ok_def works_ok_def children_ok_def leases_ok_def handoffs_ok_def journal_ok_def
      set_insert_ignore find_row_None get_row_None)

lemma AppendEvidence_ok: "store_ok db \<Longrightarrow> store_ok (snd (AppendEvidence e wid ev db))"
  by (auto simp: AppendEvidence_def Let_def evidence_columns_def
      intro!: store_ok_touch store_ok_evidence)

lemma store_ok_artifact:
  assumes "store_ok db" "get_row wid db \<noteq> None
    \<or> find_row (\<lambda>r. (fst r, art_ID (snd r))) (wid, art_ID a) (artifacts db) \<noteq> None"
  shows "store_ok (db\<lparr>artifacts := insert_ignore (\<lambda>r. (fst r, art_ID (snd r))) (wid, a) (artifacts db)\<rparr>)"
  using assms distinct_insert_ignore [of "\<lambda>r. (fst r, art_ID (snd r))" "artifacts db" "(wid, a)"]
  by (auto simp: store_ok_def works_ok_def children_ok_def leases_ok_def handoffs_ok_def journal_ok_def
      set_insert_ignore find_row_None get_row_None)

lemma AppendArtifact_ok: "store_ok db \<Longrightarrow> store_ok (snd (AppendArtifact e wid a db))"
  by (auto simp: AppendArtifact_def Let_def
      intro!: store_ok_touch store_ok_artifact)

lemma store_ok_side_tables:
  "store_ok db \<Longrightarrow> store_ok (db\<lparr>provenances := ps\<rparr>)" "store_ok db \<Longrightarrow> store_ok (db\<lparr>webhooks := hs\<rparr>)"
  by (simp_all add: store_ok_def works_ok_def children_ok_def leases_ok_def handoffs_ok_def journal_ok_def)

lemma SaveProvenance_ok: "store_ok db \<Longrightarrow> store_ok (snd (SaveProvenance e p db))"
  by (auto simp: SaveProvenance_def Let_def intro: store_ok_side_tables split: option.split)

lemma RecordWebhookDelivery_ok: "store_ok db \<Longrightarrow> store_ok (snd (RecordWebhookDelivery e d ev wid b db))"
  by (auto simp: RecordWebhookDelivery_def intro: store_ok_side_tables)

lemma UpdateStateEventful_ok: "store_ok db \<Longrightarrow> store_ok (snd (UpdateStateEventful e wid to db))"
  by (auto simp: UpdateStateEventful_def UpdateState_ok intro!: store_ok_then_journal split: sum.split)

lemmas work_ops_ok = CreateWork_ok UpdateState_ok AppendAttempt_ok AppendEvidence_ok AppendArtifact_ok
  SaveProvenance_ok RecordWebhookDelivery_ok UpdateStateEventful_ok

section \<open>How Works evolve\<close>

definition work_frame :: "Work \<Rightarrow> Work" where
  "work_frame w = w\<lparr>work_State := StateOther [], UpdatedAt := 0\<rparr>"

text \<open>Every Work row is still there, with the same identity, source, objective, graph, requirements,
  policy and contract, in a state reached by moves of \<open>R\<close>.\<close>

definition evolves :: "(State \<Rightarrow> State \<Rightarrow> bool) \<Rightarrow> db \<Rightarrow> db \<Rightarrow> bool" where
  "evolves R db db' \<longleftrightarrow> (\<forall>wid w. get_row wid db = Some w \<longrightarrow>
     (\<exists>w'. get_row wid db' = Some w' \<and> work_frame w' = work_frame w \<and> R\<^sup>*\<^sup>* (work_State w) (work_State w')))"

lemma evolves_refl [simp]: "evolves R db db"
  by (simp add: evolves_def)

lemma evolves_trans: "evolves R a b \<Longrightarrow> evolves R b c \<Longrightarrow> evolves R a c"
  unfolding evolves_def by (metis rtranclp_trans)

lemma evolves_mono: "evolves R a b \<Longrightarrow> (\<And>s t. R s t \<Longrightarrow> R' s t) \<Longrightarrow> evolves R' a b"
  unfolding evolves_def by (metis mono_rtranclp)

lemma evolves_same_works: "works db' = works db \<Longrightarrow> evolves R db db'"
  by (simp add: evolves_def get_row_def)

lemma evolves_append: "\<exists>ws. works db' = works db @ ws \<Longrightarrow> evolves R db db'"
  by (auto simp: evolves_def get_row_def find_row_append)

lemma evolves_touch: "evolves R db (touch wid t db)"
  by (auto simp: evolves_def get_row_touch work_frame_def)

lemma evolves_set_state:
  assumes "get_row wid db = Some w" "R (work_State w) s"
  shows "evolves R db (set_state wid s t db)"
  using assms get_row_in [of _ db]
  by (auto simp: evolves_def get_row_set_state work_frame_def)

lemma evolves_then: "evolves R a b \<Longrightarrow> works c = works b \<Longrightarrow> evolves R a c"
  using evolves_trans evolves_same_works by blast

lemma evolves_touch_same: "works db' = works db \<Longrightarrow> evolves R db (touch wid t db')"
  using evolves_trans [OF evolves_same_works evolves_touch] by blast

lemma CreateWork_evolves: "evolves R db (snd (CreateWork e w db))"
  using CreateWork_effect [of e w db]
  by (auto intro!: evolves_append)

lemma UpdateState_evolves: "evolves CanTransition db (snd (UpdateState e wid to db))"
  using UpdateState_effect [of e wid to db]
  by (auto intro: evolves_then [OF evolves_set_state])

lemma AppendAttempt_evolves: "evolves R db (snd (AppendAttempt e wid a db))"
  by (auto simp: AppendAttempt_def Let_def split: option.split
      intro!: evolves_touch_same)

lemma AppendEvidence_evolves: "evolves R db (snd (AppendEvidence e wid ev db))"
  by (auto simp: AppendEvidence_def Let_def
      intro!: evolves_touch_same)

lemma AppendArtifact_evolves: "evolves R db (snd (AppendArtifact e wid a db))"
  by (auto simp: AppendArtifact_def Let_def
      intro!: evolves_touch_same)

lemma UpdateStateEventful_evolves: "evolves CanTransition db (snd (UpdateStateEventful e wid to db))"
  by (auto simp: UpdateStateEventful_def split: sum.split
      intro!: evolves_then [OF UpdateState_evolves])

section \<open>Lists and single reads agree\<close>

lemma map_sort_key: "map f (sort_key (\<lambda>x. g (f x)) xs) = sort_key g (map f xs)"
proof -
  have "map f (insort_key (\<lambda>x. g (f x)) x ys) = insort_key g (f x) (map f ys)" for x ys
    by (induction ys) auto
  then show ?thesis
    by (induction xs) (auto simp: sort_key_def)
qed

definition add_children :: "db \<Rightarrow> Work \<Rightarrow> Work" where
  "add_children db w = w\<lparr>Attempts := Attempts w @ attempts_of (work_ID w) db,
     Artifacts := Artifacts w @ artifacts_of (work_ID w) db,
     work_Evidence := work_Evidence w @ evidence_of (work_ID w) db\<rparr>"

lemma filter_member:
  assumes "k \<in> A"
  shows "filter (\<lambda>r. key r = k) (filter (\<lambda>r. key r \<in> A) rows) = filter (\<lambda>r. key r = k) rows"
  using assms by (auto simp: filter_filter intro: filter_cong)

lemma filter_nonmember:
  assumes "k \<notin> A"
  shows "filter (\<lambda>r. key r = k) (filter (\<lambda>r. key r \<in> A) rows) = []"
  using assms by (auto simp: filter_empty_conv)

lemma hydrate_part_eq:
  "hydrate_part db part ws = map (\<lambda>w. if work_ID w \<in> set part then add_children db w else w) ws"
proof -
  have "w\<lparr>Attempts := Attempts w @ map ar_attempt (filter (\<lambda>r. ar_work r = work_ID w)
          (order_asc (\<lambda>r. StartedAt (ar_attempt r)) (filter (\<lambda>r. ar_work r \<in> set part) (attempts db)))),
        Artifacts := Artifacts w @ map snd (filter (\<lambda>r. fst r = work_ID w) (filter (\<lambda>r. fst r \<in> set part) (artifacts db))),
        work_Evidence := work_Evidence w @ map snd (filter (\<lambda>r. fst r = work_ID w)
          (order_asc (\<lambda>r. RecordedAt (snd r)) (filter (\<lambda>r. fst r \<in> set part) (evidences db))))\<rparr>
      = (if work_ID w \<in> set part then add_children db w else w)" for w
    by (cases "work_ID w \<in> set part")
      (simp_all add: order_asc_def filter_sort filter_member filter_nonmember add_children_def attempts_of_def
        artifacts_of_def evidence_of_def map_sort_key [of ar_attempt "\<lambda>a. rfc_key (StartedAt a)"]
        map_sort_key [of snd "\<lambda>v. rfc_key (RecordedAt v)"] del: filter_filter)
  then show ?thesis by (simp add: hydrate_part_def Let_def)
qed

lemma hydrateChildren_eq:
  "distinct ids \<Longrightarrow>
     hydrateChildren db ids ws = map (\<lambda>w. if work_ID w \<in> set ids then add_children db w else w) ws"
proof (induction db ids ws rule: hydrateChildren.induct)
  case (1 db ids ws)
  show ?case
  proof (cases "ids = []")
    case True
    then show ?thesis by (simp add: hydrateChildren.simps)
  next
    case False
    have split: "set ids = set (take 400 ids) \<union> set (drop 400 ids)"
      by (metis append_take_drop_id set_append)
    have disj: "set (take 400 ids) \<inter> set (drop 400 ids) = {}"
      using "1.prems" by (simp add: set_take_disj_set_drop_if_distinct)
    have keep: "work_ID (add_children db w) = work_ID w" for w
      by (simp add: add_children_def)
    have step: "hydrateChildren db (drop 400 ids) (hydrate_part db (take 400 ids) ws) =
        map (\<lambda>w. if work_ID w \<in> set (drop 400 ids) then add_children db w else w) (hydrate_part db (take 400 ids) ws)"
      using "1.IH" [OF False] "1.prems" by simp
    have "hydrateChildren db ids ws = hydrateChildren db (drop 400 ids) (hydrate_part db (take 400 ids) ws)"
      using False by (subst hydrateChildren.simps) simp
    also have "\<dots> = map (\<lambda>w. if work_ID w \<in> set (drop 400 ids) then add_children db w else w)
        (map (\<lambda>w. if work_ID w \<in> set (take 400 ids) then add_children db w else w) ws)"
      unfolding step by (simp only: hydrate_part_eq)
    also have "\<dots> = map (\<lambda>w. if work_ID w \<in> set ids then add_children db w else w) ws"
      using split disj keep by auto
    finally show ?thesis .
  qed
qed

lemma listed_row:
  assumes "store_ok db" "w \<in> set (take (nat limit) (order_desc UpdatedAt (filter p (works db))))"
  shows "w \<in> set (works db)" "p w" "get_row (work_ID w) db = Some w" "bare w"
proof -
  show w: "w \<in> set (works db)" "p w"
    using in_set_takeD [OF assms(2)] by (simp_all add: order_desc_def)
  then show "get_row (work_ID w) db = Some w" "bare w"
    using assms(1) find_row_distinct [of work_ID "works db" w] by (auto simp: get_row_def store_ok_def works_ok_def)
qed

lemma listWorksWhere_rows:
  assumes "store_ok db"
  shows "listWorksWhere p limit db =
    map (\<lambda>w. add_children db (list_columns w)) (take (nat limit) (order_desc UpdatedAt (filter p (works db))))"
proof -
  let ?rows = "take (nat limit) (order_desc UpdatedAt (filter p (works db)))"
  have wok: "distinct (map work_ID (works db))"
    using assms by (simp add: store_ok_def works_ok_def)
  then have "distinct ?rows" "inj_on work_ID (set (works db))"
    by (simp_all add: order_desc_def distinct_map)
  moreover have "set ?rows \<subseteq> set (works db)" using listed_row(1) [OF assms] by blast
  ultimately have ids: "distinct (map work_ID ?rows)"
    by (meson distinct_map inj_on_subset)
  have idmap: "map work_ID (map list_columns ?rows) = map work_ID ?rows"
    by (simp add: list_columns_def)
  have "hydrateChildren db (map work_ID (map list_columns ?rows)) (map list_columns ?rows)
      = map (\<lambda>w. if work_ID w \<in> set (map work_ID ?rows) then add_children db w else w) (map list_columns ?rows)"
    unfolding idmap by (rule hydrateChildren_eq [OF ids])
  also have "\<dots> = map (\<lambda>w. add_children db (list_columns w)) ?rows"
    by (auto simp: list_columns_def)
  finally show ?thesis
    unfolding listWorksWhere_def Let_def by (cases "?rows = []") (simp_all del: take_eq_Nil take_eq_Nil2)
qed

text \<open>C6. The batched list path (chunks of 400 identifiers, one query per child table) is equivalent to reading
  each Work on its own: the list has the rows that match, as many as the limit allows, in the descending order of the text of their update time, each exactly as \<^verbatim>\<open>GetWork\<close>
  returns it except for the three creation-intent columns the list query leaves out. In terms of time, this is the order of whole seconds: a row of a later second comes
  before a row of an earlier one, and no row that is left out was updated in a later second than one that is listed. Within a second the order is that of the texts only.\<close>

theorem list_equals_single_reads:
  fixes p :: "Work \<Rightarrow> bool"
  assumes "store_ok db" and "rows = take (nat limit) (order_desc UpdatedAt (filter p (works db)))"
  shows "map Inr (listWorksWhere p limit db) = map (\<lambda>w. map_sum id list_columns (GetWork (work_ID w) db)) rows
    \<and> distinct rows \<and> set rows \<subseteq> {w \<in> set (works db). p w} \<and> length rows = min (nat limit) (length (filter p (works db)))
    \<and> sorted_wrt (\<lambda>v w. UpdatedAt w div Second \<le> UpdatedAt v div Second) rows
    \<and> (\<forall>v \<in> set rows. \<forall>w \<in> set (works db). p w \<and> w \<notin> set rows \<longrightarrow> UpdatedAt w div Second \<le> UpdatedAt v div Second)"
proof -
  have "Inr (add_children db (list_columns w)) = map_sum id list_columns (GetWork (work_ID w) db)"
    if "w \<in> set rows" for w
    using listed_row(3,4) [OF assms(1) that [unfolded assms(2)]] by (auto simp: GetWork_def add_children_def list_columns_def bare_def)
  then have 1: "map Inr (listWorksWhere p limit db) = map (\<lambda>w. map_sum id list_columns (GetWork (work_ID w) db)) rows"
    unfolding listWorksWhere_rows [OF assms(1)] by (simp add: assms(2))
  have "distinct (works db)" using assms(1) by (auto simp: store_ok_def works_ok_def distinct_map)
  then have 2: "distinct rows" by (simp add: assms(2) order_desc_def)
  have 3: "set rows \<subseteq> {w \<in> set (works db). p w}" using listed_row(1,2) [OF assms(1)] unfolding assms(2) by blast
  have 4: "length rows = min (nat limit) (length (filter p (works db)))" by (simp add: assms(2) order_desc_def min.commute)
  have 5: "sorted_wrt (\<lambda>v w. UpdatedAt w div Second \<le> UpdatedAt v div Second) rows"
    unfolding assms(2) by (rule sorted_wrt_take) (rule order_desc_seconds)
  have "UpdatedAt w div Second \<le> UpdatedAt v div Second" if "v \<in> set rows" "w \<in> set (works db)" "p w" "w \<notin> set rows" for v w
    by (rule take_order_desc_seconds [of v "nat limit" UpdatedAt "filter p (works db)" w]) (use that assms(2) in simp_all)
  with 1 2 3 4 5 show ?thesis by blast
qed

section \<open>Creation is idempotent\<close>

text \<open>The row \<open>old\<close> answers a creation request \<open>w\<close>.\<close>

definition accepts :: "Work \<Rightarrow> Work \<Rightarrow> bool" where
  "accepts old w \<longleftrightarrow> work_ID old = work_ID w \<and> IdempotencyKey old = IdempotencyKey w
     \<and> (CreationIntentHash w \<noteq> [] \<longrightarrow> CreationIntentHash old = CreationIntentHash w
          \<and> AdmissionDefaultsJSON old \<noteq> [] \<and> QueueRequested w \<noteq> None \<and> QueueRequested old = QueueRequested w)"

lemma CreateWork_with_key:
  assumes "work_ID w \<noteq> []" "Validate w = None" "IdempotencyKey w \<noteq> []"
    "find_row IdempotencyKey (IdempotencyKey w) (works db) = Some old"
  shows "CreateWork e w db =
    (if accepts old w then Inr (stamp_work e w) else Inl ErrIdempotencyConflict, db)"
  using assms find_row_Some [OF assms(4)] by (auto simp: CreateWork_def Let_def accepts_def)

lemma CreateWork_success:
  assumes "CreateWork e w db = (Inr w', db')" "IdempotencyKey w \<noteq> []"
    and "CreationIntentHash w \<noteq> [] \<Longrightarrow> AdmissionDefaultsJSON w \<noteq> [] \<and> QueueRequested w \<noteq> None"
  shows "\<exists>old. find_row IdempotencyKey (IdempotencyKey w) (works db') = Some old \<and> accepts old w
    \<and> work_ID w \<noteq> [] \<and> Validate w = None"
proof -
  have valid: "work_ID w \<noteq> []" "Validate w = None"
    using assms(1) by (auto simp: CreateWork_def split: if_splits option.splits)
  show ?thesis
  proof (cases "find_row IdempotencyKey (IdempotencyKey w) (works db)")
    case None
    then have "works db' = works db @ [work_columns (stamp_work e w)]"
      using assms(1,2) valid by (auto simp: CreateWork_def Let_def split: if_splits)
    with None valid assms(3) show ?thesis
      by (auto simp: find_row_append accepts_def work_columns_def)
  next
    case (Some old)
    with assms(1) CreateWork_with_key [OF valid assms(2) Some, of e] valid show ?thesis
      by (auto split: if_splits)
  qed
qed

lemma evolves_key_row:
  assumes "store_ok db'" "evolves R db db'" "store_ok db"
    and "find_row IdempotencyKey key (works db) = Some old" "key \<noteq> []"
  shows "\<exists>new. find_row IdempotencyKey key (works db') = Some new \<and> work_frame new = work_frame old"
proof -
  have old: "old \<in> set (works db)" "IdempotencyKey old = key"
    using find_row_Some [OF assms(4)] by auto
  have "get_row (work_ID old) db = Some old"
    using assms(3) old(1) by (simp add: get_row_def store_ok_def works_ok_def find_row_distinct)
  with assms(2) obtain new where new: "get_row (work_ID old) db' = Some new" "work_frame new = work_frame old"
    unfolding evolves_def by blast
  have key: "IdempotencyKey new = key"
    using old(2) arg_cong [OF new(2), of IdempotencyKey] by (simp add: work_frame_def)
  have "find_row IdempotencyKey key (works db') \<noteq> None"
    using get_row_in [OF new(1)] key by (auto simp: find_row_None)
  then obtain v where v: "find_row IdempotencyKey key (works db') = Some v" by blast
  have "v = new"
    using idempotency_row_unique [of db' v new] find_row_Some [OF v] get_row_in [OF new(1)] key assms(1,5)
    by (auto simp: store_ok_def)
  with v new(2) show ?thesis by blast
qed

lemma accepts_frame:
  assumes "work_frame new = work_frame old"
  shows "accepts new w = accepts old w"
proof -
  have "accepts (work_frame v) w = accepts v w" for v
    by (simp add: accepts_def work_frame_def)
  from this [of new] this [of old] show ?thesis by (simp add: assms)
qed

text \<open>Work creation is idempotent: after a creation with an idempotency key has succeeded, in every later
  state of the store the same request succeeds again without writing anything, the key resolves to the
  created Work, and a request with that key for another Work is refused as a conflict without writing anything.\<close>

theorem creation_idempotent:
  assumes "store_ok db" and "CreateWork e w db = (Inr w', db1)" and "IdempotencyKey w \<noteq> []"
    and "CreationIntentHash w \<noteq> [] \<Longrightarrow> AdmissionDefaultsJSON w \<noteq> [] \<and> QueueRequested w \<noteq> None"
    and "evolves R db1 db2" and "store_ok db2"
  shows "CreateWork e2 w db2 = (Inr (stamp_work e2 w), db2)
    \<and> (\<exists>v. GetWorkByIdempotencyKey (IdempotencyKey w) db2 = Inr v \<and> work_ID v = work_ID w)
    \<and> (\<forall>x. IdempotencyKey x = IdempotencyKey w \<and> work_ID x \<noteq> work_ID w \<and> work_ID x \<noteq> [] \<and> Validate x = None
          \<longrightarrow> CreateWork e2 x db2 = (Inl ErrIdempotencyConflict, db2))"
proof -
  obtain old where old: "find_row IdempotencyKey (IdempotencyKey w) (works db1) = Some old" "accepts old w"
    and valid: "work_ID w \<noteq> []" "Validate w = None"
    using CreateWork_success [OF assms(2,3,4)] by blast
  have "store_ok db1" using CreateWork_ok [OF assms(1), of e w] assms(2) by simp
  from evolves_key_row [OF assms(6,5) this old(1) assms(3)] obtain new where
    new: "find_row IdempotencyKey (IdempotencyKey w) (works db2) = Some new" "work_frame new = work_frame old"
    by blast
  have acc: "accepts new w" using old(2) accepts_frame [OF new(2)] by simp
  have replay: "CreateWork e2 w db2 = (Inr (stamp_work e2 w), db2)"
    using CreateWork_with_key [OF valid assms(3) new(1)] acc by simp
  have row: "get_row (work_ID w) db2 = Some new"
    using find_row_Some [OF new(1)] acc assms(6) find_row_distinct [of work_ID "works db2" new]
    by (simp add: accepts_def get_row_def store_ok_def works_ok_def)
  have read: "\<exists>v. GetWorkByIdempotencyKey (IdempotencyKey w) db2 = Inr v \<and> work_ID v = work_ID w"
    using new(1) row acc assms(3) by (auto simp: GetWorkByIdempotencyKey_def GetWork_def accepts_def)
  have conflict: "CreateWork e2 x db2 = (Inl ErrIdempotencyConflict, db2)"
    if "IdempotencyKey x = IdempotencyKey w" "work_ID x \<noteq> work_ID w" "work_ID x \<noteq> []" "Validate x = None" for x
    using CreateWork_with_key [OF that(3,4), of db2 new e2] that(1,2) new(1) acc assms(3)
    by (auto simp: accepts_def)
  show ?thesis using replay read conflict by blast
qed

section \<open>Stored evidence\<close>

lemma AppendEvidence_succeeds:
  assumes "ev_ID ev \<noteq> []" "Details ev = None" "get_row wid db = Some r"
  shows "\<exists>w db'. AppendEvidence e wid ev db = (Inr w, db')"
proof -
  have "\<exists>w. GetWork wid (touch wid t (db\<lparr>evidences := vs\<rparr>)) = Inr w" for t vs
    using assms(3) by (simp add: GetWork_def get_row_touch) (simp add: get_row_def)
  with assms show ?thesis
    by (auto simp: AppendEvidence_def Let_def)
qed

lemma stored_evidence_hash:
  assumes "store_ok db" "GetWork wid db = Inr w" "ev \<in> set (work_Evidence w)"
  shows "Hash ev = []"
  using assms by (auto simp: GetWork_def evidence_of_def store_ok_def children_ok_def split: option.splits)

text \<open>The seal of an evidence record does not survive the store: a record that verifies as \<^verbatim>\<open>ok\<close> when it is
  handed to \<^verbatim>\<open>AppendEvidence\<close> reads back as \<^verbatim>\<open>unsealed\<close>, as does every other record of the Work, because
  \<^verbatim>\<open>work_evidence\<close> has no hash column.\<close>

theorem evidence_seal_lost_in_store:
  assumes "store_ok db" and "\<And>x. sha x \<noteq> []"
    and "find_row (\<lambda>r. ev_ID (snd r)) (ev_ID ev) (evidences db) = None"
    and "AppendEvidence e wid (Seal sha fmt ev) db = (Inr w, db')"
  shows "VerifyEvidence sha fmt (Seal sha fmt ev) = ''ok''
    \<and> (\<exists>ev' \<in> set (work_Evidence w). ev_ID ev' = ev_ID ev)
    \<and> (\<forall>ev' \<in> set (work_Evidence w). VerifyEvidence sha fmt ev' = ''unsealed'')"
proof (intro conjI ballI)
  have ok: "store_ok db'" and w: "GetWork wid db' = Inr w"
    using AppendEvidence_ok [OF assms(1), of e wid "Seal sha fmt ev"] assms(4)
    by (auto simp: AppendEvidence_def Let_def split: if_splits)
  have rid: "ev_ID (Seal sha fmt ev) = ev_ID ev" by (simp add: Seal_def)
  obtain v where v: "evidences db' = evidences db @ [(wid, v)]" "ev_ID v = ev_ID ev"
    using assms(3,4) rid
    by (auto simp: AppendEvidence_def Let_def insert_ignore_def evidence_columns_def split: if_splits)
  show "VerifyEvidence sha fmt (Seal sha fmt ev) = ''ok''"
    using assms(2) by (simp add: VerifyEvidence_def HashValid_def Seal_def RecomputedHash_def)
  have "v \<in> set (work_Evidence w)"
    using w v(1) by (auto simp: GetWork_def evidence_of_def split: option.splits)
  with v(2) show "\<exists>ev' \<in> set (work_Evidence w). ev_ID ev' = ev_ID ev" by blast
  show "VerifyEvidence sha fmt ev' = ''unsealed''" if "ev' \<in> set (work_Evidence w)" for ev'
    using stored_evidence_hash [OF ok w that] by (simp add: VerifyEvidence_def HashValid_def)
qed

section \<open>Witnesses\<close>

definition demo_env :: env where
  "demo_env = \<lparr>nows = (\<lambda>_. 5), idents = (\<lambda>p. p)\<rparr>"

definition demo_work :: Work where
  "demo_work = zero_Work\<lparr>work_ID := ''w1'', IdempotencyKey := ''k1'',
     work_Objective := \<lparr>obj_Type = ''ci'', Description = [], Constraints = []\<rparr>,
     Graph := [(''build'', zero_Node\<lparr>Run := ''make''\<rparr>)]\<rparr>"

definition demo_db :: db where
  "demo_db = snd (CreateWork demo_env demo_work empty_db)"

lemma demo_db_ok: "store_ok demo_db"
  unfolding demo_db_def by (rule CreateWork_ok [OF empty_db_ok])

lemma demo_valid: "Validate demo_work = None"
  by (simp add: Validate_def demo_work_def zero_Node_def)

lemma demo_fields [simp]:
  "work_ID demo_work = ''w1''" "IdempotencyKey demo_work = ''k1''" "CreationIntentHash demo_work = []"
  by (simp_all add: demo_work_def zero_Work_def)

lemma demo_create: "CreateWork demo_env demo_work empty_db = (Inr (stamp_work demo_env demo_work), demo_db)"
  by (simp add: demo_db_def CreateWork_def demo_valid Let_def get_row_def empty_db_def)

lemma demo_row: "get_row ''w1'' demo_db = Some (work_columns (stamp_work demo_env demo_work))"
  using demo_create by (simp add: demo_db_def CreateWork_def demo_valid Let_def get_row_def empty_db_def)

theorem creation_idempotent_witness:
  "CreateWork demo_env demo_work demo_db = (Inr (stamp_work demo_env demo_work), demo_db)"
  using creation_idempotent [OF empty_db_ok demo_create _ _ evolves_refl demo_db_ok] by simp

definition demo_event :: WorkEvent where
  "demo_event = \<lparr>Sequence = 0, we_ID = ''e1'', we_WorkID = ''w1'', we_Type = EventWorkCreated, ObservedAt = 7,
     Data = RawEmpty\<rparr>"

lemma demo_append:
  "AppendWorkEvent demo_env demo_event demo_db =
     (Inr (demo_event\<lparr>Sequence := next_seq demo_db, Data := RawJSON (JObj [])\<rparr>),
      demo_db\<lparr>events := [demo_event\<lparr>Sequence := next_seq demo_db, Data := RawJSON (JObj [])\<rparr>],
        next_seq := next_seq demo_db + 1\<rparr>)"
proof -
  have "events demo_db = []"
    by (simp add: demo_db_def CreateWork_def demo_valid Let_def get_row_def empty_db_def)
  then show ?thesis
    by (simp add: AppendWorkEvent_def demo_event_def demo_row Let_def getWorkEventByID_def
        EventWorkCreated_def IsZero_def)
qed

theorem journal_retry_returns_original_row_witness:
  "\<exists>row db'. AppendWorkEvent demo_env demo_event demo_db = (Inr row, db')
    \<and> AppendWorkEvent demo_env demo_event (append_all [(demo_env, demo_event\<lparr>we_ID := ''e2''\<rparr>)] db')
      = (Inr row, append_all [(demo_env, demo_event\<lparr>we_ID := ''e2''\<rparr>)] db')"
  using journal_retry_returns_original_row [OF demo_append] demo_append by (simp add: demo_event_def)

theorem journal_paging_complete_witness:
  "let db = snd (AppendWorkEvent demo_env demo_event demo_db);
      pending = (\<lambda>c. filter (\<lambda>ev. we_WorkID ev = ''w1'' \<and> Sequence ev > c) (events db));
      page = ListWorkEventsAfter ''w1'' 0 10 db
    in pending 0 = page @ pending (if page = [] then 0 else Sequence (last page)) \<and> page \<noteq> []"
proof -
  let ?db = "snd (AppendWorkEvent demo_env demo_event demo_db)"
  have ok: "journal_ok ?db"
    using store_ok_AppendWorkEvent [OF demo_db_ok] by (simp add: store_ok_def)
  have "filter (\<lambda>ev. we_WorkID ev = ''w1'' \<and> Sequence ev > 0) (events ?db) \<noteq> []"
    using demo_db_ok unfolding demo_append by (simp add: demo_event_def store_ok_def)
  with journal_paging_complete [OF ok, of "''w1''" 0 10] show ?thesis
    unfolding Let_def by (metis (no_types, lifting))
qed

theorem list_equals_single_reads_witness:
  "\<exists>rows :: Work list. map Inr (listWorksWhere (\<lambda>_. True) 10 demo_db) = map (\<lambda>w. map_sum id list_columns (GetWork (work_ID w) demo_db)) rows
     \<and> length rows = length (works demo_db)"
proof -
  let ?rows = "take (nat 10) (order_desc UpdatedAt (filter (\<lambda>_. True) (works demo_db)))"
  have len: "length (works demo_db) \<le> 10" by (simp add: demo_db_def CreateWork_def demo_valid Let_def get_row_def empty_db_def)
  have r: "map Inr (listWorksWhere (\<lambda>_. True) 10 demo_db) = map (\<lambda>w. map_sum id list_columns (GetWork (work_ID w) demo_db)) ?rows"
    "length ?rows = min (nat 10) (length (filter (\<lambda>_. True) (works demo_db)))"
    using list_equals_single_reads [OF demo_db_ok refl, where p = "\<lambda>_. True" and limit = 10] by blast+
  have "length ?rows = length (works demo_db)" unfolding r(2) using len by simp
  with r(1) show ?thesis by blast
qed

theorem evidence_seal_lost_in_store_witness:
  "let sha = (\<lambda>x. CHR ''h'' # x); fmt = (\<lambda>_. ''t''); ev = zero_Evidence\<lparr>ev_ID := ''v1''\<rparr>
   in \<exists>w db'. AppendEvidence demo_env ''w1'' (Seal sha fmt ev) demo_db = (Inr w, db')
     \<and> VerifyEvidence sha fmt (Seal sha fmt ev) = ''ok''
     \<and> (\<exists>ev' \<in> set (work_Evidence w). VerifyEvidence sha fmt ev' = ''unsealed'')"
proof -
  let ?sha = "\<lambda>x. CHR ''h'' # x" and ?fmt = "\<lambda>_ :: time. ''t''" and ?ev = "zero_Evidence\<lparr>ev_ID := ''v1''\<rparr>"
  have none: "evidences demo_db = []"
    by (simp add: demo_db_def CreateWork_def demo_valid Let_def get_row_def empty_db_def)
  obtain w db' where "AppendEvidence demo_env ''w1'' (Seal ?sha ?fmt ?ev) demo_db = (Inr w, db')"
    using AppendEvidence_succeeds [OF _ _ demo_row, of "Seal ?sha ?fmt ?ev" demo_env]
    by (auto simp: Seal_def zero_Evidence_def)
  moreover from evidence_seal_lost_in_store [OF demo_db_ok _ _ this] none show ?thesis
    unfolding Let_def using calculation by auto
qed

end
