(* ===== verification/Classifier.thy ===== *)
theory Classifier
  imports Workgraph
begin

text \<open>
  The failure classifier (\<^verbatim>\<open>services/classifier\<close>): the ordered chain of rules, the retry policy
  per class, and the two regular expressions of the test rules, matched by a small executable matcher for the
  constructs they use. The lemmas show that classification is total, that only policy and
  credential failures escalate and that those are never retried.
\<close>

section \<open>Classes and policies\<close>

datatype Class = ClassCodeFailure | ClassTestFailure | ClassFlakyTest | ClassRunnerFailure
  | ClassInfrastructureFail | ClassNetworkFailure | ClassDependencyFailure | ClassCapacityFailure
  | ClassPolicyFailure | ClassCredentialFailure | ClassUnknown

fun class_text :: "Class \<Rightarrow> string" where
  "class_text ClassCodeFailure = ''code_failure''"
| "class_text ClassTestFailure = ''test_failure''"
| "class_text ClassFlakyTest = ''flaky_test''"
| "class_text ClassRunnerFailure = ''runner_failure''"
| "class_text ClassInfrastructureFail = ''infrastructure_failure''"
| "class_text ClassNetworkFailure = ''network_failure''"
| "class_text ClassDependencyFailure = ''dependency_failure''"
| "class_text ClassCapacityFailure = ''capacity_failure''"
| "class_text ClassPolicyFailure = ''policy_failure''"
| "class_text ClassCredentialFailure = ''credential_failure''"
| "class_text ClassUnknown = ''unknown''"

record RetryPolicy =
  rp_Class :: Class
  Retryable :: bool
  MaxRetries :: int
  rp_Backoff :: string
  HumanRequired :: bool
  AutonomousRemediation :: "string list"

definition policy :: "Class \<Rightarrow> bool \<Rightarrow> int \<Rightarrow> string \<Rightarrow> bool \<Rightarrow> string list \<Rightarrow> RetryPolicy" where
  "policy c r m b h a = \<lparr>rp_Class = c, Retryable = r, MaxRetries = m, rp_Backoff = b, HumanRequired = h,
     AutonomousRemediation = a\<rparr>"

text \<open>\<^verbatim>\<open>PolicyFor\<close> reads \<^verbatim>\<open>policyTable\<close>, which has an entry for every class.\<close>

fun PolicyFor :: "Class \<Rightarrow> RetryPolicy" where
  "PolicyFor ClassCodeFailure = policy ClassCodeFailure True 1 ''exponential'' False [''rebuild_cache'']"
| "PolicyFor ClassTestFailure = policy ClassTestFailure True 2 ''exponential'' False [''rebuild_cache'']"
| "PolicyFor ClassFlakyTest = policy ClassFlakyTest True 3 ''linear'' False [''rerun_node'', ''record_flake'']"
| "PolicyFor ClassRunnerFailure = policy ClassRunnerFailure True 3 ''exponential'' False [''reassign_runner'']"
| "PolicyFor ClassInfrastructureFail =
     policy ClassInfrastructureFail True 3 ''exponential'' False [''reassign_runner'']"
| "PolicyFor ClassNetworkFailure =
     policy ClassNetworkFailure True 4 ''exponential'' False [''rebuild_cache'', ''reassign_runner'']"
| "PolicyFor ClassDependencyFailure = policy ClassDependencyFailure True 1 ''exponential'' False [''refresh_cache'']"
| "PolicyFor ClassCapacityFailure = policy ClassCapacityFailure True 2 ''exponential'' False [''reassign_runner'']"
| "PolicyFor ClassPolicyFailure = policy ClassPolicyFailure False 0 ''none'' True []"
| "PolicyFor ClassCredentialFailure = policy ClassCredentialFailure False 0 ''none'' True []"
| "PolicyFor ClassUnknown = policy ClassUnknown True 1 ''linear'' False []"

section \<open>Regular expressions\<close>

text \<open>
  The constructs of the two patterns. The flag \<^verbatim>\<open>(?i)\<close> is matching lower-cased text against
  lower-cased literals. The matcher carries the character before the current position for \<^verbatim>\<open>\b\<close> and \<^verbatim>\<open>^\<close>.
\<close>

datatype re_item = ReLit string | ReAnyStar | ReOpt char | ReDigits | ReSpaces | ReSpace
  | ReRange char char | ReBoundary | ReBegin

definition word_char :: "char option \<Rightarrow> bool" where
  "word_char co = (case co of None \<Rightarrow> False | Some c \<Rightarrow>
     is_digit c \<or> (97 \<le> (of_char c :: nat) \<and> (of_char c :: nat) \<le> 122) \<or> c = CHR ''_'')"

definition re_space :: "char \<Rightarrow> bool" where
  "re_space c \<longleftrightarrow> (of_char c :: nat) \<in> {9, 10, 12, 13, 32}"

definition head_opt :: "string \<Rightarrow> char option" where
  "head_opt s = (case s of [] \<Rightarrow> None | c # _ \<Rightarrow> Some c)"

fun match_seq :: "re_item list \<Rightarrow> char option \<Rightarrow> string \<Rightarrow> bool" where
  "match_seq [] p s = True"
| "match_seq (ReLit l # r) p s =
     (HasPrefix s l \<and> match_seq r (if l = [] then p else Some (last l)) (drop (length l) s))"
| "match_seq (ReAnyStar # r) p s =
     (match_seq r p s \<or> (case s of [] \<Rightarrow> False
        | c # t \<Rightarrow> (of_char c :: nat) \<noteq> 10 \<and> match_seq (ReAnyStar # r) (Some c) t))"
| "match_seq (ReOpt c # r) p s =
     (match_seq r p s \<or> (case s of [] \<Rightarrow> False | d # t \<Rightarrow> d = c \<and> match_seq r (Some d) t))"
| "match_seq (ReDigits # r) p s =
     (case s of [] \<Rightarrow> False
      | c # t \<Rightarrow> is_digit c \<and> (match_seq r (Some c) t \<or> match_seq (ReDigits # r) (Some c) t))"
| "match_seq (ReSpaces # r) p s =
     (match_seq r p s \<or> (case s of [] \<Rightarrow> False | c # t \<Rightarrow> re_space c \<and> match_seq (ReSpaces # r) (Some c) t))"
| "match_seq (ReSpace # r) p s =
     (case s of [] \<Rightarrow> False | c # t \<Rightarrow> re_space c \<and> match_seq r (Some c) t)"
| "match_seq (ReRange lo hi # r) p s =
     (case s of [] \<Rightarrow> False | c # t \<Rightarrow> (of_char lo :: nat) \<le> of_char c \<and> (of_char c :: nat) \<le> of_char hi
        \<and> match_seq r (Some c) t)"
| "match_seq (ReBoundary # r) p s = (word_char p \<noteq> word_char (head_opt s) \<and> match_seq r p s)"
| "match_seq (ReBegin # r) p s = (p = None \<and> match_seq r p s)"

fun search_from :: "re_item list list \<Rightarrow> char option \<Rightarrow> string \<Rightarrow> bool" where
  "search_from alts p s =
     (list_ex (\<lambda>re. match_seq re p s) alts \<or> (case s of [] \<Rightarrow> False | c # t \<Rightarrow> search_from alts (Some c) t))"

definition MatchString :: "re_item list list \<Rightarrow> string \<Rightarrow> bool" where
  "MatchString alts s = search_from alts None (ToLower s)"

definition flakyTestRe :: "re_item list list" where
  "flakyTestRe =
     [[ReLit ''flaky''], [ReLit ''flake''], [ReLit ''test timed out'', ReAnyStar, ReLit ''retry''], [ReLit ''rerun''],
      [ReLit ''test'', ReAnyStar, ReLit ''intermittent''],
      [ReLit ''test'', ReAnyStar, ReLit ''failed'', ReAnyStar, ReLit ''on retry''],
      [ReLit ''attempt'', ReOpt CHR ''s'', ReLit '': '', ReRange CHR ''2'' CHR ''9'']]"

definition testFailureRe :: "re_item list list" where
  "testFailureRe =
     [[ReBoundary, ReLit ''fail'', ReBoundary, ReLit '' ''], [ReLit ''--- fail: ''],
      [ReLit ''pytest'', ReAnyStar, ReLit ''failed''], [ReLit ''test failed''],
      [ReDigits, ReLit '' failed'', ReOpt CHR '','', ReSpaces, ReDigits, ReLit '' passed''],
      [ReBegin, ReLit ''test:'', ReSpace, ReAnyStar, ReLit ''fail''], [ReLit ''error trace:'']]"

section \<open>Rules\<close>

type_synonym predicate = "Node \<Rightarrow> Attempt \<Rightarrow> string \<Rightarrow> bool"

definition exitCode137or143 :: predicate where
  "exitCode137or143 n a logTail \<longleftrightarrow> ExitCode a = 137 \<or> ExitCode a = 143"

definition exitCode124 :: predicate where
  "exitCode124 n a logTail \<longleftrightarrow> ExitCode a = 124"

definition statusTimedOut :: predicate where
  "statusTimedOut n a logTail \<longleftrightarrow> EqualFold (att_Status a) ''timed_out''"

definition mentions :: "string list \<Rightarrow> string \<Rightarrow> bool" where
  "mentions ps logTail = list_ex (Contains (ToLower logTail)) ps"

definition commandNotFound :: predicate where
  "commandNotFound n a logTail =
     mentions [''command not found'', ''no such file or directory'', ''exec format error''] logTail"

definition networkError :: predicate where
  "networkError n a logTail = mentions
     [''connection refused'', ''connection reset'', ''connection timed out'', ''no route to host'',
      ''network is unreachable'', ''dns lookup'', ''i/o timeout'', ''tls handshake'', ''econnreset'',
      ''econnrefused'', ''enetunreach''] logTail"

definition dependencyError :: predicate where
  "dependencyError n a logTail = mentions
     [''no matching version'', ''package not found'', ''could not resolve'', ''failed to download'',
      ''checksum mismatch'', ''missing module'', ''unable to resolve dependency'', ''404 not found''] logTail"

definition credentialError :: predicate where
  "credentialError n a logTail = mentions
     [''unauthorized'', ''authentication failed'', ''permission denied'', ''invalid token'', ''expired token'',
      ''credentials missing'', ''missing credentials'', ''no credentials'', ''forbidden'', ''401 '', ''403 '',
      ''403,''] logTail"

definition capacityError :: predicate where
  "capacityError n a logTail = mentions
     [''no space left'', ''disk full'', ''out of memory'', ''cannot allocate memory'', ''enospc'', ''enomem''] logTail"

definition policyError :: predicate where
  "policyError n a logTail = mentions
     [''policy denied'', ''policy violation'', ''admission rejected'', ''rego: eval'', ''rego: compile'',
      ''action-manifest:'', ''forbidden by policy''] logTail"

definition isTestNode :: "Node \<Rightarrow> bool" where
  "isTestNode n = (let r = ToLower (TrimSpace (Run n)) in
     if r = [] then False
     else list_ex (HasPrefix r)
         [''go test'', ''pytest'', ''npm test'', ''npm run test'', ''yarn test'', ''jest'', ''vitest'', ''mocha'',
          ''cargo test'', ''mvn test'', ''gradle test'', ''dotnet test'', ''rspec'', ''bundle exec rspec'', ''tox'']
       \<or> list_ex (\<lambda>t. t = ''test'') (Types (node_Evidence n)))"

definition flakyTest :: predicate where
  "flakyTest n a logTail = (if \<not> isTestNode n then False else MatchString flakyTestRe logTail)"

definition testFailure :: predicate where
  "testFailure n a logTail = (if \<not> isTestNode n then False else MatchString testFailureRe logTail)"

definition rules :: "(string \<times> predicate \<times> Class) list" where
  "rules =
     [(''exit_code_137_143'', exitCode137or143, ClassRunnerFailure),
      (''exit_code_124_timeout'', exitCode124, ClassInfrastructureFail),
      (''status_timed_out'', statusTimedOut, ClassInfrastructureFail),
      (''policy_error'', policyError, ClassPolicyFailure),
      (''credential_error'', credentialError, ClassCredentialFailure),
      (''capacity_error'', capacityError, ClassCapacityFailure),
      (''dependency_error'', dependencyError, ClassDependencyFailure),
      (''network_error'', networkError, ClassNetworkFailure),
      (''flaky_test'', flakyTest, ClassFlakyTest),
      (''test_failure'', testFailure, ClassTestFailure),
      (''command_not_found'', commandNotFound, ClassCodeFailure),
      (''default_code_node'', (\<lambda>_ _ _. True), ClassCodeFailure)]"

record Classification =
  cl_Policy :: RetryPolicy
  cl_Rule :: string

fun first_rule :: "(string \<times> predicate \<times> Class) list \<Rightarrow> Node \<Rightarrow> Attempt \<Rightarrow> string \<Rightarrow> Classification option" where
  "first_rule [] n a logTail = None"
| "first_rule ((name, matches, c) # rs) n a logTail =
     (if matches n a logTail then Some \<lparr>cl_Policy = PolicyFor c, cl_Rule = name\<rparr> else first_rule rs n a logTail)"

datatype classifier_error = ErrEmptyLog

definition Classify :: "Node \<Rightarrow> Attempt \<Rightarrow> string \<Rightarrow> classifier_error + Classification" where
  "Classify node attempt logTail = (case first_rule rules node attempt logTail of
     Some c \<Rightarrow> Inr c
   | None \<Rightarrow> if logTail = [] then Inl ErrEmptyLog
       else Inr \<lparr>cl_Policy = (PolicyFor ClassUnknown)\<lparr>AutonomousRemediation := []\<rparr>, cl_Rule = ''no_match''\<rparr>)"

definition IsFailed :: "Attempt \<Rightarrow> bool" where
  "IsFailed a =
     (if ToLower (att_Status a) \<in> {''failed'', ''timed_out''} then True
      else if ExitCode a \<noteq> 0 \<and> (att_Status a = [] \<or> EqualFold (att_Status a) ''failed'') then True
      else False)"

section \<open>What classification guarantees\<close>

lemma first_rule_some:
  "first_rule rs n a logTail = Some c \<Longrightarrow>
     \<exists>(name, p, k) \<in> set rs. p n a logTail \<and> c = \<lparr>cl_Policy = PolicyFor k, cl_Rule = name\<rparr>"
  by (induction rs n a logTail rule: first_rule.induct) (auto split: if_splits)

lemma first_rule_default: "\<exists>c. first_rule rules n a logTail = Some c"
  by (simp add: rules_def)

lemma rp_Class_PolicyFor [simp]: "rp_Class (PolicyFor c) = c"
  by (cases c) (simp_all add: policy_def)

lemma PolicyFor_human:
  "HumanRequired (PolicyFor c) \<longleftrightarrow> c \<in> {ClassPolicyFailure, ClassCredentialFailure}"
  by (cases c) (simp_all add: policy_def)

lemma PolicyFor_bounds:
  "0 \<le> MaxRetries (PolicyFor c) \<and> MaxRetries (PolicyFor c) \<le> 5
   \<and> (HumanRequired (PolicyFor c) \<longrightarrow> \<not> Retryable (PolicyFor c) \<and> MaxRetries (PolicyFor c) = 0
        \<and> AutonomousRemediation (PolicyFor c) = [])"
  by (cases c) (simp_all add: policy_def)

text \<open>The predicate of the rule that fired, by its name.\<close>

definition rule_holds :: "string \<Rightarrow> predicate" where
  "rule_holds name n a logTail = list_ex (\<lambda>(m, p, c). m = name \<and> p n a logTail) rules"

text \<open>Classification is total and escalates exactly where it must: every attempt gets a class other than
  unknown, from a rule whose predicate holds; a human is required exactly for policy and credential failures, and
  those carry no retry and no autonomous remediation; retry counts are between 0 and 5.\<close>

theorem classification_total_and_escalating:
  "\<exists>c. Classify n a logTail = Inr c \<and> rp_Class (cl_Policy c) \<noteq> ClassUnknown \<and> rule_holds (cl_Rule c) n a logTail
    \<and> (HumanRequired (cl_Policy c) \<longleftrightarrow> rp_Class (cl_Policy c) \<in> {ClassPolicyFailure, ClassCredentialFailure})
    \<and> (\<not> (HumanRequired (cl_Policy c) \<and> (Retryable (cl_Policy c) \<or> AutonomousRemediation (cl_Policy c) \<noteq> [])))
    \<and> 0 \<le> MaxRetries (cl_Policy c) \<and> MaxRetries (cl_Policy c) \<le> 5"
proof -
  obtain c where c: "first_rule rules n a logTail = Some c"
    using first_rule_default by blast
  from first_rule_some [OF c] obtain name p k where
    k: "(name, p, k) \<in> set rules" "p n a logTail" "c = \<lparr>cl_Policy = PolicyFor k, cl_Rule = name\<rparr>"
    by blast
  have "k \<noteq> ClassUnknown" using k(1) by (auto simp: rules_def)
  moreover have "rule_holds name n a logTail" using k(1,2) by (auto simp: rule_holds_def list_ex_iff)
  ultimately show ?thesis
    using c k(3) PolicyFor_human [of k] PolicyFor_bounds [of k] by (auto simp: Classify_def)
qed

theorem classification_total_and_escalating_witness:
  "\<exists>c. Classify zero_Node (zero_Attempt\<lparr>ExitCode := 137\<rparr>) [] = Inr c
    \<and> rule_holds (cl_Rule c) zero_Node (zero_Attempt\<lparr>ExitCode := 137\<rparr>) []"
  using classification_total_and_escalating [of zero_Node "zero_Attempt\<lparr>ExitCode := 137\<rparr>" "[]"] by blast

text \<open>An attempt that was not killed or timed out and whose log reports a policy denial is never retried: the
  policy rule comes before every rule that would allow a retry.\<close>

theorem policy_denial_escalates:
  assumes "policyError n a logTail" and "ExitCode a \<notin> {124, 137, 143}" and "\<not> EqualFold (att_Status a) ''timed_out''"
  shows "\<exists>c. Classify n a logTail = Inr c \<and> rp_Class (cl_Policy c) = ClassPolicyFailure
    \<and> HumanRequired (cl_Policy c) \<and> \<not> Retryable (cl_Policy c)"
  using assms
  by (simp add: Classify_def rules_def exitCode137or143_def exitCode124_def statusTimedOut_def policy_def)

theorem policy_denial_escalates_witness:
  "\<exists>c. Classify zero_Node (zero_Attempt\<lparr>ExitCode := 1\<rparr>) ''policy denied'' = Inr c \<and> HumanRequired (cl_Policy c)"
proof -
  have "policyError zero_Node (zero_Attempt\<lparr>ExitCode := 1\<rparr>) ''policy denied''"
    by (simp add: policyError_def mentions_def string_defs)
  moreover have "\<not> EqualFold (att_Status (zero_Attempt\<lparr>ExitCode := 1\<rparr>)) ''timed_out''"
    by (simp add: zero_Attempt_def string_defs)
  moreover have "ExitCode (zero_Attempt\<lparr>ExitCode := 1\<rparr>) \<notin> {124, 137, 143}" by simp
  ultimately show ?thesis using policy_denial_escalates by blast
qed

end
