(* ===== verification/Lease_Store.thy ===== *)
theory Lease_Store
  imports Work_Store Classifier
begin

text \<open>
  Leases (\<^verbatim>\<open>services/work/store/leases.go\<close>, \<^verbatim>\<open>placement_lease.go\<close>), their journal-owned wrappers
  (\<^verbatim>\<open>events_journal.go\<close>) and one pass of the reaper (\<^verbatim>\<open>services/api/leases.go\<close>).

  The lemmas show that every operation keeps the store invariant, in particular that a node never has two ACTIVE
  leases; that a lease that has left ACTIVE never changes again; that terminal and paused Works are never leased; what
  completing a lease does to the Work; and what the reaper collects under SQLite's textual comparison of timestamps.
\<close>

section \<open>Granting\<close>

definition paused :: "State \<Rightarrow> bool" where
  "paused s \<longleftrightarrow> s \<in> {StateWaitingHuman, StateSuspended, StateBudgetExhausted}"

definition active_on :: "string \<Rightarrow> string \<Rightarrow> db \<Rightarrow> Lease list" where
  "active_on wid nid db = filter (\<lambda>l. lease_WorkID l = wid \<and> lease_NodeID l = nid \<and> lease_Status l = LeaseActive) (leases db)"

definition default_ttl :: "duration \<Rightarrow> duration" where
  "default_ttl ttl = (if ttl \<le> 0 then 25 * Second else ttl)"

definition new_attempt :: "string \<Rightarrow> string \<Rightarrow> string \<Rightarrow> time \<Rightarrow> Attempt" where
  "new_attempt aid nid worker t = \<lparr>att_ID = aid, att_NodeID = nid, att_WorkerID = worker, StartedAt = t,
     FinishedAt = 0, ExitCode = 0, att_Status = ''running'', LogRef = [], ArtifactIDs = [], att_Error = []\<rparr>"

definition new_lease :: "string \<Rightarrow> string \<Rightarrow> string \<Rightarrow> string \<Rightarrow> string \<Rightarrow> time \<Rightarrow> duration \<Rightarrow> Lease" where
  "new_lease lid wid nid worker aid t ttl = \<lparr>lease_ID = lid, lease_WorkID = wid, lease_NodeID = nid,
     lease_WorkerID = worker, lease_AttemptID = aid, GrantedAt = t, ExpiresAt = t + ttl, LastBeatAt = t,
     lease_Status = LeaseActive\<rparr>"

text \<open>The three statements that create the attempt, create the lease and link them.\<close>

definition insert_lease :: "string \<Rightarrow> Attempt \<Rightarrow> Lease \<Rightarrow> db \<Rightarrow> db result" where
  "insert_lease wid a l db =
     (if find_row (\<lambda>r. att_ID (ar_attempt r)) (att_ID a) (attempts db) \<noteq> None then Inl (ErrConstraint ''insert attempt'')
      else if find_row lease_ID (lease_ID l) (leases db) \<noteq> None then Inl (ErrConstraint ''insert lease'')
      else Inr (db\<lparr>attempts := attempts db @ [\<lparr>ar_work = wid, ar_attempt = a, ar_lease = lease_ID l\<rparr>],
                   leases := leases db @ [l]\<rparr>))"

definition state_changed :: "State \<Rightarrow> State \<Rightarrow> string \<Rightarrow> (string \<times> json) list" where
  "state_changed from to wid =
     [(''from'', JStr (state_text from)), (''state'', JStr (state_text to)), (''work_id'', JStr wid)]"

definition GrantLease ::
  "env \<Rightarrow> string \<Rightarrow> string \<Rightarrow> string \<Rightarrow> duration \<Rightarrow> db \<Rightarrow> (Lease \<times> Attempt) result \<times> db" where
  "GrantLease e workID nodeID workerID ttl db =
     (case get_row workID db of None \<Rightarrow> (Inl ErrNotFound, db)
      | Some w \<Rightarrow> let state = work_State w in
        if IsTerminal state then (Inl (ErrTerminalWork state), db)
        else if paused state then (Inl ErrLeaseConflict, db)
        else if active_on workID nodeID db \<noteq> [] then (Inl ErrLeaseConflict, db)
        else let now = Now e 0; a = new_attempt (fresh e 0 ''att'') nodeID workerID now;
            l = new_lease (fresh e 1 ''lse'') workID nodeID workerID (att_ID a) now (default_ttl ttl) in
        case insert_lease workID a l db of Inl x \<Rightarrow> (Inl x, db)
        | Inr db1 \<Rightarrow>
          if state = StateQueued \<and> \<not> CanTransition state StateRunning
          then (Inl (ErrInvalid (ErrInvalidTransition state StateRunning)), db)
          else let db2 = touch workID now (if state = StateQueued then set_state workID StateRunning now db1 else db1);
              db3 = (if state = StateQueued
                then snd (journalWorkEvent (call 0 e) workID EventWorkStateChanged
                       (state_changed StateQueued StateRunning workID) db2)
                else db2)
            in (Inr (l, a), db3))"

definition GrantPlacementLease ::
  "env \<Rightarrow> string \<Rightarrow> string \<Rightarrow> string \<Rightarrow> duration \<Rightarrow> db \<Rightarrow> (Lease \<times> Attempt) result \<times> db" where
  "GrantPlacementLease e workID nodeID workerID ttl db =
     (case get_row workID db of None \<Rightarrow> (Inl ErrNotFound, db)
      | Some w \<Rightarrow> let original = work_State w in
        if IsTerminal original then (Inl (ErrTerminalWork original), db)
        else if paused original then (Inl ErrLeaseConflict, db)
        else if original \<notin> {StateCreated, StateQueued} then (Inl ErrLeaseConflict, db)
        else if active_on workID nodeID db \<noteq> [] then (Inl ErrLeaseConflict, db)
        else let now = Now e 0 in
        if original = StateCreated \<and> \<not> CanTransition original StateQueued
        then (Inl (ErrInvalid (ErrInvalidTransition original StateQueued)), db)
        else let db1 = (if original = StateCreated then set_state workID StateQueued now db else db);
            state = (if original = StateCreated then StateQueued else original) in
        if \<not> CanTransition state StateRunning then (Inl (ErrInvalid (ErrInvalidTransition state StateRunning)), db)
        else let a = new_attempt (fresh e 0 ''att'') nodeID workerID now;
            l = new_lease (fresh e 1 ''lse'') workID nodeID workerID (att_ID a) now (default_ttl ttl) in
        case insert_lease workID a l db1 of Inl x \<Rightarrow> (Inl x, db)
        | Inr db2 \<Rightarrow>
          let db3 = set_state workID StateRunning now db2;
            db4 = (if original = StateCreated
              then snd (journalWorkEvent (call 0 e) workID EventWorkStateChanged
                     (state_changed StateCreated StateQueued workID) db3)
              else db3);
            db5 = snd (journalWorkEvent (call 1 e) workID EventWorkStateChanged
                    (state_changed StateQueued StateRunning workID) db4)
          in (Inr (l, a), db5))"

section \<open>Renewing, releasing, revoking\<close>

definition GetLease :: "string \<Rightarrow> db \<Rightarrow> Lease result" where
  "GetLease lid db = (case find_row lease_ID lid (leases db) of None \<Rightarrow> Inl ErrNotFound | Some l \<Rightarrow> Inr l)"

definition RenewLease :: "env \<Rightarrow> string \<Rightarrow> duration \<Rightarrow> db \<Rightarrow> Lease result \<times> db" where
  "RenewLease e lid ttl db =
     (case find_row lease_ID lid (leases db) of None \<Rightarrow> (Inl ErrNotFound, db)
      | Some l \<Rightarrow>
        if lease_Status l \<noteq> LeaseActive then (Inl ErrLeaseNotActive, db)
        else let now = Now e 0;
            db' = db\<lparr>leases := update_where (\<lambda>l. lease_ID l = lid \<and> lease_Status l = LeaseActive)
              (\<lambda>l. l\<lparr>ExpiresAt := now + default_ttl ttl, LastBeatAt := now\<rparr>) (leases db)\<rparr>
          in (GetLease lid db', db'))"

definition finish_attempt :: "string \<Rightarrow> (Attempt \<Rightarrow> Attempt) \<Rightarrow> db \<Rightarrow> db" where
  "finish_attempt aid f db = db\<lparr>attempts := update_where (\<lambda>r. att_ID (ar_attempt r) = aid)
     (\<lambda>r. r\<lparr>ar_attempt := f (ar_attempt r)\<rparr>) (attempts db)\<rparr>"

definition transitionLeaseAttempt ::
  "env \<Rightarrow> string \<Rightarrow> LeaseStatus \<Rightarrow> string \<Rightarrow> string \<Rightarrow> db \<Rightarrow> unit result \<times> db" where
  "transitionLeaseAttempt e lid to attemptStatus reason db =
     (case find_row lease_ID lid (leases db) of None \<Rightarrow> (Inl ErrNotFound, db)
      | Some l \<Rightarrow>
        if \<not> ValidateLeaseTransition (lease_Status l) to then (Inl (ErrLeaseTransition (lease_Status l) to), db)
        else let now = Now e 0;
            db1 = db\<lparr>leases := update_where (\<lambda>l. lease_ID l = lid)
              (\<lambda>l. l\<lparr>lease_Status := to, LastBeatAt := now\<rparr>) (leases db)\<rparr>;
            db2 = finish_attempt (lease_AttemptID l)
              (\<lambda>a. a\<lparr>att_Status := attemptStatus, FinishedAt := now, att_Error := reason\<rparr>) db1
          in (Inr (), touch (lease_WorkID l) now db2))"

definition ReleaseLease :: "env \<Rightarrow> string \<Rightarrow> string \<Rightarrow> db \<Rightarrow> unit result \<times> db" where
  "ReleaseLease e lid reason db = transitionLeaseAttempt e lid LeaseReleased ''cancelled'' reason db"

definition RevokeLease :: "env \<Rightarrow> string \<Rightarrow> string \<Rightarrow> db \<Rightarrow> unit result \<times> db" where
  "RevokeLease e lid reason db = transitionLeaseAttempt e lid LeaseRevoked ''cancelled'' reason db"

definition MarkAttemptCancelled :: "env \<Rightarrow> string \<Rightarrow> string \<Rightarrow> db \<Rightarrow> db" where
  "MarkAttemptCancelled e aid reason db =
     db\<lparr>attempts := update_where (\<lambda>r. att_ID (ar_attempt r) = aid \<and> att_Status (ar_attempt r) = ''running'')
       (\<lambda>r. r\<lparr>ar_attempt := (ar_attempt r)\<lparr>att_Status := ''cancelled'', FinishedAt := Now e 0, att_Error := reason\<rparr>\<rparr>)
       (attempts db)\<rparr>"

section \<open>Queries\<close>

text \<open>The query has no \<^verbatim>\<open>ORDER BY\<close>; rows are taken in table order.\<close>

definition ListExpiredLeases :: "time \<Rightarrow> int \<Rightarrow> db \<Rightarrow> Lease list" where
  "ListExpiredLeases now limit db =
     take (nat (if limit \<le> 0 then 100 else limit))
       (filter (\<lambda>l. lease_Status l = LeaseActive \<and> text_before (ExpiresAt l) now) (leases db))"

definition ActiveLeasesByWorkID :: "string \<Rightarrow> db \<Rightarrow> bool gomap" where
  "ActiveLeasesByWorkID wid db =
     map (\<lambda>nid. (nid, True)) (remdups (map lease_NodeID
       (filter (\<lambda>l. lease_WorkID l = wid \<and> lease_Status l = LeaseActive) (leases db))))"

definition mark_active :: "Lease \<Rightarrow> bool gomap gomap \<Rightarrow> bool gomap gomap" where
  "mark_active l out = AList.update (lease_WorkID l)
     (AList.update (lease_NodeID l) True (case map_of out (lease_WorkID l) of None \<Rightarrow> [] | Some m \<Rightarrow> m)) out"

function active_chunks :: "db \<Rightarrow> string list \<Rightarrow> bool gomap gomap \<Rightarrow> bool gomap gomap" where
  "active_chunks db ids out =
     (if ids = [] then out
      else active_chunks db (drop 400 ids) (fold mark_active
        (filter (\<lambda>l. lease_WorkID l \<in> set (take 400 ids) \<and> lease_Status l = LeaseActive) (leases db)) out))"
  by auto
termination
  by (relation "measure (\<lambda>(_, ids, _). length ids)") auto

declare active_chunks.simps [simp del]

definition ActiveLeasesByWorkIDs :: "string list \<Rightarrow> db \<Rightarrow> bool gomap gomap" where
  "ActiveLeasesByWorkIDs ids db = active_chunks db ids []"

definition LeasesByWorkID :: "string \<Rightarrow> db \<Rightarrow> Lease list" where
  "LeasesByWorkID wid db = order_asc GrantedAt (filter (\<lambda>l. lease_WorkID l = wid) (leases db))"

section \<open>Completing\<close>

definition hasClassificationEvidence :: "string \<Rightarrow> string \<Rightarrow> db \<Rightarrow> bool" where
  "hasClassificationEvidence wid aid db = list_ex (\<lambda>(k, ev). k = wid \<and> ev_AttemptID ev = aid
     \<and> ev_Type ev = ''policy'' \<and> Signer ev = ''classifier'') (evidences db)"

definition strings_json :: "string list \<Rightarrow> json" where
  "strings_json ss = (if ss = [] then JNull else JArr (map JStr ss))"

definition classification_details :: "Classification \<Rightarrow> json gomap" where
  "classification_details c = (let p = cl_Policy c in
     [(''class'', JStr (class_text (rp_Class p))), (''retryable'', JBool (Retryable p)),
      (''max_retries'', JNum (f_of_int (MaxRetries p))), (''backoff'', JStr (rp_Backoff p)),
      (''human_required'', JBool (HumanRequired p)),
      (''autonomous_remediation'', strings_json (AutonomousRemediation p)), (''rule'', JStr (cl_Rule c))]
     @ (if HumanRequired p then [(''escalation_reason'', JStr (cl_Rule c))] else []))"

definition no_input :: Classification where
  "no_input = \<lparr>cl_Policy = policy ClassUnknown False 0 ''none'' False [], cl_Rule = ''no_input''\<rparr>"

text \<open>One iteration of \<^verbatim>\<open>classifyFailedAttempts\<close>. A node missing from the graph reads as the zero node.\<close>

definition classify_attempt ::
  "(string \<Rightarrow> string) \<Rightarrow> (time \<Rightarrow> string) \<Rightarrow> env \<Rightarrow> Work \<Rightarrow> Attempt \<Rightarrow> db \<Rightarrow> db" where
  "classify_attempt sha fmt e w a db =
     (if \<not> IsFailed a then db
      else if hasClassificationEvidence (work_ID w) (att_ID a) db then db
      else let node = (case map_of (Graph w) (att_NodeID a) of None \<Rightarrow> zero_Node | Some n \<Rightarrow> n);
          cls = (case Classify node a (att_Error a) of Inl _ \<Rightarrow> no_input | Inr c \<Rightarrow> c);
          ev = \<lparr>ev_ID = fresh e 0 ''evd'', ev_NodeID = att_NodeID a, ev_AttemptID = att_ID a, ev_Type = ''policy'',
            Result = ''fail'', RecordedAt = Now e 0, ev_ArtifactID = [], Signer = ''classifier'',
            Environment = ''self-healing'', Details = Some (classification_details cls), Hash = []\<rparr>
        in snd (AppendEvidence (call 0 e) (work_ID w) (Seal sha fmt ev) db))"

fun classify_loop ::
  "(string \<Rightarrow> string) \<Rightarrow> (time \<Rightarrow> string) \<Rightarrow> env \<Rightarrow> nat \<Rightarrow> Work \<Rightarrow> Attempt list \<Rightarrow> db \<Rightarrow> db" where
  "classify_loop sha fmt e i w [] db = db"
| "classify_loop sha fmt e i w (a # as) db =
     classify_loop sha fmt e (i + 1) w as (classify_attempt sha fmt (call i e) w a db)"

definition classifyFailedAttempts :: "(string \<Rightarrow> string) \<Rightarrow> (time \<Rightarrow> string) \<Rightarrow> env \<Rightarrow> Work \<Rightarrow> db \<Rightarrow> db" where
  "classifyFailedAttempts sha fmt e w db = classify_loop sha fmt e 0 w (Attempts w) db"

fun append_evidence_loop :: "env \<Rightarrow> nat \<Rightarrow> string \<Rightarrow> Evidence list \<Rightarrow> db \<Rightarrow> unit result \<times> db" where
  "append_evidence_loop e i wid [] db = (Inr (), db)"
| "append_evidence_loop e i wid (ev # evs) db =
     (case AppendEvidence (call i e) wid ev db of
        (Inl x, db') \<Rightarrow> (Inl x, db') | (Inr _, db') \<Rightarrow> append_evidence_loop e (i + 1) wid evs db')"

definition node_succeeded :: "Work \<Rightarrow> string \<Rightarrow> bool" where
  "node_succeeded w nid = list_ex (\<lambda>a. att_NodeID a = nid \<and> att_Status a = ''succeeded'') (Attempts w)"

definition any_failed :: "Work \<Rightarrow> bool" where
  "any_failed w = list_ex (\<lambda>nid. list_ex (\<lambda>a. att_NodeID a = nid \<and> att_Status a = ''failed'') (Attempts w)) (keys (Graph w))"

definition all_ok :: "Work \<Rightarrow> bool" where
  "all_ok w = list_all (node_succeeded w) (keys (Graph w))"

text \<open>The transaction of \<^verbatim>\<open>CompleteLease\<close>, what follows it up to the finalization, and the finalization.\<close>

definition release_completed :: "env \<Rightarrow> string \<Rightarrow> int \<Rightarrow> db \<Rightarrow> string result \<times> db" where
  "release_completed e lid exitCode db =
     (case find_row lease_ID lid (leases db) of None \<Rightarrow> (Inl ErrNotFound, db)
      | Some l \<Rightarrow>
        if lease_Status l \<noteq> LeaseActive then (Inl ErrLeaseNotActive, db)
        else let now = Now e 0; status = (if exitCode \<noteq> 0 then ''failed'' else ''succeeded'');
            db1 = db\<lparr>leases := update_where (\<lambda>l. lease_ID l = lid \<and> lease_Status l = LeaseActive)
              (\<lambda>l. l\<lparr>lease_Status := LeaseReleased, LastBeatAt := now\<rparr>) (leases db)\<rparr>;
            db2 = finish_attempt (lease_AttemptID l)
              (\<lambda>a. a\<lparr>att_Status := status, ExitCode := exitCode, FinishedAt := now\<rparr>) db1
          in (Inr (lease_WorkID l), touch (lease_WorkID l) now db2))"

definition finalize_work :: "env \<Rightarrow> Work \<Rightarrow> db \<Rightarrow> db" where
  "finalize_work e w db =
     (if any_failed w then snd (UpdateState (call 0 e) (work_ID w) StateFailed db)
      else if all_ok w then
        (if work_State w = StateRunning then
           snd (UpdateStateEventful (call 2 e) (work_ID w) StateSucceeded
             (snd (UpdateStateEventful (call 1 e) (work_ID w) StateVerifying db)))
         else db)
      else db)"

definition CompleteLease ::
  "(string \<Rightarrow> string) \<Rightarrow> (time \<Rightarrow> string) \<Rightarrow> env \<Rightarrow> string \<Rightarrow> int \<Rightarrow> Artifact option \<Rightarrow> Evidence list \<Rightarrow> db
    \<Rightarrow> Work result \<times> db" where
  "CompleteLease sha fmt e lid exitCode artifact evs db =
     (case release_completed e lid exitCode db of (Inl x, db1) \<Rightarrow> (Inl x, db1)
      | (Inr workID, db1) \<Rightarrow>
        (case (case artifact of None \<Rightarrow> (Inr (), db1)
                | Some art \<Rightarrow> (case AppendArtifact (call 0 e) workID art db1 of
                    (Inl x, d) \<Rightarrow> (Inl x, d) | (Inr _, d) \<Rightarrow> (Inr (), d))) of
           (Inl x, db2) \<Rightarrow> (Inl x, db2)
         | (Inr _, db2) \<Rightarrow>
           (case append_evidence_loop (call 1 e) 0 workID evs db2 of
              (Inl x, db3) \<Rightarrow> (Inl x, db3)
            | (Inr _, db3) \<Rightarrow>
              (case GetWork workID db3 of Inl x \<Rightarrow> (Inl x, db3)
               | Inr w \<Rightarrow>
                 let db4 = classifyFailedAttempts sha fmt (call 2 e) w db3;
                     db5 = finalize_work (call 3 e) w db4
                 in (GetWork workID db5, db5)))))"

section \<open>Journal-owned wrappers\<close>

definition GrantLeaseEventful ::
  "env \<Rightarrow> string \<Rightarrow> string \<Rightarrow> string \<Rightarrow> duration \<Rightarrow> db \<Rightarrow> (Lease \<times> Attempt) result \<times> db" where
  "GrantLeaseEventful e wid nid worker ttl db = then_journal (call 1 e)
     (\<lambda>(l, a). (wid, EventWorkerLeaseGranted,
       [(''attempt_id'', JStr (att_ID a)), (''lease_id'', JStr (lease_ID l)), (''node_id'', JStr nid),
        (''work_id'', JStr wid), (''worker_id'', JStr worker)]))
     (GrantLease (call 0 e) wid nid worker ttl db)"

text \<open>\<open>show_time\<close> renders the renewed expiry in the journal payload.\<close>

definition RenewLeaseEventful :: "(time \<Rightarrow> string) \<Rightarrow> env \<Rightarrow> string \<Rightarrow> duration \<Rightarrow> db \<Rightarrow> Lease result \<times> db" where
  "RenewLeaseEventful show_time e lid ttl db = then_journal (call 1 e)
     (\<lambda>l. (lease_WorkID l, EventWorkerLeaseRenewed,
       [(''expires_at'', JStr (show_time (ExpiresAt l))), (''lease_id'', JStr (lease_ID l)),
        (''work_id'', JStr (lease_WorkID l))]))
     (RenewLease (call 0 e) lid ttl db)"

definition transitionLeaseWithEvent ::
  "env \<Rightarrow> string \<Rightarrow> string \<Rightarrow> (env \<Rightarrow> string \<Rightarrow> string \<Rightarrow> db \<Rightarrow> unit result \<times> db) \<Rightarrow> string \<Rightarrow> db \<Rightarrow> unit result \<times> db" where
  "transitionLeaseWithEvent e lid typ transition reason db =
     (case transition (call 0 e) lid reason db of (Inl x, db1) \<Rightarrow> (Inl x, db1)
      | (Inr _, db1) \<Rightarrow>
        (case GetLease lid db1 of Inl x \<Rightarrow> (Inl (ErrEventEmission x), db1)
         | Inr l \<Rightarrow> journalWorkEvent (call 1 e) (lease_WorkID l) typ
             [(''lease_id'', JStr (lease_ID l)), (''reason'', JStr reason), (''work_id'', JStr (lease_WorkID l))] db1))"

definition ReleaseLeaseEventful :: "env \<Rightarrow> string \<Rightarrow> string \<Rightarrow> db \<Rightarrow> unit result \<times> db" where
  "ReleaseLeaseEventful e lid reason db = transitionLeaseWithEvent e lid EventWorkerLeaseRelease ReleaseLease reason db"

definition RevokeLeaseEventful :: "env \<Rightarrow> string \<Rightarrow> string \<Rightarrow> db \<Rightarrow> unit result \<times> db" where
  "RevokeLeaseEventful e lid reason db = transitionLeaseWithEvent e lid EventWorkerLeaseRevoke RevokeLease reason db"

definition CompleteLeaseEventful ::
  "(string \<Rightarrow> string) \<Rightarrow> (time \<Rightarrow> string) \<Rightarrow> env \<Rightarrow> string \<Rightarrow> int \<Rightarrow> Artifact option \<Rightarrow> Evidence list \<Rightarrow> db
    \<Rightarrow> Work result \<times> db" where
  "CompleteLeaseEventful sha fmt e lid exitCode artifact evs db = then_journal (call 1 e)
     (\<lambda>w. (work_ID w, EventWorkerLeaseDone,
       [(''exit_code'', JNum (f_of_int exitCode)), (''lease_id'', JStr lid), (''state'', JStr (state_text (work_State w))),
        (''work_id'', JStr (work_ID w))]))
     (CompleteLease sha fmt (call 0 e) lid exitCode artifact evs db)"

section \<open>The reaper\<close>

fun reap_loop :: "env \<Rightarrow> nat \<Rightarrow> Lease list \<Rightarrow> nat \<times> db \<Rightarrow> nat \<times> db" where
  "reap_loop e i [] (n, db) = (n, db)"
| "reap_loop e i (l # ls) (n, db) =
     (case RevokeLease (call (2 * i) e) (lease_ID l) ''lease expired'' db of
        (Inl _, db1) \<Rightarrow> reap_loop e (i + 1) ls (n, db1)
      | (Inr _, db1) \<Rightarrow> reap_loop e (i + 1) ls
          (n + 1, MarkAttemptCancelled (call (2 * i + 1) e) (lease_AttemptID l) ''lease expired'' db1))"

definition reapOnce :: "env \<Rightarrow> int \<Rightarrow> db \<Rightarrow> nat \<times> db" where
  "reapOnce e limit db = reap_loop (call 0 e) 0 (ListExpiredLeases (Now e 0) limit db) (0, db)"

section \<open>Every operation keeps the store invariant\<close>

text \<open>A change of the lease table that keeps identities and owners and creates no ACTIVE lease.\<close>

lemma store_ok_leases:
  assumes "store_ok db" "distinct (map lease_ID ls)" "exclusive ls"
    and "lease_WorkID ` set ls \<subseteq> work_ID ` set (works db)"
  shows "store_ok (db\<lparr>leases := ls\<rparr>)"
  using assms
  by (simp add: store_ok_def works_ok_def children_ok_def leases_ok_def handoffs_ok_def journal_ok_def) blast

lemma exclusive_update:
  assumes "\<And>l. lease_WorkID (f l) = lease_WorkID l" "\<And>l. lease_NodeID (f l) = lease_NodeID l"
    and "\<And>l. lease_Status (f l) = LeaseActive \<Longrightarrow> lease_Status l = LeaseActive"
  shows "exclusive ls \<Longrightarrow> exclusive (update_where p f ls)"
proof (induction ls)
  case (Cons l ls)
  then have "exclusive (update_where p f ls)"
    by (simp add: exclusive_def split: if_splits)
  moreover have "(lease_WorkID l, lease_NodeID l) \<notin>
      (\<lambda>l. (lease_WorkID l, lease_NodeID l)) ` {l \<in> set ls. lease_Status l = LeaseActive}" if "lease_Status l = LeaseActive"
    using Cons.prems that by (simp add: exclusive_def)
  ultimately show ?case
    using assms by (auto simp: exclusive_def set_update_where image_iff split: if_splits) blast+
qed simp

lemma store_ok_update_leases:
  assumes "store_ok db" "\<And>l. lease_ID (f l) = lease_ID l" "\<And>l. lease_WorkID (f l) = lease_WorkID l"
    "\<And>l. lease_NodeID (f l) = lease_NodeID l" "\<And>l. lease_Status (f l) = LeaseActive \<Longrightarrow> lease_Status l = LeaseActive"
  shows "store_ok (db\<lparr>leases := update_where p f (leases db)\<rparr>)"
proof (rule store_ok_leases [OF assms(1)])
  show "distinct (map lease_ID (update_where p f (leases db)))"
    using assms(1) by (simp add: assms(2) store_ok_def leases_ok_def)
  show "exclusive (update_where p f (leases db))"
    using exclusive_update [OF assms(3-5)] assms(1) by (simp add: store_ok_def leases_ok_def)
  show "lease_WorkID ` set (update_where p f (leases db)) \<subseteq> work_ID ` set (works db)"
    using assms(1,3) by (auto simp: set_update_where store_ok_def leases_ok_def)
qed

lemma store_ok_finish_attempt:
  assumes "store_ok db" "\<And>a. att_ID (f a) = att_ID a"
  shows "store_ok (finish_attempt aid f db)"
  unfolding finish_attempt_def using assms by (intro store_ok_update_attempts) simp_all

lemma insert_lease_ok:
  assumes "store_ok db" "insert_lease wid a l db = Inr db'" "get_row wid db \<noteq> None"
    "active_on wid (lease_NodeID l) db = []" "lease_WorkID l = wid"
  shows "store_ok db'"
proof -
  have ins: "find_row (\<lambda>r. att_ID (ar_attempt r)) (att_ID a) (attempts db) = None"
    "find_row lease_ID (lease_ID l) (leases db) = None"
    and db': "db' = db\<lparr>attempts := attempts db @ [\<lparr>ar_work = wid, ar_attempt = a, ar_lease = lease_ID l\<rparr>],
      leases := leases db @ [l]\<rparr>"
    using assms(2) by (auto simp: insert_lease_def split: if_splits)
  have wid: "wid \<in> work_ID ` set (works db)" using assms(3) by (simp only: get_row_None not_not)
  have "store_ok (db\<lparr>attempts := attempts db @ [\<lparr>ar_work = wid, ar_attempt = a, ar_lease = lease_ID l\<rparr>]\<rparr>)" (is "store_ok ?db1")
    by (rule store_ok_new_attempt [OF assms(1)]) (use ins(1) wid in \<open>auto simp: find_row_None\<close>)
  moreover have "store_ok (?db1\<lparr>leases := leases db @ [l]\<rparr>)" if "store_ok ?db1"
  proof (rule store_ok_leases [OF that])
    show "distinct (map lease_ID (leases db @ [l]))"
      using assms(1) ins(2) by (auto simp: store_ok_def leases_ok_def find_row_None)
    show "exclusive (leases db @ [l])"
      using assms(1,4,5) by (auto simp: exclusive_def active_on_def store_ok_def leases_ok_def filter_empty_conv)
    show "lease_WorkID ` set (leases db @ [l]) \<subseteq> work_ID ` set (works ?db1)"
      using assms(1,5) wid by (auto simp: store_ok_def leases_ok_def)
  qed
  ultimately show ?thesis by (simp add: db')
qed

lemma insert_lease_works: "insert_lease wid a l db = Inr db' \<Longrightarrow> works db' = works db"
  by (auto simp: insert_lease_def split: if_splits)

lemma active_on_cong: "leases db' = leases db \<Longrightarrow> active_on wid nid db' = active_on wid nid db"
  by (simp add: active_on_def)

lemma new_lease_fields [simp]:
  "lease_ID (new_lease lid wid nid w aid t d) = lid" "lease_WorkID (new_lease lid wid nid w aid t d) = wid"
  "lease_NodeID (new_lease lid wid nid w aid t d) = nid" "lease_Status (new_lease lid wid nid w aid t d) = LeaseActive"
  "lease_AttemptID (new_lease lid wid nid w aid t d) = aid"
  by (simp_all add: new_lease_def)

text \<open>The store after a grant, from the store with the rows inserted.\<close>

lemma GrantLease_cases:
  obtains (refused) x where "GrantLease e wid nid worker ttl db = (Inl x, db)"
  | (granted) w db1 db' where "get_row wid db = Some w" "\<not> IsTerminal (work_State w)" "\<not> paused (work_State w)"
      "active_on wid nid db = []"
      "insert_lease wid (new_attempt (fresh e 0 ''att'') nid worker (Now e 0))
        (new_lease (fresh e 1 ''lse'') wid nid worker (fresh e 0 ''att'') (Now e 0) (default_ttl ttl)) db = Inr db1"
      "GrantLease e wid nid worker ttl db =
        (Inr (new_lease (fresh e 1 ''lse'') wid nid worker (fresh e 0 ''att'') (Now e 0) (default_ttl ttl),
           new_attempt (fresh e 0 ''att'') nid worker (Now e 0)), db')"
      "db' = (let db2 = touch wid (Now e 0) (if work_State w = StateQueued then set_state wid StateRunning (Now e 0) db1 else db1)
        in if work_State w = StateQueued then snd (journalWorkEvent (call 0 e) wid EventWorkStateChanged
            (state_changed StateQueued StateRunning wid) db2) else db2)"
proof (cases "get_row wid db")
  case None
  then show ?thesis by (intro refused) (simp add: GrantLease_def)
next
  case (Some w)
  let ?a = "new_attempt (fresh e 0 ''att'') nid worker (Now e 0)"
  let ?l = "new_lease (fresh e 1 ''lse'') wid nid worker (fresh e 0 ''att'') (Now e 0) (default_ttl ttl)"
  have aid: "att_ID ?a = fresh e 0 ''att''" by (simp add: new_attempt_def)
  show ?thesis
  proof (cases "IsTerminal (work_State w) \<or> paused (work_State w) \<or> active_on wid nid db \<noteq> [] \<or> isl (insert_lease wid ?a ?l db)")
    case True
    have "\<exists>x. GrantLease e wid nid worker ttl db = (Inl x, db)"
      using True Some by (auto simp: GrantLease_def Let_def aid split: sum.splits)
    then show ?thesis using refused by blast
  next
    case False
    then obtain db1 where "insert_lease wid ?a ?l db = Inr db1" by (cases "insert_lease wid ?a ?l db") auto
    with False Some show ?thesis
      by (intro granted) (auto simp: GrantLease_def Let_def aid CanTransition_def)
  qed
qed

lemma GrantLease_ok: "store_ok db \<Longrightarrow> store_ok (snd (GrantLease e wid nid worker ttl db))"
proof (cases rule: GrantLease_cases [of e wid nid worker ttl db])
  case (granted w db1 db')
  assume "store_ok db"
  then have "store_ok db1"
    by (rule insert_lease_ok [OF _ granted(5)]) (use granted in simp_all)
  with granted(6,7) show ?thesis
    by (auto simp: Let_def intro!: store_ok_journal store_ok_touch store_ok_set_state)
qed simp

lemma GrantLease_evolves: "evolves CanTransition db (snd (GrantLease e wid nid worker ttl db))"
proof (cases rule: GrantLease_cases [of e wid nid worker ttl db])
  case (granted w db1 db')
  have same: "works db1 = works db" by (rule insert_lease_works [OF granted(5)])
  then have row: "get_row wid db1 = Some w" using granted(1) get_row_cong by metis
  have "evolves CanTransition db1 (touch wid (Now e 0) (set_state wid StateRunning (Now e 0) db1))" if "work_State w = StateQueued"
    by (rule evolves_trans [OF evolves_set_state [OF row] evolves_touch]) (simp add: that CanTransition_def)
  then have "evolves CanTransition db1 db'"
    using granted(7) evolves_touch by (auto simp: Let_def intro: evolves_then)
  then show ?thesis
    using granted(6) evolves_trans [OF evolves_same_works [OF same]] by simp
qed simp

section \<open>How the store advances\<close>

definition lease_frame :: "Lease \<Rightarrow> Lease" where
  "lease_frame l = l\<lparr>ExpiresAt := 0, LastBeatAt := 0, lease_Status := LeaseActive\<rparr>"

text \<open>Every lease is still there for the same Work, node, worker and attempt, its status moved only forward, and
  a lease in a terminal status is untouched.\<close>

definition leases_advance :: "db \<Rightarrow> db \<Rightarrow> bool" where
  "leases_advance db db' \<longleftrightarrow> (\<forall>lid l. find_row lease_ID lid (leases db) = Some l \<longrightarrow>
     (\<exists>l'. find_row lease_ID lid (leases db') = Some l' \<and> lease_frame l' = lease_frame l
        \<and> ValidateLeaseTransition\<^sup>*\<^sup>* (lease_Status l) (lease_Status l') \<and> (LeaseIsTerminal (lease_Status l) \<longrightarrow> l' = l)))"

definition journal_grows :: "db \<Rightarrow> db \<Rightarrow> bool" where
  "journal_grows db db' \<longleftrightarrow> (\<exists>new. events db' = events db @ new)"

text \<open>One step of a store that satisfies its invariant: Works move by \<open>R\<close>, leases advance, the journal only grows, the invariant is kept.\<close>

definition advances :: "(State \<Rightarrow> State \<Rightarrow> bool) \<Rightarrow> db \<Rightarrow> db \<Rightarrow> bool" where
  "advances R db db' \<longleftrightarrow>
     (store_ok db \<longrightarrow> store_ok db' \<and> evolves R db db' \<and> leases_advance db db' \<and> journal_grows db db')"

lemma leases_advance_same: "leases db' = leases db \<Longrightarrow> leases_advance db db'"
  by (simp add: leases_advance_def)

lemma leases_advance_append: "leases db' = leases db @ ls \<Longrightarrow> leases_advance db db'"
  by (auto simp: leases_advance_def find_row_append)

lemma leases_advance_trans: "leases_advance a b \<Longrightarrow> leases_advance b c \<Longrightarrow> leases_advance a c"
  unfolding leases_advance_def by (metis rtranclp_trans)

lemma leases_advance_update:
  assumes "\<And>l. lease_ID (f l) = lease_ID l" "\<And>l. lease_frame (f l) = lease_frame l"
    and "\<And>l. l \<in> set (leases db) \<Longrightarrow> p l \<Longrightarrow> \<not> LeaseIsTerminal (lease_Status l)
          \<and> ValidateLeaseTransition\<^sup>*\<^sup>* (lease_Status l) (lease_Status (f l))"
    and "leases db' = update_where p f (leases db)"
  shows "leases_advance db db'"
  using assms by (auto simp: leases_advance_def find_row_update_where dest: find_row_Some)

lemma journal_grows_same: "events db' = events db \<Longrightarrow> journal_grows db db'"
  by (simp add: journal_grows_def)

lemma journal_grows_trans: "journal_grows a b \<Longrightarrow> journal_grows b c \<Longrightarrow> journal_grows a c"
  by (auto simp: journal_grows_def)

lemma advances_refl [simp]: "advances R db db"
  by (simp add: advances_def leases_advance_same journal_grows_same)

lemma advances_trans: "advances R a b \<Longrightarrow> advances R b c \<Longrightarrow> advances R a c"
  unfolding advances_def using evolves_trans leases_advance_trans journal_grows_trans by blast

lemma advances_mono: "advances R a b \<Longrightarrow> (\<And>s t. R s t \<Longrightarrow> R' s t) \<Longrightarrow> advances R' a b"
  unfolding advances_def using evolves_mono [of R a b R'] by simp

text \<open>Operations that touch neither leases nor journal.\<close>

lemma advancesI:
  assumes "evolves R db db'" "leases db' = leases db" "events db' = events db" "store_ok db \<Longrightarrow> store_ok db'"
  shows "advances R db db'"
  using assms by (simp add: advances_def leases_advance_same journal_grows_same)

lemma journal_grows_AppendWorkEvent: "journal_grows db (snd (AppendWorkEvent e ev db))"
  using AppendWorkEvent_effect [of e ev db] by (auto simp: journal_grows_def)

lemma advances_journal: "advances R db (snd (journalWorkEvent e wid typ data db))"
  unfolding advances_def
  by (simp add: evolves_same_works leases_advance_same store_ok_journal)
    (simp add: snd_journalWorkEvent journal_grows_AppendWorkEvent)

lemma advances_then_journal: "advances R db (snd r) \<Longrightarrow> advances R db (snd (then_journal e d r))"
  using advances_trans [OF _ advances_journal]
  by (auto simp: snd_then_journal split: sum.split prod.split)

lemma advances_touch: "advances R db (touch wid t db)"
  by (rule advancesI) (simp_all add: evolves_touch store_ok_touch)

lemma advances_set_state:
  "get_row wid db = Some w \<Longrightarrow> R (work_State w) s \<Longrightarrow> advances R db (set_state wid s t db)"
  by (rule advancesI) (simp_all add: evolves_set_state store_ok_set_state)

lemma CreateWork_advances: "advances R db (snd (CreateWork e w db))"
  using CreateWork_effect [of e w db]
  by (intro advancesI) (auto simp: CreateWork_evolves CreateWork_ok)

lemma UpdateState_advances: "advances CanTransition db (snd (UpdateState e wid to db))"
  using UpdateState_effect [of e wid to db]
  by (intro advancesI) (auto simp: UpdateState_evolves UpdateState_ok)

lemma AppendAttempt_advances: "advances R db (snd (AppendAttempt e wid a db))"
  by (intro advancesI) (auto simp: AppendAttempt_evolves AppendAttempt_ok, auto simp: AppendAttempt_def Let_def split: option.split)

lemma AppendEvidence_advances: "advances R db (snd (AppendEvidence e wid ev db))"
  by (intro advancesI) (auto simp: AppendEvidence_evolves AppendEvidence_ok, auto simp: AppendEvidence_def Let_def)

lemma AppendArtifact_advances: "advances R db (snd (AppendArtifact e wid a db))"
  by (intro advancesI) (auto simp: AppendArtifact_evolves AppendArtifact_ok, auto simp: AppendArtifact_def Let_def)

lemma side_tables_advance:
  "advances R db (snd (SaveProvenance e p db))" "advances R db (snd (RecordWebhookDelivery e d ev wid b db))"
  by (intro advancesI evolves_same_works, auto simp: SaveProvenance_ok, auto simp: SaveProvenance_def Let_def split: option.split)
    (intro advancesI evolves_same_works, auto simp: RecordWebhookDelivery_ok, auto simp: RecordWebhookDelivery_def)

lemma UpdateStateEventful_advances: "advances CanTransition db (snd (UpdateStateEventful e wid to db))"
  by (auto simp: UpdateStateEventful_def UpdateState_advances intro!: advances_then_journal split: sum.split)

lemmas work_ops_advance = CreateWork_advances UpdateState_advances AppendAttempt_advances AppendEvidence_advances
  AppendArtifact_advances side_tables_advance UpdateStateEventful_advances

subsection \<open>Lease operations\<close>

lemma advances_finish_attempt:
  assumes "\<And>a. att_ID (f a) = att_ID a"
  shows "advances R db (finish_attempt aid f db)"
  by (rule advancesI) (simp_all add: store_ok_finish_attempt assms, simp_all add: finish_attempt_def evolves_same_works)

lemma advances_update_leases:
  assumes "\<And>l. lease_ID (f l) = lease_ID l" "\<And>l. lease_frame (f l) = lease_frame l"
    and "\<And>l. store_ok db \<Longrightarrow> l \<in> set (leases db) \<Longrightarrow> p l \<Longrightarrow> \<not> LeaseIsTerminal (lease_Status l)
          \<and> ValidateLeaseTransition\<^sup>*\<^sup>* (lease_Status l) (lease_Status (f l))"
    and "\<And>l. lease_Status (f l) = LeaseActive \<Longrightarrow> lease_Status l = LeaseActive"
  shows "advances R db (db\<lparr>leases := update_where p f (leases db)\<rparr>)"
proof -
  have frame: "lease_WorkID (f l) = lease_WorkID l" "lease_NodeID (f l) = lease_NodeID l" for l
    using arg_cong [OF assms(2) [of l], of lease_WorkID] arg_cong [OF assms(2) [of l], of lease_NodeID]
    by (simp_all add: lease_frame_def)
  have "store_ok db \<Longrightarrow> store_ok (db\<lparr>leases := update_where p f (leases db)\<rparr>)"
    by (rule store_ok_update_leases) (simp_all add: assms(1,4) frame)
  moreover have "store_ok db \<Longrightarrow> leases_advance db (db\<lparr>leases := update_where p f (leases db)\<rparr>)"
    by (rule leases_advance_update [where p = p and f = f]) (use assms(1,2,3) in simp_all)
  ultimately show ?thesis
    by (simp add: advances_def evolves_same_works journal_grows_same)
qed

lemma GrantLease_advances: "advances CanTransition db (snd (GrantLease e wid nid worker ttl db))"
proof (cases rule: GrantLease_cases [of e wid nid worker ttl db])
  case (granted w db1 db')
  obtain ls where "leases db1 = leases db @ ls" "events db1 = events db"
    using granted(5) by (auto simp: insert_lease_def split: if_splits)
  then have "leases_advance db db'" "journal_grows db db'"
    using granted(7) journal_grows_AppendWorkEvent
    by (auto simp: Let_def journal_grows_def snd_journalWorkEvent intro: leases_advance_append)
      (metis append.assoc set_state_frame(7) touch_frame(7))
  then show ?thesis
    using granted(6) GrantLease_evolves [of db e wid nid worker ttl] GrantLease_ok [of db e wid nid worker ttl]
    by (simp add: advances_def)
qed simp

lemma RenewLease_advances: "advances R db (snd (RenewLease e lid ttl db))"
  by (auto simp: RenewLease_def Let_def lease_frame_def intro!: advances_update_leases split: option.split)

lemma finish_lease_advances:
  assumes "advances R db (db\<lparr>leases := ls\<rparr>)" "\<And>a. att_ID (f a) = att_ID a"
  shows "advances R db (touch wid t (finish_attempt aid f (db\<lparr>leases := ls\<rparr>)))"
  by (rule advances_trans [OF advances_trans [OF assms(1) advances_finish_attempt] advances_touch]) (rule assms(2))

lemma lease_row_unique:
  "store_ok db \<Longrightarrow> l \<in> set (leases db) \<Longrightarrow> l' \<in> set (leases db) \<Longrightarrow> lease_ID l = lease_ID l' \<Longrightarrow> l = l'"
  by (auto simp: store_ok_def leases_ok_def distinct_map dest: inj_onD)

lemma transitionLeaseAttempt_advances:
  assumes "to \<noteq> LeaseActive"
  shows "advances R db (snd (transitionLeaseAttempt e lid to st reason db))"
proof (cases "find_row lease_ID lid (leases db)")
  case None
  then show ?thesis by (simp add: transitionLeaseAttempt_def)
next
  case (Some l)
  then have l: "l \<in> set (leases db)" "lease_ID l = lid" by (auto dest: find_row_Some)
  have "advances R db (db\<lparr>leases := update_where (\<lambda>l. lease_ID l = lid) (\<lambda>l. l\<lparr>lease_Status := to, LastBeatAt := t\<rparr>) (leases db)\<rparr>)"
    if "ValidateLeaseTransition (lease_Status l) to" for t
  proof (rule advances_update_leases)
    fix l' assume "store_ok db" "l' \<in> set (leases db)" "lease_ID l' = lid"
    then have "l' = l" using lease_row_unique l by blast
    with that show "\<not> LeaseIsTerminal (lease_Status l')
        \<and> ValidateLeaseTransition\<^sup>*\<^sup>* (lease_Status l') (lease_Status (l'\<lparr>lease_Status := to, LastBeatAt := t\<rparr>))"
      by (auto simp: ValidateLeaseTransition_def split: if_splits)
  qed (use assms in \<open>simp_all add: lease_frame_def\<close>)
  then show ?thesis
    using Some by (auto simp: transitionLeaseAttempt_def Let_def intro!: finish_lease_advances)
qed

lemma ReleaseLease_advances: "advances R db (snd (ReleaseLease e lid reason db))"
  by (simp add: ReleaseLease_def transitionLeaseAttempt_advances)

lemma RevokeLease_advances: "advances R db (snd (RevokeLease e lid reason db))"
  by (simp add: RevokeLease_def transitionLeaseAttempt_advances)

lemma MarkAttemptCancelled_advances: "advances R db (MarkAttemptCancelled e aid reason db)"
  by (rule advancesI)
    (auto simp: MarkAttemptCancelled_def evolves_same_works intro!: store_ok_update_attempts)

lemma release_completed_advances: "advances R db (snd (release_completed e lid code db))"
  by (auto simp: release_completed_def Let_def lease_frame_def ValidateLeaseTransition_def split: option.split
      intro!: finish_lease_advances advances_update_leases)

lemma classify_attempt_advances: "advances R db (classify_attempt sha fmt e w a db)"
  by (simp add: classify_attempt_def Let_def AppendEvidence_advances)

lemma classify_loop_advances: "advances R db (classify_loop sha fmt e i w as db)"
  by (induction as arbitrary: i db) (auto intro: advances_trans [OF classify_attempt_advances])

lemma append_evidence_loop_advances: "advances R db (snd (append_evidence_loop e i wid evs db))"
proof (induction evs arbitrary: i db)
  case (Cons ev evs)
  show ?case
    using AppendEvidence_advances [of R db "call i e" wid ev] Cons.IH
    by (auto intro: advances_trans split: prod.split sum.split)
qed simp

lemma finalize_work_advances: "advances CanTransition db (finalize_work e w db)"
  using advances_trans [OF UpdateStateEventful_advances UpdateStateEventful_advances]
  by (auto simp: finalize_work_def UpdateState_advances)

text \<open>Sequencing: an operation, then a continuation run only on success.\<close>

lemma advances_seq:
  assumes "advances R db (snd m)" and "\<And>a d. advances R d (snd (f a d))"
  shows "advances R db (snd (case m of (Inl x, d) \<Rightarrow> (Inl x, d) | (Inr a, d) \<Rightarrow> f a d))"
proof (cases m)
  case (Pair r d)
  with assms(1) have "advances R db d" by simp
  with Pair assms(2) show ?thesis
    by (cases r) (auto intro: advances_trans)
qed

lemma CompleteLease_advances: "advances CanTransition db (snd (CompleteLease sha fmt e lid code art evs db))"
proof -
  have fin: "advances CanTransition d (finalize_work (call 3 e) w (classifyFailedAttempts sha fmt (call 2 e) w d))" for w d
    unfolding classifyFailedAttempts_def
    by (rule advances_trans [OF classify_loop_advances finalize_work_advances])
  have artifact: "advances CanTransition d (snd (case art of None \<Rightarrow> (Inr (), d)
      | Some art \<Rightarrow> (case AppendArtifact (call 0 e) wid art d of (Inl x, d) \<Rightarrow> (Inl x, d) | (Inr _, d) \<Rightarrow> (Inr (), d))))" for wid d
    by (cases art) (auto intro!: advances_seq AppendArtifact_advances)
  show ?thesis
    unfolding CompleteLease_def Let_def
    by (intro advances_seq release_completed_advances artifact append_evidence_loop_advances)
      (simp add: fin split: sum.split)
qed

lemma reap_loop_advances: "advances R db (snd (reap_loop e i ls (n, db)))"
proof (induction ls arbitrary: i n db)
  case (Cons l ls)
  obtain r d where rd: "RevokeLease (call (2 * i) e) (lease_ID l) ''lease expired'' db = (r, d)"
    by (cases "RevokeLease (call (2 * i) e) (lease_ID l) ''lease expired'' db")
  then have revoked: "advances R db d"
    using RevokeLease_advances [of R db "call (2 * i) e" "lease_ID l" "''lease expired''"] by simp
  show ?case
  proof (cases r)
    case (Inl x)
    then show ?thesis using rd advances_trans [OF revoked Cons.IH] by simp
  next
    case (Inr x)
    then show ?thesis
      using rd advances_trans [OF revoked advances_trans [OF MarkAttemptCancelled_advances Cons.IH]] by simp
  qed
qed simp

lemma reapOnce_advances: "advances R db (snd (reapOnce e limit db))"
  by (simp add: reapOnce_def reap_loop_advances)

lemma insert_lease_advances:
  assumes "insert_lease wid a l db = Inr db'" "get_row wid db \<noteq> None" "active_on wid (lease_NodeID l) db = []"
    "lease_WorkID l = wid"
  shows "advances R db db'"
proof -
  obtain ls where "leases db' = leases db @ ls" "events db' = events db" "works db' = works db"
    using assms(1) by (auto simp: insert_lease_def split: if_splits)
  then show ?thesis
    using insert_lease_ok [OF _ assms]
    by (auto simp: advances_def journal_grows_same evolves_same_works intro: leases_advance_append)
qed

lemma GrantPlacementLease_advances: "advances CanTransition db (snd (GrantPlacementLease e wid nid worker ttl db))"
proof (cases "get_row wid db")
  case None
  then show ?thesis by (simp add: GrantPlacementLease_def)
next
  case (Some w)
  let ?t = "Now e 0" and ?s = "work_State w"
  let ?a = "new_attempt (fresh e 0 ''att'') nid worker ?t"
  let ?l = "new_lease (fresh e 1 ''lse'') wid nid worker (att_ID ?a) ?t (default_ttl ttl)"
  let ?db1 = "if ?s = StateCreated then set_state wid StateQueued ?t db else db"
  show ?thesis
  proof (cases "?s \<in> {StateCreated, StateQueued} \<and> active_on wid nid db = [] \<and> \<not> isl (insert_lease wid ?a ?l ?db1)")
    case False
    then have "snd (GrantPlacementLease e wid nid worker ttl db) = db"
      using Some by (auto simp: GrantPlacementLease_def Let_def paused_def CanTransition_def split: sum.splits)
    then show ?thesis by simp
  next
    case True
    then obtain db2 where db2: "insert_lease wid ?a ?l ?db1 = Inr db2" by (cases "insert_lease wid ?a ?l ?db1") auto
    have first: "advances CanTransition db ?db1"
      using advances_set_state [OF Some, of CanTransition StateQueued ?t] True by (auto simp: CanTransition_def)
    obtain w1 where w1: "get_row wid ?db1 = Some w1" "work_State w1 = StateQueued"
      using Some True get_row_in [OF Some] by (auto simp: get_row_set_state)
    have active: "active_on wid nid ?db1 = []"
      using True active_on_cong [of ?db1 db] by simp
    have second: "advances CanTransition ?db1 db2"
      by (rule insert_lease_advances [OF db2]) (use w1 active in simp_all)
    have "get_row wid db2 = Some w1"
      using w1(1) get_row_cong [OF insert_lease_works [OF db2]] by simp
    then have third: "advances CanTransition db2 (set_state wid StateRunning ?t db2)"
      by (rule advances_set_state) (simp add: w1(2) CanTransition_def)
    note all = advances_trans [OF advances_trans [OF first second] third]
    have "snd (GrantPlacementLease e wid nid worker ttl db) =
        snd (journalWorkEvent (call 1 e) wid EventWorkStateChanged (state_changed StateQueued StateRunning wid)
          (if ?s = StateCreated then snd (journalWorkEvent (call 0 e) wid EventWorkStateChanged
             (state_changed StateCreated StateQueued wid) (set_state wid StateRunning ?t db2))
           else set_state wid StateRunning ?t db2))"
      using Some True db2 by (auto simp: GrantPlacementLease_def Let_def paused_def CanTransition_def)
    then show ?thesis
      using advances_trans [OF all advances_journal] advances_trans [OF advances_trans [OF all advances_journal] advances_journal]
      by simp
  qed
qed

lemma transitionLeaseWithEvent_advances:
  assumes "\<And>e db. advances R db (snd (f e lid reason db))"
  shows "advances R db (snd (transitionLeaseWithEvent e lid typ f reason db))"
  unfolding transitionLeaseWithEvent_def
  by (intro advances_seq assms) (simp add: advances_journal split: sum.split)

lemma lease_wrappers_advance:
  "advances CanTransition db (snd (GrantLeaseEventful e wid nid worker ttl db))"
  "advances CanTransition db (snd (RenewLeaseEventful shw e lid ttl db))"
  "advances CanTransition db (snd (ReleaseLeaseEventful e lid reason db))"
  "advances CanTransition db (snd (RevokeLeaseEventful e lid reason db))"
  "advances CanTransition db (snd (CompleteLeaseEventful sha fmt e lid code art evs db))"
  by (simp_all add: GrantLeaseEventful_def RenewLeaseEventful_def ReleaseLeaseEventful_def RevokeLeaseEventful_def
      CompleteLeaseEventful_def advances_then_journal GrantLease_advances RenewLease_advances CompleteLease_advances
      transitionLeaseWithEvent_advances ReleaseLease_advances RevokeLease_advances)

section \<open>Properties\<close>

text \<open>Identifiers drawn for the attempt or the lease are already in the tables.\<close>

definition id_taken :: "env \<Rightarrow> db \<Rightarrow> bool" where
  "id_taken e db \<longleftrightarrow> fresh e 0 ''att'' \<in> (\<lambda>r. att_ID (ar_attempt r)) ` set (attempts db) \<or> fresh e 1 ''lse'' \<in> lease_ID ` set (leases db)"


subsection \<open>Completion\<close>

text \<open>What the finalization reads: the state of a Work, its immutable columns, the attempts and the leases.\<close>

definition view :: "string \<Rightarrow> db \<Rightarrow> (State \<times> Work) option" where
  "view wid db = map_option (\<lambda>w. (work_State w, work_frame w)) (get_row wid db)"

definition quiet :: "db \<Rightarrow> db \<Rightarrow> bool" where
  "quiet db db' \<longleftrightarrow> attempts db' = attempts db \<and> leases db' = leases db \<and> (\<forall>wid. view wid db' = view wid db)"

lemma quiet_refl [simp]: "quiet db db"
  by (simp add: quiet_def)

lemma quiet_trans: "quiet a b \<Longrightarrow> quiet b c \<Longrightarrow> quiet a c"
  by (simp add: quiet_def)

lemma view_touch [simp]: "view k (touch wid t db) = view k db"
  by (cases "get_row k db") (simp_all add: view_def get_row_touch work_frame_def)

lemma view_cong: "works db' = works db \<Longrightarrow> view wid db' = view wid db"
  by (simp add: view_def get_row_def)

lemma AppendArtifact_quiet: "quiet db (snd (AppendArtifact e wid a db))"
  by (auto simp: quiet_def AppendArtifact_def Let_def intro: view_cong)

lemma AppendEvidence_quiet: "quiet db (snd (AppendEvidence e wid ev db))"
  by (auto simp: quiet_def AppendEvidence_def Let_def intro: view_cong)

lemma append_evidence_loop_quiet: "quiet db (snd (append_evidence_loop e i wid evs db))"
proof (induction evs arbitrary: i db)
  case (Cons ev evs)
  show ?case
    using AppendEvidence_quiet [of db "call i e" wid ev] Cons.IH
    by (auto intro: quiet_trans split: prod.split sum.split)
qed simp

lemma classify_quiet: "quiet db (classifyFailedAttempts sha fmt e w db)"
proof -
  have "quiet db (classify_loop sha fmt e i w as db)" for i as
  proof (induction as arbitrary: i db)
    case (Cons a as)
    have "quiet db (classify_attempt sha fmt (call i e) w a db)"
      by (simp add: classify_attempt_def Let_def AppendEvidence_quiet)
    then show ?case using Cons.IH quiet_trans by auto
  qed simp
  then show ?thesis by (simp add: classifyFailedAttempts_def)
qed

text \<open>A state change as the view sees it.\<close>

definition move_to :: "State \<Rightarrow> State \<times> Work \<Rightarrow> State \<times> Work" where
  "move_to to v = (if CanTransition (fst v) to then to else fst v, snd v)"

lemma UpdateState_view:
  "attempts (snd (UpdateState e wid to db)) = attempts db" "leases (snd (UpdateState e wid to db)) = leases db"
  "view wid (snd (UpdateState e wid to db)) = map_option (move_to to) (view wid db)"
proof -
  show "attempts (snd (UpdateState e wid to db)) = attempts db" "leases (snd (UpdateState e wid to db)) = leases db"
    using UpdateState_effect [of e wid to db] by auto
  show "view wid (snd (UpdateState e wid to db)) = map_option (move_to to) (view wid db)"
  proof (cases "get_row wid db")
    case None
    then show ?thesis by (simp add: UpdateState_def view_def)
  next
    case (Some w)
    then show ?thesis
      using get_row_in [OF Some] view_cong [of "auditEmit ev d" d for ev d]
      by (auto simp: UpdateState_def Let_def) (auto simp: view_def get_row_set_state work_frame_def move_to_def)
  qed
qed

lemma UpdateStateEventful_view:
  "attempts (snd (UpdateStateEventful e wid to db)) = attempts db"
  "leases (snd (UpdateStateEventful e wid to db)) = leases db"
  "view wid (snd (UpdateStateEventful e wid to db)) = map_option (move_to to) (view wid db)"
proof -
  have "view wid (snd (then_journal e' d r)) = view wid (snd r)" for e' d and r :: "Work result \<times> db"
    by (rule view_cong) simp
  then show "view wid (snd (UpdateStateEventful e wid to db)) = map_option (move_to to) (view wid db)"
    using UpdateState_view(3) [of wid _ to db]
    by (cases "get_row wid db") (simp_all add: UpdateStateEventful_def GetWork_def, simp_all add: view_def)
qed (auto simp: UpdateStateEventful_def UpdateState_view split: sum.split)

text \<open>The state in which completing a lease leaves a Work that was in state \<open>s\<close>.\<close>

definition outcome :: "State \<Rightarrow> Work \<Rightarrow> State" where
  "outcome s w =
     (if any_failed w then (if CanTransition s StateFailed then StateFailed else s)
      else if all_ok w \<and> s = StateRunning then StateSucceeded else s)"

lemma finalize_view:
  assumes "view (work_ID w) db = Some (work_State w, f)"
  shows "attempts (finalize_work e w db) = attempts db \<and> leases (finalize_work e w db) = leases db
    \<and> view (work_ID w) (finalize_work e w db) = Some (outcome (work_State w) w, f)"
  using assms
  by (auto simp: finalize_work_def outcome_def UpdateState_view UpdateStateEventful_view move_to_def CanTransition_def)

lemma GetWork_view:
  assumes "GetWork wid db = Inr w"
  shows "\<exists>f. view wid db = Some (work_State w, f) \<and> Graph f = Graph w \<and> Attempts w = attempts_of wid db \<and> work_ID w = wid"
  using assms get_row_in [of wid db]
  by (auto simp: GetWork_def view_def work_frame_def split: option.splits)

lemma outcome_cong: "Graph w = Graph w' \<Longrightarrow> Attempts w = Attempts w' \<Longrightarrow> outcome s w = outcome s w'"
  by (simp add: outcome_def any_failed_def all_ok_def node_succeeded_def [abs_def])

lemma release_completed_effect:
  assumes "release_completed e lid code db = (Inr wid, db1)"
  obtains l where "find_row lease_ID lid (leases db) = Some l" "lease_Status l = LeaseActive" "lease_WorkID l = wid"
    "\<And>k. view k db1 = view k db"
    "leases db1 = update_where (\<lambda>l. lease_ID l = lid \<and> lease_Status l = LeaseActive)
       (\<lambda>l. l\<lparr>lease_Status := LeaseReleased, LastBeatAt := Now e 0\<rparr>) (leases db)"
    "\<And>r. r \<in> set (attempts db1) \<Longrightarrow> att_ID (ar_attempt r) = lease_AttemptID l \<Longrightarrow>
       att_Status (ar_attempt r) = (if code = 0 then ''succeeded'' else ''failed'') \<and> ExitCode (ar_attempt r) = code"
proof -
  from assms obtain l where l: "find_row lease_ID lid (leases db) = Some l" "lease_Status l = LeaseActive" "lease_WorkID l = wid"
    and db1: "db1 = touch wid (Now e 0) (finish_attempt (lease_AttemptID l)
        (\<lambda>a. a\<lparr>att_Status := if code \<noteq> 0 then ''failed'' else ''succeeded'', ExitCode := code, FinishedAt := Now e 0\<rparr>)
        (db\<lparr>leases := update_where (\<lambda>l. lease_ID l = lid \<and> lease_Status l = LeaseActive)
          (\<lambda>l. l\<lparr>lease_Status := LeaseReleased, LastBeatAt := Now e 0\<rparr>) (leases db)\<rparr>))"
    by (auto simp: release_completed_def Let_def split: option.splits if_splits)
  show ?thesis
  proof (rule that [OF l])
    show "view k db1 = view k db" for k
      unfolding db1 view_touch by (rule view_cong) (simp add: finish_attempt_def)
  qed (auto simp: db1 finish_attempt_def set_update_where split: if_splits)
qed

lemma CompleteLease_steps:
  assumes "CompleteLease sha fmt e lid code art evs db = (Inr w', db')"
  obtains wid db1 db3 w3 where "release_completed e lid code db = (Inr wid, db1)"
    "quiet db1 db3" "GetWork wid db3 = Inr w3"
    "db' = finalize_work (call 3 e) w3 (classifyFailedAttempts sha fmt (call 2 e) w3 db3)" "GetWork wid db' = Inr w'"
proof -
  obtain wid db1 where r: "release_completed e lid code db = (Inr wid, db1)"
    using assms by (auto simp: CompleteLease_def split: prod.splits sum.splits)
  obtain db2 where a: "(case art of None \<Rightarrow> (Inr (), db1) | Some art \<Rightarrow> (case AppendArtifact (call 0 e) wid art db1 of
        (Inl x, d) \<Rightarrow> (Inl x, d) | (Inr _, d) \<Rightarrow> (Inr (), d))) = (Inr (), db2)"
    using assms r by (auto simp: CompleteLease_def split: prod.splits sum.splits)
  have q: "quiet db1 db2"
  proof (cases art)
    case (Some x)
    then show ?thesis
      using a AppendArtifact_quiet [of db1 "call 0 e" wid x] by (auto split: prod.splits sum.splits)
  qed (use a in simp)
  obtain db3 where ev: "append_evidence_loop (call 1 e) 0 wid evs db2 = (Inr (), db3)"
    using assms r a by (auto simp: CompleteLease_def split: prod.splits sum.splits)
  have "quiet db2 db3" using append_evidence_loop_quiet [of db2 "call 1 e" 0 wid evs] ev by simp
  with q have "quiet db1 db3" by (rule quiet_trans)
  with r a ev assms that show ?thesis
    by (auto simp: CompleteLease_def Let_def split: sum.splits)
qed

text \<open>C8. Completing a lease decides the Work's fate from its attempts: the lease must have been ACTIVE and becomes RELEASED,
  its attempt carries the exit code and is succeeded exactly for exit code 0, and the Work is FAILED if some node has a
  failed attempt (where the state machine allows it), SUCCEEDED if it was RUNNING and every node has a succeeded attempt
  and none a failed one, and otherwise stays in its state.\<close>

theorem completion_outcome:
  assumes "store_ok db" and "CompleteLease sha fmt e lid code art evs db = (Inr w', db')"
  shows "\<exists>l l' w. find_row lease_ID lid (leases db) = Some l \<and> lease_Status l = LeaseActive
    \<and> find_row lease_ID lid (leases db') = Some l' \<and> lease_Status l' = LeaseReleased
    \<and> get_row (lease_WorkID l) db = Some w \<and> GetWork (lease_WorkID l) db' = Inr w'
    \<and> (\<forall>a \<in> set (Attempts w'). att_ID a = lease_AttemptID l \<longrightarrow>
          att_Status a = (if code = 0 then ''succeeded'' else ''failed'') \<and> ExitCode a = code)
    \<and> work_State w' = outcome (work_State w) w'"
proof -
  obtain wid db1 db3 w3 where steps: "release_completed e lid code db = (Inr wid, db1)"
    "quiet db1 db3" "GetWork wid db3 = Inr w3"
    "db' = finalize_work (call 3 e) w3 (classifyFailedAttempts sha fmt (call 2 e) w3 db3)" "GetWork wid db' = Inr w'"
    using assms(2) by (rule CompleteLease_steps)
  obtain l where l: "find_row lease_ID lid (leases db) = Some l" "lease_Status l = LeaseActive" "lease_WorkID l = wid"
    "\<And>k. view k db1 = view k db"
    "leases db1 = update_where (\<lambda>l. lease_ID l = lid \<and> lease_Status l = LeaseActive)
       (\<lambda>l. l\<lparr>lease_Status := LeaseReleased, LastBeatAt := Now e 0\<rparr>) (leases db)"
    "\<And>r. r \<in> set (attempts db1) \<Longrightarrow> att_ID (ar_attempt r) = lease_AttemptID l \<Longrightarrow>
       att_Status (ar_attempt r) = (if code = 0 then ''succeeded'' else ''failed'') \<and> ExitCode (ar_attempt r) = code"
    using release_completed_effect [OF steps(1)] by blast
  let ?db4 = "classifyFailedAttempts sha fmt (call 2 e) w3 db3"
  obtain f where f: "view wid db3 = Some (work_State w3, f)" "Graph f = Graph w3" "Attempts w3 = attempts_of wid db3" "work_ID w3 = wid"
    using GetWork_view [OF steps(3)] by blast
  have q4: "quiet db1 ?db4" using steps(2) classify_quiet quiet_trans by blast
  have v4: "view (work_ID w3) ?db4 = Some (work_State w3, f)"
    using f classify_quiet [of db3 sha fmt "call 2 e" w3] by (simp add: quiet_def)
  have fin: "attempts db' = attempts db1" "leases db' = leases db1" "view wid db' = Some (outcome (work_State w3) w3, f)"
    using finalize_view [OF v4, of "call 3 e"] q4 f(4) steps(4) by (auto simp: quiet_def)
  have att: "attempts db3 = attempts db1" using steps(2) by (simp add: quiet_def)
  obtain f' where w': "view wid db' = Some (work_State w', f')" "Graph f' = Graph w'" "Attempts w' = attempts_of wid db'"
    using GetWork_view [OF steps(5)] by blast
  have same: "outcome s w' = outcome s w3" for s
    by (rule outcome_cong) (use w' fin f att in \<open>simp_all add: attempts_of_def\<close>)
  have "view wid db = Some (work_State w3, f)"
    using f(1) l(4) steps(2) by (simp add: quiet_def)
  then obtain w where w: "get_row wid db = Some w" "work_State w = work_State w3"
    by (auto simp: view_def)
  have released: "find_row lease_ID lid (leases db') = Some (l\<lparr>lease_Status := LeaseReleased, LastBeatAt := Now e 0\<rparr>)"
    using l(1,2) find_row_Some [OF l(1)] by (simp add: fin(2) l(5) find_row_update_where)
  have "att_Status a = (if code = 0 then ''succeeded'' else ''failed'') \<and> ExitCode a = code"
    if "a \<in> set (Attempts w')" "att_ID a = lease_AttemptID l" for a
    using that l(6) by (auto simp: w'(3) attempts_of_def fin(1))
  then show ?thesis
    using l(1-3) released w w'(1) fin(3) same steps(5) by auto
qed

subsection \<open>The reaper\<close>

lemma RevokeLease_active:
  assumes "find_row lease_ID lid (leases db) = Some l" "lease_Status l = LeaseActive"
  obtains d where "RevokeLease e lid reason db = (Inr (), d)"
    "\<And>k. find_row lease_ID k (leases d) = (if k = lid then Some (l\<lparr>lease_Status := LeaseRevoked, LastBeatAt := Now e 0\<rparr>)
       else find_row lease_ID k (leases db))"
proof -
  let ?f = "\<lambda>l. l\<lparr>lease_Status := LeaseRevoked, LastBeatAt := Now e 0\<rparr>"
  have "find_row lease_ID k (update_where (\<lambda>l. lease_ID l = lid) ?f (leases db)) =
      (if k = lid then Some (?f l) else find_row lease_ID k (leases db))" for k
    using assms(1) find_row_Some [of lease_ID _ "leases db"]
    by (cases "find_row lease_ID k (leases db)") (auto simp: find_row_update_where)
  then show ?thesis
    using assms that
    by (simp add: RevokeLease_def transitionLeaseAttempt_def ValidateLeaseTransition_def Let_def finish_attempt_def)
qed

lemma leases_MarkAttemptCancelled [simp]: "leases (MarkAttemptCancelled e aid reason db) = leases db"
  by (simp add: MarkAttemptCancelled_def)

lemma reap_loop_effect:
  assumes "distinct (map lease_ID ls)"
    and "\<And>l. l \<in> set ls \<Longrightarrow> find_row lease_ID (lease_ID l) (leases db) = Some l \<and> lease_Status l = LeaseActive"
  shows "fst (reap_loop e i ls (n, db)) = n + length ls
    \<and> (\<forall>k. k \<notin> lease_ID ` set ls \<longrightarrow>
          find_row lease_ID k (leases (snd (reap_loop e i ls (n, db)))) = find_row lease_ID k (leases db))
    \<and> (\<forall>l \<in> set ls. \<exists>l'. find_row lease_ID (lease_ID l) (leases (snd (reap_loop e i ls (n, db)))) = Some l'
          \<and> lease_Status l' = LeaseRevoked \<and> lease_frame l' = lease_frame l)"
  using assms
proof (induction ls arbitrary: i n db)
  case (Cons l ls)
  have "find_row lease_ID (lease_ID l) (leases db) = Some l" "lease_Status l = LeaseActive"
    using Cons.prems(2) [of l] by simp_all
  then obtain d where d: "RevokeLease (call (2 * i) e) (lease_ID l) ''lease expired'' db = (Inr (), d)"
    "\<And>k. find_row lease_ID k (leases d) = (if k = lease_ID l
       then Some (l\<lparr>lease_Status := LeaseRevoked, LastBeatAt := Now (call (2 * i) e) 0\<rparr>) else find_row lease_ID k (leases db))"
    by (rule RevokeLease_active [where e = "call (2 * i) e" and reason = "''lease expired''"]) (rule that)
  let ?d = "MarkAttemptCancelled (call (2 * i + 1) e) (lease_AttemptID l) ''lease expired'' d"
  have rest: "find_row lease_ID (lease_ID k) (leases ?d) = Some k \<and> lease_Status k = LeaseActive" if "k \<in> set ls" for k
  proof -
    have "lease_ID k \<noteq> lease_ID l" using that Cons.prems(1) by (metis distinct.simps(2) imageI list.set_map list.simps(9))
    with that Cons.prems(2) [of k] show ?thesis by (simp add: d(2))
  qed
  have step: "reap_loop e i (l # ls) (n, db) = reap_loop e (i + 1) ls (n + 1, ?d)"
    using d(1) by simp
  have hd: "lease_ID l \<notin> lease_ID ` set ls" using Cons.prems(1) by simp
  show ?case
    unfolding step using Cons.IH [of ?d "i + 1" "n + 1", OF _ rest] Cons.prems(1) hd
    by (auto simp: d(2) lease_frame_def)
qed simp

lemma expired_sublist:
  "set (ListExpiredLeases now limit db) \<subseteq> {l \<in> set (leases db). lease_Status l = LeaseActive \<and> text_before (ExpiresAt l) now}"
  unfolding ListExpiredLeases_def using set_take_subset by fastforce

text \<open>One reaper pass: it revokes exactly the leases the query returned and counts them; every other lease is untouched.
  A revoked lease had expired or was less than one second from expiring, and when the batch limit is not reached no ACTIVE
  lease that expired a second or more ago survives.\<close>

theorem reaper_revokes_expired:
  assumes "store_ok db"
  shows "let batch = ListExpiredLeases (Now e 0) limit db; (n, db') = reapOnce e limit db in
    n = length batch
    \<and> (\<forall>l \<in> set batch. ExpiresAt l < Now e 0 + Second
         \<and> (\<exists>l'. find_row lease_ID (lease_ID l) (leases db') = Some l' \<and> lease_Status l' = LeaseRevoked))
    \<and> (\<forall>k. k \<notin> lease_ID ` set batch \<longrightarrow> find_row lease_ID k (leases db') = find_row lease_ID k (leases db))
    \<and> (length batch < nat (if limit \<le> 0 then 100 else limit) \<longrightarrow>
         (\<forall>l \<in> set (leases db'). lease_Status l = LeaseActive \<longrightarrow> Now e 0 < ExpiresAt l + Second))"
proof -
  define batch where "batch = ListExpiredLeases (Now e 0) limit db"
  obtain n db' where run: "reapOnce e limit db = (n, db')" by (cases "reapOnce e limit db")
  have ids: "distinct (map lease_ID (leases db))" using assms by (simp add: store_ok_def leases_ok_def)
  have sub: "set batch \<subseteq> {l \<in> set (leases db). lease_Status l = LeaseActive \<and> text_before (ExpiresAt l) (Now e 0)}"
    unfolding batch_def by (rule expired_sublist)
  have dist: "distinct (map lease_ID batch)"
    using ids by (simp add: batch_def ListExpiredLeases_def take_map [symmetric] distinct_map_filter)
  have rows: "find_row lease_ID (lease_ID l) (leases db) = Some l \<and> lease_Status l = LeaseActive" if "l \<in> set batch" for l
    using that sub find_row_distinct [OF ids, of l] by auto
  have db': "n = fst (reap_loop (call 0 e) 0 batch (0, db))" "db' = snd (reap_loop (call 0 e) 0 batch (0, db))"
    using run by (simp_all add: reapOnce_def batch_def)
  note eff = reap_loop_effect [of batch db "call 0 e" 0 0, OF dist rows, folded db']
  have ids': "distinct (map lease_ID (leases db'))"
    using reapOnce_advances [of "\<lambda>_ _. True" db e limit] assms run by (simp add: advances_def store_ok_def leases_ok_def)
  have late: "Now e 0 < ExpiresAt l + Second"
    if "length batch < nat (if limit \<le> 0 then 100 else limit)" "l \<in> set (leases db')" "lease_Status l = LeaseActive" for l
  proof (rule ccontr)
    assume "\<not> Now e 0 < ExpiresAt l + Second"
    then have before: "text_before (ExpiresAt l) (Now e 0)" by (simp add: text_before_after_second)
    have full: "batch = filter (\<lambda>l. lease_Status l = LeaseActive \<and> text_before (ExpiresAt l) (Now e 0)) (leases db)"
      using that(1) by (simp add: batch_def ListExpiredLeases_def)
    have row: "find_row lease_ID (lease_ID l) (leases db') = Some l"
      by (rule find_row_distinct [OF ids' that(2)])
    have "lease_ID l \<notin> lease_ID ` set batch"
      using eff row that(3) by fastforce
    with eff row have "find_row lease_ID (lease_ID l) (leases db) = Some l" by simp
    then have "l \<in> set batch" using full before that(3) by (auto dest: find_row_Some)
    with \<open>lease_ID l \<notin> lease_ID ` set batch\<close> show False by blast
  qed
  have "ExpiresAt l < Now e 0 + Second" if "l \<in> set batch" for l
    using that sub text_before_within_second by blast
  then show ?thesis
    using eff late unfolding batch_def [symmetric] run Let_def by fastforce
qed

subsection \<open>Batched lease queries\<close>

lemma mark_active_lookup:
  "go_true (case map_of (mark_active l out) wid of None \<Rightarrow> [] | Some m \<Rightarrow> m) nid \<longleftrightarrow>
     (lease_WorkID l = wid \<and> lease_NodeID l = nid) \<or> go_true (case map_of out wid of None \<Rightarrow> [] | Some m \<Rightarrow> m) nid"
  by (auto simp: mark_active_def go_true_def update_conv split: option.splits)

lemma fold_mark_active_lookup:
  "go_true (case map_of (fold mark_active ls out) wid of None \<Rightarrow> [] | Some m \<Rightarrow> m) nid \<longleftrightarrow>
     (\<exists>l \<in> set ls. lease_WorkID l = wid \<and> lease_NodeID l = nid)
     \<or> go_true (case map_of out wid of None \<Rightarrow> [] | Some m \<Rightarrow> m) nid"
  by (induction ls arbitrary: out) (auto simp: mark_active_lookup)

lemma active_chunks_lookup:
  "go_true (case map_of (active_chunks db ids out) wid of None \<Rightarrow> [] | Some m \<Rightarrow> m) nid \<longleftrightarrow>
     (wid \<in> set ids \<and> (\<exists>l \<in> set (leases db). lease_WorkID l = wid \<and> lease_NodeID l = nid \<and> lease_Status l = LeaseActive))
     \<or> go_true (case map_of out wid of None \<Rightarrow> [] | Some m \<Rightarrow> m) nid"
proof (induction db ids out rule: active_chunks.induct)
  case (1 db ids out)
  show ?case
  proof (cases "ids = []")
    case True
    then show ?thesis by (simp add: active_chunks.simps)
  next
    case False
    have split: "set ids = set (take 400 ids) \<union> set (drop 400 ids)"
      by (metis append_take_drop_id set_append)
    have "active_chunks db ids out = active_chunks db (drop 400 ids) (fold mark_active
        (filter (\<lambda>l. lease_WorkID l \<in> set (take 400 ids) \<and> lease_Status l = LeaseActive) (leases db)) out)"
      using False by (subst active_chunks.simps) simp
    then show ?thesis
      unfolding split using "1.IH" [OF False] by (auto simp: fold_mark_active_lookup)
  qed
qed

text \<open>The batched lease query used by the scheduler poll agrees with the single one: for every Work of the batch, a node is
  reported as leased exactly when \<^verbatim>\<open>ActiveLeasesByWorkID\<close> reports it, whatever the size of the batch.\<close>

theorem batched_leases_equal_single:
  assumes "wid \<in> set ids"
  shows "go_true (case map_of (ActiveLeasesByWorkIDs ids db) wid of None \<Rightarrow> [] | Some m \<Rightarrow> m) nid
    = go_true (ActiveLeasesByWorkID wid db) nid"
proof -
  have "go_true (ActiveLeasesByWorkID wid db) nid \<longleftrightarrow>
      (\<exists>l \<in> set (leases db). lease_WorkID l = wid \<and> lease_NodeID l = nid \<and> lease_Status l = LeaseActive)"
    by (auto simp: ActiveLeasesByWorkID_def go_true_def map_of_map_restrict [of "\<lambda>_. True", unfolded id_apply] restrict_map_def split: if_splits)
  then show ?thesis
    using assms by (simp add: ActiveLeasesByWorkIDs_def active_chunks_lookup) (simp add: go_true_def)
qed

section \<open>Concrete runs\<close>

definition clock :: "time \<Rightarrow> env" where
  "clock t = \<lparr>nows = (\<lambda>_. t), idents = (\<lambda>p. p)\<rparr>"

definition demo_lease :: Lease where
  "demo_lease = new_lease (fresh (clock 0) 1 ''lse'') ''w1'' ''build'' ''worker'' (fresh (clock 0) 0 ''att'') 0 5250000000"

definition leased_db :: db where
  "leased_db = snd (GrantLease (clock 0) ''w1'' ''build'' ''worker'' 5250000000 demo_db)"

lemma demo_tables: "attempts demo_db = []" "leases demo_db = []"
  by (simp_all add: demo_db_def CreateWork_def demo_valid Let_def get_row_def empty_db_def)

lemma demo_state: "work_State (stamp_work demo_env demo_work) = StateCreated"
  by (simp add: stamp_work_def Let_def demo_work_def zero_Work_def)

lemma demo_grant:
  "GrantLease (clock 0) ''w1'' ''build'' ''worker'' 5250000000 demo_db =
     (Inr (demo_lease, new_attempt (fresh (clock 0) 0 ''att'') ''build'' ''worker'' 0), leased_db)"
  by (simp add: leased_db_def GrantLease_def demo_row demo_state Let_def paused_def active_on_def demo_tables insert_lease_def
      demo_lease_def default_ttl_def Now_def clock_def new_attempt_def)

lemma leased_db_ok: "store_ok leased_db"
  unfolding leased_db_def by (rule GrantLease_ok [OF demo_db_ok])

lemma leased_db_leases: "leases leased_db = [demo_lease]"
  by (simp add: leased_db_def GrantLease_def demo_row demo_state Let_def paused_def active_on_def demo_tables insert_lease_def
      demo_lease_def default_ttl_def Now_def clock_def new_attempt_def)

lemma pad_digits_numeral:
  "pad_digits (numeral k) n = pad_digits (pred_numeral k) (n div 10) @ [char_of (48 + n mod 10)]"
  by (simp only: numeral_eq_Suc pad_digits.simps)

lemma text_order_inverts: "text_before 5250000000 5200000000"
proof -
  have digits: "char_of (48 :: nat) = CHR ''0''" "char_of (50 :: nat) = CHR ''2''" "char_of (53 :: nat) = CHR ''5''"
    by (simp_all add: char_of_def bit_iff_odd)
  have "pad_digits 9 250000000 = ''250000000''" "pad_digits 9 200000000 = ''200000000''"
    by (simp_all add: pad_digits_numeral digits)
  then show ?thesis
    by (simp add: text_before_def rfc_key_def frac_text_def Second_def less_prod_def less_char_def)
qed

text \<open>The list is not in the order of update times: of two Works updated within one second, at 5.2 s and at 5.25 s, the one updated earlier comes first.\<close>

theorem list_misorders_within_second:
  "\<exists>db v w. store_ok db \<and> works db = [v, w] \<and> UpdatedAt v < UpdatedAt w \<and> map work_ID (ListWorks 10 db) = [work_ID v, work_ID w]"
proof -
  let ?v = "zero_Work\<lparr>work_ID := ''v'', UpdatedAt := 5200000000\<rparr>" and ?w = "zero_Work\<lparr>work_ID := ''w'', UpdatedAt := 5250000000\<rparr>"
  let ?db = "empty_db\<lparr>works := [?v, ?w]\<rparr>"
  have ok: "store_ok ?db"
    by (simp add: store_ok_def works_ok_def children_ok_def leases_ok_def exclusive_def handoffs_ok_def journal_ok_def empty_db_def bare_def zero_Work_def)
  have "order_desc UpdatedAt (works ?db) = [?v, ?w]"
    using text_order_inverts by (simp add: order_desc_def text_before_def)
  then have "map work_ID (ListWorks 10 ?db) = [work_ID ?v, work_ID ?w]"
    by (simp add: ListWorks_def listWorksWhere_rows [OF ok] add_children_def list_columns_def)
  with ok show ?thesis by (intro exI [of _ ?db] exI [of _ ?v] exI [of _ ?w]) simp
qed

text \<open>C9. The reaper can revoke a lease that has not expired: SQLite compares the RFC3339Nano texts, which drop trailing zeros, so a
  lease that expires at 5.25 s is reaped at 5.2 s.\<close>

theorem reaper_revokes_unexpired_lease:
  "\<exists>db e l l'. store_ok db \<and> l \<in> set (leases db) \<and> lease_Status l = LeaseActive \<and> Now e 0 < ExpiresAt l
    \<and> find_row lease_ID (lease_ID l) (leases (snd (reapOnce e 100 db))) = Some l' \<and> lease_Status l' = LeaseRevoked"
proof -
  have l: "lease_Status demo_lease = LeaseActive" "ExpiresAt demo_lease = 5250000000"
    by (simp_all add: demo_lease_def new_lease_def)
  have batch: "ListExpiredLeases (Now (clock 5200000000) 0) 100 leased_db = [demo_lease]"
    using text_order_inverts by (simp add: ListExpiredLeases_def leased_db_leases l Now_def clock_def)
  have "\<exists>l'. find_row lease_ID (lease_ID demo_lease) (leases (snd (reapOnce (clock 5200000000) 100 leased_db))) = Some l'
      \<and> lease_Status l' = LeaseRevoked"
    unfolding reapOnce_def batch
    using reap_loop_effect [of "[demo_lease]" leased_db "call 0 (clock 5200000000)" 0 0] l(1)
    by (auto simp: leased_db_leases simp del: reap_loop.simps)
  then obtain l' where "find_row lease_ID (lease_ID demo_lease) (leases (snd (reapOnce (clock 5200000000) 100 leased_db))) = Some l'"
    "lease_Status l' = LeaseRevoked" by blast
  moreover have "Now (clock 5200000000) 0 < ExpiresAt demo_lease" by (simp add: l(2) Now_def clock_def)
  ultimately show ?thesis
    using leased_db_ok l(1) by (intro exI [of _ leased_db] exI [of _ "clock 5200000000"] exI [of _ demo_lease] exI [of _ l'])
      (simp add: leased_db_leases)
qed


lemma leased_db_complete:
  "\<exists>w db'. CompleteLease (\<lambda>x. CHR ''h'' # x) (\<lambda>_. ''t'') (clock 9) (lease_ID demo_lease) 0 None [] leased_db = (Inr w, db')"
proof -
  let ?r = "CompleteLease (\<lambda>x. CHR ''h'' # x) (\<lambda>_. ''t'') (clock 9) (lease_ID demo_lease) 0 None [] leased_db"
  have wid: "lease_WorkID demo_lease = ''w1''" "lease_Status demo_lease = LeaseActive"
    by (simp_all add: demo_lease_def)
  obtain db1 where rel: "release_completed (clock 9) (lease_ID demo_lease) 0 leased_db = (Inr ''w1'', db1)"
    by (simp add: release_completed_def leased_db_leases wid Let_def)
  have present: "get_row ''w1'' d \<noteq> None" if "evolves CanTransition leased_db d" for d
  proof -
    have "evolves CanTransition demo_db leased_db"
      unfolding leased_db_def by (rule GrantLease_evolves)
    from evolves_trans [OF this that] show ?thesis
      using demo_row unfolding evolves_def by blast
  qed
  have adv: "evolves CanTransition leased_db (snd ?r)" "evolves CanTransition leased_db db1"
    using CompleteLease_advances [of leased_db] leased_db_ok rel
      release_completed_advances [of CanTransition leased_db "clock 9" "lease_ID demo_lease" 0]
    by (simp_all add: advances_def)
  from present [OF adv(2)] obtain w1 where w1: "GetWork ''w1'' db1 = Inr w1" by (auto simp: GetWork_def)
  from present [OF adv(1)] have "\<exists>w2. GetWork ''w1'' (snd ?r) = Inr w2" by (auto simp: GetWork_def)
  then show ?thesis
    by (simp add: CompleteLease_def rel w1 Let_def)
qed

theorem completion_outcome_witness:
  "\<exists>w db' l'. CompleteLease (\<lambda>x. CHR ''h'' # x) (\<lambda>_. ''t'') (clock 9) (lease_ID demo_lease) 0 None [] leased_db = (Inr w, db')
    \<and> find_row lease_ID (lease_ID demo_lease) (leases db') = Some l' \<and> lease_Status l' = LeaseReleased"
proof -
  obtain w db' where run: "CompleteLease (\<lambda>x. CHR ''h'' # x) (\<lambda>_. ''t'') (clock 9) (lease_ID demo_lease) 0 None [] leased_db = (Inr w, db')"
    using leased_db_complete by blast
  from completion_outcome [OF leased_db_ok this] show ?thesis
    using run by blast
qed

theorem reaper_revokes_expired_witness:
  "fst (reapOnce (clock 5200000000) 100 leased_db) = length (ListExpiredLeases 5200000000 100 leased_db)"
  using reaper_revokes_expired [OF leased_db_ok, of "clock 5200000000" 100]
  by (auto simp: Let_def Now_def clock_def split: prod.splits)

theorem batched_leases_equal_single_witness:
  "go_true (case map_of (ActiveLeasesByWorkIDs [''w0'', ''w1''] leased_db) ''w1'' of None \<Rightarrow> [] | Some m \<Rightarrow> m) ''build''
    = go_true (ActiveLeasesByWorkID ''w1'' leased_db) ''build''"
  by (rule batched_leases_equal_single) simp

end
