(* ===== verification/Verified_State.thy ===== *)
theory Verified_State
  imports Go_Prelude "HOL-Library.Multiset"
begin

text \<open>
  The verification lifecycle (\<^verbatim>\<open>packages/verifiedstate\<close>): the typed dependency graph with its operations, the
  reconciliation of a checkpoint with a fresh observation, and the verification-aware part of a handoff.

  The propagation loop of \<^verbatim>\<open>Reconcile\<close> is a worklist over a severity map; it is shown to terminate on every graph, cycles
  included, and to compute exactly the least impact given by an inductive definition of the dependency law.
\<close>

section \<open>Types\<close>

datatype VState = StateUnknown | StateCandidate | StateVerified | StateStale | StateInvalidated | StateRejected
  | VStateOther string

datatype EdgeType = EdgeData | EdgeEffect | EdgeResource | EdgeAuthority | EdgeTemporal | EdgeVerification
  | EdgeJoin | EdgeEvent | EdgeOther string

fun edge_text :: "EdgeType \<Rightarrow> string" where
  "edge_text EdgeData = ''DATA''"
| "edge_text EdgeEffect = ''EFFECT''"
| "edge_text EdgeResource = ''RESOURCE''"
| "edge_text EdgeAuthority = ''AUTHORITY''"
| "edge_text EdgeTemporal = ''TEMPORAL''"
| "edge_text EdgeVerification = ''VERIFICATION''"
| "edge_text EdgeJoin = ''JOIN''"
| "edge_text EdgeEvent = ''EVENT''"
| "edge_text (EdgeOther s) = s"

datatype vs_error =
    ErrUnknownNode string
  | ErrDuplicateNode string
  | ErrInvalidState VState
  | ErrBadTransition VState VState
  | ErrInvalidEdge
  | ErrInvalidVerification
  | ErrNotCanonical string
  | ErrInvalidSnapshot
  | ErrInvalidCheckpoint

record VerificationRef =
  VerifierID :: string
  EvidenceRef :: string
  SubjectRef :: string
  VerifiedAt :: time

record VNode =
  vn_ID :: string
  vn_State :: VState
  Fingerprint :: string
  vn_Verification :: "VerificationRef option"

record Edge =
  e_From :: string
  e_To :: string
  e_Type :: EdgeType

type_synonym Snapshot = "string gomap"

record Impact =
  im_NodeID :: string
  im_State :: VState

record ReconcileResult =
  Changed :: "string list"
  Missing :: "string list"
  Added :: "string list"
  Impacted :: "Impact list"

record VGraph =
  nodes :: "VNode gomap"
  outgoing :: "Edge list gomap"

fun validState :: "VState \<Rightarrow> bool" where
  "validState (VStateOther s) = False"
| "validState _ = True"

fun validEdgeType :: "EdgeType \<Rightarrow> bool" where
  "validEdgeType (EdgeOther s) = False"
| "validEdgeType _ = True"

fun hardInvalidation :: "EdgeType \<Rightarrow> bool" where
  "hardInvalidation EdgeEffect = True"
| "hardInvalidation EdgeAuthority = True"
| "hardInvalidation EdgeVerification = True"
| "hardInvalidation _ = False"

definition validVerification :: "VerificationRef option \<Rightarrow> bool" where
  "validVerification vo = (case vo of None \<Rightarrow> False
     | Some v \<Rightarrow> VerifierID v \<noteq> [] \<and> EvidenceRef v \<noteq> [] \<and> SubjectRef v \<noteq> [] \<and> \<not> IsZero (VerifiedAt v))"

section \<open>Construction\<close>

fun add_nodes :: "VNode list \<Rightarrow> VNode gomap \<Rightarrow> vs_error + VNode gomap" where
  "add_nodes [] m = Inr m"
| "add_nodes (n # ns) m =
     (if vn_ID n = [] then Inl (ErrUnknownNode [])
      else if \<not> validState (vn_State n) then Inl (ErrInvalidState (vn_State n))
      else if map_of m (vn_ID n) \<noteq> None then Inl (ErrDuplicateNode (vn_ID n))
      else if vn_State n = StateVerified \<and> (Fingerprint n = [] \<or> \<not> validVerification (vn_Verification n))
        then Inl ErrInvalidVerification
      else add_nodes ns (m @ [(vn_ID n, n)]))"

definition out_edges :: "Edge list gomap \<Rightarrow> string \<Rightarrow> Edge list" where
  "out_edges m v = (case map_of m v of None \<Rightarrow> [] | Some es \<Rightarrow> es)"

fun add_edges :: "VNode gomap \<Rightarrow> Edge list \<Rightarrow> Edge list gomap \<Rightarrow> vs_error + Edge list gomap" where
  "add_edges ns [] m = Inr m"
| "add_edges ns (e # es) m =
     (if e_From e = [] \<or> e_To e = [] \<or> e_From e = e_To e \<or> \<not> validEdgeType (e_Type e) then Inl ErrInvalidEdge
      else if map_of ns (e_From e) = None then Inl (ErrUnknownNode (e_From e))
      else if map_of ns (e_To e) = None then Inl (ErrUnknownNode (e_To e))
      else add_edges ns es (AList.update (e_From e) (out_edges m (e_From e) @ [e]) m))"

definition sort_edges :: "Edge list \<Rightarrow> Edge list" where
  "sort_edges es = sort_key (\<lambda>e. (e_To e, edge_text (e_Type e))) es"

definition NewGraph :: "VNode list \<Rightarrow> Edge list \<Rightarrow> vs_error + VGraph" where
  "NewGraph ns es = (case add_nodes ns [] of Inl x \<Rightarrow> Inl x
     | Inr nm \<Rightarrow> (case add_edges nm es [] of Inl x \<Rightarrow> Inl x
       | Inr om \<Rightarrow> Inr \<lparr>nodes = nm, outgoing = map (\<lambda>(k, es). (k, sort_edges es)) om\<rparr>))"

section \<open>Lifecycle\<close>

definition GraphNode :: "VGraph \<Rightarrow> string \<Rightarrow> VNode option" where
  "GraphNode g v = map_of (nodes g) v"

definition set_node :: "string \<Rightarrow> VNode \<Rightarrow> VGraph \<Rightarrow> VGraph" where
  "set_node v n g = g\<lparr>nodes := AList.update v n (nodes g)\<rparr>"

definition BeginCandidate :: "string \<Rightarrow> VGraph \<Rightarrow> vs_error option \<times> VGraph" where
  "BeginCandidate v g = (case map_of (nodes g) v of None \<Rightarrow> (Some (ErrUnknownNode v), g)
     | Some n \<Rightarrow>
       if vn_State n \<in> {StateUnknown, StateStale, StateInvalidated, StateRejected}
       then (None, set_node v (n\<lparr>vn_State := StateCandidate, vn_Verification := None\<rparr>) g)
       else if vn_State n = StateCandidate then (None, g)
       else (Some (ErrBadTransition (vn_State n) StateCandidate), g))"

definition Verify :: "string \<Rightarrow> string \<Rightarrow> VerificationRef \<Rightarrow> VGraph \<Rightarrow> vs_error option \<times> VGraph" where
  "Verify v fingerprint proof_ref g = (case map_of (nodes g) v of None \<Rightarrow> (Some (ErrUnknownNode v), g)
     | Some n \<Rightarrow>
       if vn_State n \<noteq> StateCandidate then (Some (ErrBadTransition (vn_State n) StateVerified), g)
       else if fingerprint = [] \<or> \<not> validVerification (Some proof_ref) then (Some ErrInvalidVerification, g)
       else (None, set_node v (n\<lparr>vn_State := StateVerified, Fingerprint := fingerprint,
              vn_Verification := Some proof_ref\<rparr>) g))"

definition Reject :: "string \<Rightarrow> VGraph \<Rightarrow> vs_error option \<times> VGraph" where
  "Reject v g = (case map_of (nodes g) v of None \<Rightarrow> (Some (ErrUnknownNode v), g)
     | Some n \<Rightarrow>
       if vn_State n \<noteq> StateCandidate then (Some (ErrBadTransition (vn_State n) StateRejected), g)
       else (None, set_node v (n\<lparr>vn_State := StateRejected\<rparr>) g))"

fun check_canonical :: "string list \<Rightarrow> VGraph \<Rightarrow> vs_error option" where
  "check_canonical [] g = None"
| "check_canonical (v # vs) g = (case map_of (nodes g) v of None \<Rightarrow> Some (ErrUnknownNode v)
     | Some n \<Rightarrow>
       if vn_State n \<noteq> StateVerified \<or> Fingerprint n = [] \<or> \<not> validVerification (vn_Verification n)
       then Some (ErrNotCanonical v) else check_canonical vs g)"

definition CanCanonicalize :: "string list \<Rightarrow> VGraph \<Rightarrow> vs_error option" where
  "CanCanonicalize vs g = (if vs = [] then Some (ErrNotCanonical []) else check_canonical vs g)"

fun take_snapshot :: "string list \<Rightarrow> VGraph \<Rightarrow> Snapshot \<Rightarrow> vs_error + Snapshot" where
  "take_snapshot [] g out = Inr out"
| "take_snapshot (v # vs) g out = (case map_of (nodes g) v of None \<Rightarrow> Inl (ErrUnknownNode v)
     | Some n \<Rightarrow> if Fingerprint n = [] then Inl ErrInvalidSnapshot
         else take_snapshot vs g (AList.update v (Fingerprint n) out))"

definition GraphSnapshot :: "string list \<Rightarrow> VGraph \<Rightarrow> vs_error + Snapshot" where
  "GraphSnapshot vs g = take_snapshot (if vs = [] then sort (keys (nodes g)) else vs) g []"

section \<open>Reconciliation\<close>

fun validateSnapshot :: "Snapshot \<Rightarrow> VGraph \<Rightarrow> vs_error option" where
  "validateSnapshot [] g = None"
| "validateSnapshot ((v, fp) # s) g =
     (if v = [] \<or> fp = [] then Some ErrInvalidSnapshot
      else if map_of (nodes g) v = None then Some (ErrUnknownNode v)
      else validateSnapshot s g)"

type_synonym severity = "nat gomap"

definition sev :: "severity \<Rightarrow> string \<Rightarrow> nat" where
  "sev m v = (case map_of m v of None \<Rightarrow> 0 | Some k \<Rightarrow> k)"

fun seed_roots :: "string list \<Rightarrow> severity \<Rightarrow> string list \<Rightarrow> severity \<times> string list" where
  "seed_roots [] m q = (m, q)"
| "seed_roots (v # vs) m q =
     (if sev m v < 1 then seed_roots vs (AList.update v 1 m) (q @ [v]) else seed_roots vs m q)"

definition next_severity :: "nat \<Rightarrow> EdgeType \<Rightarrow> nat" where
  "next_severity base t = (if hardInvalidation t \<or> base = 2 then 2 else 1)"

text \<open>The inner loop over the edges that leave a node of severity \<open>base\<close>.\<close>

fun relax :: "nat \<Rightarrow> Edge list \<Rightarrow> severity \<Rightarrow> string list \<Rightarrow> severity \<times> string list" where
  "relax base [] m q = (m, q)"
| "relax base (e # es) m q =
     (let next = next_severity base (e_Type e) in
      if sev m (e_To e) \<ge> next then relax base es m q
      else relax base es (AList.update (e_To e) next m) (q @ [e_To e]))"

text \<open>
  The worklist terminates because every push raises a severity that never exceeds 2: the length of the
  queue plus what the targets of edges can still rise decreases with every node taken from the queue.
\<close>

definition targets :: "Edge list gomap \<Rightarrow> string set" where
  "targets out = e_To ` (\<Union>p \<in> set out. set (snd p))"

definition headroom :: "Edge list gomap \<Rightarrow> severity \<Rightarrow> nat" where
  "headroom out m = (\<Sum>v \<in> targets out. 2 - sev m v)"

lemma sev_update: "sev (AList.update v k m) w = (if w = v then k else sev m w)"
  by (simp add: sev_def update_conv)

lemma finite_targets [simp]: "finite (targets out)"
  by (simp add: targets_def)

lemma out_edges_targets:
  assumes "e \<in> set (out_edges out v)"
  shows "e_To e \<in> targets out"
proof (cases "map_of out v")
  case (Some es)
  then have "e \<in> (\<Union>p \<in> set out. set (snd p))"
    using assms Some by (intro UN_I [OF map_of_SomeD [OF Some]]) (simp add: out_edges_def)
  then show ?thesis by (simp add: targets_def)
qed (use assms in \<open>simp add: out_edges_def\<close>)

lemma next_severity_le: "next_severity b t \<le> 2" "1 \<le> next_severity b t"
  by (simp_all add: next_severity_def)

lemma headroom_raise:
  assumes "v \<in> targets out" "sev m v < k" "k \<le> 2"
  shows "headroom out (AList.update v k m) < headroom out m"
  unfolding headroom_def
proof (rule sum_strict_mono_ex1)
  show "\<forall>x\<in>targets out. 2 - sev (AList.update v k m) x \<le> 2 - sev m x"
    using assms(2) by (simp add: sev_update diff_le_mono2)
  have "2 - k < 2 - sev m v"
    using assms(2,3) by linarith
  then have "2 - sev (AList.update v k m) v < 2 - sev m v"
    by (simp only: sev_update if_True simp_thms)
  then show "\<exists>x\<in>targets out. 2 - sev (AList.update v k m) x < 2 - sev m x"
    using assms(1) by blast
qed simp

lemma relax_potential:
  "set es \<subseteq> set (out_edges out u) \<Longrightarrow>
     headroom out (fst (relax b es m q)) + length (snd (relax b es m q)) \<le> headroom out m + length q"
proof (induction es arbitrary: m q)
  case (Cons e es)
  let ?k = "next_severity b (e_Type e)"
  have "headroom out (AList.update (e_To e) ?k m) < headroom out m" if "\<not> ?k \<le> sev m (e_To e)"
    by (rule headroom_raise) (use that Cons.prems out_edges_targets next_severity_le in auto)
  then show ?case
    using Cons.IH [of m q] Cons.IH [of "AList.update (e_To e) ?k m" "q @ [e_To e]"] Cons.prems
    by (auto simp: Let_def)
qed simp

function propagate :: "Edge list gomap \<Rightarrow> severity \<Rightarrow> string list \<Rightarrow> severity" where
  "propagate out m [] = m"
| "propagate out m (u # q) =
     (case relax (sev m u) (out_edges out u) m q of (m', q') \<Rightarrow> propagate out m' q')"
  by pat_completeness auto
termination
proof (relation "measure (\<lambda>(out, m, q). headroom out m + length q)", goal_cases)
  case (2 out m u q m' q')
  then show ?case
    using relax_potential [of "out_edges out u" out u "sev m u" m q]
    by (cases "relax (sev m u) (out_edges out u) m q") auto
qed simp

definition sev_state :: "nat \<Rightarrow> VState" where
  "sev_state k = (if k = 2 then StateInvalidated else StateStale)"

text \<open>The final loop: states are written and reported in the order of the sorted identifiers.\<close>

fun apply_impacts :: "severity \<Rightarrow> string list \<Rightarrow> VNode gomap \<Rightarrow> VNode gomap" where
  "apply_impacts m [] ns = ns"
| "apply_impacts m (v # vs) ns = apply_impacts m vs (case map_of ns v of None \<Rightarrow> ns
     | Some n \<Rightarrow> AList.update v (n\<lparr>vn_State := sev_state (sev m v)\<rparr>) ns)"

definition Reconcile ::
  "Snapshot option \<Rightarrow> Snapshot option \<Rightarrow> VGraph \<Rightarrow> (vs_error + ReconcileResult) \<times> VGraph" where
  "Reconcile cpo curo g = (case (cpo, curo) of
     (Some cp, Some cur) \<Rightarrow>
       (case validateSnapshot cp g of Some x \<Rightarrow> (Inl x, g)
        | None \<Rightarrow> (case validateSnapshot cur g of Some x \<Rightarrow> (Inl x, g)
        | None \<Rightarrow>
          let missing = sort (map fst (filter (\<lambda>(v, fp). map_of cur v = None) cp));
            changed = sort (map fst (filter (\<lambda>(v, fp). map_of cur v \<noteq> None \<and> map_of cur v \<noteq> Some fp) cp));
            added = sort (map fst (filter (\<lambda>(v, fp). map_of cp v = None) cur));
            (m0, q0) = seed_roots (changed @ missing) [] [];
            m = propagate (outgoing g) m0 q0;
            ids = sort (keys m)
          in (Inr \<lparr>Changed = changed, Missing = missing, Added = added,
                Impacted = map (\<lambda>v. \<lparr>im_NodeID = v, im_State = sev_state (sev m v)\<rparr>) ids\<rparr>,
              g\<lparr>nodes := apply_impacts m ids (nodes g)\<rparr>)))
   | _ \<Rightarrow> (Inl ErrInvalidSnapshot, g))"

section \<open>Propagation computes the declared impact\<close>

text \<open>
  The law as the package states it: a subject is affected when it is a changed or missing root or
  depends on an affected subject; it is invalidated when a hard edge leaves an affected subject for it,
  or any edge leaves an invalidated one.
\<close>

inductive affected :: "Edge list gomap \<Rightarrow> string set \<Rightarrow> string \<Rightarrow> bool"
  for out :: "Edge list gomap" and roots :: "string set" where
  root: "v \<in> roots \<Longrightarrow> affected out roots v"
| edge: "affected out roots u \<Longrightarrow> e \<in> set (out_edges out u) \<Longrightarrow> affected out roots (e_To e)"

inductive invalidated :: "Edge list gomap \<Rightarrow> string set \<Rightarrow> string \<Rightarrow> bool"
  for out :: "Edge list gomap" and roots :: "string set" where
  hard: "affected out roots u \<Longrightarrow> e \<in> set (out_edges out u) \<Longrightarrow> hardInvalidation (e_Type e)
    \<Longrightarrow> invalidated out roots (e_To e)"
| dominates: "invalidated out roots u \<Longrightarrow> e \<in> set (out_edges out u) \<Longrightarrow> invalidated out roots (e_To e)"

lemma invalidated_affected: "invalidated out roots v \<Longrightarrow> affected out roots v"
  by (induction rule: invalidated.induct) (auto intro: affected.edge)

definition sound_sev :: "Edge list gomap \<Rightarrow> string set \<Rightarrow> severity \<Rightarrow> bool" where
  "sound_sev out roots m \<longleftrightarrow> (\<forall>v. sev m v \<le> 2 \<and> (1 \<le> sev m v \<longrightarrow> affected out roots v)
     \<and> (sev m v = 2 \<longrightarrow> invalidated out roots v))"

definition closed_at :: "Edge list gomap \<Rightarrow> severity \<Rightarrow> string \<Rightarrow> bool" where
  "closed_at out m u \<longleftrightarrow> (1 \<le> sev m u \<longrightarrow>
     (\<forall>e \<in> set (out_edges out u). next_severity (sev m u) (e_Type e) \<le> sev m (e_To e)))"

definition sev_keys :: "severity \<Rightarrow> bool" where
  "sev_keys m \<longleftrightarrow> distinct (keys m) \<and> (\<forall>v \<in> set (keys m). 1 \<le> sev m v)"

definition worklist_inv :: "Edge list gomap \<Rightarrow> string set \<Rightarrow> severity \<Rightarrow> string list \<Rightarrow> bool" where
  "worklist_inv out roots m q \<longleftrightarrow> sound_sev out roots m \<and> sev_keys m
     \<and> (\<forall>v \<in> roots. 1 \<le> sev m v) \<and> (\<forall>v \<in> set q. 1 \<le> sev m v) \<and> (\<forall>u. u \<notin> set q \<longrightarrow> closed_at out m u)"

lemma sev_keys_update: "sev_keys m \<Longrightarrow> 1 \<le> k \<Longrightarrow> sev_keys (AList.update v k m)"
  by (auto simp: sev_keys_def sev_update distinct_update dom_update)

lemma keys_sev: "v \<in> set (keys m) \<longleftrightarrow> map_of m v \<noteq> None"
  by (simp add: map_of_eq_None_iff)

lemma sev_keys_iff: "sev_keys m \<Longrightarrow> v \<in> set (keys m) \<longleftrightarrow> 1 \<le> sev m v"
proof (cases "v \<in> set (keys m)")
  case False
  then have "map_of m v = None" by (simp only: keys_sev not_not)
  then show ?thesis using False by (simp add: sev_def)
qed (auto simp: sev_keys_def)

text \<open>What one pass over the outgoing edges does.\<close>

lemma relax_effect:
  assumes "relax b es m q = (m', q')" and "sev_keys m"
  shows "sev_keys m' \<and> set q \<subseteq> set q' \<and> (\<forall>v. sev m v \<le> sev m' v)
    \<and> (\<forall>v. sev m' v \<noteq> sev m v \<longrightarrow> v \<in> set q')
    \<and> (\<forall>v \<in> set q'. v \<in> set q \<or> 1 \<le> sev m' v)
    \<and> (\<forall>e \<in> set es. next_severity b (e_Type e) \<le> sev m' (e_To e))
    \<and> (\<forall>v. sev m' v = sev m v \<or> (\<exists>e \<in> set es. e_To e = v \<and> sev m' v = next_severity b (e_Type e)))"
  using assms
proof (induction es arbitrary: m q)
  case (Cons e es)
  let ?k = "next_severity b (e_Type e)"
  show ?case
  proof (cases "?k \<le> sev m (e_To e)")
    case True
    then have "relax b es m q = (m', q')" using Cons.prems(1) by simp
    note IH = Cons.IH [OF this Cons.prems(2)]
    then have "?k \<le> sev m' (e_To e)" using True le_trans by blast
    then show ?thesis using IH by simp blast
  next
    case False
    let ?m = "AList.update (e_To e) ?k m"
    have r: "relax b es ?m (q @ [e_To e]) = (m', q')" using Cons.prems(1) False by simp
    have k: "sev_keys ?m" by (rule sev_keys_update [OF Cons.prems(2) next_severity_le(2)])
    note IH = Cons.IH [OF r k]
    have up: "sev m v \<le> sev ?m v" for v using False by (simp add: sev_update)
    have "sev m v \<le> sev m' v" for v using IH up [of v] le_trans by blast
    moreover have "v \<in> set q'" if "sev m' v \<noteq> sev m v" for v
      using IH that by (cases "v = e_To e") (auto simp: sev_update)
    moreover have "v \<in> set q \<or> 1 \<le> sev m' v" if "v \<in> set q'" for v
    proof (cases "v = e_To e")
      case True
      then have "?k \<le> sev m' v" using IH by (metis sev_update)
      then show ?thesis using next_severity_le(2) le_trans by blast
    qed (use IH that in auto)
    moreover have "sev m' v = sev m v
      \<or> (\<exists>e' \<in> set (e # es). e_To e' = v \<and> sev m' v = next_severity b (e_Type e'))" for v
      using IH by (metis list.set_intros sev_update)
    moreover have "?k \<le> sev m' (e_To e)" using IH by (metis sev_update)
    ultimately show ?thesis using IH by auto
  qed
qed simp

lemma relax_keeps_inv:
  assumes inv: "worklist_inv out roots m (u # q)"
    and r: "relax (sev m u) (out_edges out u) m q = (m', q')"
  shows "worklist_inv out roots m' q'"
proof -
  let ?b = "sev m u"
  have snd_m: "sound_sev out roots m" and k: "sev_keys m" and u1: "1 \<le> ?b"
    using inv by (simp_all add: worklist_inv_def)
  note E = relax_effect [OF r k]
  have u: "affected out roots u" "?b = 2 \<Longrightarrow> invalidated out roots u"
    using snd_m u1 by (simp_all add: sound_sev_def)
  have edge: "affected out roots (e_To e)"
    "next_severity ?b (e_Type e) = 2 \<Longrightarrow> invalidated out roots (e_To e)"
    if "e \<in> set (out_edges out u)" for e
    using u that by (auto simp: next_severity_def intro: affected.edge invalidated.intros split: if_splits)
  have "sev m' v \<le> 2 \<and> (1 \<le> sev m' v \<longrightarrow> affected out roots v) \<and> (sev m' v = 2 \<longrightarrow> invalidated out roots v)" for v
  proof (cases "sev m' v = sev m v")
    case True
    then show ?thesis using snd_m by (simp add: sound_sev_def)
  next
    case False
    then obtain e where "e \<in> set (out_edges out u)" "e_To e = v" "sev m' v = next_severity ?b (e_Type e)"
      using E by blast
    then show ?thesis using edge next_severity_le by metis
  qed
  then have "sound_sev out roots m'" by (simp add: sound_sev_def)
  moreover have "closed_at out m' w" if "w \<notin> set q'" for w
  proof -
    have same: "sev m' w = sev m w" using E that by blast
    have "next_severity (sev m w) (e_Type e) \<le> sev m' (e_To e)"
      if "e \<in> set (out_edges out w)" "1 \<le> sev m w" for e
    proof (cases "w = u")
      case True
      then show ?thesis using E that by blast
    next
      case False
      then have "closed_at out m w" using inv E \<open>w \<notin> set q'\<close> by (auto simp: worklist_inv_def)
      then have "next_severity (sev m w) (e_Type e) \<le> sev m (e_To e)" using that by (simp add: closed_at_def)
      then show ?thesis using E le_trans by blast
    qed
    then show ?thesis using same by (simp add: closed_at_def)
  qed
  moreover have "1 \<le> sev m' v" if "v \<in> roots" for v
    using that inv E le_trans unfolding worklist_inv_def by blast
  moreover have "1 \<le> sev m' v" if "v \<in> set q'" for v
    using that inv E le_trans unfolding worklist_inv_def by (metis list.set_intros(2))
  ultimately show ?thesis using E by (simp add: worklist_inv_def)
qed

lemma propagate_inv: "worklist_inv out roots m q \<Longrightarrow> worklist_inv out roots (propagate out m q) []"
proof (induction out m q rule: propagate.induct)
  case (2 out m u q)
  obtain m' q' where r: "relax (sev m u) (out_edges out u) m q = (m', q')" by fastforce
  then show ?case using 2 relax_keeps_inv by simp
qed simp

lemma worklist_done:
  assumes "worklist_inv out roots m []"
  shows "1 \<le> sev m v \<longleftrightarrow> affected out roots v" and "sev m v = 2 \<longleftrightarrow> invalidated out roots v"
proof -
  have closed: "next_severity (sev m u) (e_Type e) \<le> sev m (e_To e)"
    if "e \<in> set (out_edges out u)" "1 \<le> sev m u" for u e
    using assms that by (simp add: worklist_inv_def closed_at_def)
  have le2: "sev m w \<le> 2" for w using assms by (simp add: worklist_inv_def sound_sev_def)
  have aff: "1 \<le> sev m w" if "affected out roots w" for w
    using that
  proof (induction rule: affected.induct)
    case (edge u e)
    then show ?case using closed next_severity_le(2) le_trans by blast
  qed (use assms in \<open>simp add: worklist_inv_def\<close>)
  then show "1 \<le> sev m v \<longleftrightarrow> affected out roots v"
    using assms by (auto simp: worklist_inv_def sound_sev_def)
  have "2 \<le> sev m w" if "invalidated out roots w" for w
    using that
  proof (induction rule: invalidated.induct)
    case (hard u e)
    then show ?case using closed [of e u] aff [of u] by (simp add: next_severity_def)
  next
    case (dominates u e)
    then have "sev m u = 2" using le2 [of u] by simp
    then show ?case using closed [of e u] dominates by (simp add: next_severity_def)
  qed
  then show "sev m v = 2 \<longleftrightarrow> invalidated out roots v"
    using assms le2 [of v] by (auto simp: worklist_inv_def sound_sev_def intro: antisym)
qed

lemma seed_roots_inv:
  assumes "seed_roots vs m q = (m', q')" and "set (keys m) = set q" "sev_keys m" "\<forall>v. sev m v \<le> 1"
  shows "set q' = set q \<union> set vs \<and> set (keys m') = set q' \<and> sev_keys m' \<and> (\<forall>v. sev m' v \<le> 1)"
  using assms
proof (induction vs arbitrary: m q)
  case (Cons v vs)
  show ?case
  proof (cases "sev m v < 1")
    case True
    then have "seed_roots vs (AList.update v 1 m) (q @ [v]) = (m', q')" using Cons.prems(1) by simp
    moreover have "set (keys (AList.update v 1 m)) = set (q @ [v])"
      using dom_update [of v 1 m] Cons.prems(2) by simp
    moreover have "sev_keys (AList.update v 1 m)" using Cons.prems(3) by (rule sev_keys_update) simp
    moreover have "\<forall>w. sev (AList.update v 1 m) w \<le> 1" using Cons.prems(4) by (simp add: sev_update)
    ultimately have "set q' = set (q @ [v]) \<union> set vs \<and> set (keys m') = set q' \<and> sev_keys m' \<and> (\<forall>v. sev m' v \<le> 1)"
      by (rule Cons.IH)
    then show ?thesis by (simp add: conj_comms insert_commute)
  next
    case False
    then have "seed_roots vs m q = (m', q')" using Cons.prems(1) by simp
    from Cons.IH [OF this Cons.prems(2-4)]
    have IH: "set q' = set q \<union> set vs \<and> set (keys m') = set q' \<and> sev_keys m' \<and> (\<forall>v. sev m' v \<le> 1)" .
    have "v \<in> set (keys m)" using sev_keys_iff [OF Cons.prems(3)] False by simp
    then have "set q \<union> set (v # vs) = set q \<union> set vs" using Cons.prems(2) by (simp only: list.set) blast
    then show ?thesis using IH by (simp only: simp_thms)
  qed
qed simp

lemma seed_worklist:
  assumes "seed_roots vs [] [] = (m, q)"
  shows "worklist_inv out (set vs) m q"
proof -
  have "sev_keys []" "\<forall>v. sev [] v \<le> 1" by (simp_all add: sev_keys_def sev_def)
  from seed_roots_inv [OF assms _ this]
  have s: "set q = set vs \<and> set (keys m) = set q \<and> sev_keys m \<and> (\<forall>v. sev m v \<le> 1)" by simp
  then have one: "1 \<le> sev m v \<longleftrightarrow> v \<in> set vs" for v using sev_keys_iff [of m v] by auto
  have le: "sev m v \<le> 1" for v using s by blast
  have "sev m v \<le> 2 \<and> (1 \<le> sev m v \<longrightarrow> affected out (set vs) v) \<and> (sev m v = 2 \<longrightarrow> invalidated out (set vs) v)" for v
    using le [of v] one [of v] by (auto intro: affected.root)
  then show ?thesis
    using s one by (auto simp: worklist_inv_def sound_sev_def closed_at_def)
qed

text \<open>The severity map the two loops compute, for every graph: the declared impact, no more and no less.\<close>

lemma propagate_exact:
  assumes "seed_roots vs [] [] = (m0, q0)"
  shows "v \<in> set (keys (propagate out m0 q0)) \<longleftrightarrow> affected out (set vs) v"
    and "sev (propagate out m0 q0) v = 2 \<longleftrightarrow> invalidated out (set vs) v"
    and "distinct (keys (propagate out m0 q0))"
proof -
  have w: "worklist_inv out (set vs) (propagate out m0 q0) []"
    by (rule propagate_inv [OF seed_worklist [OF assms]])
  then have "sev_keys (propagate out m0 q0)" by (simp add: worklist_inv_def)
  then show "v \<in> set (keys (propagate out m0 q0)) \<longleftrightarrow> affected out (set vs) v"
    and "distinct (keys (propagate out m0 q0))"
    using sev_keys_iff worklist_done(1) [OF w] by (blast, simp add: sev_keys_def)
  show "sev (propagate out m0 q0) v = 2 \<longleftrightarrow> invalidated out (set vs) v"
    by (rule worklist_done(2) [OF w])
qed

section \<open>Checkpoints\<close>

definition HandoffStateKey :: string where "HandoffStateKey = ''aftergraph_verified_state''"
definition CheckpointSchema :: string where "CheckpointSchema = ''verified-state-checkpoint/0.1''"

record Checkpoint =
  cp_Schema :: string
  cp_Nodes :: "VNode list"
  cp_Edges :: "Edge list"
  cp_Snapshot :: "Snapshot option"

fun snapshot_matches :: "Snapshot \<Rightarrow> VGraph \<Rightarrow> bool" where
  "snapshot_matches [] g = True"
| "snapshot_matches ((v, fp) # s) g = (case GraphNode g v of None \<Rightarrow> False
     | Some n \<Rightarrow> if Fingerprint n \<noteq> fp then False else snapshot_matches s g)"

definition CheckpointValidate :: "Checkpoint \<Rightarrow> vs_error option" where
  "CheckpointValidate c =
     (if cp_Schema c \<noteq> CheckpointSchema then Some ErrInvalidCheckpoint
      else if cp_Nodes c = [] then Some ErrInvalidCheckpoint
      else case cp_Snapshot c of None \<Rightarrow> Some ErrInvalidCheckpoint
      | Some s \<Rightarrow> if s = [] then Some ErrInvalidCheckpoint
        else case NewGraph (cp_Nodes c) (cp_Edges c) of Inl _ \<Rightarrow> Some ErrInvalidCheckpoint
        | Inr g \<Rightarrow>
          (case CanCanonicalize (sort (map vn_ID (cp_Nodes c))) g of Some _ \<Rightarrow> Some ErrInvalidCheckpoint
           | None \<Rightarrow> (case validateSnapshot s g of Some _ \<Rightarrow> Some ErrInvalidCheckpoint
             | None \<Rightarrow> if snapshot_matches s g then None else Some ErrInvalidCheckpoint)))"

definition NewCheckpoint :: "VNode list \<Rightarrow> Edge list \<Rightarrow> Snapshot option \<Rightarrow> vs_error + Checkpoint" where
  "NewCheckpoint ns es s = (let c = \<lparr>cp_Schema = CheckpointSchema, cp_Nodes = ns, cp_Edges = es, cp_Snapshot = s\<rparr>
     in case CheckpointValidate c of Some x \<Rightarrow> Inl x | None \<Rightarrow> Inr c)"

definition CheckpointReconcile :: "Checkpoint \<Rightarrow> Snapshot option \<Rightarrow> vs_error + ReconcileResult" where
  "CheckpointReconcile c cur = (case CheckpointValidate c of Some x \<Rightarrow> Inl x
     | None \<Rightarrow> (case NewGraph (cp_Nodes c) (cp_Edges c) of Inl _ \<Rightarrow> Inl ErrInvalidCheckpoint
       | Inr g \<Rightarrow> fst (Reconcile (cp_Snapshot c) cur g)))"

section \<open>Graphs built by the constructor\<close>

definition canonical_node :: "VNode \<Rightarrow> bool" where
  "canonical_node n \<longleftrightarrow> vn_State n = StateVerified \<and> Fingerprint n \<noteq> [] \<and> validVerification (vn_Verification n)"

text \<open>
  A subject is stored under its identifier, in one of the six states, and a VERIFIED one carries the
  fingerprint and the proof reference that justify it.
\<close>

definition node_ok :: "string \<Rightarrow> VNode \<Rightarrow> bool" where
  "node_ok v n \<longleftrightarrow> vn_ID n = v \<and> v \<noteq> [] \<and> validState (vn_State n) \<and> (vn_State n = StateVerified \<longrightarrow> canonical_node n)"

definition wf_graph :: "VGraph \<Rightarrow> bool" where
  "wf_graph g \<longleftrightarrow> wf_map (nodes g) \<and> (\<forall>v n. map_of (nodes g) v = Some n \<longrightarrow> node_ok v n)
     \<and> (\<forall>u. \<forall>e \<in> set (out_edges (outgoing g) u). e_From e = u \<and> map_of (nodes g) (e_To e) \<noteq> None)"

lemma map_of_snoc: "map_of (m @ [(a, n)]) v = (case map_of m v of Some x \<Rightarrow> Some x
    | None \<Rightarrow> if v = a then Some n else None)"
  by (simp add: map_add_def split: option.splits)

lemma add_nodes_ok:
  assumes "add_nodes ns m = Inr m'" and "wf_map m" and "\<forall>v n. map_of m v = Some n \<longrightarrow> node_ok v n"
  shows "wf_map m' \<and> (\<forall>v n. map_of m' v = Some n \<longrightarrow> node_ok v n) \<and> m' = m @ map (\<lambda>n. (vn_ID n, n)) ns"
  using assms
proof (induction ns arbitrary: m)
  case (Cons n ns)
  let ?m = "m @ [(vn_ID n, n)]"
  have c: "node_ok (vn_ID n) n" "map_of m (vn_ID n) = None" and r: "add_nodes ns ?m = Inr m'"
    using Cons.prems(1) by (auto simp: node_ok_def canonical_node_def split: if_splits)
  have w: "wf_map ?m" using Cons.prems(2) c(2) by (auto simp: wf_map_def map_of_eq_None_iff)
  have "node_ok v k" if "map_of ?m v = Some k" for v k
    using that c(1) Cons.prems(3) unfolding map_of_snoc by (auto split: option.splits if_splits)
  then have "\<forall>v k. map_of ?m v = Some k \<longrightarrow> node_ok v k" by blast
  from Cons.IH [OF r w this] show ?case unfolding append_assoc append_Cons append_Nil list.map .
qed simp

lemma out_edges_Nil [simp]: "out_edges [] u = []"
  by (simp add: out_edges_def)

lemma out_edges_update:
  "out_edges (AList.update k es m) u = (if u = k then es else out_edges m u)"
  by (simp add: out_edges_def update_conv)

lemma out_edges_map:
  "out_edges (map (\<lambda>(k, es). (k, f es)) m) u = (case map_of m u of None \<Rightarrow> [] | Some es \<Rightarrow> f es)"
  by (cases "map_of m u") (simp_all add: out_edges_def map_of_map)

lemma set_sort_edges [simp]: "set (sort_edges es) = set es"
  by (simp add: sort_edges_def)

lemma add_edges_out:
  assumes "add_edges ns es m = Inr m'"
  shows "out_edges m' u = out_edges m u @ filter (\<lambda>e. e_From e = u) es"
    and "\<forall>e \<in> set es. map_of ns (e_From e) \<noteq> None \<and> map_of ns (e_To e) \<noteq> None \<and> e_From e \<noteq> e_To e"
  using assms by (induction es arbitrary: m) (auto simp: out_edges_update split: if_splits)

lemma NewGraph_ok:
  assumes "NewGraph ns es = Inr g"
  shows "wf_graph g" and "nodes g = map (\<lambda>n. (vn_ID n, n)) ns"
    and "set (out_edges (outgoing g) u) = {e \<in> set es. e_From e = u}"
proof -
  obtain nm om where n: "add_nodes ns [] = Inr nm" and e: "add_edges nm es [] = Inr om"
    and g: "g = \<lparr>nodes = nm, outgoing = map (\<lambda>(k, es). (k, sort_edges es)) om\<rparr>"
    using assms by (auto simp: NewGraph_def split: sum.splits)
  have out: "set (out_edges (outgoing g) u) = {e \<in> set es. e_From e = u}" for u
  proof -
    have "set (out_edges (outgoing g) u) = set (out_edges om u)"
      unfolding g VGraph.select_convs out_edges_map by (cases "map_of om u") (simp_all add: out_edges_def)
    then show ?thesis by (simp add: add_edges_out(1) [OF e])
  qed
  have "wf_map []" "\<forall>v k. map_of [] v = Some k \<longrightarrow> node_ok v k" by (simp_all add: wf_map_def)
  note N = add_nodes_ok [OF n this]
  show "nodes g = map (\<lambda>n. (vn_ID n, n)) ns" using N by (simp add: g)
  have "e_From e = u \<and> map_of (nodes g) (e_To e) \<noteq> None" if "e \<in> set (out_edges (outgoing g) u)" for u e
  proof -
    have "e \<in> set es" "e_From e = u" using that by (simp_all only: out mem_Collect_eq)
    then show ?thesis using add_edges_out(2) [OF e] by (simp only: g VGraph.simps) blast
  qed
  then show "wf_graph g" unfolding wf_graph_def using N by (simp only: g VGraph.simps) blast
  show "set (out_edges (outgoing g) u) = {e \<in> set es. e_From e = u}" by (rule out)
qed

section \<open>What reconciliation changes\<close>

lemma map_of_apply_impacts:
  "map_of (apply_impacts m vs ns) v = (if v \<in> set vs
     then map_option (\<lambda>n. n\<lparr>vn_State := sev_state (sev m v)\<rparr>) (map_of ns v) else map_of ns v)"
proof (induction vs arbitrary: ns)
  case (Cons w vs)
  show ?case
  proof (cases "map_of ns w")
    case None
    then show ?thesis using Cons.IH [of ns] by auto
  next
    case (Some n)
    then show ?thesis
      using Cons.IH [of "AList.update w (n\<lparr>vn_State := sev_state (sev m w)\<rparr>) ns"] by (simp add: update_conv)
  qed
qed simp

lemma keys_apply_impacts [simp]: "set (keys (apply_impacts m vs ns)) = set (keys ns)"
proof -
  have "map_of (apply_impacts m vs ns) v = None \<longleftrightarrow> map_of ns v = None" for v
    by (simp add: map_of_apply_impacts)
  then show ?thesis unfolding map_of_eq_None_iff by (metis set_map subsetI subset_antisym)
qed

lemma wf_apply_impacts: "wf_map ns \<Longrightarrow> wf_map (apply_impacts m vs ns)"
  by (induction vs arbitrary: ns) (auto simp: wf_map_def distinct_update split: option.splits)

lemma validateSnapshot_None:
  "validateSnapshot s g = None \<longleftrightarrow> (\<forall>(v, fp) \<in> set s. v \<noteq> [] \<and> fp \<noteq> [] \<and> map_of (nodes g) v \<noteq> None)"
proof (induction s)
  case (Cons p s)
  then show ?case by (cases p) (simp add: Cons del: not_None_eq)
qed simp

definition roots_of :: "Snapshot \<Rightarrow> Snapshot \<Rightarrow> string set" where
  "roots_of cp cur = {v. \<exists>fp. map_of cp v = Some fp \<and> map_of cur v \<noteq> Some fp}"

text \<open>The successful branch, with the two loops named.\<close>

lemma Reconcile_Inr:
  assumes "Reconcile cpo curo g = (Inr r, g')"
  obtains cp cur m0 q0 where "cpo = Some cp" "curo = Some cur"
    "validateSnapshot cp g = None" "validateSnapshot cur g = None"
    "Changed r = sort (map fst (filter (\<lambda>(v, fp). map_of cur v \<noteq> None \<and> map_of cur v \<noteq> Some fp) cp))"
    "Missing r = sort (map fst (filter (\<lambda>(v, fp). map_of cur v = None) cp))"
    "Added r = sort (map fst (filter (\<lambda>(v, fp). map_of cp v = None) cur))"
    "seed_roots (Changed r @ Missing r) [] [] = (m0, q0)"
    "Impacted r = map (\<lambda>v. \<lparr>im_NodeID = v, im_State = sev_state (sev (propagate (outgoing g) m0 q0) v)\<rparr>)
       (sort (keys (propagate (outgoing g) m0 q0)))"
    "g' = g\<lparr>nodes := apply_impacts (propagate (outgoing g) m0 q0) (sort (keys (propagate (outgoing g) m0 q0)))
       (nodes g)\<rparr>"
  using assms unfolding Reconcile_def
  by (auto simp: Let_def split: option.splits prod.splits)

lemma roots_of_lists:
  assumes "wf_map cp"
  shows "set (map fst (filter (\<lambda>(v, fp). map_of cur v \<noteq> None \<and> map_of cur v \<noteq> Some fp) cp))
    \<union> set (map fst (filter (\<lambda>(v, fp). map_of cur v = None) cp)) = roots_of cp cur"
proof -
  have "(v, fp) \<in> set cp \<longleftrightarrow> map_of cp v = Some fp" for v fp
    using assms by (simp add: wf_map_def)
  then show ?thesis unfolding roots_of_def by (force simp: image_iff)
qed

definition demoted :: "Edge list gomap \<Rightarrow> string set \<Rightarrow> string \<Rightarrow> VState" where
  "demoted out roots v = (if invalidated out roots v then StateInvalidated else StateStale)"

lemma set_sorted_keys: "set (sort (keys m)) = set (keys m)"
  by simp

lemma Reconcile_effect:
  assumes "Reconcile (Some cp) (Some cur) g = (Inr r, g')" and "wf_map cp"
  shows "map im_NodeID (Impacted r) = sorted_list_of_set {v. affected (outgoing g) (roots_of cp cur) v}"
    and "{v. affected (outgoing g) (roots_of cp cur) v} = set (map im_NodeID (Impacted r))"
    and "\<forall>i \<in> set (Impacted r). im_State i = demoted (outgoing g) (roots_of cp cur) (im_NodeID i)"
    and "outgoing g' = outgoing g"
    and "\<forall>v. map_of (nodes g') v = (if affected (outgoing g) (roots_of cp cur) v
        then map_option (\<lambda>n. n\<lparr>vn_State := demoted (outgoing g) (roots_of cp cur) v\<rparr>) (map_of (nodes g) v)
        else map_of (nodes g) v)"
    and "set (keys (nodes g')) = set (keys (nodes g))"
    and "wf_map (nodes g) \<Longrightarrow> wf_map (nodes g')"
proof -
  obtain cp' cur' m0 q0 where eqs: "Some cp = Some cp'" "Some cur = Some cur'"
    and ch0: "Changed r = sort (map fst (filter (\<lambda>(v, fp). map_of cur' v \<noteq> None \<and> map_of cur' v \<noteq> Some fp) cp'))"
    and mi0: "Missing r = sort (map fst (filter (\<lambda>(v, fp). map_of cur' v = None) cp'))"
    and seed: "seed_roots (Changed r @ Missing r) [] [] = (m0, q0)"
    and im: "Impacted r = map (\<lambda>v. \<lparr>im_NodeID = v, im_State = sev_state (sev (propagate (outgoing g) m0 q0) v)\<rparr>)
       (sort (keys (propagate (outgoing g) m0 q0)))"
    and g': "g' = g\<lparr>nodes := apply_impacts (propagate (outgoing g) m0 q0)
       (sort (keys (propagate (outgoing g) m0 q0))) (nodes g)\<rparr>"
    by (rule Reconcile_Inr [OF assms(1)])
  note ch = ch0 [folded eqs [unfolded option.inject]] and mi = mi0 [folded eqs [unfolded option.inject]]
  let ?m = "propagate (outgoing g) m0 q0"
  have roots: "set (Changed r @ Missing r) = roots_of cp cur"
    using roots_of_lists [OF assms(2), of cur] by (simp only: ch mi set_append set_sort)
  note E = propagate_exact [OF seed, where out = "outgoing g", unfolded roots]
  have set_m: "{v. affected (outgoing g) (roots_of cp cur) v} = set (keys ?m)" using E(1) by blast
  have st: "sev_state (sev ?m v) = demoted (outgoing g) (roots_of cp cur) v" for v
    by (simp add: sev_state_def demoted_def E(2))
  have ids: "map im_NodeID (Impacted r) = sort (keys ?m)" by (simp add: im o_def)
  show "{v. affected (outgoing g) (roots_of cp cur) v} = set (map im_NodeID (Impacted r))"
    by (simp only: ids set_m set_sort)
  show "map im_NodeID (Impacted r) = sorted_list_of_set {v. affected (outgoing g) (roots_of cp cur) v}"
    unfolding ids set_m using E(3) by (simp only: sorted_list_of_set_sort_remdups distinct_remdups_id)
  show "\<forall>i \<in> set (Impacted r). im_State i = demoted (outgoing g) (roots_of cp cur) (im_NodeID i)"
    by (auto simp: im st)
  show "outgoing g' = outgoing g" by (simp add: g')
  have "v \<in> set (sort (keys ?m)) \<longleftrightarrow> affected (outgoing g) (roots_of cp cur) v" for v
    using E(1) by (simp only: set_sort)
  then show "\<forall>v. map_of (nodes g') v = (if affected (outgoing g) (roots_of cp cur) v
        then map_option (\<lambda>n. n\<lparr>vn_State := demoted (outgoing g) (roots_of cp cur) v\<rparr>) (map_of (nodes g) v)
        else map_of (nodes g) v)"
    unfolding g' by (simp add: map_of_apply_impacts st del: set_sort)
  show "set (keys (nodes g')) = set (keys (nodes g))"
    unfolding g' using keys_apply_impacts by simp
  show "wf_map (nodes g')" if "wf_map (nodes g)"
    using wf_apply_impacts [OF that] by (simp add: g')
qed

lemma affected_known:
  assumes "wf_graph g" and "roots \<subseteq> set (keys (nodes g))" and "affected (outgoing g) roots v"
  shows "map_of (nodes g) v \<noteq> None"
  using assms(3)
proof (cases rule: affected.cases)
  case root
  then have "v \<in> set (keys (nodes g))" using assms(2) by (rule subsetD [rotated])
  then show ?thesis unfolding keys_sev .
next
  case (edge u e)
  have "\<forall>e \<in> set (out_edges (outgoing g) u). map_of (nodes g) (e_To e) \<noteq> None"
    using assms(1) by (simp add: wf_graph_def)
  with edge show ?thesis by blast
qed

lemma roots_known:
  assumes "validateSnapshot cp g = None"
  shows "roots_of cp cur \<subseteq> set (keys (nodes g))"
proof
  fix v assume "v \<in> roots_of cp cur"
  then obtain fp where "(v, fp) \<in> set cp" by (auto simp: roots_of_def dest: map_of_SomeD)
  then have "map_of (nodes g) v \<noteq> None" using assms validateSnapshot_None [of cp g] by blast
  then show "v \<in> set (keys (nodes g))" by (simp only: keys_sev not_False_eq_True)
qed

lemma Reconcile_error_unchanged: "Reconcile a b g = (Inl x, g') \<Longrightarrow> g' = g"
  unfolding Reconcile_def Let_def by (simp split: option.splits prod.splits)

section \<open>Properties\<close>

text \<open>Every call a holder of the graph can make; a refused call leaves it as it was.\<close>

datatype vs_call = CallBegin string | CallVerify string string VerificationRef | CallReject string
  | CallReconcile "Snapshot option" "Snapshot option"

fun exec_call :: "vs_call \<Rightarrow> VGraph \<Rightarrow> VGraph" where
  "exec_call (CallBegin v) g = snd (BeginCandidate v g)"
| "exec_call (CallVerify v fp p) g = snd (Verify v fp p g)"
| "exec_call (CallReject v) g = snd (Reject v g)"
| "exec_call (CallReconcile a b) g = snd (Reconcile a b g)"

definition call_ok :: "vs_call \<Rightarrow> bool" where
  "call_ok c = (case c of CallReconcile (Some a) _ \<Rightarrow> wf_map a | _ \<Rightarrow> True)"

lemma map_of_set_node: "map_of (nodes (set_node v n g)) w = (if w = v then Some n else map_of (nodes g) w)"
  by (simp add: set_node_def update_conv)

lemma outgoing_set_node [simp]: "outgoing (set_node v n g) = outgoing g"
  by (simp add: set_node_def)

lemma wf_set_node:
  assumes "wf_graph g" and "node_ok v n"
  shows "wf_graph (set_node v n g)"
proof -
  have "wf_map (nodes (set_node v n g))"
    using assms(1) by (simp add: wf_graph_def wf_map_def set_node_def distinct_update)
  then show ?thesis using assms by (auto simp: wf_graph_def map_of_set_node)
qed

lemma known_ok: "wf_graph g \<Longrightarrow> map_of (nodes g) v = Some n \<Longrightarrow> node_ok v n"
  by (simp add: wf_graph_def)

lemma wf_BeginCandidate: "wf_graph g \<Longrightarrow> wf_graph (snd (BeginCandidate v g))"
  by (auto simp: BeginCandidate_def node_ok_def split: option.splits dest: known_ok intro!: wf_set_node)

lemma wf_Verify: "wf_graph g \<Longrightarrow> wf_graph (snd (Verify v fp p g))"
  by (auto simp: Verify_def node_ok_def canonical_node_def split: option.splits dest: known_ok intro!: wf_set_node)

lemma wf_Reject: "wf_graph g \<Longrightarrow> wf_graph (snd (Reject v g))"
  by (auto simp: Reject_def node_ok_def split: option.splits dest: known_ok intro!: wf_set_node)

lemma Reconcile_cases:
  obtains (refused) x where "Reconcile a b g = (Inl x, g)"
  | (applied) cp cur r g' where "a = Some cp" "b = Some cur" "Reconcile a b g = (Inr r, g')"
proof (cases "Reconcile a b g")
  case (Pair res g')
  show thesis
  proof (cases res)
    case (Inl x)
    then show thesis using Pair Reconcile_error_unchanged refused by blast
  next
    case (Inr r)
    then have rec: "Reconcile a b g = (Inr r, g')" using Pair by simp
    show thesis by (rule Reconcile_Inr [OF rec]) (rule applied [OF _ _ rec])
  qed
qed

lemma wf_Reconcile:
  assumes "wf_graph g" and "\<And>cp. a = Some cp \<Longrightarrow> wf_map cp"
  shows "wf_graph (snd (Reconcile a b g))"
proof (cases rule: Reconcile_cases [of a b g])
  case (refused x)
  then show ?thesis using assms by simp
next
  case (applied cp cur r g')
  note rec = applied(3) [unfolded applied(1,2)] and E = Reconcile_effect [OF applied(3) [unfolded applied(1,2)] assms(2) [OF applied(1)]]
  have "node_ok v n" if "map_of (nodes g') v = Some n" for v n
    using that E(5) assms(1)
    by (auto simp: node_ok_def demoted_def split: if_splits dest: known_ok)
  moreover have "wf_map (nodes g')" using E(7) assms(1) by (simp add: wf_graph_def)
  moreover have "map_of (nodes g') v = None \<longleftrightarrow> map_of (nodes g) v = None" for v using E(5) by simp
  ultimately have "wf_graph g'" using assms(1) unfolding wf_graph_def E(4) by blast
  then show ?thesis using applied by simp
qed

definition exec_checked :: "vs_call \<Rightarrow> VGraph \<Rightarrow> VGraph" where
  "exec_checked c g = (if call_ok c then exec_call c g else g)"

lemma wf_exec_call: "wf_graph g \<Longrightarrow> call_ok c \<Longrightarrow> wf_graph (exec_call c g)"
  by (cases c) (auto simp: call_ok_def intro: wf_BeginCandidate wf_Verify wf_Reject wf_Reconcile)

interpretation vs_ops: invariant_ops exec_checked wf_graph
  by unfold_locales (simp add: exec_checked_def wf_exec_call)

lemma run_checked: "\<forall>c \<in> set cs. call_ok c \<Longrightarrow> fold exec_call cs g = fold exec_checked cs g"
  by (induction cs arbitrary: g) (simp_all add: exec_checked_def)

lemma wf_run: "wf_graph g \<Longrightarrow> \<forall>c \<in> set cs. call_ok c \<Longrightarrow> wf_graph (fold exec_call cs g)"
  using vs_ops.inv_run run_checked by simp

text \<open>A subject that is VERIFIED after a call was so before, untouched, or the call is its verification.\<close>

lemma verified_after:
  assumes "call_ok c" and "map_of (nodes (exec_call c g)) v = Some n'" and "vn_State n' = StateVerified"
  shows "map_of (nodes g) v = Some n' \<or> (\<exists>fp p n. c = CallVerify v fp p \<and> map_of (nodes g) v = Some n
    \<and> vn_State n = StateCandidate \<and> fp \<noteq> [] \<and> validVerification (Some p)
    \<and> Fingerprint n' = fp \<and> vn_Verification n' = Some p)"
proof (cases c)
  case (CallReconcile a b)
  show ?thesis
  proof (cases rule: Reconcile_cases [of a b g])
    case (applied cp cur r g')
    have "wf_map cp" using assms(1) CallReconcile applied(1) by (simp add: call_ok_def)
    from Reconcile_effect(5) [OF applied(3) [unfolded applied(1,2)] this] assms(2,3) CallReconcile applied
    show ?thesis by (auto simp: demoted_def split: if_splits)
  qed (use assms CallReconcile in simp)
qed (use assms in \<open>auto simp: BeginCandidate_def Verify_def Reject_def map_of_set_node split: option.splits if_splits\<close>)

definition demo_proof :: VerificationRef where
  "demo_proof = \<lparr>VerifierID = ''sentinel'', EvidenceRef = ''ev1'', SubjectRef = ''s'', VerifiedAt = 7\<rparr>"

definition demo_node :: "string \<Rightarrow> VNode" where
  "demo_node v = \<lparr>vn_ID = v, vn_State = StateVerified, Fingerprint = ''f1'', vn_Verification = Some demo_proof\<rparr>"

definition demo_edges :: "Edge list" where
  "demo_edges = [\<lparr>e_From = ''a'', e_To = ''b'', e_Type = EdgeEffect\<rparr>, \<lparr>e_From = ''b'', e_To = ''c'', e_Type = EdgeEvent\<rparr>,
     \<lparr>e_From = ''c'', e_To = ''b'', e_Type = EdgeEvent\<rparr>]"

definition demo_graph :: VGraph where
  "demo_graph = (case NewGraph (map demo_node [''a'', ''b'', ''c'']) demo_edges of Inr g \<Rightarrow> g
     | Inl _ \<Rightarrow> \<lparr>nodes = [], outgoing = []\<rparr>)"

lemma demo_graph_new: "NewGraph (map demo_node [''a'', ''b'', ''c'']) demo_edges = Inr demo_graph"
  by code_simp

definition demo_before :: Snapshot where
  "demo_before = [(''a'', ''f1''), (''b'', ''f1'')]"

definition demo_after :: Snapshot where
  "demo_after = [(''a'', ''f2''), (''b'', ''f1'')]"

text \<open>C10. A successful reconciliation of a well-formed graph reports, sorted and once each, exactly the
  subjects that depend through declared edges on a changed or missing subject; each is INVALIDATED when
  a hard edge leaves an affected subject for it or any edge leaves an invalidated one, and STALE
  otherwise; the graph's states change in exactly this way while fingerprints and proof references stay,
  and every affected subject is a node of the graph.  The worklist terminates on every graph.\<close>

theorem reconcile_exact_impact:
  assumes "wf_graph g" and "wf_map cp" and "Reconcile (Some cp) (Some cur) g = (Inr r, g')"
  shows "map im_NodeID (Impacted r) = sorted_list_of_set {v. affected (outgoing g) (roots_of cp cur) v}
    \<and> {v. affected (outgoing g) (roots_of cp cur) v} = set (map im_NodeID (Impacted r))
    \<and> (\<forall>i \<in> set (Impacted r). im_State i =
         (if invalidated (outgoing g) (roots_of cp cur) (im_NodeID i) then StateInvalidated else StateStale))
    \<and> (\<forall>v. affected (outgoing g) (roots_of cp cur) v \<longrightarrow> GraphNode g v \<noteq> None)
    \<and> (\<forall>v. GraphNode g' v = (if affected (outgoing g) (roots_of cp cur) v
         then map_option (\<lambda>n. n\<lparr>vn_State := if invalidated (outgoing g) (roots_of cp cur) v
           then StateInvalidated else StateStale\<rparr>) (GraphNode g v)
         else GraphNode g v))"
proof -
  note E = Reconcile_effect [OF assms(3,2), unfolded demoted_def]
  have "validateSnapshot cp g = None"
    by (rule Reconcile_Inr [OF assms(3)]) simp
  then have "GraphNode g v \<noteq> None" if "affected (outgoing g) (roots_of cp cur) v" for v
    unfolding GraphNode_def by (rule affected_known [OF assms(1) roots_known that])
  then show ?thesis using E(1,2,3,5) unfolding GraphNode_def by blast
qed

theorem reconcile_exact_impact_witness:
  "affected (outgoing demo_graph) (roots_of demo_before demo_after) ''c''
    \<and> invalidated (outgoing demo_graph) (roots_of demo_before demo_after) ''c''
    \<and> \<not> invalidated (outgoing demo_graph) (roots_of demo_before demo_after) ''a''"
proof -
  obtain r g' where rec: "Reconcile (Some demo_before) (Some demo_after) demo_graph = (Inr r, g')"
    and im: "map (\<lambda>i. (im_NodeID i, im_State i)) (Impacted r)
      = [(''a'', StateStale), (''b'', StateInvalidated), (''c'', StateInvalidated)]"
  proof
    show "Reconcile (Some demo_before) (Some demo_after) demo_graph
      = (Inr (projr (fst (Reconcile (Some demo_before) (Some demo_after) demo_graph))),
         snd (Reconcile (Some demo_before) (Some demo_after) demo_graph))" by code_simp
    show "map (\<lambda>i. (im_NodeID i, im_State i))
        (Impacted (projr (fst (Reconcile (Some demo_before) (Some demo_after) demo_graph))))
      = [(''a'', StateStale), (''b'', StateInvalidated), (''c'', StateInvalidated)]" by code_simp
  qed
  have wf: "wf_graph demo_graph" by (rule NewGraph_ok(1) [OF demo_graph_new])
  have cp: "wf_map demo_before" by code_simp
  note T = reconcile_exact_impact [OF wf cp rec]
  obtain i1 i2 i3 where i: "Impacted r = [i1, i2, i3]"
    and "im_NodeID i1 = ''a''" "im_State i1 = StateStale" "im_NodeID i3 = ''c''" "im_State i3 = StateInvalidated"
    using im by (auto simp: map_eq_Cons_conv)
  then show ?thesis using T by (auto simp: i split: if_splits)
qed

text \<open>C11. Verify is the only path to VERIFIED and demoted results need a fresh proof: when a subject that
  is not VERIFIED becomes so over any sequence of calls, the sequence contains a Verify of this subject,
  made while it was CANDIDATE, whose fingerprint and valid proof reference are the ones it carries.\<close>

theorem verified_needs_fresh_proof:
  assumes "\<forall>c \<in> set cs. call_ok c"
    and "GraphNode (fold exec_call cs g) v = Some n'" and "vn_State n' = StateVerified"
    and "\<forall>n. GraphNode g v = Some n \<longrightarrow> vn_State n \<noteq> StateVerified"
  shows "\<exists>before after fp p n. cs = before @ CallVerify v fp p # after
    \<and> GraphNode (fold exec_call before g) v = Some n \<and> vn_State n = StateCandidate
    \<and> fp \<noteq> [] \<and> validVerification (Some p) \<and> Fingerprint n' = fp \<and> vn_Verification n' = Some p"
  using assms(1,2)
proof (induction cs rule: rev_induct)
  case Nil
  then show ?case using assms(3,4) by simp
next
  case (snoc c cs)
  have ok: "call_ok c" "\<forall>c \<in> set cs. call_ok c" using snoc.prems(1) by simp_all
  have "map_of (nodes (exec_call c (fold exec_call cs g))) v = Some n'"
    using snoc.prems(2) by (simp add: GraphNode_def)
  from verified_after [OF ok(1) this assms(3)] show ?case
  proof
    assume "map_of (nodes (fold exec_call cs g)) v = Some n'"
    then obtain before after fp p n where "cs = before @ CallVerify v fp p # after"
      and rest: "GraphNode (fold exec_call before g) v = Some n \<and> vn_State n = StateCandidate
        \<and> fp \<noteq> [] \<and> validVerification (Some p) \<and> Fingerprint n' = fp \<and> vn_Verification n' = Some p"
      using snoc.IH [OF ok(2)] unfolding GraphNode_def by blast
    then have "cs @ [c] = before @ CallVerify v fp p # (after @ [c])" by simp
    then show ?thesis using rest by blast
  next
    assume "\<exists>fp p n. c = CallVerify v fp p \<and> map_of (nodes (fold exec_call cs g)) v = Some n
      \<and> vn_State n = StateCandidate \<and> fp \<noteq> [] \<and> validVerification (Some p)
      \<and> Fingerprint n' = fp \<and> vn_Verification n' = Some p"
    then show ?thesis unfolding GraphNode_def by blast
  qed
qed

definition demo_calls :: "vs_call list" where
  "demo_calls = [CallReconcile (Some demo_before) (Some demo_after), CallBegin ''b'', CallVerify ''b'' ''f3'' demo_proof]"

theorem verified_needs_fresh_proof_witness:
  "\<exists>before after fp p n. tl demo_calls = before @ CallVerify ''b'' fp p # after
    \<and> GraphNode (fold exec_call before (exec_call (hd demo_calls) demo_graph)) ''b'' = Some n
    \<and> vn_State n = StateCandidate \<and> fp \<noteq> [] \<and> validVerification (Some p) \<and> ''f3'' = fp \<and> Some demo_proof = Some p"
proof -
  let ?g = "exec_call (hd demo_calls) demo_graph"
  let ?n = "(demo_node ''b'')\<lparr>Fingerprint := ''f3''\<rparr>"
  have 1: "\<forall>c \<in> set (tl demo_calls). call_ok c" by (simp add: demo_calls_def call_ok_def)
  have 2: "GraphNode (fold exec_call (tl demo_calls) ?g) ''b'' = Some ?n" by code_simp
  have 3: "vn_State ?n = StateVerified" by code_simp
  have "GraphNode ?g ''b'' = Some ((demo_node ''b'')\<lparr>vn_State := StateInvalidated\<rparr>)" by code_simp
  then have 4: "\<forall>n. GraphNode ?g ''b'' = Some n \<longrightarrow> vn_State n \<noteq> StateVerified" by simp
  show ?thesis using verified_needs_fresh_proof [OF 1 2 3 4] by (simp add: demo_node_def)
qed

text \<open>After any calls on a constructed graph, a set of subjects can be made canonical exactly when it is
  not empty and every subject in it exists and is VERIFIED: the fingerprint and proof that the check also asks
  for are always there.\<close>

theorem canonical_iff_verified:
  assumes "NewGraph ns es = Inr g0" and "\<forall>c \<in> set cs. call_ok c" and "g = fold exec_call cs g0"
  shows "CanCanonicalize vs g = None \<longleftrightarrow>
    vs \<noteq> [] \<and> (\<forall>v \<in> set vs. \<exists>n. GraphNode g v = Some n \<and> vn_State n = StateVerified)"
proof -
  have wf: "wf_graph g" using assms wf_run NewGraph_ok(1) by blast
  have step: "(vn_State n \<noteq> StateVerified \<or> Fingerprint n = [] \<or> \<not> validVerification (vn_Verification n))
      \<longleftrightarrow> vn_State n \<noteq> StateVerified" if "map_of (nodes g) v = Some n" for v n
    using known_ok [OF wf that] by (auto simp: node_ok_def canonical_node_def)
  have "check_canonical vs g = None \<longleftrightarrow> (\<forall>v \<in> set vs. \<exists>n. map_of (nodes g) v = Some n \<and> vn_State n = StateVerified)" for vs
  proof (induction vs)
    case (Cons v vs)
    show ?case
    proof (cases "map_of (nodes g) v")
      case (Some n)
      show ?thesis using step [OF Some] Cons by (cases "vn_State n = StateVerified") (auto simp: Some)
    qed simp
  qed simp
  then show ?thesis by (simp add: CanCanonicalize_def GraphNode_def)
qed

theorem canonical_iff_verified_witness:
  "CanCanonicalize [''a''] (fold exec_call demo_calls demo_graph) \<noteq> None
    \<and> CanCanonicalize [''b''] (fold exec_call demo_calls demo_graph) = None"
proof -
  have ok: "\<forall>c \<in> set demo_calls. call_ok c" by code_simp
  have b: "GraphNode (fold exec_call demo_calls demo_graph) ''b'' = Some ((demo_node ''b'')\<lparr>Fingerprint := ''f3''\<rparr>)"
    by code_simp
  have a: "GraphNode (fold exec_call demo_calls demo_graph) ''a'' = Some ((demo_node ''a'')\<lparr>vn_State := StateStale\<rparr>)"
    by code_simp
  note T = canonical_iff_verified [OF demo_graph_new ok refl]
  have "CanCanonicalize [''b''] (fold exec_call demo_calls demo_graph) = None"
    unfolding T using b by (simp add: demo_node_def)
  moreover have "CanCanonicalize [''a''] (fold exec_call demo_calls demo_graph) \<noteq> None"
    unfolding T using a by simp
  ultimately show ?thesis by blast
qed

text \<open>Reconciling twice can soften a demotion: a subject that an EFFECT edge has INVALIDATED becomes
  merely STALE when a later reconciliation finds it changed itself.\<close>

theorem second_reconcile_softens:
  "map_option vn_State (GraphNode (exec_call (CallReconcile (Some demo_before) (Some demo_after)) demo_graph) ''b'')
     = Some StateInvalidated
   \<and> map_option vn_State (GraphNode (exec_call (CallReconcile (Some [(''b'', ''f1'')]) (Some [(''b'', ''f2'')]))
       (exec_call (CallReconcile (Some demo_before) (Some demo_after)) demo_graph)) ''b'') = Some StateStale"
  by code_simp

end
