(* ===== verification/Checkpoint_Codec.thy ===== *)
theory Checkpoint_Codec
  imports Workgraph Verified_State
begin

text \<open>
  The JSON form of handoffs and verified-state checkpoints (\<^verbatim>\<open>packages/verifiedstate/checkpoint.go\<close>: \<^verbatim>\<open>AttachToStateSnapshot\<close>,
  \<^verbatim>\<open>CheckpointFromStateSnapshot\<close>; the struct tags of \<^verbatim>\<open>workgraph.Handoff\<close>, \<^verbatim>\<open>verifiedstate.Node\<close>, \<^verbatim>\<open>Edge\<close>, \<^verbatim>\<open>Checkpoint\<close>).

  The mapping between Go values and JSON values is written out, decoding as \<^verbatim>\<open>encoding/json\<close> does it: keys matched
  exactly or else ignoring case, \<^verbatim>\<open>null\<close> leaving the zero value, a value of the wrong kind failing. A key that occurs
  twice sets its field twice. The bytes of a JSON value, the text of a time and SHA-256 are parameters. An empty slice is the nil slice.
\<close>

section \<open>Text of values\<close>

record codec =
  render :: "json \<Rightarrow> string option"
  parse :: "string \<Rightarrow> json option"
  time_text :: "time \<Rightarrow> string"
  time_of_text :: "string \<Rightarrow> time option"
  sha :: "string \<Rightarrow> string"

text \<open>What is relied on of \<^verbatim>\<open>encoding/json\<close> for one value: it is written, and reads back as itself.\<close>

definition json_round :: "codec \<Rightarrow> json \<Rightarrow> bool" where
  "json_round c j \<longleftrightarrow> (\<exists>s. render c j = Some s \<and> parse c s = Some j)"

definition time_round :: "codec \<Rightarrow> time \<Rightarrow> bool" where
  "time_round c t \<longleftrightarrow> time_of_text c (time_text c t) = Some t"

section \<open>Decoding into structs\<close>

definition dec_string :: "json \<Rightarrow> string option" where
  "dec_string j = (case j of JStr s \<Rightarrow> Some s | JNull \<Rightarrow> Some [] | _ \<Rightarrow> None)"

fun dec_all :: "(json \<Rightarrow> 'a option) \<Rightarrow> json list \<Rightarrow> 'a list option" where
  "dec_all d [] = Some []"
| "dec_all d (j # js) = (case d j of None \<Rightarrow> None
     | Some a \<Rightarrow> (case dec_all d js of None \<Rightarrow> None | Some as \<Rightarrow> Some (a # as)))"

definition dec_list :: "(json \<Rightarrow> 'a option) \<Rightarrow> json \<Rightarrow> 'a list option" where
  "dec_list d j = (case j of JArr js \<Rightarrow> dec_all d js | JNull \<Rightarrow> Some [] | _ \<Rightarrow> None)"

definition find_field :: "string \<Rightarrow> (string \<times> 'f) list \<Rightarrow> 'f option" where
  "find_field k fs = (case map_of fs k of Some f \<Rightarrow> Some f
     | None \<Rightarrow> map_option snd (find (\<lambda>(n, _). EqualFold n k) fs))"

fun dec_fields :: "bool \<Rightarrow> (string \<times> (json \<Rightarrow> 'r \<Rightarrow> 'r option)) list \<Rightarrow> (string \<times> json) list \<Rightarrow> 'r \<Rightarrow> 'r option" where
  "dec_fields strict fs [] r = Some r"
| "dec_fields strict fs ((k, v) # kvs) r = (case find_field k fs of
       None \<Rightarrow> if strict then None else dec_fields strict fs kvs r
     | Some f \<Rightarrow> (case f v r of None \<Rightarrow> None | Some r' \<Rightarrow> dec_fields strict fs kvs r'))"

definition dec_struct :: "bool \<Rightarrow> (string \<times> (json \<Rightarrow> 'r \<Rightarrow> 'r option)) list \<Rightarrow> 'r \<Rightarrow> json \<Rightarrow> 'r option" where
  "dec_struct strict fs zero j = (case j of JNull \<Rightarrow> Some zero | JObj kvs \<Rightarrow> dec_fields strict fs kvs zero | _ \<Rightarrow> None)"

definition field :: "(json \<Rightarrow> 'a option) \<Rightarrow> ('a \<Rightarrow> 'r \<Rightarrow> 'r) \<Rightarrow> json \<Rightarrow> 'r \<Rightarrow> 'r option" where
  "field d set_f j r = map_option (\<lambda>a. set_f a r) (d j)"

definition dec_strings :: "json \<Rightarrow> string list option" where
  "dec_strings = dec_list dec_string"

definition enc_strings :: "string list \<Rightarrow> json" where
  "enc_strings ss = (if ss = [] then JNull else JArr (map JStr ss))"

definition dec_object :: "json \<Rightarrow> json gomap option option" where
  "dec_object j = (case j of JObj kvs \<Rightarrow> Some (Some kvs) | JNull \<Rightarrow> Some None | _ \<Rightarrow> None)"

definition omitempty :: "string \<Rightarrow> string \<Rightarrow> (string \<times> json) list" where
  "omitempty k s = (if s = [] then [] else [(k, JStr s)])"

section \<open>Handoffs\<close>

definition handoff_json :: "Handoff \<Rightarrow> json" where
  "handoff_json h = JObj [
     (''state_snapshot'', case StateSnapshot h of None \<Rightarrow> JNull | Some m \<Rightarrow> JObj m),
     (''narrative'', JStr (Narrative h)),
     (''decision_log'', enc_strings (DecisionLog h)),
     (''priority_queue'', enc_strings (PriorityQueue h)),
     (''warnings'', enc_strings (Warnings h)),
     (''payload_schema'', JStr (PayloadSchema h))]"

definition handoff_fields :: "(string \<times> (json \<Rightarrow> Handoff \<Rightarrow> Handoff option)) list" where
  "handoff_fields = [
     (''state_snapshot'', field dec_object (\<lambda>m h. h\<lparr>StateSnapshot := m\<rparr>)),
     (''narrative'', field dec_string (\<lambda>s h. h\<lparr>Narrative := s\<rparr>)),
     (''decision_log'', field dec_strings (\<lambda>s h. h\<lparr>DecisionLog := s\<rparr>)),
     (''priority_queue'', field dec_strings (\<lambda>s h. h\<lparr>PriorityQueue := s\<rparr>)),
     (''warnings'', field dec_strings (\<lambda>s h. h\<lparr>Warnings := s\<rparr>)),
     (''payload_schema'', field dec_string (\<lambda>s h. h\<lparr>PayloadSchema := s\<rparr>))]"

definition zero_handoff :: Handoff where
  "zero_handoff = \<lparr>StateSnapshot = None, Narrative = [], DecisionLog = [], PriorityQueue = [], Warnings = [], PayloadSchema = []\<rparr>"

definition dec_handoff :: "codec \<Rightarrow> string \<Rightarrow> Handoff option" where
  "dec_handoff c s = (case parse c s of None \<Rightarrow> None | Some j \<Rightarrow> dec_struct False handoff_fields zero_handoff j)"

section \<open>Checkpoints\<close>

fun vstate_text :: "VState \<Rightarrow> string" where
  "vstate_text StateUnknown = ''UNKNOWN''"
| "vstate_text StateCandidate = ''CANDIDATE''"
| "vstate_text StateVerified = ''VERIFIED''"
| "vstate_text StateStale = ''STALE''"
| "vstate_text StateInvalidated = ''INVALIDATED''"
| "vstate_text StateRejected = ''REJECTED''"
| "vstate_text (VStateOther s) = s"

definition vstate_of :: "string \<Rightarrow> VState" where
  "vstate_of s = (case find (\<lambda>t. vstate_text t = s)
     [StateUnknown, StateCandidate, StateVerified, StateStale, StateInvalidated, StateRejected] of
       Some t \<Rightarrow> t | None \<Rightarrow> VStateOther s)"

definition edge_of :: "string \<Rightarrow> EdgeType" where
  "edge_of s = (case find (\<lambda>t. edge_text t = s)
     [EdgeData, EdgeEffect, EdgeResource, EdgeAuthority, EdgeTemporal, EdgeVerification, EdgeJoin, EdgeEvent] of
       Some t \<Rightarrow> t | None \<Rightarrow> EdgeOther s)"

definition dec_time :: "codec \<Rightarrow> json \<Rightarrow> time option" where
  "dec_time c j = (case j of JStr s \<Rightarrow> time_of_text c s | JNull \<Rightarrow> Some 0 | _ \<Rightarrow> None)"

definition ref_json :: "codec \<Rightarrow> VerificationRef \<Rightarrow> json" where
  "ref_json c v = JObj [(''verifier_id'', JStr (VerifierID v)), (''evidence_ref'', JStr (EvidenceRef v)),
     (''subject_ref'', JStr (SubjectRef v)), (''verified_at'', JStr (time_text c (VerifiedAt v)))]"

definition ref_fields :: "codec \<Rightarrow> (string \<times> (json \<Rightarrow> VerificationRef \<Rightarrow> VerificationRef option)) list" where
  "ref_fields c = [
     (''verifier_id'', field dec_string (\<lambda>s v. v\<lparr>VerifierID := s\<rparr>)),
     (''evidence_ref'', field dec_string (\<lambda>s v. v\<lparr>EvidenceRef := s\<rparr>)),
     (''subject_ref'', field dec_string (\<lambda>s v. v\<lparr>SubjectRef := s\<rparr>)),
     (''verified_at'', field (dec_time c) (\<lambda>t v. v\<lparr>VerifiedAt := t\<rparr>))]"

definition zero_ref :: VerificationRef where
  "zero_ref = \<lparr>VerifierID = [], EvidenceRef = [], SubjectRef = [], VerifiedAt = 0\<rparr>"

text \<open>A pointer field: \<^verbatim>\<open>null\<close> is nil, an object is decoded into a new struct.\<close>

definition dec_ref :: "codec \<Rightarrow> json \<Rightarrow> VerificationRef option option" where
  "dec_ref c j = (if j = JNull then Some None else map_option Some (dec_struct True (ref_fields c) zero_ref j))"

definition node_json :: "codec \<Rightarrow> VNode \<Rightarrow> json" where
  "node_json c n = JObj ([(''id'', JStr (vn_ID n)), (''state'', JStr (vstate_text (vn_State n)))]
     @ omitempty ''fingerprint'' (Fingerprint n)
     @ (case vn_Verification n of None \<Rightarrow> [] | Some v \<Rightarrow> [(''verification'', ref_json c v)]))"

definition node_fields :: "codec \<Rightarrow> (string \<times> (json \<Rightarrow> VNode \<Rightarrow> VNode option)) list" where
  "node_fields c = [
     (''id'', field dec_string (\<lambda>s n. n\<lparr>vn_ID := s\<rparr>)),
     (''state'', field dec_string (\<lambda>s n. n\<lparr>vn_State := vstate_of s\<rparr>)),
     (''fingerprint'', field dec_string (\<lambda>s n. n\<lparr>Fingerprint := s\<rparr>)),
     (''verification'', field (dec_ref c) (\<lambda>v n. n\<lparr>vn_Verification := v\<rparr>))]"

definition zero_node :: VNode where
  "zero_node = \<lparr>vn_ID = [], vn_State = VStateOther [], Fingerprint = [], vn_Verification = None\<rparr>"

definition edge_json :: "Edge \<Rightarrow> json" where
  "edge_json e = JObj [(''from'', JStr (e_From e)), (''to'', JStr (e_To e)), (''type'', JStr (edge_text (e_Type e)))]"

definition edge_fields :: "(string \<times> (json \<Rightarrow> Edge \<Rightarrow> Edge option)) list" where
  "edge_fields = [
     (''from'', field dec_string (\<lambda>s e. e\<lparr>e_From := s\<rparr>)),
     (''to'', field dec_string (\<lambda>s e. e\<lparr>e_To := s\<rparr>)),
     (''type'', field dec_string (\<lambda>s e. e\<lparr>e_Type := edge_of s\<rparr>))]"

definition zero_edge :: Edge where
  "zero_edge = \<lparr>e_From = [], e_To = [], e_Type = EdgeOther []\<rparr>"

text \<open>The last value of a repeated key stays.\<close>

fun dec_entries :: "(string \<times> json) list \<Rightarrow> Snapshot option" where
  "dec_entries [] = Some []"
| "dec_entries ((k, j) # kvs) = (case dec_string j of None \<Rightarrow> None
     | Some s \<Rightarrow> map_option (\<lambda>m. if k \<in> fst ` set m then m else (k, s) # m) (dec_entries kvs))"

definition dec_snapshot :: "json \<Rightarrow> Snapshot option option" where
  "dec_snapshot j = (case j of JNull \<Rightarrow> Some None | JObj kvs \<Rightarrow> map_option Some (dec_entries kvs) | _ \<Rightarrow> None)"

definition checkpoint_json :: "codec \<Rightarrow> Checkpoint \<Rightarrow> json" where
  "checkpoint_json c cp = JObj ([(''schema'', JStr (cp_Schema cp)), (''nodes'', JArr (map (node_json c) (cp_Nodes cp)))]
     @ (if cp_Edges cp = [] then [] else [(''edges'', JArr (map edge_json (cp_Edges cp)))])
     @ [(''snapshot'', case cp_Snapshot cp of None \<Rightarrow> JNull | Some s \<Rightarrow> JObj (map (\<lambda>(k, v). (k, JStr v)) s))])"

definition checkpoint_fields :: "codec \<Rightarrow> (string \<times> (json \<Rightarrow> Checkpoint \<Rightarrow> Checkpoint option)) list" where
  "checkpoint_fields c = [
     (''schema'', field dec_string (\<lambda>s cp. cp\<lparr>cp_Schema := s\<rparr>)),
     (''nodes'', field (dec_list (dec_struct True (node_fields c) zero_node)) (\<lambda>s cp. cp\<lparr>cp_Nodes := s\<rparr>)),
     (''edges'', field (dec_list (dec_struct True edge_fields zero_edge)) (\<lambda>s cp. cp\<lparr>cp_Edges := s\<rparr>)),
     (''snapshot'', field dec_snapshot (\<lambda>s cp. cp\<lparr>cp_Snapshot := s\<rparr>))]"

definition zero_checkpoint :: Checkpoint where
  "zero_checkpoint = \<lparr>cp_Schema = [], cp_Nodes = [], cp_Edges = [], cp_Snapshot = None\<rparr>"

definition AttachToStateSnapshot :: "codec \<Rightarrow> json gomap option \<Rightarrow> Checkpoint \<Rightarrow> vs_error + json gomap" where
  "AttachToStateSnapshot c state cp = (case state of None \<Rightarrow> Inl ErrInvalidCheckpoint
     | Some m \<Rightarrow> (case CheckpointValidate cp of Some x \<Rightarrow> Inl x
       | None \<Rightarrow> (case render c (checkpoint_json c cp) of None \<Rightarrow> Inl ErrInvalidCheckpoint
         | Some raw \<Rightarrow> (case parse c raw of None \<Rightarrow> Inl ErrInvalidCheckpoint
           | Some normalized \<Rightarrow> Inr (AList.update HandoffStateKey normalized m)))))"

text \<open>\<open>Inr None\<close> is a legacy handoff without the reserved key.\<close>

definition CheckpointFromStateSnapshot :: "codec \<Rightarrow> json gomap option \<Rightarrow> vs_error + Checkpoint option" where
  "CheckpointFromStateSnapshot c state = (case state of None \<Rightarrow> Inr None
     | Some m \<Rightarrow> (case map_of m HandoffStateKey of None \<Rightarrow> Inr None
       | Some v \<Rightarrow> (case render c v of None \<Rightarrow> Inl ErrInvalidCheckpoint
         | Some raw \<Rightarrow> (case parse c raw of None \<Rightarrow> Inl ErrInvalidCheckpoint
           | Some j \<Rightarrow> (case dec_struct True (checkpoint_fields c) zero_checkpoint j of None \<Rightarrow> Inl ErrInvalidCheckpoint
             | Some cp \<Rightarrow> (case CheckpointValidate cp of Some x \<Rightarrow> Inl x | None \<Rightarrow> Inr (Some cp)))))))"

section \<open>Round trips\<close>

named_theorems codec_simps \<open>decoding of encoded values\<close>

lemma dec_string_JStr [codec_simps]: "dec_string (JStr s) = Some s"
  by (simp add: dec_string_def)

lemma dec_all_map [codec_simps]: "\<forall>x \<in> set xs. d (f x) = Some x \<Longrightarrow> dec_all d (map f xs) = Some xs"
  by (induction xs) auto

lemma dec_strings_enc [codec_simps]: "dec_strings (enc_strings ss) = Some ss"
  by (simp add: dec_strings_def enc_strings_def dec_list_def dec_all_map dec_string_JStr)

lemma dec_object_enc [codec_simps]:
  "dec_object (case m of None \<Rightarrow> JNull | Some kvs \<Rightarrow> JObj kvs) = Some m"
  by (simp add: dec_object_def split: option.split)

lemmas struct_simps = dec_struct_def find_field_def field_def

lemma handoff_round: "dec_struct False handoff_fields zero_handoff (handoff_json h) = Some h"
  by (simp add: struct_simps handoff_fields_def handoff_json_def zero_handoff_def codec_simps)

lemma vstate_round: "validState s \<Longrightarrow> vstate_of (vstate_text s) = s"
  by (cases s) (simp_all add: vstate_of_def)

lemma edge_round: "validEdgeType t \<Longrightarrow> edge_of (edge_text t) = t"
  by (cases t) (simp_all add: edge_of_def)

lemma ref_round: "time_round c (VerifiedAt v) \<Longrightarrow> dec_ref c (ref_json c v) = Some (Some v)"
  by (simp add: dec_ref_def struct_simps ref_fields_def ref_json_def zero_ref_def codec_simps dec_time_def time_round_def)

lemma node_round:
  assumes "validState (vn_State n)" and "\<And>v. vn_Verification n = Some v \<Longrightarrow> time_round c (VerifiedAt v)"
  shows "dec_struct True (node_fields c) zero_node (node_json c n) = Some n"
proof (cases "vn_Verification n")
  case None
  then show ?thesis
    using assms(1)
    by (cases "Fingerprint n = []")
      (simp_all add: struct_simps node_fields_def node_json_def zero_node_def codec_simps vstate_round omitempty_def)
next
  case (Some v)
  then show ?thesis
    using assms(1) ref_round [OF assms(2) [OF Some]]
    by (cases "Fingerprint n = []")
      (simp_all add: struct_simps node_fields_def node_json_def zero_node_def codec_simps vstate_round omitempty_def)
qed

lemma edge_struct_round:
  "validEdgeType (e_Type e) \<Longrightarrow> dec_struct True edge_fields zero_edge (edge_json e) = Some e"
  by (simp add: struct_simps edge_fields_def edge_json_def zero_edge_def codec_simps edge_round)

lemma dec_entries_map [codec_simps]: "wf_map s \<Longrightarrow> dec_entries (map (\<lambda>(k, v). (k, JStr v)) s) = Some s"
  by (induction s) (auto simp: codec_simps wf_map_def)

lemma checkpoint_round:
  assumes "\<forall>n \<in> set (cp_Nodes cp). validState (vn_State n) \<and> (\<forall>v. vn_Verification n = Some v \<longrightarrow> time_round c (VerifiedAt v))"
    and "\<forall>e \<in> set (cp_Edges cp). validEdgeType (e_Type e)" and "\<forall>s. cp_Snapshot cp = Some s \<longrightarrow> wf_map s"
  shows "dec_struct True (checkpoint_fields c) zero_checkpoint (checkpoint_json c cp) = Some cp"
proof -
  let ?dn = "dec_struct True (node_fields c) zero_node" and ?de = "dec_struct True edge_fields zero_edge"
  have n: "dec_list ?dn (JArr (map (node_json c) (cp_Nodes cp))) = Some (cp_Nodes cp)"
    using assms(1) by (simp add: dec_list_def dec_all_map node_round)
  have e: "dec_list ?de (JArr (map edge_json (cp_Edges cp))) = Some (cp_Edges cp)"
    using assms(2) by (simp add: dec_list_def dec_all_map edge_struct_round)
  have s: "dec_snapshot (case cp_Snapshot cp of None \<Rightarrow> JNull | Some s \<Rightarrow> JObj (map (\<lambda>(k, v). (k, JStr v)) s))
      = Some (cp_Snapshot cp)"
    using assms(3) by (simp add: dec_snapshot_def codec_simps split: option.split)
  show ?thesis
    by (cases "cp_Edges cp = []") (simp_all add: dec_struct_def find_field_def checkpoint_fields_def checkpoint_json_def
        zero_checkpoint_def codec_simps field_def n e s)
qed

end
