(* ===== verification/Checkpoints.thy ===== *)
theory Checkpoints
  imports Lease_Store Checkpoint_Codec
begin

text \<open>
  Suspension and resumption of missions (\<^verbatim>\<open>services/work/store\<close>: \<^verbatim>\<open>SuspendWork\<close>, \<^verbatim>\<open>LatestHandoff\<close> and \<^verbatim>\<open>resumeFromCheckpoint\<close>
  of \<^verbatim>\<open>store.go\<close>, \<^verbatim>\<open>events_bridge.go\<close>, \<^verbatim>\<open>resume_reconciliation.go\<close>, \<^verbatim>\<open>link_suspend.go\<close> and the two wrappers of \<^verbatim>\<open>events_journal.go\<close>).

  A suspension writes the state and its handoff in one transaction; a resumption reads the latest handoff back,
  checks its hash, its state and, when it carries a verified-state checkpoint, a fresh observation of the world.
\<close>

section \<open>Suspension\<close>

definition handoffHash :: "codec \<Rightarrow> string \<Rightarrow> string" where
  "handoffHash c payload = sha c payload"

text \<open>The checkpoint of \<^verbatim>\<open>SuspendWork\<close> and \<^verbatim>\<open>cascadeSuspendWork\<close>: nothing is inserted when the same checkpoint is there.\<close>

definition save_checkpoint ::
  "env \<Rightarrow> string \<Rightarrow> State \<Rightarrow> string \<Rightarrow> string \<Rightarrow> time \<Rightarrow> db \<Rightarrow> db result" where
  "save_checkpoint e wid to hash payload now db =
     (if \<exists>r \<in> set (handoffs db). ho_WorkID r = wid \<and> ho_ToState r = to \<and> ho_PayloadHash r = hash then Inr db
      else let hid = fresh e 0 ''handoff'' in
        if hid \<in> ho_ID ` set (handoffs db) then Inl (ErrConstraint ''work_handoffs'')
        else Inr (db\<lparr>handoffs := handoffs db @ [\<lparr>ho_ID = hid, ho_WorkID = wid, ho_ToState = to,
               ho_PayloadHash = hash, ho_Payload = payload, ho_CreatedAt = now\<rparr>]\<rparr>))"

definition SuspendWork ::
  "codec \<Rightarrow> env \<Rightarrow> string \<Rightarrow> State \<Rightarrow> Handoff option \<Rightarrow> db \<Rightarrow> Work result \<times> db" where
  "SuspendWork c e wid to ho db =
     (if ho = None then (Inl (ErrRequired ''handoff''), db)
      else case ValidateHandoff ho of Inl x \<Rightarrow> (Inl (ErrInvalid x), db)
      | Inr h \<Rightarrow> (case render c (handoff_json h) of None \<Rightarrow> (Inl ErrEncoding, db)
        | Some payload \<Rightarrow>
          let hash = handoffHash c payload in
          case get_row wid db of None \<Rightarrow> (Inl ErrNotFound, db)
          | Some w \<Rightarrow>
            (case ValidateTransition w to of Some x \<Rightarrow> (Inl (ErrInvalid x), db)
             | None \<Rightarrow> (case ValidateMissionWork w of Some x \<Rightarrow> (Inl (ErrInvalid x), db)
               | None \<Rightarrow>
                 let now = Now e 0 in
                 (case save_checkpoint e wid to hash payload now (set_state wid to now db) of
                    Inl x \<Rightarrow> (Inl x, db)
                  | Inr db' \<Rightarrow> (GetWork wid db', db'))))))"

definition SuspendWorkEventful ::
  "codec \<Rightarrow> env \<Rightarrow> string \<Rightarrow> State \<Rightarrow> Handoff option \<Rightarrow> db \<Rightarrow> Work result \<times> db" where
  "SuspendWorkEventful c e wid to ho db = then_journal (call 1 e)
     (\<lambda>_. (wid,
       (if to = StateWaitingHuman then EventWorkWaitingHuman
        else if to = StateSuspended then EventWorkSuspended else EventWorkStateChanged),
       [(''state'', JStr (state_text to)), (''work_id'', JStr wid)]))
     (SuspendWork c (call 0 e) wid to ho db)"

section \<open>Reading checkpoints\<close>

text \<open>\<^verbatim>\<open>ORDER BY created_at DESC LIMIT 1\<close>, and the checks both readers make before they hand a checkpoint out.\<close>

definition latest_row :: "string \<Rightarrow> db \<Rightarrow> handoff_row option" where
  "latest_row wid db = (case order_desc ho_CreatedAt (filter (\<lambda>r. ho_WorkID r = wid) (handoffs db)) of
     [] \<Rightarrow> None | r # _ \<Rightarrow> Some r)"

definition open_handoff :: "codec \<Rightarrow> handoff_row \<Rightarrow> Handoff result" where
  "open_handoff c r =
     (if handoffHash c (ho_Payload r) \<noteq> ho_PayloadHash r then Inl ErrCorruptHandoff
      else case dec_handoff c (ho_Payload r) of None \<Rightarrow> Inl ErrCorruptHandoff
      | Some h \<Rightarrow> (case ValidateHandoff (Some h) of Inl _ \<Rightarrow> Inl ErrCorruptHandoff | Inr h' \<Rightarrow> Inr h'))"

definition LatestHandoff :: "codec \<Rightarrow> string \<Rightarrow> db \<Rightarrow> (Handoff \<times> State) result" where
  "LatestHandoff c wid db = (case latest_row wid db of None \<Rightarrow> Inl ErrNoHandoff
     | Some r \<Rightarrow> (case open_handoff c r of Inl x \<Rightarrow> Inl x | Inr h \<Rightarrow> Inr (h, ho_ToState r)))"

record HandoffRecord =
  hr_ID :: string
  hr_WorkID :: string
  hr_ToState :: State
  hr_PayloadHash :: string
  hr_Handoff :: Handoff
  hr_CreatedAt :: time

definition LatestHandoffRecord :: "codec \<Rightarrow> string \<Rightarrow> db \<Rightarrow> HandoffRecord result" where
  "LatestHandoffRecord c wid db = (case latest_row wid db of None \<Rightarrow> Inl ErrNoHandoff
     | Some r \<Rightarrow> (case open_handoff c r of Inl x \<Rightarrow> Inl x
       | Inr h \<Rightarrow> Inr \<lparr>hr_ID = ho_ID r, hr_WorkID = ho_WorkID r, hr_ToState = ho_ToState r,
           hr_PayloadHash = ho_PayloadHash r, hr_Handoff = h, hr_CreatedAt = ho_CreatedAt r\<rparr>))"

section \<open>Resumption\<close>

definition handoffNeedsVerifiedReconciliation :: "codec \<Rightarrow> Handoff \<Rightarrow> bool result" where
  "handoffNeedsVerifiedReconciliation c h = (case CheckpointFromStateSnapshot c (StateSnapshot h) of
     Inl _ \<Rightarrow> Inl ErrInvalidReconciliationCheckpoint
   | Inr None \<Rightarrow> Inr False
   | Inr (Some _) \<Rightarrow> Inr True)"

definition resumeFromCheckpoint ::
  "codec \<Rightarrow> env \<Rightarrow> string \<Rightarrow> bool \<Rightarrow> string \<Rightarrow> db \<Rightarrow> (Work \<times> Handoff) result \<times> db" where
  "resumeFromCheckpoint c e wid reconciled expected db =
     (case GetWork wid db of Inl x \<Rightarrow> (Inl x, db)
      | Inr w \<Rightarrow>
        if \<not> IsMission w then (Inl (ErrRequired ''mission contract''), db)
        else if work_State w \<notin> {StateSuspended, StateWaitingHuman} then (Inl ErrStaleHandoff, db)
        else case LatestHandoffRecord c wid db of Inl x \<Rightarrow> (Inl x, db)
        | Inr rec \<Rightarrow>
          if hr_ToState rec \<noteq> work_State w then (Inl ErrStaleHandoff, db)
          else if expected \<noteq> [] \<and> hr_PayloadHash rec \<noteq> expected then (Inl ErrStaleHandoff, db)
          else case handoffNeedsVerifiedReconciliation c (hr_Handoff rec) of Inl x \<Rightarrow> (Inl x, db)
          | Inr needs \<Rightarrow>
            if needs \<and> \<not> reconciled then (Inl ErrReconciliationRequired, db)
            else (case UpdateStateEventful (call 0 e) wid StateRunning db of
                (Inl x, db') \<Rightarrow> (Inl x, db')
              | (Inr w', db') \<Rightarrow> (Inr (w', hr_Handoff rec), db')))"

definition ResumeFromCheckpoint :: "codec \<Rightarrow> env \<Rightarrow> string \<Rightarrow> db \<Rightarrow> (Work \<times> Handoff) result \<times> db" where
  "ResumeFromCheckpoint c e wid db = resumeFromCheckpoint c e wid False [] db"

definition ResumeFromCheckpointEventful :: "codec \<Rightarrow> env \<Rightarrow> string \<Rightarrow> db \<Rightarrow> (Work \<times> Handoff) result \<times> db" where
  "ResumeFromCheckpointEventful c e wid db = then_journal (call 1 e)
     (\<lambda>(w, _). (wid, EventWorkResumed, [(''state'', JStr (state_text (work_State w))), (''work_id'', JStr wid)]))
     (ResumeFromCheckpoint c (call 0 e) wid db)"

definition ResumeFromCheckpointReconciled ::
  "codec \<Rightarrow> env \<Rightarrow> string \<Rightarrow> string \<Rightarrow> Snapshot option \<Rightarrow> db
     \<Rightarrow> ((Work \<times> Handoff) result \<times> ReconcileResult option) \<times> db" where
  "ResumeFromCheckpointReconciled c e wid expected current db =
     (if expected = [] then ((Inl ErrInvalidReconciliationCheckpoint, None), db)
      else case LatestHandoffRecord c wid db of Inl x \<Rightarrow> ((Inl x, None), db)
      | Inr rec \<Rightarrow>
        if hr_PayloadHash rec \<noteq> expected then ((Inl ErrStaleHandoff, None), db)
        else case CheckpointFromStateSnapshot c (StateSnapshot (hr_Handoff rec)) of
          Inl _ \<Rightarrow> ((Inl ErrInvalidReconciliationCheckpoint, None), db)
        | Inr None \<Rightarrow> ((Inl ErrInvalidReconciliationCheckpoint, None), db)
        | Inr (Some cp) \<Rightarrow> (case CheckpointReconcile cp current of
            Inl _ \<Rightarrow> ((Inl ErrInvalidReconciliationCheckpoint, None), db)
          | Inr result \<Rightarrow>
            if Impacted result \<noteq> [] then ((Inl ErrReconciliationRequired, Some result), db)
            else (case resumeFromCheckpoint c e wid True expected db of (r, db') \<Rightarrow> ((r, Some result), db'))))"

section \<open>Resume receipts\<close>

record ResumeReceipt =
  rr_WorkID :: string
  rr_IdempotencyKey :: string
  rr_PayloadHash :: string
  ApprovalReceiptID :: string
  rr_PrincipalID :: string
  rr_TenantID :: string
  ResultingState :: string
  rr_CreatedAt :: time

definition LookupResumeReceipt :: "string \<Rightarrow> ResumeReceipt list \<Rightarrow> ResumeReceipt option" where
  "LookupResumeReceipt key t = find_row rr_IdempotencyKey key t"

text \<open>A row for a Work that does not exist violates the foreign key, unless its key is taken already.\<close>

definition RecordResumeReceipt ::
  "env \<Rightarrow> ResumeReceipt \<Rightarrow> db \<Rightarrow> ResumeReceipt list \<Rightarrow> unit result \<times> ResumeReceipt list" where
  "RecordResumeReceipt e r db t =
     (if get_row (rr_WorkID r) db = None \<and> LookupResumeReceipt (rr_IdempotencyKey r) t = None
      then (Inl (ErrConstraint ''work_resume_receipts''), t)
      else (Inr (), insert_ignore rr_IdempotencyKey (r\<lparr>rr_CreatedAt := Now e 0\<rparr>) t))"

section \<open>The revoke cascade\<close>

definition suspendableStates :: "State \<Rightarrow> bool" where
  "suspendableStates s \<longleftrightarrow>
     s \<in> {StateCreated, StatePlanning, StateQueued, StateRunning, StateVerifying, StateBlocked}"

text \<open>The narrative ends in UTF-8 text with a dash, whose three bytes are written out.\<close>

definition revokeCascadeHandoff :: "string \<Rightarrow> Handoff" where
  "revokeCascadeHandoff deviceID = \<lparr>
     StateSnapshot = Some [(''device_id'', JStr deviceID), (''reason'', JStr ''device_revoked'')],
     Narrative = ''WORKS-Link device '' @ deviceID @ '' revoked '' @ map char_of [226, 128, 148 :: nat]
       @ '' mission suspended for human review'',
     DecisionLog = [''revoke-cascade k-035''],
     PriorityQueue = [],
     Warnings = [''device-local revoke always wins (ADR-0020)''],
     PayloadSchema = HandoffVersion\<rparr>"

definition cascadeSuspendWork :: "codec \<Rightarrow> env \<Rightarrow> string \<Rightarrow> Handoff \<Rightarrow> db \<Rightarrow> unit result \<times> db" where
  "cascadeSuspendWork c e wid h0 db =
     (case ValidateHandoff (Some h0) of Inl x \<Rightarrow> (Inl (ErrInvalid x), db)
      | Inr h \<Rightarrow> (case render c (handoff_json h) of None \<Rightarrow> (Inl ErrEncoding, db)
        | Some payload \<Rightarrow>
          (case get_row wid db of None \<Rightarrow> (Inl ErrNotFound, db)
           | Some w \<Rightarrow>
             if \<not> IsMission w \<or> \<not> suspendableStates (work_State w) then (Inr (), db)
             else case ValidateMissionWork w of Some x \<Rightarrow> (Inl (ErrInvalid x), db)
             | None \<Rightarrow>
               let now = Now e 0 in
               (case save_checkpoint e wid StateSuspended (handoffHash c payload) payload now
                    (set_state wid StateSuspended now db) of
                  Inl x \<Rightarrow> (Inl x, db)
                | Inr db' \<Rightarrow> journalWorkEvent (call 0 e) wid EventWorkSuspended
                    [(''state'', JStr (state_text StateSuspended)), (''work_id'', JStr wid)] db'))))"

text \<open>The loop of \<^verbatim>\<open>SuspendMissionsForDevice\<close> over the Works a device has mounted: the identifiers it suspended and the failures.\<close>

definition suspend_one :: "codec \<Rightarrow> env \<Rightarrow> string \<Rightarrow> string \<Rightarrow> db \<Rightarrow> bool result \<times> db" where
  "suspend_one c e deviceID wid db =
     (case GetWork wid db of Inl x \<Rightarrow> (if x = ErrNotFound then (Inr False, db) else (Inl x, db))
      | Inr w \<Rightarrow>
        if \<not> IsMission w \<or> \<not> suspendableStates (work_State w) then (Inr False, db)
        else let h = revokeCascadeHandoff deviceID in
          if work_State w = StateRunning \<or> work_State w = StateVerifying
          then (case SuspendWorkEventful c e wid StateSuspended (Some h) db of
              (Inl x, db') \<Rightarrow> (Inl x, db') | (Inr _, db') \<Rightarrow> (Inr True, db'))
          else (case cascadeSuspendWork c e wid h db of
              (Inl x, db') \<Rightarrow> (Inl x, db') | (Inr _, db') \<Rightarrow> (Inr True, db')))"

fun suspend_missions ::
  "codec \<Rightarrow> env \<Rightarrow> nat \<Rightarrow> string \<Rightarrow> string list \<Rightarrow> db \<Rightarrow> (string list \<times> (string \<times> store_error) list) \<times> db" where
  "suspend_missions c e i deviceID [] db = (([], []), db)"
| "suspend_missions c e i deviceID (wid # wids) db =
     (case suspend_one c (call i e) deviceID wid db of (r, db1) \<Rightarrow>
      case suspend_missions c e (Suc i) deviceID wids db1 of ((suspended, failures), db2) \<Rightarrow>
        (case r of Inl x \<Rightarrow> (suspended, (wid, x) # failures)
         | Inr True \<Rightarrow> (wid # suspended, failures)
         | Inr False \<Rightarrow> (suspended, failures), db2))"

section \<open>How these operations advance the store\<close>

text \<open>The moves of a Work: those of the table, and the hard stop of a device revocation.\<close>

definition store_moves :: "State \<Rightarrow> State \<Rightarrow> bool" where
  "store_moves s t \<longleftrightarrow> CanTransition s t \<or> (suspendableStates s \<and> t = StateSuspended)"

lemma table_moves: "CanTransition s t \<Longrightarrow> store_moves s t"
  by (simp add: store_moves_def)

lemma terminal_stops: "IsTerminal s \<Longrightarrow> \<not> store_moves s t"
  by (cases s) (auto simp: store_moves_def suspendableStates_def CanTransition_def)

interpretation store_law: transition_law store_moves IsTerminal
  by unfold_locales (use terminal_stops in blast)

lemma save_checkpoint_effect:
  assumes "save_checkpoint e wid to hash payload now db = Inr db'"
  shows "db' = db\<lparr>handoffs := handoffs db'\<rparr>
    \<and> (handoffs db' = handoffs db \<and> (\<exists>r \<in> set (handoffs db). ho_WorkID r = wid \<and> ho_ToState r = to \<and> ho_PayloadHash r = hash)
       \<or> fresh e 0 ''handoff'' \<notin> ho_ID ` set (handoffs db)
         \<and> handoffs db' = handoffs db @ [\<lparr>ho_ID = fresh e 0 ''handoff'', ho_WorkID = wid, ho_ToState = to,
               ho_PayloadHash = hash, ho_Payload = payload, ho_CreatedAt = now\<rparr>])"
  using assms by (auto simp: save_checkpoint_def Let_def split: if_splits)

lemma save_checkpoint_frame:
  assumes "save_checkpoint e wid to hash payload now db = Inr db'"
  shows "works db' = works db" "leases db' = leases db" "events db' = events db" "attempts db' = attempts db"
    "evidences db' = evidences db" "artifacts db' = artifacts db" "next_seq db' = next_seq db"
  using assms by (auto simp: save_checkpoint_def Let_def split: if_splits)

lemma save_checkpoint_advances:
  assumes "save_checkpoint e wid to hash payload now db = Inr db'" and "get_row wid db = Some w"
  shows "advances R db db'"
proof (rule advancesI)
  note F = save_checkpoint_frame [OF assms(1)]
  show "evolves R db db'" by (rule evolves_same_works [OF F(1)])
  show "leases db' = leases db" "events db' = events db" by (rule F)+
  have wid: "wid \<in> work_ID ` set (works db)" using get_row_in [OF assms(2)] by auto
  have "handoffs_ok db'" if "handoffs_ok db"
    using save_checkpoint_effect [OF assms(1)] that wid F(1) by (auto simp: handoffs_ok_def)
  then show "store_ok db'" if "store_ok db"
    using that F by (simp add: store_ok_def works_ok_def children_ok_def leases_ok_def journal_ok_def)
qed

text \<open>A suspension that goes through: the state is set and the checkpoint is there.\<close>

lemma SuspendWork_cases:
  obtains (refused) x where "SuspendWork c e wid to ho db = (Inl x, db)"
  | (suspended) h0 h payload w db' where "ho = Some h0" "ValidateHandoff (Some h0) = Inr h"
      "render c (handoff_json h) = Some payload" "get_row wid db = Some w"
      "ValidateTransition w to = None" "ValidateMissionWork w = None"
      "save_checkpoint e wid to (handoffHash c payload) payload (Now e 0) (set_state wid to (Now e 0) db) = Inr db'"
      "SuspendWork c e wid to ho db = (GetWork wid db', db')"
proof (cases ho)
  case None
  then show thesis using refused by (simp add: SuspendWork_def)
next
  case (Some h0)
  show thesis
  proof (cases "ValidateHandoff (Some h0)")
    case (Inl x)
    then show thesis using refused Some by (simp add: SuspendWork_def)
  next
    case (Inr h)
    show thesis
    proof (cases "render c (handoff_json h)")
      case None
      then show thesis using refused Some Inr by (simp add: SuspendWork_def)
    next
      case payload: (Some payload)
      show thesis
      proof (cases "get_row wid db")
        case None
        then show thesis using refused Some Inr payload by (simp add: SuspendWork_def)
      next
        case row: (Some w)
        let ?save = "save_checkpoint e wid to (handoffHash c payload) payload (Now e 0) (set_state wid to (Now e 0) db)"
        note unfolded = SuspendWork_def Some Inr payload row
        show thesis
          using refused suspended [OF Some Inr payload row]
          by (cases "ValidateTransition w to"; cases "ValidateMissionWork w"; cases ?save) (simp_all add: unfolded)
      qed
    qed
  qed
qed

lemma SuspendWork_advances: "advances CanTransition db (snd (SuspendWork c e wid to ho db))"
proof (cases rule: SuspendWork_cases [of c e wid to ho db])
  case (suspended h0 h payload w db')
  have "CanTransition (work_State w) to" using suspended(5) by (auto simp: ValidateTransition_def split: if_splits)
  then have 1: "advances CanTransition db (set_state wid to (Now e 0) db)" by (rule advances_set_state [OF suspended(4)])
  have "\<exists>w'. get_row wid (set_state wid to (Now e 0) db) = Some w'" using suspended(4) by (simp add: get_row_set_state)
  then show ?thesis
    using advances_trans [OF 1] save_checkpoint_advances [OF suspended(7)] suspended(8) by auto
qed simp

lemma cascadeSuspendWork_cases:
  obtains (refused) x where "cascadeSuspendWork c e wid h0 db = (Inl x, db)"
  | (skipped) w where "cascadeSuspendWork c e wid h0 db = (Inr (), db)" "get_row wid db = Some w"
      "\<not> IsMission w \<or> \<not> suspendableStates (work_State w)"
  | (suspended) h payload w db' where "ValidateHandoff (Some h0) = Inr h"
      "render c (handoff_json h) = Some payload" "get_row wid db = Some w" "IsMission w" "suspendableStates (work_State w)"
      "save_checkpoint e wid StateSuspended (handoffHash c payload) payload (Now e 0)
         (set_state wid StateSuspended (Now e 0) db) = Inr db'"
      "cascadeSuspendWork c e wid h0 db = journalWorkEvent (call 0 e) wid EventWorkSuspended
         [(''state'', JStr (state_text StateSuspended)), (''work_id'', JStr wid)] db'"
proof (cases "ValidateHandoff (Some h0)")
  case (Inl x)
  then show thesis using refused by (simp add: cascadeSuspendWork_def)
next
  case (Inr h)
  show thesis
  proof (cases "render c (handoff_json h)")
    case None
    then show thesis using refused Inr by (simp add: cascadeSuspendWork_def)
  next
    case payload: (Some payload)
    show thesis
    proof (cases "get_row wid db")
      case None
      then show thesis using refused Inr payload by (simp add: cascadeSuspendWork_def)
    next
      case row: (Some w)
      let ?save = "save_checkpoint e wid StateSuspended (handoffHash c payload) payload (Now e 0)
         (set_state wid StateSuspended (Now e 0) db)"
      note unfolded = cascadeSuspendWork_def Inr payload row
      show thesis
        using refused skipped [OF _ row] suspended [OF Inr payload row]
        by (cases "\<not> IsMission w \<or> \<not> suspendableStates (work_State w)"; cases "ValidateMissionWork w"; cases ?save)
          (simp_all add: unfolded)
    qed
  qed
qed

lemma cascadeSuspendWork_advances: "advances store_moves db (snd (cascadeSuspendWork c e wid h0 db))"
proof (cases rule: cascadeSuspendWork_cases [of c e wid h0 db])
  case (suspended h payload w db')
  have "store_moves (work_State w) StateSuspended" using suspended(5) by (simp add: store_moves_def)
  then have 1: "advances store_moves db (set_state wid StateSuspended (Now e 0) db)" by (rule advances_set_state [OF suspended(3)])
  have "\<exists>w'. get_row wid (set_state wid StateSuspended (Now e 0) db) = Some w'" using suspended(3) by (simp add: get_row_set_state)
  then have "advances store_moves db db'"
    using advances_trans [OF 1] save_checkpoint_advances [OF suspended(6)] by blast
  then show ?thesis using advances_trans advances_journal suspended(7) by simp
qed simp_all

lemma SuspendWorkEventful_advances: "advances CanTransition db (snd (SuspendWorkEventful c e wid to ho db))"
  by (simp add: SuspendWorkEventful_def advances_then_journal SuspendWork_advances)

lemma suspend_one_advances: "advances store_moves db (snd (suspend_one c e dev wid db))"
proof -
  have 1: "advances store_moves db db'" if "SuspendWorkEventful c e wid StateSuspended ho db = (r, db')" for ho r db'
    using advances_mono [OF SuspendWorkEventful_advances [of db c e wid StateSuspended ho] table_moves] that by simp
  have 2: "advances store_moves db db'" if "cascadeSuspendWork c e wid h db = (r, db')" for h r db'
    using cascadeSuspendWork_advances [of db c e wid h] that by simp
  obtain r1 db1 where s: "SuspendWorkEventful c e wid StateSuspended (Some (revokeCascadeHandoff dev)) db = (r1, db1)"
    by fastforce
  obtain r2 db2 where k: "cascadeSuspendWork c e wid (revokeCascadeHandoff dev) db = (r2, db2)" by fastforce
  show ?thesis
    using 1 [OF s] 2 [OF k]
    by (cases "GetWork wid db"; cases r1; cases r2) (simp_all add: suspend_one_def Let_def s k)
qed

lemma suspend_missions_advances: "advances store_moves db (snd (suspend_missions c e i dev wids db))"
proof (induction wids arbitrary: i db)
  case (Cons wid wids)
  have "advances store_moves db (snd (suspend_one c (call i e) dev wid db))" by (rule suspend_one_advances)
  then show ?case
    using Cons.IH advances_trans by (simp add: case_prod_beta)
qed simp

lemma resumeFromCheckpoint_advances: "advances CanTransition db (snd (resumeFromCheckpoint c e wid b x db))"
proof -
  have "advances CanTransition db db'" if "UpdateStateEventful (call 0 e) wid StateRunning db = (r, db')" for r db'
    using UpdateStateEventful_advances [of db "call 0 e" wid StateRunning] that by simp
  then show ?thesis by (auto simp: resumeFromCheckpoint_def split: sum.split prod.split)
qed

lemma resume_advances:
  "advances CanTransition db (snd (ResumeFromCheckpoint c e wid db))"
  "advances CanTransition db (snd (ResumeFromCheckpointEventful c e wid db))"
  "advances CanTransition db (snd (ResumeFromCheckpointReconciled c e wid x cur db))"
proof -
  show 1: "advances CanTransition db (snd (ResumeFromCheckpoint c e wid db))" for e
    by (simp add: ResumeFromCheckpoint_def resumeFromCheckpoint_advances)
  show "advances CanTransition db (snd (ResumeFromCheckpointEventful c e wid db))"
    by (simp add: ResumeFromCheckpointEventful_def advances_then_journal 1)
  have "advances CanTransition db db'" if "resumeFromCheckpoint c e wid True x db = (r, db')" for r db'
    using resumeFromCheckpoint_advances [of db c e wid True x] that by simp
  then show "advances CanTransition db (snd (ResumeFromCheckpointReconciled c e wid x cur db))"
    by (auto simp: ResumeFromCheckpointReconciled_def split: sum.split option.split prod.split)
qed

section \<open>Resuming what was suspended\<close>

lemma journalWorkEvent_succeeds:
  assumes "get_row wid db = Some w" "wid \<noteq> []" "typ \<noteq> []"
  shows "fst (journalWorkEvent e wid typ data db) = Inr ()"
proof -
  have f: "fresh e 0 ''evt'' \<noteq> []" by (simp add: fresh_def NewID_def)
  show ?thesis
    using assms f
    by (auto simp: journalWorkEvent_def emitJournalEvent_def AppendWorkEvent_def Let_def getWorkEventByID_def
        find_row_append split: option.split)
qed

lemma then_journal_succeeds:
  assumes "fst (journalWorkEvent e wid typ data db) = Inr ()"
  shows "then_journal e (\<lambda>_. (wid, typ, data)) (Inr a, db) = (Inr a, snd (journalWorkEvent e wid typ data db))"
  using assms by (cases "journalWorkEvent e wid typ data db") (simp add: then_journal_def)

lemma UpdateStateEventful_succeeds:
  assumes "get_row wid db = Some w" "CanTransition (work_State w) to" "wid \<noteq> []"
  shows "\<exists>w' db'. UpdateStateEventful e wid to db = (Inr w', db') \<and> work_State w' = to"
proof -
  obtain w1 db1 where u: "UpdateState (call 0 e) wid to db = (Inr w1, db1)" and s: "work_State w1 = to"
    and g: "get_row wid db1 \<noteq> None"
    using assms(1,2) get_row_in [OF assms(1)]
    by (simp add: UpdateState_def Let_def GetWork_def get_row_cong [of "auditEmit ev d" d for ev d] get_row_set_state)
  have "EventWorkStateChanged \<noteq> []" by (simp add: EventWorkStateChanged_def)
  then have j: "fst (journalWorkEvent (call 1 e) wid EventWorkStateChanged data db1) = Inr ()" for data
    using g journalWorkEvent_succeeds assms(3) by blast
  show ?thesis
    using s assms(1) by (simp add: UpdateStateEventful_def GetWork_def u then_journal_succeeds [OF j [unfolded One_nat_def]])
qed

text \<open>The newest of the rows is read when every other row of the Work is older in the order of the text column.\<close>

lemma last_sorted_max:
  assumes "\<forall>x \<in> set xs. k x < k r"
  shows "sort_key k (r # xs) = sort_key k xs @ [r]"
proof -
  have "insort_key k r ys = ys @ [r]" if "\<forall>x \<in> set ys. k x < k r" for ys
    using that by (induction ys) auto
  moreover have "\<forall>x \<in> set (sort_key k xs). k x < k r" using assms by simp
  ultimately show ?thesis by (simp add: sort_key_def)
qed

lemma latest_row_appended:
  assumes "handoffs db = rs @ [r]" and "ho_WorkID r = wid"
    and "\<forall>x \<in> set rs. ho_WorkID x = wid \<longrightarrow> text_before (ho_CreatedAt x) (ho_CreatedAt r)"
  shows "latest_row wid db = Some r"
proof -
  let ?xs = "filter (\<lambda>r. ho_WorkID r = wid) rs" and ?k = "\<lambda>r. rfc_key (ho_CreatedAt r)"
  have "\<forall>x \<in> set (rev ?xs). ?k x < ?k r" using assms(3) by (simp add: text_before_def)
  from last_sorted_max [OF this] show ?thesis
    using assms(1,2) by (simp add: latest_row_def order_desc_def)
qed

lemma open_handoff_fresh:
  assumes "ValidateHandoff (Some h0) = Inr h" and "render c (handoff_json h) = Some payload"
    and "parse c payload = Some (handoff_json h)" and "ho_Payload r = payload" "ho_PayloadHash r = handoffHash c payload"
  shows "open_handoff c r = Inr h"
proof -
  have "ValidateHandoff (Some h) = Inr h"
    using assms(1) by (auto simp: ValidateHandoff_def Let_def split: if_splits)
  then show ?thesis using assms by (simp add: open_handoff_def dec_handoff_def handoff_round)
qed

lemma SuspendWork_new_row:
  assumes "store_ok db" and "SuspendWork c e wid to (Some h0) db = (Inr w', db1)" and "ValidateHandoff (Some h0) = Inr h"
    and "render c (handoff_json h) = Some payload"
    and new: "\<forall>r \<in> set (handoffs db). ho_WorkID r = wid \<longrightarrow>
      text_before (ho_CreatedAt r) (Now e 0) \<and> (ho_ToState r = to \<longrightarrow> ho_PayloadHash r \<noteq> handoffHash c payload)"
  obtains r w where "latest_row wid db1 = Some r" "ho_ToState r = to" "ho_Payload r = payload"
    "ho_PayloadHash r = handoffHash c payload" "ho_WorkID r = wid"
    "get_row wid db = Some w" "get_row wid db1 = Some (w\<lparr>work_State := to, UpdatedAt := Now e 0\<rparr>)"
    "ValidateTransition w to = None" "wid \<noteq> []"
proof (cases rule: SuspendWork_cases [of c e wid to "Some h0" db])
  case (refused x)
  then show thesis using assms(2) by simp
next
  case (suspended h1 h2 payload2 w db')
  have same: "h1 = h0" "h2 = h" "payload2 = payload" "db' = db1"
    using suspended(1,2,3,8) assms(2-4) by auto
  note save = suspended(7) [unfolded same]
  have "\<not> (\<exists>r \<in> set (handoffs db). ho_WorkID r = wid \<and> ho_ToState r = to \<and> ho_PayloadHash r = handoffHash c payload)"
    using new by blast
  then have hs: "handoffs db1 = handoffs db @ [\<lparr>ho_ID = fresh e 0 ''handoff'', ho_WorkID = wid, ho_ToState = to,
      ho_PayloadHash = handoffHash c payload, ho_Payload = payload, ho_CreatedAt = Now e 0\<rparr>]" (is "_ = _ @ [?r]")
    using save_checkpoint_effect [OF save] by auto
  have wid: "work_ID w = wid" "wid \<noteq> []"
    using get_row_in [OF suspended(4)] assms(1) by (auto simp: store_ok_def works_ok_def)
  have "get_row wid db1 = get_row wid (set_state wid to (Now e 0) db)"
    by (rule get_row_cong [OF save_checkpoint_frame(1) [OF save]])
  then have row: "get_row wid db1 = Some (w\<lparr>work_State := to, UpdatedAt := Now e 0\<rparr>)"
    using suspended(4) wid by (simp add: get_row_set_state)
  have "latest_row wid db1 = Some ?r"
    by (rule latest_row_appended [OF hs]) (use new in auto)
  from that [OF this _ _ _ _ suspended(4) row suspended(5) wid(2)] show thesis by simp
qed

lemma resume_succeeds:
  assumes "get_row wid db = Some w" "IsMission w" "work_State w \<in> {StateSuspended, StateWaitingHuman}" "wid \<noteq> []"
    and "latest_row wid db = Some r" "ho_ToState r = work_State w" "open_handoff c r = Inr h"
    and "CheckpointFromStateSnapshot c (StateSnapshot h) = Inr cp" "cp \<noteq> None \<longrightarrow> b"
    and "expected \<noteq> [] \<longrightarrow> ho_PayloadHash r = expected"
  shows "\<exists>w' db'. resumeFromCheckpoint c e wid b expected db = (Inr (w', h), db') \<and> work_State w' = StateRunning"
proof -
  have run: "CanTransition (work_State w) StateRunning" using assms(3) by (auto simp: CanTransition_def)
  obtain w' db' where u: "UpdateStateEventful (call 0 e) wid StateRunning db = (Inr w', db')" "work_State w' = StateRunning"
    using UpdateStateEventful_succeeds [OF assms(1) run assms(4)] by blast
  have needs: "handoffNeedsVerifiedReconciliation c h = Inr (cp \<noteq> None)"
    using assms(8) by (cases cp) (simp_all add: handoffNeedsVerifiedReconciliation_def)
  have g: "GetWork wid db = Inr (w\<lparr>Attempts := attempts_of wid db, Artifacts := artifacts_of wid db, work_Evidence := evidence_of wid db\<rparr>)"
    using assms(1) by (simp add: GetWork_def)
  have "resumeFromCheckpoint c e wid b expected db = (Inr (w', h), db')"
    using assms(2,3,5-7,9,10) u(1) needs
    by (auto simp: resumeFromCheckpoint_def g LatestHandoffRecord_def IsMission_def)
  then show ?thesis using u(2) by blast
qed

text \<open>C12. What was suspended can be resumed from what was written: a suspension to SUSPENDED or WAITING_HUMAN whose checkpoint is not one of the Work's earlier ones and carries no verified-state
  key, and whose creation time has a text that sorts after theirs (as it has from the next second on), reads back as the handoff that was validated, and resuming it returns the Work to
  RUNNING together with exactly this handoff. It is assumed that the JSON text of this handoff reads back as the same value. The order of texts is what the code takes for
  most recent; \<open>newer_checkpoint_not_read_back\<close> below is a newer checkpoint outside this hypothesis.\<close>

theorem suspend_resume_round_trip:
  assumes "store_ok db" and "to \<in> {StateSuspended, StateWaitingHuman}"
    and "SuspendWork c e wid to (Some h0) db = (Inr w, db1)" and "ValidateHandoff (Some h0) = Inr h"
    and "render c (handoff_json h) = Some payload" and "parse c payload = Some (handoff_json h)"
    and "\<forall>r \<in> set (handoffs db). ho_WorkID r = wid \<longrightarrow>
      text_before (ho_CreatedAt r) (Now e 0) \<and> (ho_ToState r = to \<longrightarrow> ho_PayloadHash r \<noteq> handoffHash c payload)"
    and "CheckpointFromStateSnapshot c (StateSnapshot h) = Inr None"
  shows "LatestHandoff c wid db1 = Inr (h, to)
    \<and> (\<exists>w' db2. ResumeFromCheckpoint c e' wid db1 = (Inr (w', h), db2) \<and> work_State w' = StateRunning)"
proof -
  obtain r w0 where r: "latest_row wid db1 = Some r" "ho_ToState r = to" "ho_Payload r = payload"
    "ho_PayloadHash r = handoffHash c payload" "ho_WorkID r = wid"
    and row: "get_row wid db1 = Some (w0\<lparr>work_State := to, UpdatedAt := Now e 0\<rparr>)"
    and v: "ValidateTransition w0 to = None" and wid: "wid \<noteq> []"
    by (rule SuspendWork_new_row [OF assms(1,3,4,5,7)])
  have opened: "open_handoff c r = Inr h" by (rule open_handoff_fresh [OF assms(4,5,6) r(3,4)])
  have mission: "IsMission w0"
    using v assms(2) by (auto simp: ValidateTransition_def missionOnlyStates_def split: if_splits)
  have "\<exists>w' db2. ResumeFromCheckpoint c e' wid db1 = (Inr (w', h), db2) \<and> work_State w' = StateRunning"
    unfolding ResumeFromCheckpoint_def
    by (rule resume_succeeds [OF row _ _ wid r(1) _ opened assms(8)]) (use assms(2) r(2) mission in \<open>auto simp: IsMission_def\<close>)
  then show ?thesis using r opened by (simp add: LatestHandoff_def)
qed

text \<open>What every successful resumption has checked.\<close>

lemma resumeFromCheckpoint_success:
  assumes "resumeFromCheckpoint c e wid b expected db = (Inr (w', h), db')"
  obtains w r where "get_row wid db = Some w" "IsMission w" "work_State w \<in> {StateSuspended, StateWaitingHuman}"
    "latest_row wid db = Some r" "ho_ToState r = work_State w" "open_handoff c r = Inr h"
    "expected \<noteq> [] \<Longrightarrow> ho_PayloadHash r = expected"
    "\<exists>cp. CheckpointFromStateSnapshot c (StateSnapshot h) = Inr cp \<and> (cp \<noteq> None \<longrightarrow> b)"
    "UpdateStateEventful (call 0 e) wid StateRunning db = (Inr w', db')"
proof (cases "get_row wid db")
  case None
  then show thesis using assms by (simp add: resumeFromCheckpoint_def GetWork_def)
next
  case (Some w)
  show thesis
  proof (cases "LatestHandoffRecord c wid db")
    case (Inl x)
    then show thesis using assms Some by (simp add: resumeFromCheckpoint_def GetWork_def split: if_splits)
  next
    case (Inr rec)
    then obtain r where r: "latest_row wid db = Some r" "open_handoff c r = Inr (hr_Handoff rec)"
      "hr_ToState rec = ho_ToState r" "hr_PayloadHash rec = ho_PayloadHash r"
      by (auto simp: LatestHandoffRecord_def split: option.splits sum.splits)
    have ok: "IsMission w" "work_State w \<in> {StateSuspended, StateWaitingHuman}" "ho_ToState r = work_State w"
      "expected \<noteq> [] \<Longrightarrow> ho_PayloadHash r = expected" "hr_Handoff rec = h"
      "UpdateStateEventful (call 0 e) wid StateRunning db = (Inr w', db')"
      "\<exists>needs. handoffNeedsVerifiedReconciliation c h = Inr needs \<and> (needs \<longrightarrow> b)"
      using assms Some Inr r(3,4)
      by (auto simp: resumeFromCheckpoint_def GetWork_def IsMission_def split: if_splits sum.splits prod.splits)
    from ok(7) have "\<exists>cp. CheckpointFromStateSnapshot c (StateSnapshot h) = Inr cp \<and> (cp \<noteq> None \<longrightarrow> b)"
      by (auto simp: handoffNeedsVerifiedReconciliation_def split: sum.splits option.splits)
    with that [OF Some ok(1,2) r(1) ok(3)] ok r(2) show thesis by blast
  qed
qed

text \<open>An unimpacted reconciliation has seen every monitored subject with its verified fingerprint.\<close>

lemma no_impact_all_seen:
  assumes "CheckpointReconcile cp current = Inr result" and "Impacted result = []" and "cp_Snapshot cp = Some s" and "wf_map s"
  obtains cur where "current = Some cur" "\<forall>v fp. map_of s v = Some fp \<longrightarrow> map_of cur v = Some fp"
proof -
  obtain g where g: "fst (Reconcile (Some s) current g) = Inr result"
    using assms(1,3) by (auto simp: CheckpointReconcile_def split: option.splits sum.splits)
  then obtain g' where rec: "Reconcile (Some s) current g = (Inr result, g')" by (metis prod.collapse)
  obtain cur where cur: "current = Some cur" by (rule Reconcile_Inr [OF rec])
  have "{v. affected (outgoing g) (roots_of s cur) v} = {}"
    using Reconcile_effect(2) [OF rec [unfolded cur] assms(4)] assms(2) by simp
  then have "roots_of s cur = {}" using affected.root by blast
  then show thesis using that [OF cur] by (auto simp: roots_of_def)
qed

text \<open>C13. No resumption without an intact checkpoint of the current state: when a Work is resumed, it was a mission in SUSPENDED or WAITING_HUMAN,
  its latest checkpoint was written for exactly this state, has the hash of its payload and decodes to a valid handoff, the one returned; a
  checkpoint that carries verified state is never resumed blindly.\<close>

theorem resume_needs_intact_checkpoint:
  assumes "ResumeFromCheckpoint c e wid db = (Inr (w', h), db')"
  shows "\<exists>w r. get_row wid db = Some w \<and> IsMission w \<and> work_State w \<in> {StateSuspended, StateWaitingHuman}
    \<and> latest_row wid db = Some r \<and> ho_ToState r = work_State w \<and> sha c (ho_Payload r) = ho_PayloadHash r
    \<and> open_handoff c r = Inr h \<and> CheckpointFromStateSnapshot c (StateSnapshot h) = Inr None"
proof -
  obtain w r where 1: "get_row wid db = Some w" "IsMission w" "work_State w \<in> {StateSuspended, StateWaitingHuman}"
    and 2: "latest_row wid db = Some r" "ho_ToState r = work_State w" "open_handoff c r = Inr h"
    and 3: "\<exists>cp. CheckpointFromStateSnapshot c (StateSnapshot h) = Inr cp \<and> (cp \<noteq> None \<longrightarrow> False)"
    using assms unfolding ResumeFromCheckpoint_def by (rule resumeFromCheckpoint_success) blast
  have "sha c (ho_Payload r) = ho_PayloadHash r"
    using 2(3) by (auto simp: open_handoff_def handoffHash_def split: if_splits)
  then show ?thesis using 1 2 3 by auto
qed

text \<open>C14. A verified checkpoint is resumed only into an unchanged world: when the reconciled resumption succeeds, the latest checkpoint has the
  hash the caller observed, is a valid checkpoint of verified subjects, and the fresh observation shows every
  monitored subject with exactly the fingerprint that was verified.\<close>

theorem reconciled_resume_saw_verified_world:
  assumes "ResumeFromCheckpointReconciled c e wid expected current db = ((Inr (w', h), res), db')"
    and "\<And>cp s. CheckpointFromStateSnapshot c (StateSnapshot h) = Inr (Some cp) \<Longrightarrow> cp_Snapshot cp = Some s \<Longrightarrow> wf_map s"
  shows "\<exists>r cp s cur. latest_row wid db = Some r \<and> ho_PayloadHash r = expected \<and> sha c (ho_Payload r) = expected
    \<and> CheckpointFromStateSnapshot c (StateSnapshot h) = Inr (Some cp) \<and> CheckpointValidate cp = None
    \<and> cp_Snapshot cp = Some s \<and> current = Some cur \<and> (\<forall>v fp. map_of s v = Some fp \<longrightarrow> map_of cur v = Some fp)"
proof -
  obtain rec cp result where l: "LatestHandoffRecord c wid db = Inr rec" "hr_PayloadHash rec = expected"
    and cp: "CheckpointFromStateSnapshot c (StateSnapshot (hr_Handoff rec)) = Inr (Some cp)"
    and res: "CheckpointReconcile cp current = Inr result" "Impacted result = []"
    and resume: "resumeFromCheckpoint c e wid True expected db = (Inr (w', h), db')"
    using assms(1)
    by (auto simp: ResumeFromCheckpointReconciled_def split: if_splits sum.splits option.splits prod.splits)
  obtain r where r: "latest_row wid db = Some r" "open_handoff c r = Inr h"
    using resume by (rule resumeFromCheckpoint_success)
  have rec: "hr_Handoff rec = h" "ho_PayloadHash r = expected"
    using l r by (auto simp: LatestHandoffRecord_def)
  have hash: "sha c (ho_Payload r) = expected"
    using r(2) rec(2) by (auto simp: open_handoff_def handoffHash_def split: if_splits)
  have valid: "CheckpointValidate cp = None"
    using res(1) by (auto simp: CheckpointReconcile_def split: option.splits)
  then obtain s where s: "cp_Snapshot cp = Some s"
    by (auto simp: CheckpointValidate_def split: if_splits option.splits)
  obtain cur where "current = Some cur" "\<forall>v fp. map_of s v = Some fp \<longrightarrow> map_of cur v = Some fp"
    by (rule no_impact_all_seen [OF res s assms(2) [OF cp [unfolded rec(1)] s]])
  then show ?thesis using r(1) rec hash cp valid s by auto
qed

section \<open>The cascade\<close>

lemma SuspendWork_works:
  assumes "SuspendWork c e wid to ho db = (r, db')"
  shows "works db' = works db \<and> (\<exists>x. r = Inl x) \<and> handoffs db' = handoffs db
    \<or> (\<exists>w t. get_row wid db = Some w \<and> works db' = works (set_state wid to t db) \<and> set (handoffs db) \<subseteq> set (handoffs db')
        \<and> (\<exists>k \<in> set (handoffs db'). ho_WorkID k = wid \<and> ho_ToState k = to))"
proof (cases rule: SuspendWork_cases [of c e wid to ho db])
  case (suspended h0 h payload w db'')
  note S = save_checkpoint_effect [OF suspended(7)] save_checkpoint_frame(1) [OF suspended(7)]
  have "db'' = db'" using suspended(8) assms by simp
  moreover have "set (handoffs db) \<subseteq> set (handoffs db'')" using S(1) by auto
  moreover have "\<exists>k \<in> set (handoffs db''). ho_WorkID k = wid \<and> ho_ToState k = to" using S(1) by auto
  ultimately show ?thesis using S(2) suspended(4) by blast
qed (use assms in simp)

lemma SuspendWorkEventful_works:
  assumes "SuspendWorkEventful c e wid to ho db = (r, db')"
  shows "works db' = works db \<and> (\<exists>x. r = Inl x) \<and> handoffs db' = handoffs db
    \<or> (\<exists>w t. get_row wid db = Some w \<and> works db' = works (set_state wid to t db) \<and> set (handoffs db) \<subseteq> set (handoffs db')
        \<and> (\<exists>k \<in> set (handoffs db'). ho_WorkID k = wid \<and> ho_ToState k = to))"
proof -
  obtain r1 db1 where s: "SuspendWork c (call 0 e) wid to ho db = (r1, db1)" by fastforce
  define d where "d = (\<lambda>_ :: Work. (wid, (if to = StateWaitingHuman then EventWorkWaitingHuman
        else if to = StateSuspended then EventWorkSuspended else EventWorkStateChanged),
       [(''state'', JStr (state_text to)), (''work_id'', JStr wid)]))"
  have j: "(r, db') = then_journal (call 1 e) d (r1, db1)"
    using assms by (simp add: SuspendWorkEventful_def s d_def)
  have "works db' = works db1" "handoffs db' = handoffs db1"
    using arg_cong [OF j, of "\<lambda>p. works (snd p)"] arg_cong [OF j, of "\<lambda>p. handoffs (snd p)"] by simp_all
  moreover have "r = Inl x" if "r1 = Inl x" for x using j that by (simp add: then_journal_def)
  ultimately show ?thesis using SuspendWork_works [OF s] by auto
qed

lemma cascadeSuspendWork_works:
  assumes "cascadeSuspendWork c e wid h db = (r, db')" and "get_row wid db = Some w" "IsMission w" "suspendableStates (work_State w)"
  shows "works db' = works db \<and> (\<exists>x. r = Inl x) \<and> handoffs db' = handoffs db
    \<or> (\<exists>t. works db' = works (set_state wid StateSuspended t db) \<and> set (handoffs db) \<subseteq> set (handoffs db')
        \<and> (\<exists>k \<in> set (handoffs db'). ho_WorkID k = wid \<and> ho_ToState k = StateSuspended))"
proof (cases rule: cascadeSuspendWork_cases [of c e wid h db])
  case (suspended h' payload w' db'')
  note S = save_checkpoint_effect [OF suspended(6)] save_checkpoint_frame(1) [OF suspended(6)]
  have db': "db' = snd (journalWorkEvent (call 0 e) wid EventWorkSuspended
      [(''state'', JStr (state_text StateSuspended)), (''work_id'', JStr wid)] db'')"
    using suspended(7) assms(1) by (metis snd_conv)
  then have "works db' = works db''" "handoffs db' = handoffs db''" by simp_all
  moreover have "set (handoffs db) \<subseteq> set (handoffs db'')" using S(1) by auto
  moreover have "\<exists>k \<in> set (handoffs db''). ho_WorkID k = wid \<and> ho_ToState k = StateSuspended" using S(1) by auto
  ultimately show ?thesis using S(2) by metis
qed (use assms in simp_all)

definition stoppable :: "Work \<Rightarrow> bool" where
  "stoppable w \<longleftrightarrow> IsMission w \<and> suspendableStates (work_State w)"

definition has_checkpoint :: "string \<Rightarrow> db \<Rightarrow> bool" where
  "has_checkpoint wid db \<longleftrightarrow> (\<exists>k \<in> set (handoffs db). ho_WorkID k = wid \<and> ho_ToState k = StateSuspended)"

text \<open>One Work of the loop: left alone, or stopped with a checkpoint.\<close>

lemma suspend_one_effect:
  assumes "suspend_one c e dev wid db = (r, db')"
  shows "works db' = works db \<and> r \<noteq> Inr True \<and> set (handoffs db) \<subseteq> set (handoffs db')
      \<and> (r = Inr False \<longrightarrow> (\<forall>w. get_row wid db = Some w \<longrightarrow> \<not> stoppable w))
    \<or> (\<exists>w t. get_row wid db = Some w \<and> stoppable w \<and> works db' = works (set_state wid StateSuspended t db)
        \<and> r \<noteq> Inr False \<and> set (handoffs db) \<subseteq> set (handoffs db') \<and> has_checkpoint wid db')"
proof (cases "get_row wid db")
  case None
  then show ?thesis using assms by (auto simp: suspend_one_def GetWork_def)
next
  case (Some w)
  show ?thesis
  proof (cases "stoppable w")
    case False
    then show ?thesis using assms Some by (auto simp: suspend_one_def GetWork_def stoppable_def IsMission_def)
  next
    case True
    let ?h = "revokeCascadeHandoff dev" and ?s = "SuspendWorkEventful c e wid StateSuspended"
    have st: "IsMission w" "suspendableStates (work_State w)" using True by (simp_all add: stoppable_def)
    obtain r1 db1 where s: "?s (Some ?h) db = (r1, db1)" by fastforce
    obtain r2 db2 where k: "cascadeSuspendWork c e wid ?h db = (r2, db2)" by fastforce
    have one: "(r, db') = (if work_State w = StateRunning \<or> work_State w = StateVerifying
        then (map_sum id (\<lambda>_. True) r1, db1) else (map_sum id (\<lambda>_. True) r2, db2))"
      using assms Some st by (cases r1; cases r2) (auto simp: suspend_one_def GetWork_def IsMission_def s k Let_def)
    have nf: "map_sum id (\<lambda>_. True) q \<noteq> Inr False" for q :: "store_error + 'q" by (cases q) simp_all
    have goal: ?thesis if "r = map_sum id (\<lambda>_. True) q"
      "works db' = works db \<and> (\<exists>x. q = Inl x) \<and> handoffs db' = handoffs db
       \<or> (\<exists>t. works db' = works (set_state wid StateSuspended t db) \<and> set (handoffs db) \<subseteq> set (handoffs db')
           \<and> (\<exists>k \<in> set (handoffs db'). ho_WorkID k = wid \<and> ho_ToState k = StateSuspended))" for q :: "store_error + 'q"
      using that(2)
    proof
      assume "works db' = works db \<and> (\<exists>x. q = Inl x) \<and> handoffs db' = handoffs db"
      then show ?thesis using that(1) by auto
    next
      assume "\<exists>t. works db' = works (set_state wid StateSuspended t db) \<and> set (handoffs db) \<subseteq> set (handoffs db')
           \<and> (\<exists>k \<in> set (handoffs db'). ho_WorkID k = wid \<and> ho_ToState k = StateSuspended)"
      moreover have "r \<noteq> Inr False" unfolding that(1) by (rule nf)
      ultimately show ?thesis using Some True by (auto simp only: has_checkpoint_def)
    qed
    show ?thesis
    proof (cases "work_State w = StateRunning \<or> work_State w = StateVerifying")
      case True
      then have "r = map_sum id (\<lambda>_. True) r1" "db' = db1" using one by simp_all
      then show ?thesis using goal SuspendWorkEventful_works [OF s] by blast
    next
      case False
      then have "r = map_sum id (\<lambda>_. True) r2" "db' = db2" using one by simp_all
      then show ?thesis using goal cascadeSuspendWork_works [OF k Some st] by blast
    qed
  qed
qed

definition stopped_from :: "string set \<Rightarrow> db \<Rightarrow> db \<Rightarrow> bool" where
  "stopped_from wids db db' \<longleftrightarrow> (\<forall>k w. get_row k db = Some w \<longrightarrow> (\<exists>w'. get_row k db' = Some w' \<and> work_frame w' = work_frame w
     \<and> (work_State w' = work_State w \<or> k \<in> wids \<and> stoppable w \<and> work_State w' = StateSuspended)))"

lemma mission_frame: "work_frame w' = work_frame w \<Longrightarrow> IsMission w' = IsMission w"
proof -
  assume "work_frame w' = work_frame w"
  then have "Mission (work_frame w') = Mission (work_frame w)" by simp
  then show ?thesis by (simp add: work_frame_def IsMission_def)
qed

lemma stopped_from_trans:
  assumes "stopped_from A a b" "stopped_from B b c"
  shows "stopped_from (A \<union> B) a c"
  unfolding stopped_from_def
proof (intro allI impI)
  fix k w assume "get_row k a = Some w"
  then obtain w1 where 1: "get_row k b = Some w1" "work_frame w1 = work_frame w"
    "work_State w1 = work_State w \<or> k \<in> A \<and> stoppable w \<and> work_State w1 = StateSuspended"
    using assms(1) unfolding stopped_from_def by blast
  then obtain w2 where 2: "get_row k c = Some w2" "work_frame w2 = work_frame w1"
    "work_State w2 = work_State w1 \<or> k \<in> B \<and> stoppable w1 \<and> work_State w2 = StateSuspended"
    using assms(2) unfolding stopped_from_def by blast
  have "stoppable w" if "stoppable w1" "work_State w1 = work_State w"
    using that mission_frame [OF 1(2)] by (simp add: stoppable_def)
  moreover have "\<not> stoppable w1" if "work_State w1 = StateSuspended"
    using that by (simp add: stoppable_def suspendableStates_def)
  ultimately show "\<exists>w'. get_row k c = Some w' \<and> work_frame w' = work_frame w
      \<and> (work_State w' = work_State w \<or> k \<in> A \<union> B \<and> stoppable w \<and> work_State w' = StateSuspended)"
    using 1 2 by auto
qed

lemma suspend_one_stops:
  assumes "suspend_one c e dev wid db = (r, db')"
  shows "stopped_from {wid} db db'" and "set (handoffs db) \<subseteq> set (handoffs db')"
    and "r = Inr True \<Longrightarrow> has_checkpoint wid db' \<and> (\<exists>w'. get_row wid db' = Some w' \<and> work_State w' = StateSuspended)"
    and "r = Inr False \<Longrightarrow> \<forall>w. get_row wid db = Some w \<longrightarrow> \<not> stoppable w"
    and "k \<noteq> wid \<Longrightarrow> get_row k db' = get_row k db"
proof -
  have stop: "stopped_from {wid} db db' \<and> (k \<noteq> wid \<longrightarrow> get_row k db' = get_row k db)
      \<and> (\<exists>w'. get_row wid db' = Some w' \<and> work_State w' = StateSuspended)"
    if "get_row wid db = Some w" "stoppable w" "works db' = works (set_state wid StateSuspended t db)" for w t k
  proof -
    have g: "get_row j db' = map_option (\<lambda>w. if work_ID w = wid then w\<lparr>work_State := StateSuspended, UpdatedAt := t\<rparr> else w) (get_row j db)" for j
      using get_row_cong [OF that(3), of j] by (simp add: get_row_set_state)
    have ids: "work_ID v = j" if "get_row j db = Some v" for j v using get_row_in [OF that] by simp
    have "get_row k db' = get_row k db" if "k \<noteq> wid"
      using g [of k] ids [of k] that by (cases "get_row k db") auto
    moreover have "stopped_from {wid} db db'"
      using that(1,2) g ids by (auto simp: stopped_from_def work_frame_def)
    ultimately show ?thesis using g [of wid] ids that(1) by auto
  qed
  have same: "stopped_from {wid} db db'" "get_row j db' = get_row j db" if "works db' = works db" for j
    using get_row_cong [OF that] by (auto simp: stopped_from_def)
  note E = suspend_one_effect [OF assms]
  show "stopped_from {wid} db db'" using E stop same(1) by blast
  show "set (handoffs db) \<subseteq> set (handoffs db')" using E by blast
  show "has_checkpoint wid db' \<and> (\<exists>w'. get_row wid db' = Some w' \<and> work_State w' = StateSuspended)" if "r = Inr True"
    using E stop that by blast
  show "\<forall>w. get_row wid db = Some w \<longrightarrow> \<not> stoppable w" if "r = Inr False" using E that by blast
  show "get_row k db' = get_row k db" if "k \<noteq> wid" using E stop same(2) that by blast
qed

lemma stays_suspended:
  assumes "stopped_from A db db'" "get_row k db = Some w" "work_State w = StateSuspended"
  shows "\<exists>w'. get_row k db' = Some w' \<and> work_State w' = StateSuspended"
  using assms unfolding stopped_from_def by metis

lemma has_checkpoint_mono: "has_checkpoint k db \<Longrightarrow> set (handoffs db) \<subseteq> set (handoffs db') \<Longrightarrow> has_checkpoint k db'"
  by (auto simp: has_checkpoint_def)

lemma suspend_missions_effect:
  assumes "suspend_missions c e i dev wids db = ((suspended, failures), db')"
  shows "stopped_from (set wids) db db' \<and> set (handoffs db) \<subseteq> set (handoffs db') \<and> set suspended \<subseteq> set wids
    \<and> (\<forall>k \<in> set suspended. has_checkpoint k db' \<and> (\<exists>w'. get_row k db' = Some w' \<and> work_State w' = StateSuspended))
    \<and> (\<forall>k \<in> set wids. \<forall>w. get_row k db = Some w \<longrightarrow> stoppable w \<longrightarrow> k \<in> set suspended \<or> k \<in> fst ` set failures)"
  using assms
proof (induction wids arbitrary: i db suspended failures)
  case Nil
  then show ?case by (simp add: stopped_from_def)
next
  case (Cons wid wids)
  obtain r db1 where one: "suspend_one c (call i e) dev wid db = (r, db1)" by fastforce
  obtain s f where rest: "suspend_missions c e (Suc i) dev wids db1 = ((s, f), db')"
    using Cons.prems one by (auto split: prod.splits)
  have res: "suspended = (if r = Inr True then wid # s else s)" "failures = (case r of Inl x \<Rightarrow> (wid, x) # f | _ \<Rightarrow> f)"
    using Cons.prems one rest by (auto split: sum.splits bool.splits)
  note O = suspend_one_stops [OF one] and I = Cons.IH [OF rest]
  have "stopped_from ({wid} \<union> set wids) db db'" using stopped_from_trans [OF O(1)] I by blast
  moreover have "has_checkpoint wid db' \<and> (\<exists>w'. get_row wid db' = Some w' \<and> work_State w' = StateSuspended)" if "r = Inr True"
    using O(3) [OF that] I stays_suspended has_checkpoint_mono by blast
  moreover have "k \<in> set suspended \<or> k \<in> fst ` set failures"
    if k: "k \<in> set (wid # wids)" "get_row k db = Some w" "stoppable w" for k w
  proof (cases "k = wid")
    case True
    then have "r \<noteq> Inr False" using O(4) k by blast
    then show ?thesis using True res by (cases r) auto
  next
    case False
    then have "k \<in> set s \<or> k \<in> fst ` set f" using I k O(5) [OF False] by auto
    then show ?thesis using res by (cases r) auto
  qed
  ultimately show ?case using I O(2) res by auto
qed

section \<open>Concrete runs\<close>

definition mission_contract :: MissionContract where
  "mission_contract = \<lparr>mc_BudgetCeiling = Some \<lparr>ComputeEUR = Fin 5 0, WallClockH = Fin 1 0\<rparr>,
     Verification = [\<lparr>Criterion = ''tests pass'', crit_Kind = []\<rparr>], PurposeBindings = [], KillSwitch = ''always''\<rparr>"

definition mission_work :: Work where
  "mission_work = demo_work\<lparr>work_State := StateRunning, Mission := Some mission_contract\<rparr>"

definition mission_db :: db where
  "mission_db = empty_db\<lparr>works := [mission_work]\<rparr>"

definition mission_handoff :: "json gomap \<Rightarrow> Handoff" where
  "mission_handoff m = \<lparr>StateSnapshot = Some m, Narrative = ''waiting'', DecisionLog = [], PriorityQueue = [], Warnings = [],
     PayloadSchema = HandoffVersion\<rparr>"

text \<open>A codec for the two texts of these runs: a handoff and the checkpoint inside it.\<close>

definition two_texts :: "json \<Rightarrow> json \<Rightarrow> codec" where
  "two_texts j k = \<lparr>render = (\<lambda>x. Some (if x = j then ''h'' else ''c'')), parse = (\<lambda>s. Some (if s = ''h'' then j else k)),
     time_text = (\<lambda>_. []), time_of_text = (\<lambda>_. Some 7), sha = (\<lambda>s. s)\<rparr>"

lemma mission_db_ok: "store_ok mission_db"
  by (simp add: mission_db_def store_ok_def works_ok_def children_ok_def leases_ok_def exclusive_def handoffs_ok_def
      journal_ok_def empty_db_def bare_def mission_work_def demo_work_def zero_Work_def)

lemma mission_row: "get_row ''w1'' mission_db = Some mission_work"
  by (simp add: get_row_def mission_db_def mission_work_def demo_work_def zero_Work_def)

lemma mission_valid: "ValidateMissionWork mission_work = None" "IsMission mission_work" "work_State mission_work = StateRunning"
  by code_simp+

lemma handoff_valid: "ValidateHandoff (Some (mission_handoff m)) = Inr (mission_handoff m)"
  by (simp add: ValidateHandoff_def mission_handoff_def string_defs HandoffVersion_def)

abbreviation mission_json :: "json gomap \<Rightarrow> json" where
  "mission_json m \<equiv> handoff_json (mission_handoff m)"

definition suspended_db :: "codec \<Rightarrow> json gomap \<Rightarrow> db" where
  "suspended_db c m = snd (SuspendWork c (clock 9) ''w1'' StateSuspended (Some (mission_handoff m)) mission_db)"

lemma mission_suspend:
  "\<exists>w. SuspendWork (two_texts (mission_json m) k) (clock 9) ''w1'' StateSuspended (Some (mission_handoff m)) mission_db
     = (Inr w, suspended_db (two_texts (mission_json m) k) m)"
proof -
  have "CanTransition StateRunning StateSuspended" by (simp add: CanTransition_def)
  then have "ValidateTransition mission_work StateSuspended = None"
    using mission_valid by (simp add: ValidateTransition_def)
  moreover have "handoffs (set_state ''w1'' StateSuspended 9 mission_db) = []" by (simp add: mission_db_def empty_db_def)
  then obtain db' where save: "save_checkpoint (clock 9) ''w1'' StateSuspended ''h'' ''h'' 9
      (set_state ''w1'' StateSuspended 9 mission_db) = Inr db'"
    by (simp add: save_checkpoint_def Let_def)
  moreover have "\<exists>w. GetWork ''w1'' db' = Inr w"
    using get_row_cong [OF save_checkpoint_frame(1) [OF save], of "''w1''"] mission_row
    by (simp add: GetWork_def get_row_set_state)
  ultimately show ?thesis
    using mission_valid(1)
    by (auto simp: suspended_db_def SuspendWork_def handoff_valid mission_row Let_def two_texts_def handoffHash_def Now_def clock_def)
qed

lemma no_checkpoints_before:
  "\<forall>r \<in> set (handoffs mission_db). ho_WorkID r = ''w1'' \<longrightarrow> text_before (ho_CreatedAt r) (Now (clock 9) 0)
      \<and> (ho_ToState r = StateSuspended \<longrightarrow> ho_PayloadHash r \<noteq> x)"
  by (simp add: mission_db_def empty_db_def)

lemma mission_texts:
  "render (two_texts (mission_json m) k) (mission_json m) = Some ''h''"
  "parse (two_texts (mission_json m) k) ''h'' = Some (mission_json m)"
  by (simp_all add: two_texts_def)

lemma mission_suspended:
  obtains r w where "latest_row ''w1'' (suspended_db (two_texts (mission_json m) k) m) = Some r"
    "ho_ToState r = StateSuspended" "ho_PayloadHash r = ''h''"
    "open_handoff (two_texts (mission_json m) k) r = Inr (mission_handoff m)"
    "get_row ''w1'' (suspended_db (two_texts (mission_json m) k) m) = Some w" "IsMission w" "work_State w = StateSuspended"
proof -
  obtain w0 where s: "SuspendWork (two_texts (mission_json m) k) (clock 9) ''w1'' StateSuspended (Some (mission_handoff m)) mission_db
     = (Inr w0, suspended_db (two_texts (mission_json m) k) m)" using mission_suspend by blast
  obtain r w where r: "latest_row ''w1'' (suspended_db (two_texts (mission_json m) k) m) = Some r" "ho_ToState r = StateSuspended"
    "ho_Payload r = ''h''" "ho_PayloadHash r = handoffHash (two_texts (mission_json m) k) ''h''"
    and w: "get_row ''w1'' mission_db = Some w"
      "get_row ''w1'' (suspended_db (two_texts (mission_json m) k) m) = Some (w\<lparr>work_State := StateSuspended, UpdatedAt := Now (clock 9) 0\<rparr>)"
    by (rule SuspendWork_new_row [OF mission_db_ok s handoff_valid mission_texts(1) no_checkpoints_before])
  have "IsMission w" using w(1) mission_row mission_valid(2) by simp
  then have "IsMission (w\<lparr>work_State := StateSuspended, UpdatedAt := Now (clock 9) 0\<rparr>)" by (simp add: IsMission_def)
  moreover have "ho_PayloadHash r = ''h''" using r(4) by (simp add: handoffHash_def two_texts_def)
  ultimately show thesis
    using that [OF r(1,2) _ open_handoff_fresh [OF handoff_valid mission_texts r(3,4)] w(2)] by simp
qed

theorem suspend_resume_round_trip_witness:
  "\<exists>c db1. LatestHandoff c ''w1'' db1 = Inr (mission_handoff [], StateSuspended)
    \<and> (\<exists>w' db2. ResumeFromCheckpoint c (clock 10) ''w1'' db1 = (Inr (w', mission_handoff []), db2) \<and> work_State w' = StateRunning)"
proof -
  let ?c = "two_texts (mission_json []) JNull"
  obtain w where s: "SuspendWork ?c (clock 9) ''w1'' StateSuspended (Some (mission_handoff [])) mission_db
     = (Inr w, suspended_db ?c [])" using mission_suspend by blast
  have t: "StateSuspended \<in> {StateSuspended, StateWaitingHuman}" by simp
  have k: "CheckpointFromStateSnapshot ?c (StateSnapshot (mission_handoff [])) = Inr None"
    by (simp add: CheckpointFromStateSnapshot_def mission_handoff_def)
  show ?thesis
    using suspend_resume_round_trip [OF mission_db_ok t s handoff_valid mission_texts no_checkpoints_before k] by blast
qed

theorem resume_needs_intact_checkpoint_witness:
  "\<exists>w r. get_row ''w1'' (suspended_db (two_texts (mission_json []) JNull) []) = Some w \<and> IsMission w
    \<and> latest_row ''w1'' (suspended_db (two_texts (mission_json []) JNull) []) = Some r \<and> ho_ToState r = work_State w"
proof -
  let ?c = "two_texts (mission_json []) JNull"
  have k: "CheckpointFromStateSnapshot ?c (StateSnapshot (mission_handoff [])) = Inr None"
    by (simp add: CheckpointFromStateSnapshot_def mission_handoff_def)
  obtain r w where "latest_row ''w1'' (suspended_db ?c []) = Some r" "ho_ToState r = StateSuspended"
    "open_handoff ?c r = Inr (mission_handoff [])"
    "get_row ''w1'' (suspended_db ?c []) = Some w" "IsMission w" "work_State w = StateSuspended"
    by (rule mission_suspended)
  then obtain w' db2 where "ResumeFromCheckpoint ?c (clock 10) ''w1'' (suspended_db ?c []) = (Inr (w', mission_handoff []), db2)"
    using resume_succeeds [of "''w1''" "suspended_db ?c []" w r ?c "mission_handoff []" None False "[]" "clock 10"] k
    by (auto simp: ResumeFromCheckpoint_def)
  from resume_needs_intact_checkpoint [OF this] show ?thesis by blast
qed

definition demo_checkpoint :: Checkpoint where
  "demo_checkpoint = \<lparr>cp_Schema = CheckpointSchema, cp_Nodes = map demo_node [''a'', ''b'', ''c''], cp_Edges = demo_edges,
     cp_Snapshot = Some demo_before\<rparr>"

definition demo_checkpoint_json :: json where
  "demo_checkpoint_json = checkpoint_json (two_texts JNull JNull) demo_checkpoint"

definition verified_codec :: codec where
  "verified_codec = two_texts (mission_json [(HandoffStateKey, demo_checkpoint_json)]) demo_checkpoint_json"

lemma demo_checkpoint_valid: "CheckpointValidate demo_checkpoint = None"
  by code_simp

lemma verified_key: "CheckpointFromStateSnapshot verified_codec (Some [(HandoffStateKey, demo_checkpoint_json)]) = Inr (Some demo_checkpoint)"
proof -
  have same: "demo_checkpoint_json = checkpoint_json verified_codec demo_checkpoint"
    by (simp add: demo_checkpoint_json_def checkpoint_json_def demo_checkpoint_def node_json_def ref_json_def two_texts_def
        verified_codec_def demo_node_def demo_proof_def)
  have "demo_checkpoint_json \<noteq> mission_json m" for m
    by (simp add: demo_checkpoint_json_def checkpoint_json_def handoff_json_def)
  then have "render verified_codec demo_checkpoint_json = Some ''c''" "parse verified_codec ''c'' = Some demo_checkpoint_json"
    by (simp_all add: verified_codec_def two_texts_def)
  moreover have "dec_struct True (checkpoint_fields verified_codec) zero_checkpoint demo_checkpoint_json = Some demo_checkpoint"
    unfolding same
    by (rule checkpoint_round)
      (auto simp: demo_checkpoint_def demo_node_def demo_proof_def demo_edges_def demo_before_def wf_map_def time_round_def verified_codec_def two_texts_def)
  ultimately show ?thesis by (simp add: CheckpointFromStateSnapshot_def demo_checkpoint_valid)
qed

theorem reconciled_resume_saw_verified_world_witness:
  "\<exists>r (cp :: Checkpoint) s cur. latest_row ''w1'' (suspended_db verified_codec [(HandoffStateKey, demo_checkpoint_json)]) = Some r
    \<and> ho_PayloadHash r = ''h'' \<and> cp_Snapshot cp = Some s \<and> Some demo_before = Some cur \<and> (\<forall>v fp. map_of s v = Some fp \<longrightarrow> map_of cur v = Some fp)"
proof -
  let ?m = "[(HandoffStateKey, demo_checkpoint_json)]" and ?c = verified_codec
  obtain r w where r: "latest_row ''w1'' (suspended_db ?c ?m) = Some r" "ho_ToState r = StateSuspended" "ho_PayloadHash r = ''h''"
    "open_handoff ?c r = Inr (mission_handoff ?m)"
    and w: "get_row ''w1'' (suspended_db ?c ?m) = Some w" "IsMission w" "work_State w = StateSuspended"
    unfolding verified_codec_def by (rule mission_suspended)
  have k: "CheckpointFromStateSnapshot ?c (StateSnapshot (mission_handoff ?m)) = Inr (Some demo_checkpoint)"
    using verified_key by (simp add: mission_handoff_def)
  have "\<exists>w' db2. resumeFromCheckpoint ?c (clock 10) ''w1'' True ''h'' (suspended_db ?c ?m) = (Inr (w', mission_handoff ?m), db2)
      \<and> work_State w' = StateRunning"
    by (rule resume_succeeds [OF w(1,2) _ _ r(1) _ r(4) k]) (use w r in auto)
  then obtain w' db2 where resume: "resumeFromCheckpoint ?c (clock 10) ''w1'' True ''h'' (suspended_db ?c ?m)
      = (Inr (w', mission_handoff ?m), db2)" by blast
  have rec: "CheckpointReconcile demo_checkpoint (Some demo_before) = Inr \<lparr>Changed = [], Missing = [], Added = [], Impacted = []\<rparr>"
    by code_simp
  have "ResumeFromCheckpointReconciled ?c (clock 10) ''w1'' ''h'' (Some demo_before) (suspended_db ?c ?m)
      = ((Inr (w', mission_handoff ?m), Some \<lparr>Changed = [], Missing = [], Added = [], Impacted = []\<rparr>), db2)"
    using r k rec resume by (simp add: ResumeFromCheckpointReconciled_def LatestHandoffRecord_def)
  moreover have "wf_map s"
    if "CheckpointFromStateSnapshot ?c (StateSnapshot (mission_handoff ?m)) = Inr (Some cp)" "cp_Snapshot cp = Some s" for cp s
    using that k by (auto simp: demo_checkpoint_def demo_before_def wf_map_def)
  ultimately have "\<exists>r (cp :: Checkpoint) s cur. latest_row ''w1'' (suspended_db ?c ?m) = Some r \<and> ho_PayloadHash r = ''h'' \<and> sha ?c (ho_Payload r) = ''h''
      \<and> CheckpointFromStateSnapshot ?c (StateSnapshot (mission_handoff ?m)) = Inr (Some cp) \<and> CheckpointValidate cp = None
      \<and> cp_Snapshot cp = Some s \<and> Some demo_before = Some cur \<and> (\<forall>v fp. map_of s v = Some fp \<longrightarrow> map_of cur v = Some fp)"
    by (rule reconciled_resume_saw_verified_world)
  then show ?thesis by blast
qed

text \<open>A repeated checkpoint is not the one that is resumed: when a mission is suspended again with a handoff it was suspended with
  before, nothing is written, and the latest checkpoint is still the possibly different one that was written in between: that one, not the
  handoff of this suspension, is what a reader and a resumption get.\<close>

theorem repeated_handoff_resumes_other:
  assumes "SuspendWork c e wid to (Some h0) db = (Inr w, db1)" and "ValidateHandoff (Some h0) = Inr h"
    and "render c (handoff_json h) = Some payload"
    and "r1 \<in> set (handoffs db)" "ho_WorkID r1 = wid" "ho_ToState r1 = to" "ho_PayloadHash r1 = handoffHash c payload"
    and "latest_row wid db = Some r2" "open_handoff c r2 = Inr h2"
  shows "handoffs db1 = handoffs db \<and> LatestHandoff c wid db1 = Inr (h2, ho_ToState r2)"
proof (cases rule: SuspendWork_cases [of c e wid to "Some h0" db])
  case (suspended h1 h' payload' w' db')
  have "h1 = h0" "h' = h" "payload' = payload" "db' = db1" using suspended(1,2,3,8) assms(1-3) by auto
  then have "save_checkpoint e wid to (handoffHash c payload) payload (Now e 0) (set_state wid to (Now e 0) db) = Inr db1"
    using suspended(7) by simp
  then have "handoffs db1 = handoffs db"
    using assms(4-7) by (auto simp: save_checkpoint_def split: if_splits)
  then show ?thesis using assms(8,9) by (simp add: LatestHandoff_def latest_row_def)
qed (use assms(1) in simp)

definition two_checkpoints :: db where
  "two_checkpoints = mission_db\<lparr>handoffs := [
     \<lparr>ho_ID = ''h1'', ho_WorkID = ''w1'', ho_ToState = StateSuspended, ho_PayloadHash = ''h'', ho_Payload = ''h'', ho_CreatedAt = 0\<rparr>,
     \<lparr>ho_ID = ''h2'', ho_WorkID = ''w1'', ho_ToState = StateSuspended, ho_PayloadHash = ''c'', ho_Payload = ''c'', ho_CreatedAt = Second\<rparr>]\<rparr>"

theorem repeated_handoff_resumes_other_witness:
  "\<exists>c w db1. SuspendWork c (clock Hour) ''w1'' StateSuspended (Some (mission_handoff [])) two_checkpoints = (Inr w, db1)
     \<and> LatestHandoff c ''w1'' db1 = Inr (mission_handoff [(''x'', JNull)], StateSuspended)"
proof -
  let ?c = "two_texts (mission_json []) (mission_json [(''x'', JNull)])"
  let ?r1 = "hd (handoffs two_checkpoints)" and ?r2 = "last (handoffs two_checkpoints)"
  have row: "get_row ''w1'' two_checkpoints = Some mission_work"
    using mission_row get_row_cong [of two_checkpoints mission_db] by (simp add: two_checkpoints_def)
  have "CanTransition StateRunning StateSuspended" by (simp add: CanTransition_def)
  then have v: "ValidateTransition mission_work StateSuspended = None"
    using mission_valid by (simp add: ValidateTransition_def)
  have texts: "render ?c (mission_json []) = Some ''h''" "handoffHash ?c ''h'' = ''h''"
    by (simp_all add: two_texts_def handoffHash_def)
  have r1: "?r1 \<in> set (handoffs two_checkpoints)" "ho_WorkID ?r1 = ''w1''" "ho_ToState ?r1 = StateSuspended" "ho_PayloadHash ?r1 = ''h''"
    by (simp_all add: two_checkpoints_def)
  have "\<exists>r \<in> set (handoffs two_checkpoints). ho_WorkID r = ''w1'' \<and> ho_ToState r = StateSuspended \<and> ho_PayloadHash r = ''h''"
    using r1 by blast
  then obtain db1 where save: "save_checkpoint (clock Hour) ''w1'' StateSuspended ''h'' ''h'' (Now (clock Hour) 0)
      (set_state ''w1'' StateSuspended (Now (clock Hour) 0) two_checkpoints) = Inr db1"
    by (simp add: save_checkpoint_def)
  obtain w where w: "GetWork ''w1'' db1 = Inr w"
    using get_row_cong [OF save_checkpoint_frame(1) [OF save], of "''w1''"] row by (auto simp: GetWork_def get_row_set_state)
  have s: "SuspendWork ?c (clock Hour) ''w1'' StateSuspended (Some (mission_handoff [])) two_checkpoints = (Inr w, db1)"
    using v mission_valid(1) by (simp add: SuspendWork_def handoff_valid texts row Let_def save w)
  have "text_before 0 Second" by (rule text_before_seconds) (simp add: Second_def)
  then have l: "latest_row ''w1'' two_checkpoints = Some ?r2"
    by (intro latest_row_appended [of _ "[?r1]"]) (simp_all add: two_checkpoints_def)
  have "open_handoff ?c ?r2 = Inr (mission_handoff [(''x'', JNull)])"
    by (rule open_handoff_fresh [OF handoff_valid]) (simp_all add: two_texts_def two_checkpoints_def handoffHash_def handoff_json_def mission_handoff_def)
  from repeated_handoff_resumes_other [OF s handoff_valid texts(1) r1(1-3) _ l this] texts(2) r1(4)
  have "LatestHandoff ?c ''w1'' db1 = Inr (mission_handoff [(''x'', JNull)], ho_ToState ?r2)" by simp
  moreover have "ho_ToState ?r2 = StateSuspended" by (simp add: two_checkpoints_def)
  ultimately show ?thesis using s by auto
qed

text \<open>The latest checkpoint is the one with the greatest text, not the newest: a mission suspended at 5.2 s, resumed, and suspended again at 5.25 s with another handoff
  is read back, and resumed, with the first one.\<close>

lemma latest_row_text_order:
  assumes "handoffs db = [x, r]" "ho_WorkID x = wid" "ho_WorkID r = wid" "text_before (ho_CreatedAt r) (ho_CreatedAt x)"
  shows "latest_row wid db = Some x"
  using assms by (simp add: latest_row_def order_desc_def text_before_def)

definition one_checkpoint :: db where
  "one_checkpoint = mission_db\<lparr>handoffs := [\<lparr>ho_ID = ''h1'', ho_WorkID = ''w1'', ho_ToState = StateSuspended, ho_PayloadHash = ''c'', ho_Payload = ''c'', ho_CreatedAt = 5200000000\<rparr>]\<rparr>"

theorem newer_checkpoint_not_read_back:
  "\<exists>c e w db1 x. store_ok one_checkpoint \<and> SuspendWork c e ''w1'' StateSuspended (Some (mission_handoff [])) one_checkpoint = (Inr w, db1)
     \<and> x \<in> set (handoffs one_checkpoint) \<and> ho_CreatedAt x < Now e 0
     \<and> (\<exists>r \<in> set (handoffs db1). ho_CreatedAt r = Now e 0) \<and> latest_row ''w1'' db1 = Some x
     \<and> LatestHandoff c ''w1'' db1 = Inr (mission_handoff [(''x'', JNull)], StateSuspended)"
proof -
  let ?c = "two_texts (mission_json []) (mission_json [(''x'', JNull)])" and ?e = "clock 5250000000"
  let ?x = "hd (handoffs one_checkpoint)"
  have ok: "store_ok one_checkpoint"
    using mission_db_ok by (simp add: one_checkpoint_def store_ok_def works_ok_def children_ok_def leases_ok_def handoffs_ok_def journal_ok_def
        mission_db_def mission_work_def demo_work_def zero_Work_def)
  have row: "get_row ''w1'' one_checkpoint = Some mission_work"
    using mission_row get_row_cong [of one_checkpoint mission_db] by (simp add: one_checkpoint_def)
  have "CanTransition StateRunning StateSuspended" by (simp add: CanTransition_def)
  then have v: "ValidateTransition mission_work StateSuspended = None"
    using mission_valid by (simp add: ValidateTransition_def)
  have texts: "render ?c (mission_json []) = Some ''h''" "handoffHash ?c ''h'' = ''h''"
    by (simp_all add: two_texts_def handoffHash_def)
  have fresh_id: "fresh ?e 0 ''handoff'' \<noteq> ''h1''" by (simp add: clock_def fresh_def NewID_def)
  obtain db1 where save: "save_checkpoint ?e ''w1'' StateSuspended ''h'' ''h'' (Now ?e 0)
      (set_state ''w1'' StateSuspended (Now ?e 0) one_checkpoint) = Inr db1"
    and hs: "handoffs db1 = [?x, \<lparr>ho_ID = fresh ?e 0 ''handoff'', ho_WorkID = ''w1'', ho_ToState = StateSuspended,
      ho_PayloadHash = ''h'', ho_Payload = ''h'', ho_CreatedAt = Now ?e 0\<rparr>]"
    using fresh_id by (simp add: save_checkpoint_def one_checkpoint_def Let_def set_state_def)
  obtain w where w: "GetWork ''w1'' db1 = Inr w"
    using get_row_cong [OF save_checkpoint_frame(1) [OF save], of "''w1''"] row by (auto simp: GetWork_def get_row_set_state)
  have s: "SuspendWork ?c ?e ''w1'' StateSuspended (Some (mission_handoff [])) one_checkpoint = (Inr w, db1)"
    using v mission_valid(1) by (simp add: SuspendWork_def handoff_valid texts row Let_def save w)
  have x: "?x \<in> set (handoffs one_checkpoint)" "ho_WorkID ?x = ''w1''" "ho_CreatedAt ?x = 5200000000" "ho_ToState ?x = StateSuspended"
    by (simp_all add: one_checkpoint_def)
  have l: "latest_row ''w1'' db1 = Some ?x"
    by (rule latest_row_text_order [OF hs]) (use x text_order_inverts in \<open>simp_all add: Now_def clock_def\<close>)
  have "open_handoff ?c ?x = Inr (mission_handoff [(''x'', JNull)])"
    by (rule open_handoff_fresh [OF handoff_valid]) (simp_all add: two_texts_def one_checkpoint_def handoffHash_def handoff_json_def mission_handoff_def)
  then have "LatestHandoff ?c ''w1'' db1 = Inr (mission_handoff [(''x'', JNull)], StateSuspended)" by (simp add: LatestHandoff_def l x(4))
  moreover have "ho_CreatedAt ?x < Now ?e 0" by (simp add: x(3) Now_def clock_def)
  ultimately show ?thesis using ok s x(1) l by (intro exI [of _ ?c] exI [of _ ?e] exI [of _ w] exI [of _ db1] exI [of _ ?x]) (simp add: hs)
qed


end
