(* ===== verification/Store_Runs.thy ===== *)
theory Store_Runs
  imports Checkpoints
begin

text \<open>
  Sequences of calls on the store: every operation of \<^verbatim>\<open>services/work/store\<close> that writes, in any order, each with its own readings of the
  clock and of the identifier generator. All of them run in write transactions on a single connection, so an interleaving of callers is a sequence of calls.
\<close>

datatype store_call =
    CCreateWork env Work
  | CUpdateState env string State
  | CAppendAttempt env string Attempt
  | CAppendEvidence env string Evidence
  | CAppendArtifact env string Artifact
  | CSaveProvenance env Provenance
  | CRecordWebhookDelivery env string string string string
  | CAppendWorkEvent env WorkEvent
  | CCreateWorkEventful env Work
  | CUpdateStateEventful env string State
  | CAppendAttemptEventful env string Attempt
  | CAppendEvidenceEventful env string Evidence
  | CAppendArtifactEventful env string Artifact
  | CGrantLease env string string string duration
  | CGrantPlacementLease env string string string duration
  | CRenewLease env string duration
  | CCompleteLease env string int "Artifact option" "Evidence list"
  | CReleaseLease env string string
  | CRevokeLease env string string
  | CMarkAttemptCancelled env string string
  | CGrantLeaseEventful env string string string duration
  | CRenewLeaseEventful env string duration
  | CReleaseLeaseEventful env string string
  | CRevokeLeaseEventful env string string
  | CCompleteLeaseEventful env string int "Artifact option" "Evidence list"
  | CReap env int
  | CSuspendWork env string State "Handoff option"
  | CSuspendWorkEventful env string State "Handoff option"
  | CResume env string
  | CResumeEventful env string
  | CResumeReconciled env string string "Snapshot option"
  | CSuspendMissions env string "string list"

text \<open>\<open>fmt\<close> is the rendering of timestamps in evidence hashes.\<close>

fun exec_store :: "codec \<Rightarrow> (time \<Rightarrow> string) \<Rightarrow> store_call \<Rightarrow> db \<Rightarrow> db" where
  "exec_store c fmt (CCreateWork e w) db = snd (CreateWork e w db)"
| "exec_store c fmt (CUpdateState e wid to) db = snd (UpdateState e wid to db)"
| "exec_store c fmt (CAppendAttempt e wid a) db = snd (AppendAttempt e wid a db)"
| "exec_store c fmt (CAppendEvidence e wid ev) db = snd (AppendEvidence e wid ev db)"
| "exec_store c fmt (CAppendArtifact e wid a) db = snd (AppendArtifact e wid a db)"
| "exec_store c fmt (CSaveProvenance e p) db = snd (SaveProvenance e p db)"
| "exec_store c fmt (CRecordWebhookDelivery e d ev wid b) db = snd (RecordWebhookDelivery e d ev wid b db)"
| "exec_store c fmt (CAppendWorkEvent e ev) db = snd (AppendWorkEvent e ev db)"
| "exec_store c fmt (CCreateWorkEventful e w) db = snd (CreateWorkEventful e w db)"
| "exec_store c fmt (CUpdateStateEventful e wid to) db = snd (UpdateStateEventful e wid to db)"
| "exec_store c fmt (CAppendAttemptEventful e wid a) db = snd (AppendAttemptEventful e wid a db)"
| "exec_store c fmt (CAppendEvidenceEventful e wid ev) db = snd (AppendEvidenceEventful e wid ev db)"
| "exec_store c fmt (CAppendArtifactEventful e wid a) db = snd (AppendArtifactEventful e wid a db)"
| "exec_store c fmt (CGrantLease e wid nid worker ttl) db = snd (GrantLease e wid nid worker ttl db)"
| "exec_store c fmt (CGrantPlacementLease e wid nid worker ttl) db = snd (GrantPlacementLease e wid nid worker ttl db)"
| "exec_store c fmt (CRenewLease e lid ttl) db = snd (RenewLease e lid ttl db)"
| "exec_store c fmt (CCompleteLease e lid code art evs) db = snd (CompleteLease (sha c) fmt e lid code art evs db)"
| "exec_store c fmt (CReleaseLease e lid reason) db = snd (ReleaseLease e lid reason db)"
| "exec_store c fmt (CRevokeLease e lid reason) db = snd (RevokeLease e lid reason db)"
| "exec_store c fmt (CMarkAttemptCancelled e aid reason) db = MarkAttemptCancelled e aid reason db"
| "exec_store c fmt (CGrantLeaseEventful e wid nid worker ttl) db = snd (GrantLeaseEventful e wid nid worker ttl db)"
| "exec_store c fmt (CRenewLeaseEventful e lid ttl) db = snd (RenewLeaseEventful (time_text c) e lid ttl db)"
| "exec_store c fmt (CReleaseLeaseEventful e lid reason) db = snd (ReleaseLeaseEventful e lid reason db)"
| "exec_store c fmt (CRevokeLeaseEventful e lid reason) db = snd (RevokeLeaseEventful e lid reason db)"
| "exec_store c fmt (CCompleteLeaseEventful e lid code art evs) db = snd (CompleteLeaseEventful (sha c) fmt e lid code art evs db)"
| "exec_store c fmt (CReap e limit) db = snd (reapOnce e limit db)"
| "exec_store c fmt (CSuspendWork e wid to ho) db = snd (SuspendWork c e wid to ho db)"
| "exec_store c fmt (CSuspendWorkEventful e wid to ho) db = snd (SuspendWorkEventful c e wid to ho db)"
| "exec_store c fmt (CResume e wid) db = snd (ResumeFromCheckpoint c e wid db)"
| "exec_store c fmt (CResumeEventful e wid) db = snd (ResumeFromCheckpointEventful c e wid db)"
| "exec_store c fmt (CResumeReconciled e wid hash cur) db = snd (ResumeFromCheckpointReconciled c e wid hash cur db)"
| "exec_store c fmt (CSuspendMissions e dev wids) db = snd (suspend_missions c e 0 dev wids db)"

lemma AppendWorkEvent_advances: "advances R db (snd (AppendWorkEvent e ev db))"
  unfolding advances_def
  by (simp add: store_ok_AppendWorkEvent evolves_same_works leases_advance_same journal_grows_AppendWorkEvent)

lemma work_wrappers_advance:
  "advances CanTransition db (snd (CreateWorkEventful e w db))"
  "advances CanTransition db (snd (AppendAttemptEventful e wid a db))"
  "advances CanTransition db (snd (AppendEvidenceEventful e wid ev db))"
  "advances CanTransition db (snd (AppendArtifactEventful e wid art db))"
  by (simp_all add: CreateWorkEventful_def AppendAttemptEventful_def AppendEvidenceEventful_def AppendArtifactEventful_def
      advances_then_journal work_ops_advance)

lemmas table_ops_advance = work_ops_advance AppendWorkEvent_advances work_wrappers_advance lease_wrappers_advance
  GrantLease_advances GrantPlacementLease_advances RenewLease_advances CompleteLease_advances ReleaseLease_advances
  RevokeLease_advances MarkAttemptCancelled_advances reapOnce_advances
  SuspendWork_advances SuspendWorkEventful_advances resume_advances

lemma exec_store_advances: "advances store_moves db (exec_store c fmt a db)"
  by (cases a) (simp_all add: table_ops_advance [THEN advances_mono, OF table_moves] suspend_missions_advances)

lemma run_advances: "advances store_moves db (fold (exec_store c fmt) cs db)"
  by (induction cs arbitrary: db) (auto intro: advances_trans [OF exec_store_advances])

interpretation store_ops: invariant_ops "exec_store c fmt" store_ok for c fmt
  by unfold_locales (use exec_store_advances in \<open>auto simp: advances_def\<close>)

lemma run_from_empty: "store_ok (fold (exec_store c fmt) cs empty_db)"
  by (rule store_ops.inv_run [OF empty_db_ok])

text \<open>A Work in a terminal state keeps it.\<close>

lemma terminal_work_kept:
  assumes "evolves store_moves db db'" "get_row wid db = Some w" "IsTerminal (work_State w)"
  shows "\<exists>w'. get_row wid db' = Some w' \<and> work_State w' = work_State w \<and> work_frame w' = work_frame w"
  using assms store_law.terminal_absorbing unfolding evolves_def by metis

end
