(* ===== verification/Governed_Resume.thy ===== *)
theory Governed_Resume
  imports Store_Runs
begin

text \<open>
  The governed resume route \<^verbatim>\<open>POST /v1/works/{id}/resume\<close> (\<^verbatim>\<open>services/api/work_resume.go\<close>) over the checkpoints and the receipt table of the
  store. A request is its bridge header, its path value and its decoded body (\<open>None\<close> for text that does not decode); the state of the route is the database and the
  table of receipts. The world observer is an interface without an implementation in the repository, so it is a parameter: \<open>None\<close> when it is not wired, and a
  function that fails or returns a snapshot otherwise. The bearer check wrapped around the route is not part of the handler.
  A request is one step: what another request does between the check of the approved hash and the resumption is not modelled.
\<close>

section \<open>The handler\<close>

definition minBridgeSecretLen :: nat where "minBridgeSecretLen = 32"

definition BridgeSecretConfigured :: "string \<Rightarrow> bool" where
  "BridgeSecretConfigured secret \<longleftrightarrow> length secret \<ge> minBridgeSecretLen"

record resumeBody =
  rb_ApprovalReceiptID :: string
  rb_PrincipalID :: string
  rb_TenantID :: string
  rb_CheckpointHash :: string
  rb_IdempotencyKey :: string

record resume_request =
  rq_Bridge :: string
  rq_WorkID :: string
  rq_Body :: "resumeBody option"

type_synonym world_observer = "string \<Rightarrow> Checkpoint \<Rightarrow> (unit + Snapshot option)"

record resumeHandler =
  observer :: "world_observer option"
  secret :: string

datatype resume_reply =
    ResumeError nat string
  | Replayed string string string
  | Resumed string string

text \<open>The fields an idempotency key is bound to; \<^verbatim>\<open>json.Marshal\<close>'s error is dropped, which leaves the empty text.\<close>

definition canonicalPayload :: "codec \<Rightarrow> resumeBody \<Rightarrow> string" where
  "canonicalPayload c b =
     (case render c (JObj [(''approval_receipt_id'', JStr (rb_ApprovalReceiptID b)), (''principal_id'', JStr (rb_PrincipalID b)),
         (''tenant_id'', JStr (rb_TenantID b)), (''checkpoint_hash'', JStr (rb_CheckpointHash b))])
      of None \<Rightarrow> [] | Some raw \<Rightarrow> raw)"

definition payload_hash :: "codec \<Rightarrow> resumeBody \<Rightarrow> string" where
  "payload_hash c b = sha c (canonicalPayload c b)"

definition body_complete :: "resumeBody \<Rightarrow> bool" where
  "body_complete b \<longleftrightarrow> rb_ApprovalReceiptID b \<noteq> [] \<and> rb_PrincipalID b \<noteq> [] \<and> rb_TenantID b \<noteq> []
     \<and> rb_CheckpointHash b \<noteq> [] \<and> rb_IdempotencyKey b \<noteq> []"

text \<open>The refusals that do not look at the store.\<close>

definition admit_request :: "resumeHandler \<Rightarrow> resume_request \<Rightarrow> resume_reply + resumeBody" where
  "admit_request h q =
     (if \<not> BridgeSecretConfigured (secret h) then Inl (ResumeError 503 ''bridge_unavailable'')
      else if rq_Bridge q = [] \<or> rq_Bridge q \<noteq> secret h then Inl (ResumeError 401 ''bridge_unauthorized'')
      else if rq_WorkID q = [] then Inl (ResumeError 404 ''not_found'')
      else case rq_Body q of None \<Rightarrow> Inl (ResumeError 400 ''invalid_json'')
      | Some b \<Rightarrow> if body_complete b then Inr b else Inl (ResumeError 400 ''validation_failed''))"

fun resume_failure :: "store_error \<Rightarrow> resume_reply" where
  "resume_failure ErrNotFound = ResumeError 404 ''not_found''"
| "resume_failure ErrReconciliationRequired = ResumeError 409 ''resume_reconciliation_required''"
| "resume_failure ErrInvalidReconciliationCheckpoint = ResumeError 409 ''resume_reconciliation_invalid''"
| "resume_failure _ = ResumeError 409 ''resume_conflict''"

text \<open>The binding to the persisted checkpoint, before anything is written.\<close>

definition bind_checkpoint :: "codec \<Rightarrow> string \<Rightarrow> resumeBody \<Rightarrow> db \<Rightarrow> resume_reply + Checkpoint option" where
  "bind_checkpoint c wid b db =
     (case GetWork wid db of
        Inl ErrNotFound \<Rightarrow> Inl (ResumeError 404 ''not_found'')
      | Inl _ \<Rightarrow> Inl (ResumeError 500 ''internal_error'')
      | Inr w \<Rightarrow>
        if work_State w \<noteq> StateWaitingHuman \<and> work_State w \<noteq> StateSuspended then Inl (ResumeError 409 ''invalid_state'')
        else case LatestHandoffRecord c wid db of
          Inl ErrNoHandoff \<Rightarrow> Inl (ResumeError 409 ''no_checkpoint'')
        | Inl _ \<Rightarrow> Inl (ResumeError 500 ''internal_error'')
        | Inr rec \<Rightarrow>
          if hr_PayloadHash rec \<noteq> rb_CheckpointHash b then Inl (ResumeError 409 ''checkpoint_mismatch'')
          else case CheckpointFromStateSnapshot c (StateSnapshot (hr_Handoff rec)) of
            Inl _ \<Rightarrow> Inl (ResumeError 409 ''resume_reconciliation_invalid'')
          | Inr cp \<Rightarrow> Inr cp)"

text \<open>The transition: reconciled against a fresh observation when the checkpoint carries verified state.\<close>

definition resume_bound ::
  "resumeHandler \<Rightarrow> codec \<Rightarrow> env \<Rightarrow> string \<Rightarrow> resumeBody \<Rightarrow> Checkpoint option \<Rightarrow> db \<Rightarrow> (resume_reply + Work) \<times> db" where
  "resume_bound h c e wid b cpo db =
     (case cpo of
        None \<Rightarrow> (case ResumeFromCheckpoint c e wid db of
            (Inl x, db') \<Rightarrow> (Inl (resume_failure x), db') | (Inr (w, _), db') \<Rightarrow> (Inr w, db'))
      | Some cp \<Rightarrow> (case observer h of None \<Rightarrow> (Inl (ResumeError 503 ''resume_reconciliation_unavailable''), db)
          | Some observe \<Rightarrow> (case observe wid cp of Inl _ \<Rightarrow> (Inl (ResumeError 503 ''resume_observation_failed''), db)
            | Inr current \<Rightarrow> (case ResumeFromCheckpointReconciled c e wid (rb_CheckpointHash b) current db of
                ((Inl x, _), db') \<Rightarrow> (Inl (resume_failure x), db') | ((Inr (w, _), _), db') \<Rightarrow> (Inr w, db')))))"

definition receipt_of :: "codec \<Rightarrow> string \<Rightarrow> resumeBody \<Rightarrow> Work \<Rightarrow> ResumeReceipt" where
  "receipt_of c wid b w = \<lparr>rr_WorkID = wid, rr_IdempotencyKey = rb_IdempotencyKey b, rr_PayloadHash = payload_hash c b,
     ApprovalReceiptID = rb_ApprovalReceiptID b, rr_PrincipalID = rb_PrincipalID b, rr_TenantID = rb_TenantID b,
     ResultingState = state_text (work_State w), rr_CreatedAt = 0\<rparr>"

definition ServeHTTP ::
  "resumeHandler \<Rightarrow> codec \<Rightarrow> env \<Rightarrow> resume_request \<Rightarrow> db \<Rightarrow> ResumeReceipt list \<Rightarrow> resume_reply \<times> db \<times> ResumeReceipt list" where
  "ServeHTTP h c e q db t = (case admit_request h q of Inl x \<Rightarrow> (x, db, t)
     | Inr b \<Rightarrow> (case LookupResumeReceipt (rb_IdempotencyKey b) t of
         Some r \<Rightarrow> (if rr_PayloadHash r = payload_hash c b
             then (Replayed (rr_WorkID r) (ResultingState r) (ApprovalReceiptID r), db, t)
             else (ResumeError 409 ''idempotency_conflict'', db, t))
       | None \<Rightarrow> (case bind_checkpoint c (rq_WorkID q) b db of Inl x \<Rightarrow> (x, db, t)
         | Inr cpo \<Rightarrow> (case resume_bound h c (call 0 e) (rq_WorkID q) b cpo db of
             (Inl x, db') \<Rightarrow> (x, db', t)
           | (Inr w, db') \<Rightarrow> (case RecordResumeReceipt (call 1 e) (receipt_of c (rq_WorkID q) b w) db' t of
               (Inl _, t') \<Rightarrow> (ResumeError 500 ''internal_error'', db', t')
             | (Inr _, t') \<Rightarrow> (Resumed (rq_WorkID q) (state_text (work_State w)), db', t'))))))"

section \<open>What a successful request did\<close>

lemma admit_request_Inr:
  "admit_request h q = Inr b \<longleftrightarrow> length (secret h) \<ge> 32 \<and> rq_Bridge q = secret h \<and> rq_WorkID q \<noteq> []
     \<and> rq_Body q = Some b \<and> body_complete b"
  by (auto simp: admit_request_def BridgeSecretConfigured_def minBridgeSecretLen_def split: option.splits)

fun is_resumed :: "resume_reply \<Rightarrow> bool" where
  "is_resumed (Resumed _ _) = True"
| "is_resumed _ = False"

lemma refusals:
  "admit_request h q = Inl x \<Longrightarrow> \<not> is_resumed x"
  "bind_checkpoint c wid b db = Inl x \<Longrightarrow> \<not> is_resumed x"
  "resume_bound h c e wid b cpo db = (Inl x, db') \<Longrightarrow> \<not> is_resumed x"
proof -
  have f: "\<not> is_resumed (resume_failure y)" for y by (cases y) simp_all
  show "admit_request h q = Inl x \<Longrightarrow> \<not> is_resumed x"
    by (auto simp: admit_request_def split: if_splits option.splits)
  show "bind_checkpoint c wid b db = Inl x \<Longrightarrow> \<not> is_resumed x"
    by (auto simp: bind_checkpoint_def split: sum.splits if_splits store_error.splits)
  show "resume_bound h c e wid b cpo db = (Inl x, db') \<Longrightarrow> \<not> is_resumed x"
    by (auto simp: resume_bound_def f split: option.splits sum.splits prod.splits)
qed

lemma bind_checkpoint_Inr:
  assumes "bind_checkpoint c wid b db = Inr cpo"
  obtains w r hand where "get_row wid db = Some w" "work_State w \<in> {StateWaitingHuman, StateSuspended}"
    "latest_row wid db = Some r" "open_handoff c r = Inr hand" "ho_PayloadHash r = rb_CheckpointHash b"
    "CheckpointFromStateSnapshot c (StateSnapshot hand) = Inr cpo"
  using assms
  by (auto simp: bind_checkpoint_def GetWork_def LatestHandoffRecord_def
      split: option.splits sum.splits if_splits store_error.splits)

lemma reconciled_success:
  assumes "ResumeFromCheckpointReconciled c e wid hash current db = ((Inr (w', hand), res), db')"
    and "LatestHandoffRecord c wid db = Inr rec" "CheckpointFromStateSnapshot c (StateSnapshot (hr_Handoff rec)) = Inr (Some cp)"
  shows "resumeFromCheckpoint c e wid True hash db = (Inr (w', hand), db')
    \<and> (\<exists>result. CheckpointReconcile cp current = Inr result \<and> Impacted result = [])"
  using assms by (auto simp: ResumeFromCheckpointReconciled_def split: if_splits sum.splits prod.splits)

lemma resume_bound_success:
  assumes "resume_bound h c e wid b cpo db = (Inr w', db')" and "bind_checkpoint c wid b db = Inr cpo"
  obtains hand again expected where "resumeFromCheckpoint c e wid again expected db = (Inr (w', hand), db')"
    "cpo = None \<or> (\<exists>cp observe current result. cpo = Some cp \<and> observer h = Some observe \<and> observe wid cp = Inr current
       \<and> CheckpointReconcile cp current = Inr result \<and> Impacted result = [])"
proof (cases cpo)
  case None
  then obtain hand where "ResumeFromCheckpoint c e wid db = (Inr (w', hand), db')"
    using assms(1) by (auto simp: resume_bound_def split: prod.splits sum.splits)
  then show thesis using that None unfolding ResumeFromCheckpoint_def by blast
next
  case (Some cp)
  then obtain observe current hand res where o: "observer h = Some observe" "observe wid cp = Inr current"
    and r: "ResumeFromCheckpointReconciled c e wid (rb_CheckpointHash b) current db = ((Inr (w', hand), res), db')"
    using assms(1) by (auto simp: resume_bound_def split: option.splits prod.splits sum.splits)
  obtain rec where "LatestHandoffRecord c wid db = Inr rec" "CheckpointFromStateSnapshot c (StateSnapshot (hr_Handoff rec)) = Inr (Some cp)"
    using assms(2) Some by (auto simp: bind_checkpoint_def split: sum.splits if_splits store_error.splits)
  from reconciled_success [OF r this] show thesis using that Some o by blast
qed

lemma then_journal_Inr:
  assumes "then_journal e d r = (Inr a, db')"
  shows "fst r = Inr a \<and> works db' = works (snd r)"
proof -
  have "works db' = works (snd r)" using then_journal_frame(1) [of e d r] assms by simp
  then show ?thesis using assms by (auto simp: then_journal_def split: prod.splits sum.splits)
qed

lemma UpdateStateEventful_state:
  assumes "UpdateStateEventful e wid to db = (Inr w', db')"
  shows "work_State w' = to \<and> (\<exists>w. get_row wid db' = Some w \<and> work_State w = to)"
proof -
  have u: "work_State w1 = to \<and> (\<exists>w. get_row wid db1 = Some w \<and> work_State w = to)"
    if "UpdateState e1 wid to db = (Inr w1, db1)" for e1 w1 db1
    using that get_row_in [of wid db]
    by (auto simp: UpdateState_def GetWork_def get_row_set_state Let_def get_row_cong [of "auditEmit ev d" d for ev d]
        split: option.splits if_splits)
  obtain prev where "GetWork wid db = Inr prev" using assms by (auto simp: UpdateStateEventful_def split: sum.splits)
  then have t: "then_journal (call 1 e)
      (\<lambda>_. (wid, EventWorkStateChanged,
        [(''from'', JStr (state_text (work_State prev))), (''state'', JStr (state_text to)), (''work_id'', JStr wid)]))
      (UpdateState (call 0 e) wid to db) = (Inr w', db')"
    using assms by (simp add: UpdateStateEventful_def)
  have "fst (UpdateState (call 0 e) wid to db) = Inr w'" "works db' = works (snd (UpdateState (call 0 e) wid to db))"
    using then_journal_Inr [OF t] by simp_all
  then show ?thesis using u get_row_cong [of db' _ wid] by (metis prod.collapse)
qed

lemma resumed_details:
  assumes "ServeHTTP h c e q db t = (Resumed wid st, db1, t1)"
  obtains b rec where "admit_request h q = Inr b" "rq_Body q = Some b"
    "LookupResumeReceipt (rb_IdempotencyKey b) t1 = Some rec" "rr_WorkID rec = wid" "ResultingState rec = st"
    "rr_PayloadHash rec = payload_hash c b" "ApprovalReceiptID rec = rb_ApprovalReceiptID b"
proof -
  obtain b w1 where a: "admit_request h q = Inr b" and l: "LookupResumeReceipt (rb_IdempotencyKey b) t = None"
    and st: "st = state_text (work_State w1)"
    and rec: "RecordResumeReceipt (call 1 e) (receipt_of c wid b w1) db1 t = (Inr (), t1)"
    using assms by (auto simp: ServeHTTP_def dest: refusals split: sum.splits option.splits prod.splits if_splits)
  have t1: "t1 = insert_ignore rr_IdempotencyKey ((receipt_of c wid b w1)\<lparr>rr_CreatedAt := Now (call 1 e) 0\<rparr>) t"
    using rec by (auto simp: RecordResumeReceipt_def split: if_splits)
  have "LookupResumeReceipt (rb_IdempotencyKey b) t1 = Some ((receipt_of c wid b w1)\<lparr>rr_CreatedAt := Now (call 1 e) 0\<rparr>)"
    using l unfolding t1 by (simp add: LookupResumeReceipt_def sql_table.look_ins receipt_of_def)
  then show thesis using a st by (intro that) (auto simp: admit_request_Inr receipt_of_def)
qed

definition request_key :: "resume_request \<Rightarrow> string option" where
  "request_key q = map_option rb_IdempotencyKey (rq_Body q)"

lemma resumed_receipt:
  "ServeHTTP h c e q db t = (Resumed wid st, db1, t1) \<Longrightarrow> request_key q = Some k \<Longrightarrow> LookupResumeReceipt k t1 \<noteq> None"
  by (erule resumed_details) (auto simp: request_key_def)

text \<open>C17. Every resume goes through the bridge and the exact checkpoint: a request that is answered as resumed carried the configured secret, which has at least 32 bytes, and
  complete fields; its idempotency key had not been used; the Work was a suspended or waiting mission whose latest checkpoint is intact, was taken for
  the Work's state and has exactly the hash that was approved; where the checkpoint carries verified state, a fresh observation of the world was reconciled without
  impact. Afterwards the Work is RUNNING and the key is bound to this Work and payload.\<close>

theorem governed_resume_is_bound:
  assumes "ServeHTTP h c e q db t = (Resumed wid st, db', t')"
  shows "\<exists>b w r hand. rq_Body q = Some b \<and> body_complete b \<and> length (secret h) \<ge> 32 \<and> rq_Bridge q = secret h
    \<and> rq_WorkID q = wid \<and> st = ''RUNNING'' \<and> LookupResumeReceipt (rb_IdempotencyKey b) t = None
    \<and> get_row wid db = Some w \<and> IsMission w \<and> work_State w \<in> {StateSuspended, StateWaitingHuman}
    \<and> latest_row wid db = Some r \<and> ho_ToState r = work_State w \<and> sha c (ho_Payload r) = rb_CheckpointHash b
    \<and> open_handoff c r = Inr hand
    \<and> (CheckpointFromStateSnapshot c (StateSnapshot hand) = Inr None
       \<or> (\<exists>cp observe current result. CheckpointFromStateSnapshot c (StateSnapshot hand) = Inr (Some cp) \<and> observer h = Some observe
            \<and> observe wid cp = Inr current \<and> CheckpointReconcile cp current = Inr result \<and> Impacted result = []))
    \<and> (\<exists>w'. get_row wid db' = Some w' \<and> work_State w' = StateRunning)
    \<and> (\<exists>rec. LookupResumeReceipt (rb_IdempotencyKey b) t' = Some rec \<and> rr_WorkID rec = wid \<and> rr_PayloadHash rec = payload_hash c b)"
proof -
  obtain b cpo w1 where a: "admit_request h q = Inr b" and l: "LookupResumeReceipt (rb_IdempotencyKey b) t = None"
    and bind: "bind_checkpoint c wid b db = Inr cpo" and wid: "rq_WorkID q = wid"
    and res: "resume_bound h c (call 0 e) wid b cpo db = (Inr w1, db')" and st: "st = state_text (work_State w1)"
    and rec: "RecordResumeReceipt (call 1 e) (receipt_of c wid b w1) db' t = (Inr (), t')"
    using assms by (auto simp: ServeHTTP_def dest: refusals split: sum.splits option.splits prod.splits if_splits)
  obtain w r hand where row: "get_row wid db = Some w" and s: "work_State w \<in> {StateWaitingHuman, StateSuspended}"
    and r: "latest_row wid db = Some r" "open_handoff c r = Inr hand" "ho_PayloadHash r = rb_CheckpointHash b"
    and cp: "CheckpointFromStateSnapshot c (StateSnapshot hand) = Inr cpo"
    by (rule bind_checkpoint_Inr [OF bind])
  obtain hand' again expected where run: "resumeFromCheckpoint c (call 0 e) wid again expected db = (Inr (w1, hand'), db')"
    and obs: "cpo = None \<or> (\<exists>cp observe current result. cpo = Some cp \<and> observer h = Some observe \<and> observe wid cp = Inr current
       \<and> CheckpointReconcile cp current = Inr result \<and> Impacted result = [])"
    by (rule resume_bound_success [OF res bind])
  obtain w0 r0 where 0: "get_row wid db = Some w0" "IsMission w0" "latest_row wid db = Some r0" "ho_ToState r0 = work_State w0"
    "UpdateStateEventful (call 0 (call 0 e)) wid StateRunning db = (Inr w1, db')"
    by (rule resumeFromCheckpoint_success [OF run]) blast
  have m: "IsMission w" "ho_ToState r = work_State w" using 0 row r(1) by simp_all
  have running: "work_State w1 = StateRunning" "\<exists>w'. get_row wid db' = Some w' \<and> work_State w' = StateRunning"
    using UpdateStateEventful_state [OF 0(5)] by simp_all
  have hash: "sha c (ho_Payload r) = rb_CheckpointHash b"
    using r(2,3) by (auto simp: open_handoff_def handoffHash_def split: if_splits)
  have stored: "\<exists>rec. LookupResumeReceipt (rb_IdempotencyKey b) t' = Some rec \<and> rr_WorkID rec = wid \<and> rr_PayloadHash rec = payload_hash c b"
    using rec l by (auto simp: RecordResumeReceipt_def receipt_of_def LookupResumeReceipt_def sql_table.look_ins split: if_splits)
  have "st = ''RUNNING''" by (simp add: st running)
  then show ?thesis
    using a l wid row s r cp obs m hash running(2) stored unfolding admit_request_Inr by blast
qed

section \<open>Requests and store calls in any order\<close>

text \<open>Before each request anything else may happen on the store.\<close>

fun serve_all ::
  "resumeHandler \<Rightarrow> codec \<Rightarrow> (time \<Rightarrow> string) \<Rightarrow> (store_call list \<times> env \<times> resume_request) list \<Rightarrow> db \<Rightarrow> ResumeReceipt list
     \<Rightarrow> resume_reply list \<times> db \<times> ResumeReceipt list" where
  "serve_all h c fmt [] db t = ([], db, t)"
| "serve_all h c fmt ((calls, e, q) # qs) db t =
     (case ServeHTTP h c e q (fold (exec_store c fmt) calls db) t of (x, db1, t1) \<Rightarrow>
        (case serve_all h c fmt qs db1 t1 of (xs, db2, t2) \<Rightarrow> (x # xs, db2, t2)))"

lemma receipts_kept:
  assumes "ServeHTTP h c e q db t = (x, db', t')" "LookupResumeReceipt k t = Some r"
  shows "LookupResumeReceipt k t' = Some r"
proof -
  have ins: "LookupResumeReceipt k (snd (RecordResumeReceipt e' rec db'' t)) = Some r" for e' rec db''
    using assms(2) by (simp add: RecordResumeReceipt_def LookupResumeReceipt_def sql_table.look_ins)
  then have ins': "LookupResumeReceipt k t'' = Some r" if "RecordResumeReceipt e' rec db'' t = (y, t'')" for e' rec db'' y t''
    using that by (metis snd_conv)
  show ?thesis using assms ins'
    by (auto simp: ServeHTTP_def split: sum.splits option.splits prod.splits if_splits)
qed

lemma receipt_blocks:
  assumes "LookupResumeReceipt k t = Some r" "request_key q = Some k"
  shows "\<exists>x. ServeHTTP h c e q db t = (x, db, t) \<and> \<not> is_resumed x"
proof (cases "admit_request h q")
  case (Inl x)
  then show ?thesis using refusals(1) by (simp add: ServeHTTP_def)
next
  case (Inr b)
  then have "rb_IdempotencyKey b = k" using assms(2) by (simp add: admit_request_Inr request_key_def)
  then show ?thesis using Inr assms(1) by (simp add: ServeHTTP_def)
qed

lemma serve_all_keeps:
  "serve_all h c fmt qs db t = (xs, db', t') \<Longrightarrow> LookupResumeReceipt k t = Some r \<Longrightarrow> LookupResumeReceipt k t' = Some r"
proof (induction qs arbitrary: db t xs db' t')
  case (Cons item qs)
  obtain calls e q where i: "item = (calls, e, q)" by (cases item)
  obtain x db1 t1 where s: "ServeHTTP h c e q (fold (exec_store c fmt) calls db) t = (x, db1, t1)" by (metis surj_pair)
  obtain ys db2 t2 where r: "serve_all h c fmt qs db1 t1 = (ys, db2, t2)" by (metis surj_pair)
  have "t2 = t'" using Cons.prems(1) by (simp add: i s r)
  then show ?case using Cons.IH [OF r receipts_kept [OF s Cons.prems(2)]] by simp
qed simp

text \<open>How often a key was answered as resumed.\<close>

definition resumes_of :: "string \<Rightarrow> (store_call list \<times> env \<times> resume_request) list \<Rightarrow> resume_reply list \<Rightarrow> nat" where
  "resumes_of k qs xs = length (filter (\<lambda>((calls, e, q), x). request_key q = Some k \<and> is_resumed x) (zip qs xs))"

lemma resumes_of_used:
  "serve_all h c fmt qs db t = (xs, db', t') \<Longrightarrow> LookupResumeReceipt k t = Some r \<Longrightarrow> resumes_of k qs xs = 0"
proof (induction qs arbitrary: db t xs db' t')
  case Nil
  then show ?case by (simp add: resumes_of_def)
next
  case (Cons item qs)
  obtain calls e q where i: "item = (calls, e, q)" by (cases item)
  obtain x db1 t1 where s: "ServeHTTP h c e q (fold (exec_store c fmt) calls db) t = (x, db1, t1)" by (metis surj_pair)
  obtain ys db2 t2 where r: "serve_all h c fmt qs db1 t1 = (ys, db2, t2)" by (metis surj_pair)
  have xs: "xs = x # ys" using Cons.prems(1) by (simp add: i s r)
  have "\<not> (request_key q = Some k \<and> is_resumed x)"
    using receipt_blocks [OF Cons.prems(2), of q h c e "fold (exec_store c fmt) calls db"] s by auto
  moreover have "resumes_of k qs ys = 0" by (rule Cons.IH [OF r receipts_kept [OF s Cons.prems(2)]])
  ultimately show ?case by (auto simp: resumes_of_def xs i)
qed

text \<open>C18. At most one resume per idempotency key: in every sequence of requests, with arbitrary other calls on the store in between, a key is answered as resumed at most
  once, and never when a receipt for it was there before.\<close>

theorem resumed_once_per_key:
  assumes "serve_all h c fmt qs db t = (xs, db', t')"
  shows "resumes_of k qs xs \<le> (if LookupResumeReceipt k t = None then 1 else 0)"
  using assms
proof (induction qs arbitrary: db t xs)
  case Nil
  then show ?case by (simp add: resumes_of_def)
next
  case (Cons item qs)
  obtain calls e q where i: "item = (calls, e, q)" by (cases item)
  obtain x db1 t1 where s: "ServeHTTP h c e q (fold (exec_store c fmt) calls db) t = (x, db1, t1)" by (metis surj_pair)
  obtain ys db2 t2 where r: "serve_all h c fmt qs db1 t1 = (ys, db2, t2)" by (metis surj_pair)
  have xs: "xs = x # ys" and end': "db2 = db'" "t2 = t'" using Cons.prems by (simp_all add: i s r)
  have IH: "resumes_of k qs ys \<le> (if LookupResumeReceipt k t1 = None then 1 else 0)"
    using Cons.IH r end' by simp
  show ?case
  proof (cases "LookupResumeReceipt k t")
    case (Some rec)
    then show ?thesis using resumes_of_used [OF Cons.prems Some] by simp
  next
    case None
    show ?thesis
    proof (cases "request_key q = Some k \<and> is_resumed x")
      case True
      then obtain wid st where x: "x = Resumed wid st" by (cases x) simp_all
      have "LookupResumeReceipt k t1 \<noteq> None" using resumed_receipt s True unfolding x by blast
      then show ?thesis using None IH by (simp add: resumes_of_def xs i split: if_splits)
    next
      case False
      then show ?thesis using None IH by (auto simp: resumes_of_def xs i split: if_splits)
    qed
  qed
qed

text \<open>A retry is answered from the receipt: after a successful resume, and whatever requests and store calls follow, the same request is answered with the same Work, state and
  approval, and leaves the database and the receipts as they are.\<close>

theorem resume_retry_replays:
  assumes "ServeHTTP h c e q db t = (Resumed wid st, db1, t1)" and "serve_all h c fmt qs db1 t1 = (xs, db2, t2)"
  shows "ServeHTTP h c e' q db2 t2 = (Replayed wid st (rb_ApprovalReceiptID (the (rq_Body q))), db2, t2)"
proof -
  obtain b rec where b: "admit_request h q = Inr b" "rq_Body q = Some b"
    and rec: "LookupResumeReceipt (rb_IdempotencyKey b) t1 = Some rec" "rr_WorkID rec = wid" "ResultingState rec = st"
      "rr_PayloadHash rec = payload_hash c b" "ApprovalReceiptID rec = rb_ApprovalReceiptID b"
    by (rule resumed_details [OF assms(1)])
  have "LookupResumeReceipt (rb_IdempotencyKey b) t2 = Some rec" by (rule serve_all_keeps [OF assms(2) rec(1)])
  then show ?thesis using b rec by (simp add: ServeHTTP_def)
qed

text \<open>The receipt binds the key to the approval, not to the Work of the path: the same body sent for another Work is answered with the first Work, and that other Work stays suspended.\<close>

theorem retry_for_other_work_replays_first:
  assumes "ServeHTTP h c e q db t = (Resumed wid st, db1, t1)" and "other \<noteq> []"
  shows "ServeHTTP h c e' (q\<lparr>rq_WorkID := other\<rparr>) db1 t1 = (Replayed wid st (rb_ApprovalReceiptID (the (rq_Body q))), db1, t1)"
proof -
  obtain b rec where b: "admit_request h q = Inr b" "rq_Body q = Some b"
    and rec: "LookupResumeReceipt (rb_IdempotencyKey b) t1 = Some rec" "rr_WorkID rec = wid" "ResultingState rec = st"
      "rr_PayloadHash rec = payload_hash c b" "ApprovalReceiptID rec = rb_ApprovalReceiptID b"
    by (rule resumed_details [OF assms(1)])
  have "admit_request h (q\<lparr>rq_WorkID := other\<rparr>) = Inr b" using b(1) assms(2) by (simp add: admit_request_Inr)
  then show ?thesis using b rec by (simp add: ServeHTTP_def)
qed

section \<open>Requests that are served\<close>

lemma governed_resume_succeeds:
  assumes "admit_request h q = Inr b" "LookupResumeReceipt (rb_IdempotencyKey b) t = None" and wid: "rq_WorkID q = wid"
    and "get_row wid db = Some w" "IsMission w" "work_State w \<in> {StateSuspended, StateWaitingHuman}"
    and "latest_row wid db = Some r" "ho_ToState r = work_State w" "open_handoff c r = Inr hand" "ho_PayloadHash r = rb_CheckpointHash b"
    and "CheckpointFromStateSnapshot c (StateSnapshot hand) = Inr None"
  shows "\<exists>db' t'. ServeHTTP h c e q db t = (Resumed wid ''RUNNING'', db', t')"
proof -
  have ne: "wid \<noteq> []" using assms(1) wid by (simp add: admit_request_Inr)
  obtain w' db' where run: "resumeFromCheckpoint c (call 0 e) wid False [] db = (Inr (w', hand), db')" and s: "work_State w' = StateRunning"
    using resume_succeeds [OF assms(4-6) ne assms(7-9,11)] by blast
  have bind: "bind_checkpoint c wid b db = Inr None"
    using assms(4,6-11) by (auto simp: bind_checkpoint_def GetWork_def LatestHandoffRecord_def)
  have bound: "resume_bound h c (call 0 e) wid b None db = (Inr w', db')"
    by (simp add: resume_bound_def ResumeFromCheckpoint_def run)
  obtain w0 where "UpdateStateEventful (call 0 (call 0 e)) wid StateRunning db = (Inr w', db')"
    by (rule resumeFromCheckpoint_success [OF run]) blast
  then have "get_row wid db' \<noteq> None" using UpdateStateEventful_state by blast
  then obtain t' where "RecordResumeReceipt (call 1 e) (receipt_of c wid b w') db' t = (Inr (), t')"
    by (auto simp: RecordResumeReceipt_def receipt_of_def)
  then show ?thesis using assms(1,2) wid bind bound s by (simp add: ServeHTTP_def)
qed

definition demo_handler :: resumeHandler where
  "demo_handler = \<lparr>observer = None, secret = replicate 32 (CHR ''s'')\<rparr>"

definition demo_resume :: resume_request where
  "demo_resume = \<lparr>rq_Bridge = replicate 32 (CHR ''s''), rq_WorkID = ''w1'', rq_Body = Some \<lparr>rb_ApprovalReceiptID = ''a1'',
     rb_PrincipalID = ''p'', rb_TenantID = ''t'', rb_CheckpointHash = ''h'', rb_IdempotencyKey = ''k1''\<rparr>\<rparr>"

abbreviation plain_codec :: codec where
  "plain_codec \<equiv> two_texts (mission_json []) JNull"

lemma demo_served:
  obtains db' t' where "ServeHTTP demo_handler plain_codec (clock 10) demo_resume (suspended_db plain_codec []) [] = (Resumed ''w1'' ''RUNNING'', db', t')"
proof -
  have a: "admit_request demo_handler demo_resume = Inr (the (rq_Body demo_resume))"
    by (simp add: admit_request_Inr demo_handler_def demo_resume_def body_complete_def)
  have k: "CheckpointFromStateSnapshot plain_codec (StateSnapshot (mission_handoff [])) = Inr None"
    by (simp add: CheckpointFromStateSnapshot_def mission_handoff_def)
  obtain r w where "latest_row ''w1'' (suspended_db plain_codec []) = Some r" "ho_ToState r = StateSuspended" "ho_PayloadHash r = ''h''"
    "open_handoff plain_codec r = Inr (mission_handoff [])"
    "get_row ''w1'' (suspended_db plain_codec []) = Some w" "IsMission w" "work_State w = StateSuspended"
    by (rule mission_suspended)
  then show thesis
    using governed_resume_succeeds [OF a, of "[]" "''w1''" "suspended_db plain_codec []" w r plain_codec "mission_handoff []" "clock 10"] k that
    by (auto simp: LookupResumeReceipt_def demo_resume_def)
qed

theorem governed_resume_is_bound_witness:
  "\<exists>db' t' w'. ServeHTTP demo_handler plain_codec (clock 10) demo_resume (suspended_db plain_codec []) [] = (Resumed ''w1'' ''RUNNING'', db', t')
    \<and> get_row ''w1'' db' = Some w' \<and> work_State w' = StateRunning"
proof -
  obtain db' t' where s: "ServeHTTP demo_handler plain_codec (clock 10) demo_resume (suspended_db plain_codec []) [] = (Resumed ''w1'' ''RUNNING'', db', t')"
    by (rule demo_served)
  show ?thesis using governed_resume_is_bound [OF s] s by blast
qed

theorem resumed_once_per_key_witness:
  "resumes_of ''k1'' [([], clock 10, demo_resume), ([], clock 11, demo_resume)]
     (fst (serve_all demo_handler plain_codec (\<lambda>_. []) [([], clock 10, demo_resume), ([], clock 11, demo_resume)] (suspended_db plain_codec []) [])) \<le> 1"
proof -
  let ?qs = "[([], clock 10, demo_resume), ([], clock 11, demo_resume)]"
  obtain xs db' t' where "serve_all demo_handler plain_codec (\<lambda>_. []) ?qs (suspended_db plain_codec []) [] = (xs, db', t')" by (metis surj_pair)
  then show ?thesis using resumed_once_per_key [of demo_handler plain_codec "\<lambda>_. []" ?qs "suspended_db plain_codec []" "[]" xs db' t' "''k1''"]
    by (simp add: LookupResumeReceipt_def)
qed

theorem resume_retry_replays_witness:
  "\<exists>db' t'. ServeHTTP demo_handler plain_codec (clock 12) demo_resume db' t' = (Replayed ''w1'' ''RUNNING'' ''a1'', db', t')"
proof -
  obtain db' t' where s: "ServeHTTP demo_handler plain_codec (clock 10) demo_resume (suspended_db plain_codec []) [] = (Resumed ''w1'' ''RUNNING'', db', t')"
    by (rule demo_served)
  have e: "serve_all demo_handler plain_codec (\<lambda>_. []) [] db' t' = ([], db', t')" by simp
  show ?thesis using resume_retry_replays [OF s e, of "clock 12"] by (auto simp: demo_resume_def)
qed

end
