(* ===== verification/Lease_Policy.thy ===== *)
theory Lease_Policy
  imports Workgraph
begin

text \<open>
  The lease-grant policy (\<^verbatim>\<open>services/api/policy.go\<close>). The engine is what runs: the rule bundle
  \<^verbatim>\<open>policies/lease_grant.rego\<close> is not read. It is compared with the rules its own comments list.
\<close>

section \<open>The engine\<close>

record RequestContext =
  rc_Action :: string
  rc_WorkID :: string
  rc_NodeID :: string
  rc_WorkerID :: string

record WorkView =
  wv_ID :: string
  wv_Policy :: Policy
  wv_State :: State

record RunnerView =
  vw_RunnerID :: string
  vw_TrustClass :: string
  vw_LifecycleState :: string

record DecisionInput =
  di_Request :: RequestContext
  di_Work :: WorkView
  di_Evidence :: "Evidence list"
  di_Runner :: RunnerView

record Decision =
  Allow :: bool
  DenyReasons :: "string list"
  RequiredTrust :: string

definition ReasonProductionAccessDenied :: string where
  "ReasonProductionAccessDenied = ''production_access_denied''"

fun anyApprovedEvidence :: "Evidence list \<Rightarrow> bool" where
  "anyApprovedEvidence [] = False"
| "anyApprovedEvidence (e # es) = (if Result e = ''pass'' then True else anyApprovedEvidence es)"

definition trustOrder :: "int gomap" where
  "trustOrder = [(''untrusted'', 0), (''standard'', 1), (''privileged'', 2)]"

definition trustMeetsFloor :: "string \<Rightarrow> string \<Rightarrow> bool" where
  "trustMeetsFloor runnerClass floorClass =
     (let rRank = (case map_of trustOrder runnerClass of None \<Rightarrow> -1 | Some r \<Rightarrow> r);
          fRank = (case map_of trustOrder floorClass of None \<Rightarrow> 999 | Some f \<Rightarrow> f)
      in rRank \<ge> fRank)"

definition Evaluate :: "DecisionInput \<Rightarrow> Decision" where
  "Evaluate inp =
     (let policy = wv_Policy (di_Work inp); dec = \<lparr>Allow = False, DenyReasons = [], RequiredTrust = TrustClass policy\<rparr> in
      if \<not> ProductionAccess policy then dec\<lparr>Allow := True\<rparr>
      else let approved = anyApprovedEvidence (di_Evidence inp);
             trustOK = trustMeetsFloor (vw_TrustClass (di_Runner inp)) (TrustClass policy);
             active = (vw_LifecycleState (di_Runner inp) = ''active'');
             reasons = (if \<not> approved then [''missing_approved_evidence'']
               else if \<not> trustOK then [''runner_trust_below_floor'']
               else if \<not> active then [''runner_not_active''] else [])
        in if reasons = [] then dec\<lparr>Allow := True\<rparr>
           else dec\<lparr>DenyReasons := reasons @ [ReasonProductionAccessDenied]\<rparr>)"

text \<open>\<^verbatim>\<open>EvaluateOrError\<close>: the decision and whether it comes with an error.\<close>

definition EvaluateOrError :: "DecisionInput \<Rightarrow> Decision \<times> bool" where
  "EvaluateOrError inp = (let dec = Evaluate inp in (dec, \<not> Allow dec))"

definition firstReason :: "string list \<Rightarrow> string" where
  "firstReason rs = (case rs of [] \<Rightarrow> ReasonProductionAccessDenied | r # _ \<Rightarrow> r)"

definition formatDenyReason :: "string \<Rightarrow> string" where
  "formatDenyReason reason =
     (if reason = ''missing_approved_evidence'' then ''policy_missing_approved_evidence''
      else if reason = ''runner_trust_below_floor'' then ''policy_runner_trust_below_floor''
      else if reason = ''runner_not_active'' then ''policy_runner_not_active''
      else if reason = ReasonProductionAccessDenied then ''policy_production_access_denied''
      else ''policy_denied'')"

section \<open>The rules\<close>

text \<open>The rules as the comment on \<^verbatim>\<open>Evaluate\<close> lists them, without its catch-all reason. A runner meets a floor when its class stands at or above it in the order
  untrusted, standard, privileged; a class outside this order, on either side, never does.\<close>

definition trusted_enough :: "string \<Rightarrow> string \<Rightarrow> bool" where
  "trusted_enough runner fl \<longleftrightarrow>
     fl = ''untrusted'' \<and> runner \<in> {''untrusted'', ''standard'', ''privileged''}
     \<or> fl = ''standard'' \<and> runner \<in> {''standard'', ''privileged''}
     \<or> fl = ''privileged'' \<and> runner = ''privileged''"

definition has_approval :: "DecisionInput \<Rightarrow> bool" where
  "has_approval inp \<longleftrightarrow> (\<exists>e \<in> set (di_Evidence inp). Result e = ''pass'')"

abbreviation wants_production :: "DecisionInput \<Rightarrow> bool" where
  "wants_production inp \<equiv> ProductionAccess (wv_Policy (di_Work inp))"

abbreviation floor_met :: "DecisionInput \<Rightarrow> bool" where
  "floor_met inp \<equiv> trusted_enough (vw_TrustClass (di_Runner inp)) (TrustClass (wv_Policy (di_Work inp)))"

inductive rule_allow :: "DecisionInput \<Rightarrow> bool" where
  unprivileged: "\<not> wants_production inp \<Longrightarrow> rule_allow inp"
| privileged: "wants_production inp \<Longrightarrow> has_approval inp \<Longrightarrow> floor_met inp \<Longrightarrow> vw_LifecycleState (di_Runner inp) = ''active'' \<Longrightarrow> rule_allow inp"

inductive rule_deny :: "DecisionInput \<Rightarrow> string \<Rightarrow> bool" where
  no_evidence: "wants_production inp \<Longrightarrow> \<not> has_approval inp \<Longrightarrow> rule_deny inp ''missing_approved_evidence''"
| low_trust: "wants_production inp \<Longrightarrow> has_approval inp \<Longrightarrow> \<not> floor_met inp \<Longrightarrow> rule_deny inp ''runner_trust_below_floor''"
| inactive: "wants_production inp \<Longrightarrow> has_approval inp \<Longrightarrow> floor_met inp \<Longrightarrow> vw_LifecycleState (di_Runner inp) \<noteq> ''active''
    \<Longrightarrow> rule_deny inp ''runner_not_active''"

inductive_simps rule_allow_iff: "rule_allow inp"
inductive_simps rule_deny_iff: "rule_deny inp reason"

lemma approved_iff: "anyApprovedEvidence es \<longleftrightarrow> (\<exists>e \<in> set es. Result e = ''pass'')"
  by (induction es) auto

lemma meets_floor: "trustMeetsFloor runner fl \<longleftrightarrow> trusted_enough runner fl"
  by (auto simp: trustMeetsFloor_def trustOrder_def trusted_enough_def Let_def)

lemma Allow_iff: "Allow (Evaluate inp) \<longleftrightarrow> rule_allow inp"
  by (auto simp: Evaluate_def Let_def approved_iff has_approval_def meets_floor rule_allow_iff)

lemma DenyReasons_iff: "DenyReasons (Evaluate inp) = [] \<longleftrightarrow> rule_allow inp"
  by (auto simp: Evaluate_def Let_def approved_iff has_approval_def meets_floor rule_allow_iff)

lemma DenyReasons_deny: "rule_deny inp reason \<longleftrightarrow> DenyReasons (Evaluate inp) = [reason, ''production_access_denied'']"
  by (auto simp: Evaluate_def Let_def approved_iff has_approval_def meets_floor rule_deny_iff ReasonProductionAccessDenied_def)


text \<open>At a production Work whose runner is below the floor, and at one without a floor.\<close>

definition demo_decision :: "string \<Rightarrow> string \<Rightarrow> DecisionInput" where
  "demo_decision fl trust = \<lparr>di_Request = \<lparr>rc_Action = ''lease.grant'', rc_WorkID = ''w1'', rc_NodeID = ''n1'', rc_WorkerID = ''r1''\<rparr>,
     di_Work = \<lparr>wv_ID = ''w1'', wv_Policy = \<lparr>ProductionAccess = True, SecretsScope = [], ForkPolicy = [], TrustClass = fl\<rparr>, wv_State = StateQueued\<rparr>,
     di_Evidence = [zero_Evidence\<lparr>Result := ''pass''\<rparr>],
     di_Runner = \<lparr>vw_RunnerID = ''r1'', vw_TrustClass = trust, vw_LifecycleState = ''active''\<rparr>\<rparr>"


end
