(* ===== verification/Runtime_Abi.thy ===== *)
theory Runtime_Abi
  imports Checkpoint_Codec
begin

text \<open>
  The runtime capability advertisement \<^verbatim>\<open>rab/1.0\<close> (\<^verbatim>\<open>packages/abi/abi.go\<close>). The body handed to \<^verbatim>\<open>ParseRAB\<close> is what the JSON decoder makes of the
  bytes: nothing when the first value does not decode, otherwise that value and whether anything but space follows it.
\<close>

section \<open>Advertisements\<close>

definition AbiVersion :: string where "AbiVersion = ''rab/1.0''"

definition CapsAllowed :: "string list" where
  "CapsAllowed = [''screenshot'', ''input'', ''record'', ''observe'', ''control'']"

definition capSet :: "string \<Rightarrow> bool" where
  "capSet cap \<longleftrightarrow> cap \<in> set CapsAllowed"

datatype rab_error = ErrAbiVersion string | ErrCapUnknown string | ErrCapDuplicate string | ErrControlTokenRequired | ErrTrailingTokens
  | ErrJSON

record RAB =
  Abi :: string
  Caps :: "string list"
  ControlTokenRequired :: "bool option"
  Extra :: "json gomap"

text \<open>The loop over the capabilities, with the set of those seen.\<close>

fun check_caps :: "string set \<Rightarrow> string list \<Rightarrow> rab_error + string set" where
  "check_caps seen [] = Inr seen"
| "check_caps seen (cap # caps) = (if \<not> capSet cap then Inl (ErrCapUnknown cap)
     else if cap \<in> seen then Inl (ErrCapDuplicate cap) else check_caps (insert cap seen) caps)"

definition RABValidate :: "RAB \<Rightarrow> rab_error option" where
  "RABValidate r = (if Abi r \<noteq> AbiVersion then Some (ErrAbiVersion (Abi r))
     else case check_caps {} (Caps r) of Inl x \<Rightarrow> Some x
     | Inr seen \<Rightarrow> if ''control'' \<in> seen \<and> ControlTokenRequired r \<noteq> Some True then Some ErrControlTokenRequired else None)"

fun has_cap :: "string list \<Rightarrow> string \<Rightarrow> bool" where
  "has_cap [] cap = False"
| "has_cap (c # cs) cap = (if c = cap then True else has_cap cs cap)"

definition Has :: "RAB \<Rightarrow> string \<Rightarrow> bool" where
  "Has r cap = has_cap (Caps r) cap"

text \<open>The loop of \<^verbatim>\<open>Negotiate\<close>: requested capabilities seen so far, the result and the flag.\<close>

fun negotiate_from :: "RAB \<Rightarrow> string set \<Rightarrow> string list \<Rightarrow> bool \<Rightarrow> string list \<Rightarrow> rab_error + string list \<times> bool" where
  "negotiate_from r seen result token [] = Inr (result, token)"
| "negotiate_from r seen result token (cap # caps) =
     (if \<not> capSet cap then Inl (ErrCapUnknown cap)
      else if cap \<in> seen then Inl (ErrCapUnknown cap)
      else if Has r cap then negotiate_from r (insert cap seen) (result @ [cap]) (if cap = ''control'' then True else token) caps
      else negotiate_from r (insert cap seen) result token caps)"

definition Negotiate :: "RAB \<Rightarrow> string list \<Rightarrow> rab_error + string list \<times> bool" where
  "Negotiate r requested = (if requested = [] then Inr ([], False) else negotiate_from r {} [] False requested)"

definition RequiresControlToken :: "RAB \<Rightarrow> bool" where
  "RequiresControlToken r = (if ControlTokenRequired r = Some True then True else Has r ''control'')"

section \<open>JSON\<close>

definition dec_bool :: "json \<Rightarrow> bool option" where
  "dec_bool j = (case j of JBool b \<Rightarrow> Some b | JNull \<Rightarrow> Some False | _ \<Rightarrow> None)"

text \<open>A known field that is absent keeps its zero value.\<close>

definition known_field :: "json gomap \<Rightarrow> string \<Rightarrow> (json \<Rightarrow> 'a option) \<Rightarrow> 'a \<Rightarrow> 'a option" where
  "known_field raw k d zero = (case map_of raw k of None \<Rightarrow> Some zero | Some v \<Rightarrow> d v)"

definition known_names :: "string list" where
  "known_names = [''abi'', ''caps'', ''control_token_required'']"

text \<open>Decoding an object into a map keeps the last value of a repeated key.\<close>

definition raw_map :: "json gomap \<Rightarrow> json gomap" where
  "raw_map kvs = AList.clearjunk (rev kvs)"

definition build_rab :: "json gomap \<Rightarrow> rab_error + RAB" where
  "build_rab raw = (case known_field raw ''abi'' dec_string [] of None \<Rightarrow> Inl ErrJSON
     | Some a \<Rightarrow> (case known_field raw ''caps'' dec_strings [] of None \<Rightarrow> Inl ErrJSON
       | Some cs \<Rightarrow> (case known_field raw ''control_token_required'' (\<lambda>v. map_option Some (dec_bool v)) None of None \<Rightarrow> Inl ErrJSON
         | Some t \<Rightarrow> Inr \<lparr>Abi = a, Caps = cs, ControlTokenRequired = t, Extra = filter (\<lambda>(k, _). k \<notin> set known_names) raw\<rparr>)))"

definition ParseRAB :: "(json \<times> bool) option \<Rightarrow> rab_error + RAB" where
  "ParseRAB body = (case body of None \<Rightarrow> Inl ErrJSON
     | Some (j, trailing) \<Rightarrow> (case dec_object j of None \<Rightarrow> Inl ErrJSON
       | Some kvs \<Rightarrow>
         if trailing then Inl ErrTrailingTokens
         else case build_rab (raw_map (case kvs of None \<Rightarrow> [] | Some m \<Rightarrow> m)) of Inl x \<Rightarrow> Inl x
         | Inr r \<Rightarrow> (case RABValidate r of Some x \<Rightarrow> Inl x | None \<Rightarrow> Inr r)))"

text \<open>\<^verbatim>\<open>MarshalJSON\<close>: extra fields are written last, over a known field of the same name.\<close>

definition rab_json :: "RAB \<Rightarrow> json" where
  "rab_json r = JObj (fold (\<lambda>(k, v). AList.update k v) (Extra r)
     ([(''abi'', JStr (Abi r)), (''caps'', enc_strings (Caps r))]
      @ (case ControlTokenRequired r of None \<Rightarrow> [] | Some b \<Rightarrow> [(''control_token_required'', JBool b)])))"

section \<open>The law of the advertisement\<close>

lemma check_caps_Inr:
  "check_caps seen caps = Inr s \<longleftrightarrow> (\<forall>c \<in> set caps. capSet c) \<and> distinct caps \<and> set caps \<inter> seen = {} \<and> s = seen \<union> set caps"
  by (induction caps arbitrary: seen) auto

lemma valid_rab_iff: "RABValidate r = None \<longleftrightarrow> Abi r = AbiVersion \<and> (\<forall>c \<in> set (Caps r). capSet c) \<and> distinct (Caps r)
    \<and> (''control'' \<in> set (Caps r) \<longrightarrow> ControlTokenRequired r = Some True)"
proof (cases "check_caps {} (Caps r)")
  case (Inl x)
  then have "\<not> ((\<forall>c \<in> set (Caps r). capSet c) \<and> distinct (Caps r))"
    using check_caps_Inr [of "{}" "Caps r" "set (Caps r)"] by auto
  then show ?thesis using Inl by (auto simp: RABValidate_def)
next
  case (Inr s)
  then show ?thesis using check_caps_Inr [of "{}" "Caps r" s] by (auto simp: RABValidate_def)
qed

lemma Has_iff: "Has r cap \<longleftrightarrow> cap \<in> set (Caps r)"
proof -
  have "has_cap cs cap \<longleftrightarrow> cap \<in> set cs" for cs by (induction cs) auto
  then show ?thesis by (simp add: Has_def)
qed

lemma negotiate_from_Inr:
  "negotiate_from r seen result token caps = Inr (granted, t) \<longleftrightarrow>
     (\<forall>c \<in> set caps. capSet c) \<and> distinct caps \<and> set caps \<inter> seen = {}
     \<and> granted = result @ filter (\<lambda>c. c \<in> set (Caps r)) caps \<and> t = (token \<or> ''control'' \<in> set caps \<inter> set (Caps r))"
  by (induction caps arbitrary: seen result token) (auto simp: Has_iff)

lemma Negotiate_Inr:
  "Negotiate r requested = Inr (granted, token) \<longleftrightarrow> (\<forall>c \<in> set requested. capSet c) \<and> distinct requested
     \<and> granted = filter (\<lambda>c. c \<in> set (Caps r)) requested \<and> token = (''control'' \<in> set granted)"
  by (cases "requested = []") (auto simp: Negotiate_def negotiate_from_Inr simp del: negotiate_from.simps)

lemma ParseRAB_valid: "ParseRAB body = Inr r \<Longrightarrow> RABValidate r = None"
  by (auto simp: ParseRAB_def split: option.splits sum.splits if_splits prod.splits)

text \<open>Control is never handed out without a token: for an advertisement that was parsed, a negotiation succeeds exactly when every requested capability is known and none is repeated, grants exactly
  the requested capabilities that are advertised, in the requested order, and reports that a token is needed exactly when control is among them; the advertisement then
  demands the token itself.\<close>

theorem negotiation_needs_token:
  assumes "ParseRAB body = Inr r"
  shows "(\<exists>out. Negotiate r requested = Inr out) = (distinct requested \<and> set requested \<subseteq> set CapsAllowed)
    \<and> (Negotiate r requested = Inr (granted, token) \<longrightarrow> granted = filter (\<lambda>c. c \<in> set (Caps r)) requested
         \<and> token = (''control'' \<in> set granted) \<and> (token \<longrightarrow> ControlTokenRequired r = Some True \<and> RequiresControlToken r))"
proof -
  have "RABValidate r = None" using assms by (rule ParseRAB_valid)
  then show ?thesis
    using Negotiate_Inr [of r requested] by (auto simp: valid_rab_iff capSet_def RequiresControlToken_def)
qed

text \<open>An advertisement may demand a token without advertising control.\<close>

lemma token_without_control:
  "let r = \<lparr>Abi = AbiVersion, Caps = [''observe''], ControlTokenRequired = Some True, Extra = []\<rparr>
   in RABValidate r = None \<and> RequiresControlToken r \<and> \<not> Has r ''control''"
  by code_simp

section \<open>Round trip\<close>

lemma map_of_updates: "map_of (fold (\<lambda>(k, v). AList.update k v) xs m) k = (case map_of (rev xs) k of None \<Rightarrow> map_of m k | Some v \<Rightarrow> Some v)"
  by (induction xs arbitrary: m) (auto simp: update_conv map_add_def split: option.splits)

lemma map_of_rev_wf:
  assumes "wf_map m"
  shows "map_of (rev m) = map_of m"
proof (rule ext)
  fix k
  show "map_of (rev m) k = map_of m k"
  proof (cases "map_of m k")
    case None
    then have "k \<notin> set (map fst (rev m))" by (simp add: map_of_eq_None_iff)
    then have "map_of (rev m) k = None" by (simp only: map_of_eq_None_iff set_map not_False_eq_True simp_thms)
    then show ?thesis using None by simp
  next
    case (Some v)
    then have "(k, v) \<in> set (rev m)" by (simp add: map_of_SomeD)
    moreover have "distinct (map fst (rev m))" using assms by (simp add: wf_map_def rev_map [symmetric])
    ultimately show ?thesis using Some by simp
  qed
qed

lemma wf_updates: "wf_map m \<Longrightarrow> wf_map (fold (\<lambda>(k, v). AList.update k v) xs m)"
  by (induction xs arbitrary: m) (auto simp: wf_map_def distinct_update)

lemma map_of_filter_keys: "map_of (filter (\<lambda>(k, _). P k) m) x = (if P x then map_of m x else None)"
  by (induction m) auto

text \<open>A valid advertisement with any unknown fields survives being written and read: parsing its JSON yields the same version, capabilities and token demand, and the same value for every
  unknown field.\<close>

theorem rab_round_trip:
  assumes "RABValidate r = None" and "wf_map (Extra r)" and "\<forall>k \<in> set known_names. k \<notin> set (keys (Extra r))"
  shows "\<exists>r'. ParseRAB (Some (rab_json r, False)) = Inr r' \<and> Abi r' = Abi r \<and> Caps r' = Caps r
    \<and> ControlTokenRequired r' = ControlTokenRequired r \<and> map_of (Extra r') = map_of (Extra r)"
proof -
  define base where "base = [(''abi'', JStr (Abi r)), (''caps'', enc_strings (Caps r))]
      @ (case ControlTokenRequired r of None \<Rightarrow> [] | Some b \<Rightarrow> [(''control_token_required'', JBool b)])"
  define raw where "raw = raw_map (fold (\<lambda>(k, v). AList.update k v) (Extra r) base)"
  have "wf_map base" by (simp add: base_def wf_map_def split: option.split)
  then have raw: "map_of raw k = (case map_of (Extra r) k of None \<Rightarrow> map_of base k | Some v \<Rightarrow> Some v)" for k
    unfolding raw_def raw_map_def map_of_clearjunk by (simp only: wf_updates map_of_rev_wf map_of_updates map_of_rev_wf [OF assms(2)])
  have none: "map_of (Extra r) ''abi'' = None" "map_of (Extra r) ''caps'' = None" "map_of (Extra r) ''control_token_required'' = None"
    using assms(3) by (simp_all add: known_names_def map_of_eq_None_iff)
  have base: "map_of base k = None" if "k \<notin> set known_names" for k
    using that by (simp add: base_def known_names_def split: option.split)
  have fields: "map_of raw ''abi'' = Some (JStr (Abi r))" "map_of raw ''caps'' = Some (enc_strings (Caps r))"
    "map_of raw ''control_token_required'' = map_option JBool (ControlTokenRequired r)"
    by (simp_all add: raw none base_def split: option.split)
  obtain ex where b: "build_rab raw = Inr \<lparr>Abi = Abi r, Caps = Caps r, ControlTokenRequired = ControlTokenRequired r, Extra = ex\<rparr>"
    and ex: "ex = filter (\<lambda>(k, _). k \<notin> set known_names) raw"
    by (cases "ControlTokenRequired r") (simp_all add: build_rab_def known_field_def fields codec_simps dec_bool_def)
  have "map_of ex k = map_of (Extra r) k" for k
  proof (cases "k \<in> set known_names")
    case True
    then have "map_of (Extra r) k = None" using assms(3) by (simp add: map_of_eq_None_iff)
    then show ?thesis using True by (simp add: ex map_of_filter_keys)
  next
    case False
    then show ?thesis using base by (simp add: ex map_of_filter_keys raw split: option.split)
  qed
  then have "map_of ex = map_of (Extra r)" by blast
  moreover have "RABValidate \<lparr>Abi = Abi r, Caps = Caps r, ControlTokenRequired = ControlTokenRequired r, Extra = ex\<rparr> = None"
    using assms(1) by (simp add: valid_rab_iff)
  ultimately show ?thesis using b unfolding raw_def base_def by (simp add: ParseRAB_def rab_json_def dec_object_def)
qed

section \<open>A controlled runtime\<close>

definition demo_rab :: RAB where
  "demo_rab = \<lparr>Abi = ''rab/1.0'', Caps = [''observe'', ''control''], ControlTokenRequired = Some True, Extra = [(''vendor'', JStr ''x'')]\<rparr>"

lemma demo_rab_parse: "ParseRAB (Some (rab_json demo_rab, False)) = Inr demo_rab"
  by code_simp

theorem negotiation_needs_token_witness:
  "Negotiate demo_rab [''control'', ''input''] = Inr ([''control''], True) \<and> RequiresControlToken demo_rab"
proof -
  have n: "Negotiate demo_rab [''control'', ''input''] = Inr ([''control''], True)" by code_simp
  then show ?thesis using negotiation_needs_token [OF demo_rab_parse, of "[''control'', ''input'']" "[''control'']" True] by blast
qed

theorem rab_round_trip_witness:
  "\<exists>r'. ParseRAB (Some (rab_json demo_rab, False)) = Inr r' \<and> map_of (Extra r') ''vendor'' = Some (JStr ''x'')"
proof -
  have v: "RABValidate demo_rab = None" "wf_map (Extra demo_rab)" "\<forall>k \<in> set known_names. k \<notin> set (keys (Extra demo_rab))"
    by code_simp+
  show ?thesis using rab_round_trip [OF v] by (auto simp: demo_rab_def)
qed

end
