(* ===== verification/Link.thy ===== *)
theory Link
  imports Checkpoints
begin

text \<open>
  WORKS-Link, the surface a paired device may present to the kernel: \<^verbatim>\<open>packages/link/link.go\<close> (wire validation, device tokens, pairing, mounts,
  revocation), its store \<^verbatim>\<open>services/work/store/link_store.go\<close>, the revoke cascade \<^verbatim>\<open>SuspendMissionsForDevice\<close> of \<^verbatim>\<open>link_suspend.go\<close>
  and the routes of \<^verbatim>\<open>services/api/link_handler.go\<close>.

  HMAC, base64 with the claims' JSON text, and SHA-256 are parameters; the request bodies are taken as decoded.
\<close>

section \<open>Wire types\<close>

datatype link_error =
    ErrUnknownDevice
  | ErrCodeNotIssued
  | ErrRevoked
  | ErrExpired
  | ErrBadToken
  | ErrBadRequest string
  | ErrScopeDenied string
  | ErrNotConfigured
  | ErrSaturated
  | ErrCorruptDevice
  | ErrMountNotFound
  | ErrPayload

text \<open>\<^verbatim>\<open>%q\<close> of a text of ASCII characters.\<close>

definition quote_char :: "char \<Rightarrow> string" where
  "quote_char c = (let n = of_char c :: nat in
     if n = 34 \<or> n = 92 then [char_of (92 :: nat), c]
     else if n = 7 then char_of (92 :: nat) # ''a'' else if n = 8 then char_of (92 :: nat) # ''b'' else if n = 9 then char_of (92 :: nat) # ''t''
     else if n = 10 then char_of (92 :: nat) # ''n'' else if n = 11 then char_of (92 :: nat) # ''v'' else if n = 12 then char_of (92 :: nat) # ''f''
     else if n = 13 then char_of (92 :: nat) # ''r''
     else if n < 32 \<or> n = 127 then char_of (92 :: nat) # ''x'' @ hex_byte n
     else [c])"

definition Quote :: "string \<Rightarrow> string" where
  "Quote s = [char_of (34 :: nat)] @ concat (map quote_char s) @ [char_of (34 :: nat)]"

definition TokenTTL :: duration where "TokenTTL = 24 * Hour"
definition OfferTTL :: duration where "OfferTTL = 5 * 60 * Second"

definition EndpointPair :: string where "EndpointPair = ''/link/v1/pair''"
definition EndpointMounts :: string where "EndpointMounts = ''/link/v1/mounts''"
definition EndpointMissions :: string where "EndpointMissions = ''/link/v1/missions''"
definition EndpointCommands :: string where "EndpointCommands = ''/link/v1/commands''"
definition EndpointRevoke :: string where "EndpointRevoke = ''/link/v1/revoke''"

definition ScopeT1Read :: string where "ScopeT1Read = ''T1_read''"
definition ScopeT2Action :: string where "ScopeT2Action = ''T2_action''"
definition ScopeT3Privileged :: string where "ScopeT3Privileged = ''T3_privileged''"

datatype DeviceState = StatePaired | StateRevoked

definition upper_or_digit :: "char \<Rightarrow> bool" where
  "upper_or_digit ch \<longleftrightarrow> is_digit ch \<or> (65 \<le> (of_char ch :: nat) \<and> (of_char ch :: nat) \<le> 90)"

definition lower_or_digit :: "char \<Rightarrow> bool" where
  "lower_or_digit ch \<longleftrightarrow> is_digit ch \<or> (97 \<le> (of_char ch :: nat) \<and> (of_char ch :: nat) \<le> 122)"

definition sasCodeRe :: "string \<Rightarrow> bool" where
  "sasCodeRe s \<longleftrightarrow> length s = 6 \<and> list_all upper_or_digit s"

definition deviceIDRe :: "string \<Rightarrow> bool" where
  "deviceIDRe s \<longleftrightarrow> HasPrefix s ''dev_'' \<and> drop 4 s \<noteq> [] \<and> list_all lower_or_digit (drop 4 s)"

definition scopeAllowed :: "string \<Rightarrow> bool" where
  "scopeAllowed s \<longleftrightarrow> s \<in> {ScopeT1Read, ScopeT2Action, ScopeT3Privileged}"

record WireRequest =
  wr_Endpoint :: string
  wr_Method :: string
  wr_Auth :: string
  wr_Scope :: string
  wr_IdempotencyKey :: string
  wr_PayloadHash :: string

definition WireValidate :: "WireRequest \<Rightarrow> link_error option" where
  "WireValidate q =
     (if wr_Endpoint q \<notin> {EndpointPair, EndpointMounts, EndpointMissions, EndpointCommands, EndpointRevoke}
      then Some (ErrBadRequest (''endpoint '' @ Quote (wr_Endpoint q) @ '' not in link.wire/1.0 enum''))
      else if wr_Method q \<noteq> ''POST'' \<and> wr_Method q \<noteq> ''GET'' then Some (ErrBadRequest (''method '' @ Quote (wr_Method q) @ '' not allowed (wire enum POST|GET)''))
      else if wr_Auth q \<noteq> ''mTLS+device_token'' then Some (ErrBadRequest (''auth '' @ Quote (wr_Auth q) @ '' violates link.wire/1.0 const''))
      else if wr_PayloadHash q \<noteq> [] \<and> \<not> sha256_hex (wr_PayloadHash q) then Some (ErrBadRequest ''payload_hash must be 64-char sha256 hex'')
      else if wr_Endpoint q = EndpointCommands \<and> wr_Scope q = ScopeT3Privileged then Some (ErrBadRequest ''T3_privileged is unrepresentable on the link surface (request-only law)'')
      else None)"

record PairBeginRequest =
  pb_DeviceID :: string
  pb_Scopes :: "string list"

record Offer =
  of_Code :: string
  of_DeviceID :: string
  of_Scopes :: "string list"
  of_ExpiresAt :: time

record PairClaimRequest =
  pc_DeviceID :: string
  pc_SASCode :: string

record Device =
  dv_DeviceID :: string
  dv_Scopes :: "string list"
  dv_State :: DeviceState
  PairedAt :: time
  RevokedAt :: time

record MountRequest = WireRequest +
  mr_DeviceID :: string
  mr_WorkID :: string
  mr_PurposeBindings :: "string list"

record MountRecord =
  mt_ID :: string
  mt_DeviceID :: string
  mt_WorkID :: string
  mt_PayloadHash :: string
  mt_Scope :: string
  mt_PurposeBinding :: string
  mt_CreatedAt :: time

record MissionRow =
  ms_WorkID :: string
  ms_State :: string
  NeedsHuman :: bool
  ms_Ceiling :: float64

record RevokeRequest = WireRequest +
  rv_DeviceID :: string

section \<open>The device store\<close>

record link_db =
  link_devices :: "Device list"
  link_mounts :: "MountRecord list"

definition GetDevice :: "link_db \<Rightarrow> string \<Rightarrow> link_error + Device" where
  "GetDevice l deviceID = (case find_row dv_DeviceID deviceID (link_devices l) of
     None \<Rightarrow> Inl ErrUnknownDevice
   | Some d \<Rightarrow> if dv_Scopes d = [] then Inl ErrCorruptDevice else Inr d)"

text \<open>\<^verbatim>\<open>INSERT ... ON CONFLICT(device_id) DO UPDATE\<close> of every column.\<close>

definition PutDevice :: "Device \<Rightarrow> link_db \<Rightarrow> link_db" where
  "PutDevice d l = l\<lparr>link_devices :=
     (if find_row dv_DeviceID (dv_DeviceID d) (link_devices l) = None then link_devices l @ [d]
      else update_where (\<lambda>r. dv_DeviceID r = dv_DeviceID d) (\<lambda>_. d) (link_devices l))\<rparr>"

definition InsertMount :: "MountRecord \<Rightarrow> link_db \<Rightarrow> bool \<times> link_db" where
  "InsertMount m l = (find_row mt_ID (mt_ID m) (link_mounts l) = None,
     l\<lparr>link_mounts := insert_ignore mt_ID m (link_mounts l)\<rparr>)"

definition GetMount :: "link_db \<Rightarrow> string \<Rightarrow> link_error + MountRecord" where
  "GetMount l mid = (case find_row mt_ID mid (link_mounts l) of None \<Rightarrow> Inl ErrMountNotFound | Some m \<Rightarrow> Inr m)"

text \<open>\<^verbatim>\<open>SELECT DISTINCT work_id ... ORDER BY created_at\<close>: the first row of each Work decides its place.\<close>

fun first_mounts :: "string set \<Rightarrow> MountRecord list \<Rightarrow> MountRecord list" where
  "first_mounts seen [] = []"
| "first_mounts seen (m # ms) = (if mt_WorkID m \<in> seen then first_mounts seen ms
     else m # first_mounts (insert (mt_WorkID m) seen) ms)"

definition ListMountWorkIDs :: "link_db \<Rightarrow> string \<Rightarrow> string list" where
  "ListMountWorkIDs l deviceID =
     map mt_WorkID (order_asc mt_CreatedAt (first_mounts {} (filter (\<lambda>m. mt_DeviceID m = deviceID) (link_mounts l))))"

section \<open>Device tokens\<close>

record tokenClaims =
  tc_DeviceID :: string
  ScopeKey :: string
  tc_IssuedAt :: int
  tc_ExpiresAt :: int

text \<open>
  What the issuer takes from elsewhere: \<open>claims_text\<close> is the unpadded base64url of the claims' JSON and \<open>claims_of\<close> its decoding, \<open>mac\<close> the base64url of the
  HMAC-SHA256 under the issuer's key, \<open>digest\<close> the hex SHA-256, \<open>second_text\<close> the RFC 3339 text of a time given in seconds.
\<close>

record TokenIssuer =
  claims_text :: "tokenClaims \<Rightarrow> string"
  claims_of :: "string \<Rightarrow> tokenClaims option"
  mac :: "string \<Rightarrow> string"
  digest :: "string \<Rightarrow> string"
  second_text :: "int \<Rightarrow> string"
  TTL :: duration

text \<open>\<^verbatim>\<open>fmt.Sprint\<close> of a string slice.\<close>

definition Sprint_strings :: "string list \<Rightarrow> string" where
  "Sprint_strings ss = ''['' @ Join ss '' '' @ '']''"

definition claimsDigest :: "TokenIssuer \<Rightarrow> Device \<Rightarrow> string" where
  "claimsDigest t d = digest t (dv_DeviceID d @ ''|'' @ Sprint_strings (dv_Scopes d) @ ''|'' @ second_text t (PairedAt d div Second))"

definition Mint :: "TokenIssuer \<Rightarrow> env \<Rightarrow> Device \<Rightarrow> string" where
  "Mint t e d = (let payload = claims_text t \<lparr>tc_DeviceID = dv_DeviceID d, ScopeKey = claimsDigest t d,
       tc_IssuedAt = Unix (Now e 0), tc_ExpiresAt = Unix (Now e 1 + TTL t)\<rparr>
     in payload @ ''.'' @ mac t payload)"

definition splitToken :: "string \<Rightarrow> string list" where
  "splitToken raw = Split raw CHR ''.''"

definition TokenVerify :: "TokenIssuer \<Rightarrow> time \<Rightarrow> string \<Rightarrow> link_error + tokenClaims" where
  "TokenVerify t now raw = (case splitToken raw of
     [payload, sig] \<Rightarrow>
       if mac t payload \<noteq> sig then Inl ErrBadToken
       else (case claims_of t payload of None \<Rightarrow> Inl ErrBadToken
         | Some cl \<Rightarrow> if from_unix (tc_ExpiresAt cl) < now then Inl ErrExpired else Inr cl)
   | _ \<Rightarrow> Inl ErrBadToken)"

section \<open>The service\<close>

record Service =
  Devices :: link_db
  offers :: "Offer gomap"

definition gcOffers :: "time \<Rightarrow> Offer gomap \<Rightarrow> Offer gomap" where
  "gcOffers now m = filter (\<lambda>(_, o'). \<not> of_ExpiresAt o' < now) m"

definition sasAlphabet :: string where
  "sasAlphabet = ''ABCDEFGHJKLMNPQRSTUVWXYZ23456789''"

text \<open>Six random bytes, taken from the source of identifiers.\<close>

definition randomCode :: "nat list \<Rightarrow> string" where
  "randomCode bytes = map (\<lambda>b. sasAlphabet ! (b mod length sasAlphabet)) (take 6 (bytes @ replicate 6 0))"

text \<open>The re-roll loop: at most \<open>k\<close> more codes.\<close>

fun roll_code :: "nat \<Rightarrow> env \<Rightarrow> nat \<Rightarrow> Offer gomap \<Rightarrow> string option" where
  "roll_code 0 e i m = None"
| "roll_code (Suc k) e i m = (let code = randomCode (idents e [i]) in
     if map_of m code \<noteq> None then roll_code k e (Suc i) m else Some code)"

fun check_scopes :: "string set \<Rightarrow> string list \<Rightarrow> link_error option" where
  "check_scopes seen [] = None"
| "check_scopes seen (s # ss) = (if \<not> scopeAllowed s then Some (ErrBadRequest (''scope '' @ Quote s @ '' not in pairing/1.0 enum''))
     else if s \<in> seen then Some (ErrBadRequest (''duplicate scope '' @ Quote s))
     else check_scopes (insert s seen) ss)"

definition BeginPair :: "env \<Rightarrow> PairBeginRequest \<Rightarrow> Service \<Rightarrow> (link_error + Offer) \<times> Service" where
  "BeginPair e req s =
     (if \<not> deviceIDRe (pb_DeviceID req) then (Inl (ErrBadRequest ''device_id must match dev_[a-z0-9]+''), s)
      else if pb_Scopes req = [] then (Inl (ErrBadRequest ''scopes must be non-empty''), s)
      else case check_scopes {} (pb_Scopes req) of Some x \<Rightarrow> (Inl x, s)
      | None \<Rightarrow>
        (let continue = (let m = gcOffers (Now e 0) (offers s) in
           case roll_code 5 e 0 m of None \<Rightarrow> (Inl ErrSaturated, s\<lparr>offers := m\<rparr>)
           | Some code \<Rightarrow> let offer = \<lparr>of_Code = code, of_DeviceID = pb_DeviceID req, of_Scopes = pb_Scopes req,
                 of_ExpiresAt = Now e 1 + OfferTTL\<rparr>
               in (Inr offer, s\<lparr>offers := AList.update code offer m\<rparr>))
         in case GetDevice (Devices s) (pb_DeviceID req) of
            Inl ErrUnknownDevice \<Rightarrow> continue
          | Inl x \<Rightarrow> (Inl x, s)
          | Inr d \<Rightarrow> if dv_State d = StateRevoked then (Inl ErrRevoked, s) else continue))"

definition ClaimPair :: "TokenIssuer \<Rightarrow> env \<Rightarrow> PairClaimRequest \<Rightarrow> Service \<Rightarrow> (link_error + Device \<times> string) \<times> Service" where
  "ClaimPair t e req s =
     (if \<not> sasCodeRe (pc_SASCode req) then (Inl (ErrBadRequest ''sas_code must be 6 chars [A-Z0-9]''), s)
      else let m = gcOffers (Now e 0) (offers s) in
      case map_of m (pc_SASCode req) of None \<Rightarrow> (Inl ErrCodeNotIssued, s\<lparr>offers := m\<rparr>)
      | Some offer \<Rightarrow>
        if of_DeviceID offer \<noteq> pc_DeviceID req then (Inl ErrCodeNotIssued, s\<lparr>offers := m\<rparr>)
        else let d = \<lparr>dv_DeviceID = pc_DeviceID req, dv_Scopes = of_Scopes offer, dv_State = StatePaired,
              PairedAt = Now e 1, RevokedAt = 0\<rparr>
          in (Inr (d, Mint t (call 0 e) d),
              s\<lparr>Devices := PutDevice d (Devices s), offers := AList.delete (pc_SASCode req) m\<rparr>))"

definition AuthenticateToken :: "TokenIssuer \<Rightarrow> time \<Rightarrow> string \<Rightarrow> Service \<Rightarrow> link_error + Device" where
  "AuthenticateToken t now raw s = (case TokenVerify t now raw of Inl x \<Rightarrow> Inl x
     | Inr cl \<Rightarrow> (case GetDevice (Devices s) (tc_DeviceID cl) of Inl x \<Rightarrow> Inl x
       | Inr d \<Rightarrow> if claimsDigest t d \<noteq> ScopeKey cl then Inl ErrBadToken else Inr d))"

definition Authenticate :: "TokenIssuer \<Rightarrow> time \<Rightarrow> string \<Rightarrow> Service \<Rightarrow> link_error + Device" where
  "Authenticate t now raw s = (case AuthenticateToken t now raw s of Inl x \<Rightarrow> Inl x
     | Inr d \<Rightarrow> if dv_State d = StateRevoked then Inl ErrRevoked else Inr d)"

definition PayloadHash :: "codec \<Rightarrow> json \<Rightarrow> link_error + string" where
  "PayloadHash c v = (case render c v of None \<Rightarrow> Inl ErrPayload | Some b \<Rightarrow> Inr (sha c b))"

definition mountIdempotencyID :: "codec \<Rightarrow> string \<Rightarrow> string \<Rightarrow> string" where
  "mountIdempotencyID c deviceID hash = ''mnt_'' @ sha c (deviceID @ ''|'' @ hash)"

definition mount_payload :: "MountRequest \<Rightarrow> json" where
  "mount_payload req = JObj [(''device_id'', JStr (mr_DeviceID req)), (''purpose_bindings'', enc_strings (mr_PurposeBindings req)),
     (''scope'', JStr (wr_Scope req)), (''work_id'', JStr (mr_WorkID req))]"

text \<open>The checks before the payload is hashed, and the insertion with its idempotent replay.\<close>

definition mount_refusal :: "Device \<Rightarrow> MountRequest \<Rightarrow> link_error option" where
  "mount_refusal d req = (case WireValidate (WireRequest.truncate req) of Some x \<Rightarrow> Some x
     | None \<Rightarrow>
       if mr_DeviceID req \<noteq> dv_DeviceID d then Some ErrUnknownDevice
       else if mr_WorkID req = [] then Some (ErrBadRequest ''mounts require work_id'')
       else if wr_Scope req \<noteq> ScopeT1Read \<and> wr_Scope req \<noteq> ScopeT2Action
         then Some (ErrScopeDenied (''scope '' @ Quote (wr_Scope req) @ '' not allowed for mounts''))
       else if wr_Scope req \<notin> set (dv_Scopes d) then Some (ErrScopeDenied (''device lacks '' @ wr_Scope req))
       else if wr_Scope req = ScopeT2Action \<and> mr_WorkID req \<notin> set (mr_PurposeBindings req)
         then Some (ErrScopeDenied (''purpose_bindings must name work '' @ mr_WorkID req))
       else None)"

definition store_mount :: "codec \<Rightarrow> env \<Rightarrow> Device \<Rightarrow> MountRequest \<Rightarrow> string \<Rightarrow> Service \<Rightarrow> (link_error + MountRecord) \<times> Service" where
  "store_mount c e d req hash s =
     (let rec = \<lparr>mt_ID = mountIdempotencyID c (dv_DeviceID d) hash, mt_DeviceID = dv_DeviceID d, mt_WorkID = mr_WorkID req,
            mt_PayloadHash = hash, mt_Scope = wr_Scope req, mt_PurposeBinding = mr_WorkID req, mt_CreatedAt = Now e 0\<rparr>
      in case InsertMount rec (Devices s) of (created, l) \<Rightarrow>
        (if created then Inr rec else GetMount l (mountIdempotencyID c (mr_DeviceID req) hash), s\<lparr>Devices := l\<rparr>))"

definition Mount :: "codec \<Rightarrow> env \<Rightarrow> Device \<Rightarrow> MountRequest \<Rightarrow> Service \<Rightarrow> (link_error + MountRecord) \<times> Service" where
  "Mount c e d req0 s =
     (let req = req0\<lparr>wr_Endpoint := EndpointMounts, wr_Method := ''POST'', wr_Auth := ''mTLS+device_token''\<rparr> in
      case mount_refusal d req of Some x \<Rightarrow> (Inl x, s)
      | None \<Rightarrow> (case PayloadHash c (mount_payload req) of Inl x \<Rightarrow> (Inl x, s)
        | Inr hash \<Rightarrow>
          if wr_PayloadHash req \<noteq> [] \<and> wr_PayloadHash req \<noteq> hash then (Inl (ErrBadRequest ''payload_hash does not match canonical content''), s)
          else store_mount c e d req hash s))"

definition Missions :: "Device \<Rightarrow> MissionRow list \<Rightarrow> link_error + MissionRow list" where
  "Missions d rows =
     (case WireValidate \<lparr>wr_Endpoint = EndpointMissions, wr_Method = ''GET'', wr_Auth = ''mTLS+device_token'', wr_Scope = [],
         wr_IdempotencyKey = [], wr_PayloadHash = []\<rparr> of Some x \<Rightarrow> Inl x
      | None \<Rightarrow> if ScopeT1Read \<notin> set (dv_Scopes d) then Inl (ErrScopeDenied (''missions feed requires '' @ ScopeT1Read)) else Inr rows)"

record RevokeResult =
  rr_Device :: Device
  SuspendedWorks :: "string list"
  CascadeErr :: "(string \<times> store_error) list"

definition SuspendMissionsForDevice ::
  "codec \<Rightarrow> env \<Rightarrow> link_db \<Rightarrow> string \<Rightarrow> db \<Rightarrow> (string list \<times> (string \<times> store_error) list) \<times> db" where
  "SuspendMissionsForDevice c e l deviceID db = suspend_missions c e 0 deviceID (ListMountWorkIDs l deviceID) db"

text \<open>The cascade is wired: the kernel store is the device store.\<close>

definition Revoke :: "codec \<Rightarrow> env \<Rightarrow> Device \<Rightarrow> RevokeRequest \<Rightarrow> Service \<Rightarrow> db \<Rightarrow> (link_error + RevokeResult) \<times> Service \<times> db" where
  "Revoke c e caller req0 s db =
     (let req = req0\<lparr>wr_Endpoint := EndpointRevoke, wr_Method := ''POST'', wr_Auth := ''mTLS+device_token''\<rparr> in
      case WireValidate (WireRequest.truncate req) of Some x \<Rightarrow> (Inl x, s, db)
      | None \<Rightarrow>
        if rv_DeviceID req \<noteq> dv_DeviceID caller then (Inl ErrUnknownDevice, s, db)
        else case GetDevice (Devices s) (rv_DeviceID req) of Inl x \<Rightarrow> (Inl x, s, db)
        | Inr d \<Rightarrow>
          if dv_State d = StateRevoked then (Inr \<lparr>rr_Device = d, SuspendedWorks = [], CascadeErr = []\<rparr>, s, db)
          else let d' = d\<lparr>dv_State := StateRevoked, RevokedAt := Now e 0\<rparr>; l = PutDevice d' (Devices s) in
            (case SuspendMissionsForDevice c (call 0 e) l (rv_DeviceID req) db of ((suspended, failures), db') \<Rightarrow>
               (Inr \<lparr>rr_Device = d', SuspendedWorks = suspended, CascadeErr = failures\<rparr>, s\<lparr>Devices := l\<rparr>, db')))"

section \<open>The routes\<close>

text \<open>A body as \<^verbatim>\<open>readLinkJSON\<close> decodes it for its route: an object for pairing, a typed request for mounts and revocations.\<close>

datatype link_body = BodyInvalid | BodyPair "json gomap" | BodyMount MountRequest | BodyRevoke RevokeRequest

record link_request =
  lq_Path :: string
  lq_Method :: string
  lq_Authorization :: string
  lq_Body :: link_body

datatype link_reply =
    LinkError nat string
  | PairClaimed Device string
  | PairOffered Offer
  | MountAccepted MountRecord
  | MissionsFeed "MissionRow list" string
  | DeviceRevoked Device "string list"

text \<open>The text of an error. The first case of \<^verbatim>\<open>linkError\<close> looks at this text, which may quote the request, before the kind of the error is looked at.\<close>

fun link_text :: "link_error \<Rightarrow> string" where
  "link_text ErrUnknownDevice = ''link: unknown device''"
| "link_text ErrCodeNotIssued = ''link: pairing code not issued''"
| "link_text ErrRevoked = ''link: device revoked''"
| "link_text ErrExpired = ''link: device token expired''"
| "link_text ErrBadToken = ''link: bad device token''"
| "link_text (ErrBadRequest t) = ''link: bad request: '' @ t"
| "link_text (ErrScopeDenied t) = ''link: scope denied: '' @ t"
| "link_text ErrNotConfigured = ''link: service not configured (fail closed)''"
| "link_text ErrSaturated = ''link: code space saturated (re-roll exhausted)''"
| "link_text ErrCorruptDevice = ''link store: device corrupt (fail closed)''"
| "link_text ErrMountNotFound = ''link store: mount not found''"
| "link_text ErrPayload = ''link: payload not canonicalizable''"

definition linkError :: "link_error \<Rightarrow> link_reply" where
  "linkError x = (if Contains (link_text x) ''not configured'' then LinkError 503 ''link_unavailable''
     else case x of ErrRevoked \<Rightarrow> LinkError 403 ''device_revoked''
     | ErrBadToken \<Rightarrow> LinkError 401 ''device_token_invalid'' | ErrExpired \<Rightarrow> LinkError 401 ''device_token_invalid''
     | ErrUnknownDevice \<Rightarrow> LinkError 401 ''device_token_invalid''
     | ErrCodeNotIssued \<Rightarrow> LinkError 401 ''pairing_code_invalid''
     | ErrScopeDenied _ \<Rightarrow> LinkError 403 ''scope_denied''
     | ErrBadRequest _ \<Rightarrow> LinkError 400 ''bad_request''
     | _ \<Rightarrow> LinkError 500 ''link_error'')"

text \<open>A device that asks for a scope of that name is told that the service is not there.\<close>

lemma scope_text_reads_as_unavailable:
  "linkError (ErrBadRequest (''scope '' @ Quote ''not configured'' @ '' not in pairing/1.0 enum'')) = LinkError 503 ''link_unavailable''"
  by code_simp

definition body_string :: "json gomap \<Rightarrow> string \<Rightarrow> string" where
  "body_string m k = (case map_of m k of Some (JStr s) \<Rightarrow> s | _ \<Rightarrow> [])"

fun body_scopes :: "json list \<Rightarrow> string list option" where
  "body_scopes [] = Some []"
| "body_scopes (JStr s # js) = map_option (Cons s) (body_scopes js)"
| "body_scopes (_ # js) = None"

definition linkPair :: "TokenIssuer \<Rightarrow> env \<Rightarrow> link_body \<Rightarrow> Service \<Rightarrow> link_reply \<times> Service" where
  "linkPair t e b s = (case b of
     BodyPair body \<Rightarrow>
       let deviceID = body_string body ''device_id''; sas = body_string body ''sas_code'' in
       if sas \<noteq> [] then
         (case ClaimPair t e \<lparr>pc_DeviceID = deviceID, pc_SASCode = sas\<rparr> s of
            (Inl x, s') \<Rightarrow> (linkError x, s') | (Inr (d, token), s') \<Rightarrow> (PairClaimed d token, s'))
       else (case body_scopes (case map_of body ''scopes'' of Some (JArr js) \<Rightarrow> js | _ \<Rightarrow> []) of
            None \<Rightarrow> (LinkError 400 ''bad_request'', s)
          | Some scopes \<Rightarrow> (case BeginPair e \<lparr>pb_DeviceID = deviceID, pb_Scopes = scopes\<rparr> s of
              (Inl x, s') \<Rightarrow> (linkError x, s') | (Inr offer, s') \<Rightarrow> (PairOffered offer, s')))
   | _ \<Rightarrow> (LinkError 400 ''invalid_json'', s))"

definition linkDeviceAuth :: "TokenIssuer \<Rightarrow> time \<Rightarrow> string \<Rightarrow> Service \<Rightarrow> link_reply + Device" where
  "linkDeviceAuth t now h s =
     (if length h \<le> 7 \<or> \<not> EqualFold (take 7 h) ''Bearer '' then Inl (LinkError 401 ''device_token_required'')
      else case AuthenticateToken t now (TrimSpace (drop 7 h)) s of Inl x \<Rightarrow> Inl (linkError x) | Inr d \<Rightarrow> Inr d)"

definition linkMounts :: "codec \<Rightarrow> env \<Rightarrow> link_body \<Rightarrow> Device \<Rightarrow> Service \<Rightarrow> link_reply \<times> Service" where
  "linkMounts c e b d s = (case b of
     BodyMount req \<Rightarrow> (case Mount c e d req s of (Inl x, s') \<Rightarrow> (linkError x, s') | (Inr rec, s') \<Rightarrow> (MountAccepted rec, s'))
   | _ \<Rightarrow> (LinkError 400 ''invalid_json'', s))"

definition missionRow :: "Work \<Rightarrow> MissionRow" where
  "missionRow w = \<lparr>ms_WorkID = work_ID w, ms_State = state_text (work_State w),
     NeedsHuman = (work_State w \<in> {StateWaitingHuman, StateSuspended, StateBudgetExhausted}),
     ms_Ceiling = (case Mission w of None \<Rightarrow> f_zero | Some m \<Rightarrow>
       (case mc_BudgetCeiling m of None \<Rightarrow> f_zero | Some b \<Rightarrow> ComputeEUR b))\<rparr>"

definition linkMissions :: "Device \<Rightarrow> db \<Rightarrow> link_reply" where
  "linkMissions d db =
     (case Missions d (map missionRow (filter IsMission (ListWorks 200 db))) of
        Inl x \<Rightarrow> linkError x | Inr rows \<Rightarrow> MissionsFeed rows (dv_DeviceID d))"

definition linkRevoke :: "codec \<Rightarrow> env \<Rightarrow> link_body \<Rightarrow> Device \<Rightarrow> Service \<Rightarrow> db \<Rightarrow> link_reply \<times> Service \<times> db" where
  "linkRevoke c e b d s db = (case b of
     BodyRevoke req0 \<Rightarrow>
       let req = (if rv_DeviceID req0 = [] then req0\<lparr>rv_DeviceID := dv_DeviceID d\<rparr> else req0) in
       (case Revoke c e d req s db of
          (Inl x, s', db') \<Rightarrow> (linkError x, s', db')
        | (Inr res, s', db') \<Rightarrow>
            if CascadeErr res \<noteq> [] then (LinkError 500 ''cascade_failed'', s', db')
            else (DeviceRevoked (rr_Device res) (SuspendedWorks res), s', db'))
   | _ \<Rightarrow> (LinkError 400 ''invalid_json'', s, db))"

definition TrimPrefix :: "string \<Rightarrow> string \<Rightarrow> string" where
  "TrimPrefix s p = (if HasPrefix s p then drop (length p) s else s)"

text \<open>A service that is not configured answers 503 on every route. \<^verbatim>\<open>linkDevice\<close> is the refusal of revoked devices before mounts and missions.\<close>

definition linkHandler ::
  "codec \<Rightarrow> TokenIssuer \<Rightarrow> env \<Rightarrow> link_request \<Rightarrow> Service option \<Rightarrow> db \<Rightarrow> link_reply \<times> Service option \<times> db" where
  "linkHandler c t e r so db = (case so of None \<Rightarrow> (LinkError 503 ''link_unavailable'', None, db)
     | Some s \<Rightarrow>
       let rest = TrimPrefix (lq_Path r) ''/link/v1'';
           auth = linkDeviceAuth t (Now e 0) (lq_Authorization r) s;
           live = (case auth of Inl x \<Rightarrow> Inl x
             | Inr d \<Rightarrow> if dv_State d = StateRevoked then Inl (linkError ErrRevoked) else Inr d) in
       if rest = ''/pair'' \<and> lq_Method r = ''POST'' then
         (case linkPair t (call 0 e) (lq_Body r) s of (x, s') \<Rightarrow> (x, Some s', db))
       else if rest = ''/mounts'' \<and> lq_Method r = ''POST'' then
         (case live of Inl x \<Rightarrow> (x, Some s, db)
          | Inr d \<Rightarrow> (case linkMounts c (call 0 e) (lq_Body r) d s of (x, s') \<Rightarrow> (x, Some s', db)))
       else if rest = ''/missions'' \<and> lq_Method r = ''GET'' then
         (case live of Inl x \<Rightarrow> (x, Some s, db) | Inr d \<Rightarrow> (linkMissions d db, Some s, db))
       else if rest = ''/revoke'' \<and> lq_Method r = ''POST'' then
         (case auth of Inl x \<Rightarrow> (x, Some s, db)
          | Inr d \<Rightarrow> (case linkRevoke c (call 0 e) (lq_Body r) d s db of (x, s', db') \<Rightarrow> (x, Some s', db')))
       else (LinkError 404 ''not_found'', Some s, db))"

section \<open>The store as the service sees it\<close>

locale device_store =
  fixes get :: "'s \<Rightarrow> string \<Rightarrow> link_error + Device"
    and put :: "Device \<Rightarrow> 's \<Rightarrow> 's"
  assumes get_put: "dv_Scopes d \<noteq> [] \<Longrightarrow> get (put d s) k = (if k = dv_DeviceID d then Inr d else get s k)"
begin

lemma last_put_wins:
  assumes "\<forall>d \<in> set ds. dv_Scopes d \<noteq> []"
  shows "get (fold put ds s) k = (case find (\<lambda>d. dv_DeviceID d = k) (rev ds) of Some d \<Rightarrow> Inr d | None \<Rightarrow> get s k)"
  using assms by (induction ds rule: rev_induct) (auto simp: get_put)

lemma others_keep: "dv_Scopes d \<noteq> [] \<Longrightarrow> dv_DeviceID d \<noteq> k \<Longrightarrow> get (put d s) k = get s k"
  by (simp add: get_put)

end

lemma find_row_put:
  "find_row dv_DeviceID k (link_devices (PutDevice d l)) =
     (if k = dv_DeviceID d then Some d else find_row dv_DeviceID k (link_devices l))"
proof -
  have upd: "find_row dv_DeviceID k (update_where (\<lambda>r. dv_DeviceID r = dv_DeviceID d) (\<lambda>_. d) rs) =
      (if k = dv_DeviceID d \<and> find_row dv_DeviceID k rs \<noteq> None then Some d else find_row dv_DeviceID k rs)" for rs
    by (induction rs) auto
  show ?thesis
    by (cases "find_row dv_DeviceID (dv_DeviceID d) (link_devices l)")
      (auto simp: PutDevice_def find_row_append upd split: option.split)
qed

interpretation kernel: device_store GetDevice PutDevice
  by unfold_locales (simp add: GetDevice_def find_row_put)

lemma PutDevice_mounts [simp]: "link_mounts (PutDevice d l) = link_mounts l"
  by (simp add: PutDevice_def)

section \<open>A revoked device stays out\<close>

definition revoked_row :: "string \<Rightarrow> link_db \<Rightarrow> bool" where
  "revoked_row dev l \<longleftrightarrow> (\<exists>d. find_row dv_DeviceID dev (link_devices l) = Some d \<and> dv_State d = StateRevoked)"

definition mounts_of :: "string \<Rightarrow> link_db \<Rightarrow> MountRecord list" where
  "mounts_of dev l = filter (\<lambda>m. mt_DeviceID m = dev) (link_mounts l)"

text \<open>The device is revoked, no outstanding code is for it, and its mounts are the given ones.\<close>

definition shut_out :: "string \<Rightarrow> MountRecord list \<Rightarrow> Service \<Rightarrow> bool" where
  "shut_out dev ms s \<longleftrightarrow> revoked_row dev (Devices s) \<and> (\<forall>p \<in> set (offers s). of_DeviceID (snd p) \<noteq> dev)
     \<and> mounts_of dev (Devices s) = ms"

lemma GetDevice_row: "GetDevice l k = Inr d \<Longrightarrow> find_row dv_DeviceID k (link_devices l) = Some d \<and> dv_DeviceID d = k"
  by (auto simp: GetDevice_def split: option.splits if_splits dest: find_row_Some)

lemma revoked_row_put: "dv_DeviceID d \<noteq> dev \<Longrightarrow> revoked_row dev (PutDevice d l) = revoked_row dev l"
  by (auto simp: revoked_row_def find_row_put)

lemma mounts_of_put [simp]: "mounts_of dev (PutDevice d l) = mounts_of dev l"
  by (simp add: mounts_of_def)

lemma set_update_subset: "set (AList.update k v m) \<subseteq> insert (k, v) (set m)"
  by (induction m) auto

lemma set_delete_subset: "set (AList.delete k m) \<subseteq> set m"
  by (auto simp: AList.delete_eq)

lemma BeginPair_shut:
  assumes "shut_out dev ms s"
  shows "shut_out dev ms (snd (BeginPair e req s))"
proof (cases "GetDevice (Devices s) (pb_DeviceID req) = Inl ErrUnknownDevice
    \<or> (\<exists>d. GetDevice (Devices s) (pb_DeviceID req) = Inr d \<and> dv_State d \<noteq> StateRevoked)")
  case False
  then have "snd (BeginPair e req s) = s"
    by (cases "GetDevice (Devices s) (pb_DeviceID req)" rule: sum.exhaust)
      (auto simp: BeginPair_def Let_def split: option.split link_error.split)
  then show ?thesis using assms by simp
next
  case True
  obtain row where row: "find_row dv_DeviceID dev (link_devices (Devices s)) = Some row" "dv_State row = StateRevoked"
    using assms by (auto simp: shut_out_def revoked_row_def)
  have other: "pb_DeviceID req \<noteq> dev"
  proof
    assume "pb_DeviceID req = dev"
    then show False using True row by (auto simp: GetDevice_def split: if_splits)
  qed
  have gc: "set (gcOffers t m) \<subseteq> set m" for t m by (auto simp: gcOffers_def)
  have "Devices (snd (BeginPair e req s)) = Devices s"
    using True by (auto simp: BeginPair_def Let_def split: option.split)
  moreover have "of_DeviceID (snd p) \<noteq> dev" if "p \<in> set (offers (snd (BeginPair e req s)))" for p
  proof -
    have "p \<in> set (offers s) \<or> of_DeviceID (snd p) = pb_DeviceID req"
      using that True gc set_update_subset
      by (auto simp: BeginPair_def Let_def split: option.splits if_splits) fastforce+
    then show ?thesis using other assms by (auto simp: shut_out_def)
  qed
  ultimately show ?thesis using assms by (simp add: shut_out_def)
qed

lemma shut_gc: "shut_out dev ms s \<Longrightarrow> shut_out dev ms (s\<lparr>offers := gcOffers t (offers s)\<rparr>)"
  by (auto simp: shut_out_def gcOffers_def)

lemma ClaimPair_shut:
  assumes "shut_out dev ms s"
  shows "shut_out dev ms (snd (ClaimPair t e req s))"
proof (cases "map_of (gcOffers (Now e 0) (offers s)) (pc_SASCode req)")
  case None
  then show ?thesis using assms shut_gc [OF assms] by (simp add: ClaimPair_def Let_def)
next
  case (Some offer)
  then have "(pc_SASCode req, offer) \<in> set (offers s)" by (auto simp: gcOffers_def dest: map_of_SomeD)
  then have other: "of_DeviceID offer \<noteq> dev" using assms by (auto simp: shut_out_def)
  have "shut_out dev ms (s\<lparr>Devices := PutDevice d (Devices s), offers := AList.delete k (gcOffers n (offers s))\<rparr>)"
    if "dv_DeviceID d \<noteq> dev" for d k n
    using assms that set_delete_subset [of k "gcOffers n (offers s)"]
    by (auto simp: shut_out_def revoked_row_put gcOffers_def)
  then show ?thesis
    using assms shut_gc [OF assms] Some other by (auto simp: ClaimPair_def Let_def)
qed

lemma store_mount_effect:
  "\<exists>rec. mt_DeviceID rec = dv_DeviceID d
     \<and> snd (store_mount c e d req hash s) = s\<lparr>Devices := (Devices s)\<lparr>link_mounts := insert_ignore mt_ID rec (link_mounts (Devices s))\<rparr>\<rparr>"
  unfolding store_mount_def Let_def InsertMount_def prod.case snd_conv
  by (rule exI, rule conjI [rotated], rule refl) (simp only: MountRecord.simps)

lemma Mount_effect:
  "snd (Mount c e d req s) = s \<or> (\<exists>rec. mt_DeviceID rec = dv_DeviceID d
     \<and> snd (Mount c e d req s) = s\<lparr>Devices := (Devices s)\<lparr>link_mounts := insert_ignore mt_ID rec (link_mounts (Devices s))\<rparr>\<rparr>)"
proof -
  define req' where "req' = req\<lparr>wr_Endpoint := EndpointMounts, wr_Method := ''POST'', wr_Auth := ''mTLS+device_token''\<rparr>"
  have "snd (Mount c e d req s) = s \<or> (\<exists>hash. snd (Mount c e d req s) = snd (store_mount c e d req' hash s))"
    unfolding Mount_def Let_def req'_def [symmetric] by (auto split: option.split sum.split)
  then show ?thesis using store_mount_effect by metis
qed

lemma Mount_shut:
  assumes "shut_out dev ms s" "dv_DeviceID d \<noteq> dev"
  shows "shut_out dev ms (snd (Mount c e d req s))"
  using Mount_effect [of c e d req s] assms
  by (auto simp: shut_out_def revoked_row_def mounts_of_def insert_ignore_def split: option.split)

lemma Revoke_cases:
  obtains (refused) x where "Revoke c e caller req s db = (Inl x, s, db)"
  | (replayed) d where "Revoke c e caller req s db = (Inr \<lparr>rr_Device = d, SuspendedWorks = [], CascadeErr = []\<rparr>, s, db)"
      "rv_DeviceID req = dv_DeviceID caller" "GetDevice (Devices s) (dv_DeviceID caller) = Inr d" "dv_State d = StateRevoked"
  | (revoked) d d' suspended failures db' where "rv_DeviceID req = dv_DeviceID caller" "GetDevice (Devices s) (dv_DeviceID caller) = Inr d"
      "dv_State d \<noteq> StateRevoked" "d' = d\<lparr>dv_State := StateRevoked, RevokedAt := Now e 0\<rparr>"
      "suspend_missions c (call 0 e) 0 (dv_DeviceID caller) (ListMountWorkIDs (Devices s) (dv_DeviceID caller)) db = ((suspended, failures), db')"
      "Revoke c e caller req s db = (Inr \<lparr>rr_Device = d', SuspendedWorks = suspended, CascadeErr = failures\<rparr>,
         s\<lparr>Devices := PutDevice d' (Devices s)\<rparr>, db')"
proof (cases "WireValidate (WireRequest.truncate (req\<lparr>wr_Endpoint := EndpointRevoke, wr_Method := ''POST'', wr_Auth := ''mTLS+device_token''\<rparr>))")
  case (Some x)
  then show thesis using refused by (simp add: Revoke_def)
next
  case None
  show thesis
  proof (cases "rv_DeviceID req = dv_DeviceID caller")
    case False
    then show thesis using refused None by (simp add: Revoke_def)
  next
    case same: True
    show thesis
    proof (cases "GetDevice (Devices s) (dv_DeviceID caller)")
      case (Inl x)
      then show thesis using refused None same by (simp add: Revoke_def)
    next
      case (Inr d)
      obtain suspended failures db' where m: "suspend_missions c (call 0 e) 0 (dv_DeviceID caller)
          (ListMountWorkIDs (Devices s) (dv_DeviceID caller)) db = ((suspended, failures), db')"
        by (metis surj_pair)
      have l: "ListMountWorkIDs (PutDevice k (Devices s)) x = ListMountWorkIDs (Devices s) x" for k x
        by (simp add: ListMountWorkIDs_def)
      show thesis
      proof (cases "dv_State d = StateRevoked")
        case True
        then show thesis using replayed None same Inr by (simp add: Revoke_def)
      next
        case False
        then show thesis using revoked [OF same Inr False refl m] None same Inr m
          by (simp add: Revoke_def SuspendMissionsForDevice_def Let_def l)
      qed
    qed
  qed
qed

lemma Revoke_shut:
  assumes "shut_out dev ms s"
  shows "shut_out dev ms (fst (snd (Revoke c e caller req s db)))"
proof (cases rule: Revoke_cases [of c e caller req s db])
  case (revoked d d' suspended failures db')
  have row: "find_row dv_DeviceID (dv_DeviceID caller) (link_devices (Devices s)) = Some d" "dv_DeviceID d = dv_DeviceID caller"
    using GetDevice_row [OF revoked(2)] by auto
  have "dv_DeviceID d \<noteq> dev"
    using assms row revoked(3) by (auto simp: shut_out_def revoked_row_def)
  then show ?thesis
    using assms revoked(4,6) by (simp add: shut_out_def revoked_row_put)
qed (use assms in simp_all)

lemma linkDeviceAuth_row:
  assumes "linkDeviceAuth t now h s = Inr d"
  shows "find_row dv_DeviceID (dv_DeviceID d) (link_devices (Devices s)) = Some d"
proof -
  obtain cl :: tokenClaims where "GetDevice (Devices s) (tc_DeviceID cl) = Inr d"
    using assms by (auto simp: linkDeviceAuth_def AuthenticateToken_def split: if_splits sum.splits)
  from GetDevice_row [OF this] show ?thesis by auto
qed

lemma linkPair_shut: "shut_out dev ms s \<Longrightarrow> shut_out dev ms (snd (linkPair t e b s))"
  using ClaimPair_shut [of dev ms s t e] BeginPair_shut [of dev ms s e]
  by (auto simp: linkPair_def Let_def split: link_body.split option.split prod.split sum.split) (metis snd_conv)+

text \<open>One request, and any number of them.\<close>

definition link_step :: "codec \<Rightarrow> TokenIssuer \<Rightarrow> env \<times> link_request \<Rightarrow> Service option \<times> db \<Rightarrow> Service option \<times> db" where
  "link_step c t er st = snd (linkHandler c t (fst er) (snd er) (fst st) (snd st))"

definition locked :: "string \<Rightarrow> MountRecord list \<Rightarrow> Service option \<times> db \<Rightarrow> bool" where
  "locked dev ms st = (case fst st of None \<Rightarrow> True | Some s \<Rightarrow> shut_out dev ms s)"

lemma linkRevoke_shut: "shut_out dev ms s \<Longrightarrow> shut_out dev ms (fst (snd (linkRevoke c e b d s db)))"
proof (cases b)
  case (BodyRevoke req0)
  define req where "req = (if rv_DeviceID req0 = [] then req0\<lparr>rv_DeviceID := dv_DeviceID d\<rparr> else req0)"
  assume "shut_out dev ms s"
  from Revoke_shut [OF this, of c e d req db] show ?thesis
    by (cases "Revoke c e d req s db" rule: prod_cases3) (simp add: linkRevoke_def BodyRevoke Let_def req_def [symmetric] split: sum.split)
qed (simp_all add: linkRevoke_def)

lemma linkMounts_shut:
  "shut_out dev ms s \<Longrightarrow> dv_DeviceID d \<noteq> dev \<Longrightarrow> shut_out dev ms (snd (linkMounts c e b d s))"
proof (cases b)
  case (BodyMount req)
  assume "shut_out dev ms s" "dv_DeviceID d \<noteq> dev"
  from Mount_shut [OF this, of c e req] show ?thesis
    by (cases "Mount c e d req s") (simp add: linkMounts_def BodyMount split: sum.split)
qed (simp_all add: linkMounts_def)

lemma link_step_locked:
  assumes "locked dev ms st"
  shows "locked dev ms (link_step c t (e, r) st)"
proof (cases "fst st")
  case None
  then show ?thesis by (simp add: link_step_def linkHandler_def locked_def)
next
  case (Some s)
  obtain db where st: "st = (Some s, db)" using Some by (cases st) simp
  have shut: "shut_out dev ms s" using assms Some by (simp add: locked_def)
  have live: "dv_DeviceID d \<noteq> dev" if "linkDeviceAuth t (Now e 0) (lq_Authorization r) s = Inr d" "dv_State d \<noteq> StateRevoked" for d
    using linkDeviceAuth_row [OF that(1)] that(2) shut by (auto simp: shut_out_def revoked_row_def)
  obtain x1 s1 where p: "linkPair t (call 0 e) (lq_Body r) s = (x1, s1)" by fastforce
  have s1: "shut_out dev ms s1" using linkPair_shut [OF shut, of t "call 0 e" "lq_Body r"] by (simp add: p)
  show ?thesis
  proof (cases "linkDeviceAuth t (Now e 0) (lq_Authorization r) s")
    case (Inl x)
    then show ?thesis using shut s1 by (simp add: link_step_def linkHandler_def locked_def st Let_def p)
  next
    case (Inr d)
    obtain x2 s2 where m: "linkMounts c (call 0 e) (lq_Body r) d s = (x2, s2)" by fastforce
    have s2: "shut_out dev ms s2" if "dv_State d \<noteq> StateRevoked"
      using linkMounts_shut [OF shut live [OF Inr that], of c "call 0 e" "lq_Body r"] by (simp add: m)
    obtain x3 s3 db3 where v: "linkRevoke c (call 0 e) (lq_Body r) d s db = (x3, s3, db3)" by (metis surj_pair)
    have s3: "shut_out dev ms s3" using linkRevoke_shut [OF shut, of c "call 0 e" "lq_Body r" d db] by (simp add: v)
    show ?thesis using shut s1 s2 s3 by (simp add: link_step_def linkHandler_def locked_def st Let_def p m v Inr)
  qed
qed

interpretation link_ops: invariant_ops "link_step c t" "locked dev ms" for c t dev ms
  by unfold_locales (use link_step_locked in \<open>metis surj_pair\<close>)

text \<open>C15. A revoked device stays out: once a device is revoked and no outstanding pairing code is for it, then after any requests
  on the link routes, by any devices and in any order, it is still revoked, its mounts are the same, and no token authenticates as this device.\<close>

theorem revoked_device_stays_out:
  assumes "revoked_row dev (Devices s)" and "\<forall>p \<in> set (offers s). of_DeviceID (snd p) \<noteq> dev"
    and "fold (link_step c t) reqs (Some s, db) = (Some s', db')"
  shows "revoked_row dev (Devices s') \<and> mounts_of dev (Devices s') = mounts_of dev (Devices s)
    \<and> (\<forall>now raw d. Authenticate t now raw s' = Inr d \<longrightarrow> dv_DeviceID d \<noteq> dev)"
proof -
  have "locked dev (mounts_of dev (Devices s)) (Some s, db)"
    using assms(1,2) by (simp add: locked_def shut_out_def)
  then have "locked dev (mounts_of dev (Devices s)) (Some s', db')"
    using link_ops.inv_run assms(3) by metis
  then have out: "revoked_row dev (Devices s')" "mounts_of dev (Devices s') = mounts_of dev (Devices s)"
    by (simp_all add: locked_def shut_out_def)
  have "dv_DeviceID d \<noteq> dev" if a: "Authenticate t now raw s' = Inr d" for now raw d
  proof -
    obtain cl :: tokenClaims where "GetDevice (Devices s') (tc_DeviceID cl) = Inr d" "dv_State d \<noteq> StateRevoked"
      using a by (auto simp: Authenticate_def AuthenticateToken_def split: if_splits sum.splits)
    with GetDevice_row [OF this(1)] out(1) show ?thesis by (auto simp: revoked_row_def)
  qed
  then show ?thesis using out by blast
qed

section \<open>Revocation stops the device's missions\<close>

lemma set_first_mounts: "mt_WorkID ` set (first_mounts seen ms) = mt_WorkID ` set ms - seen"
  by (induction seen ms rule: first_mounts.induct) auto

lemma set_ListMountWorkIDs: "set (ListMountWorkIDs l dev) = mt_WorkID ` set (mounts_of dev l)"
  by (simp add: ListMountWorkIDs_def set_first_mounts mounts_of_def)

text \<open>Revocation is authoritative, cascades once and reaches only what the device mounted: after a successful revocation the device is stored as revoked;
  when it was revoked already nothing changes at all; otherwise every Work keeps its contract and its state except
  that active missions the device had mounted may have become SUSPENDED, every identifier reported as suspended is SUSPENDED with a stored
  checkpoint, and every active mission the device had mounted is reported, as suspended or as a failure.\<close>

theorem revoke_cascade:
  assumes "Revoke c e caller req s db = (Inr res, s', db')"
  shows "GetDevice (Devices s') (dv_DeviceID caller) = Inr (rr_Device res) \<and> dv_State (rr_Device res) = StateRevoked
    \<and> (revoked_row (dv_DeviceID caller) (Devices s) \<longrightarrow> s' = s \<and> db' = db \<and> SuspendedWorks res = [] \<and> CascadeErr res = [])
    \<and> stopped_from (mt_WorkID ` set (mounts_of (dv_DeviceID caller) (Devices s))) db db'
    \<and> (\<forall>k \<in> set (SuspendedWorks res). has_checkpoint k db' \<and> (\<exists>w'. get_row k db' = Some w' \<and> work_State w' = StateSuspended))
    \<and> (revoked_row (dv_DeviceID caller) (Devices s) \<or> (\<forall>m \<in> set (mounts_of (dv_DeviceID caller) (Devices s)). \<forall>w.
         get_row (mt_WorkID m) db = Some w \<longrightarrow> stoppable w \<longrightarrow>
           mt_WorkID m \<in> set (SuspendedWorks res) \<or> mt_WorkID m \<in> fst ` set (CascadeErr res)))"
proof (cases rule: Revoke_cases [of c e caller req s db])
  case (refused x)
  then show ?thesis using assms by simp
next
  case (replayed d)
  have "revoked_row (dv_DeviceID caller) (Devices s)"
    using GetDevice_row [OF replayed(3)] replayed(4) by (auto simp: revoked_row_def)
  moreover have "stopped_from A db db" for A by (simp add: stopped_from_def)
  ultimately show ?thesis using assms replayed by auto
next
  case (revoked d d' suspended failures db'')
  note row = GetDevice_row [OF revoked(2)]
  have "\<not> revoked_row (dv_DeviceID caller) (Devices s)" using row revoked(3) by (auto simp: revoked_row_def)
  moreover have "dv_Scopes d' \<noteq> []" "dv_DeviceID d' = dv_DeviceID caller" "dv_State d' = StateRevoked"
    using revoked(2,4) row by (auto simp: GetDevice_def split: option.splits if_splits)
  then have "GetDevice (PutDevice d' (Devices s)) (dv_DeviceID caller) = Inr d'"
    using kernel.get_put [of d' "Devices s" "dv_DeviceID caller"] by simp
  moreover have "res = \<lparr>rr_Device = d', SuspendedWorks = suspended, CascadeErr = failures\<rparr>"
    "s' = s\<lparr>Devices := PutDevice d' (Devices s)\<rparr>" "db'' = db'"
    using assms revoked(6) by simp_all
  moreover note suspend_missions_effect [OF revoked(5), unfolded set_ListMountWorkIDs]
  ultimately show ?thesis using \<open>dv_State d' = StateRevoked\<close> by auto
qed

section \<open>Tokens\<close>

definition minted_claims :: "TokenIssuer \<Rightarrow> env \<Rightarrow> Device \<Rightarrow> tokenClaims" where
  "minted_claims t e d = \<lparr>tc_DeviceID = dv_DeviceID d, ScopeKey = claimsDigest t d,
     tc_IssuedAt = Unix (Now e 0), tc_ExpiresAt = Unix (Now e 1 + TTL t)\<rparr>"

text \<open>A device token lives for its TTL, to the second: a minted token is accepted, with the claims it was minted with, until
  its expiry cut down to whole seconds, and refused as expired at every later time, in particular whenever more than the TTL has passed; it is never
  refused before the TTL is within one second of running out. It is assumed that the texts of the claims and of the signature
  contain no dot and that the claims decode from their own text.\<close>

theorem token_lifetime:
  assumes "CHR ''.'' \<notin> set (claims_text t (minted_claims t e d))" "CHR ''.'' \<notin> set (mac t (claims_text t (minted_claims t e d)))"
    and "claims_of t (claims_text t (minted_claims t e d)) = Some (minted_claims t e d)"
  shows "(TokenVerify t now (Mint t e d) = Inr (minted_claims t e d) \<or> TokenVerify t now (Mint t e d) = Inl ErrExpired)
    \<and> (Now e 1 + TTL t < now \<longrightarrow> TokenVerify t now (Mint t e d) = Inl ErrExpired)
    \<and> (now + Second \<le> Now e 1 + TTL t \<longrightarrow> TokenVerify t now (Mint t e d) = Inr (minted_claims t e d))"
proof -
  let ?x = "Now e 1 + TTL t"
  have b: "from_unix (Unix ?x) \<le> ?x" "?x < from_unix (Unix ?x) + Second" by (rule from_unix_bounds)+
  have mint: "Mint t e d = claims_text t (minted_claims t e d) @ CHR ''.'' # mac t (claims_text t (minted_claims t e d))"
    by (simp add: Mint_def minted_claims_def Let_def)
  have "TokenVerify t now (Mint t e d) = (if from_unix (Unix ?x) < now then Inl ErrExpired else Inr (minted_claims t e d))"
    unfolding TokenVerify_def splitToken_def mint Split_two [OF assms(1,2)]
    using assms(3) by (simp add: minted_claims_def)
  then show ?thesis using b by auto
qed

text \<open>Re-pairing within the same second with the same scopes leaves the digest, and with it every token minted before, as it was.\<close>

lemma repair_in_same_second_keeps_tokens:
  assumes "dv_DeviceID d' = dv_DeviceID d" "dv_Scopes d' = dv_Scopes d" "PairedAt d' div Second = PairedAt d div Second"
  shows "claimsDigest t d' = claimsDigest t d"
  using assms by (simp add: claimsDigest_def)

section \<open>Concrete runs\<close>

definition demo_device :: "DeviceState \<Rightarrow> Device" where
  "demo_device st = \<lparr>dv_DeviceID = ''dev_a'', dv_Scopes = [ScopeT1Read], dv_State = st, PairedAt = 0, RevokedAt = 0\<rparr>"

definition demo_service :: "DeviceState \<Rightarrow> Offer gomap \<Rightarrow> Service" where
  "demo_service st os = \<lparr>Devices = \<lparr>link_devices = [demo_device st],
     link_mounts = [\<lparr>mt_ID = ''m1'', mt_DeviceID = ''dev_a'', mt_WorkID = ''w1'', mt_PayloadHash = ''h'', mt_Scope = ScopeT1Read,
       mt_PurposeBinding = ''w1'', mt_CreatedAt = 0\<rparr>]\<rparr>, offers = os\<rparr>"

definition demo_issuer :: TokenIssuer where
  "demo_issuer = \<lparr>claims_text = (\<lambda>_. ''t''), claims_of = (\<lambda>_. None), mac = (\<lambda>_. ''m''), digest = (\<lambda>s. s), second_text = (\<lambda>_. []),
     TTL = TokenTTL\<rparr>"

definition demo_codec :: codec where
  "demo_codec = two_texts JNull JNull"

definition demo_begin :: link_request where
  "demo_begin = \<lparr>lq_Path = ''/link/v1/pair'', lq_Method = ''POST'', lq_Authorization = [],
     lq_Body = BodyPair [(''device_id'', JStr ''dev_a''), (''scopes'', JArr [JStr ScopeT1Read])]\<rparr>"

theorem revoked_device_stays_out_witness:
  "fold (link_step demo_codec demo_issuer) [(clock 5, demo_begin)] (Some (demo_service StateRevoked []), empty_db)
      = (Some (demo_service StateRevoked []), empty_db)
   \<and> revoked_row ''dev_a'' (Devices (demo_service StateRevoked []))
   \<and> (\<nexists>now raw d. Authenticate demo_issuer now raw (demo_service StateRevoked []) = Inr d \<and> dv_DeviceID d = ''dev_a'')"
proof -
  have r: "revoked_row ''dev_a'' (Devices (demo_service StateRevoked []))"
    by (simp add: revoked_row_def demo_service_def demo_device_def)
  have o: "\<forall>p \<in> set (offers (demo_service StateRevoked [])). of_DeviceID (snd p) \<noteq> ''dev_a''"
    by (simp add: demo_service_def)
  have f: "fold (link_step demo_codec demo_issuer) [(clock 5, demo_begin)] (Some (demo_service StateRevoked []), empty_db)
      = (Some (demo_service StateRevoked []), empty_db)" by code_simp
  show ?thesis using revoked_device_stays_out [OF r o f] f by blast
qed

definition demo_revoke :: RevokeRequest where
  "demo_revoke = \<lparr>wr_Endpoint = [], wr_Method = [], wr_Auth = [], wr_Scope = [], wr_IdempotencyKey = [], wr_PayloadHash = [],
     rv_DeviceID = ''dev_a''\<rparr>"

definition demo_offer :: Offer where
  "demo_offer = \<lparr>of_Code = ''ABCDEF'', of_DeviceID = ''dev_a'', of_Scopes = [ScopeT1Read], of_ExpiresAt = 99\<rparr>"

text \<open>A pairing code outlives the revocation of its device: a device with an outstanding code that revokes itself is revoked, and claiming the code
  afterwards pairs it again, with a fresh token, although a revoked device may not begin to pair.\<close>

theorem claim_after_revoke_pairs_again:
  "let s = demo_service StatePaired [(''ABCDEF'', demo_offer)];
       s1 = fst (snd (Revoke demo_codec (clock 5) (demo_device StatePaired) demo_revoke s empty_db));
       s2 = snd (ClaimPair demo_issuer (clock 6) \<lparr>pc_DeviceID = ''dev_a'', pc_SASCode = ''ABCDEF''\<rparr> s1)
   in map dv_State (link_devices (Devices s1)) = [StateRevoked] \<and> map dv_State (link_devices (Devices s2)) = [StatePaired]"
  by code_simp

theorem token_lifetime_witness:
  "\<exists>t. TokenVerify t (23 * Hour) (Mint t (clock 0) (demo_device StatePaired)) = Inr (minted_claims t (clock 0) (demo_device StatePaired))
     \<and> TokenVerify t (25 * Hour) (Mint t (clock 0) (demo_device StatePaired)) = Inl ErrExpired"
proof -
  let ?d = "demo_device StatePaired"
  let ?t = "demo_issuer\<lparr>claims_of := (\<lambda>_. Some (minted_claims demo_issuer (clock 0) ?d))\<rparr>"
  have same: "minted_claims ?t (clock 0) ?d = minted_claims demo_issuer (clock 0) ?d"
    by (simp add: minted_claims_def claimsDigest_def demo_issuer_def)
  have a: "CHR ''.'' \<notin> set (claims_text ?t (minted_claims ?t (clock 0) ?d))"
    "CHR ''.'' \<notin> set (mac ?t (claims_text ?t (minted_claims ?t (clock 0) ?d)))"
    "claims_of ?t (claims_text ?t (minted_claims ?t (clock 0) ?d)) = Some (minted_claims ?t (clock 0) ?d)"
    using same by (simp_all add: demo_issuer_def)
  have n: "Now (clock 0) 1 + TTL ?t = 24 * Hour" by (simp add: Now_def clock_def demo_issuer_def TokenTTL_def)
  have "25 * Hour > 24 * Hour" "23 * Hour + Second \<le> 24 * Hour" by (simp_all add: Hour_def Second_def)
  then show ?thesis using token_lifetime [OF a, of "23 * Hour"] token_lifetime [OF a, of "25 * Hour"] n by auto
qed

theorem revoke_cascade_witness:
  "\<exists>res s' db'. Revoke (two_texts (handoff_json (revokeCascadeHandoff ''dev_a'')) JNull) (clock 5) (demo_device StatePaired) demo_revoke
       (demo_service StatePaired []) mission_db = (Inr res, s', db')
     \<and> SuspendedWorks res = [''w1''] \<and> dv_State (rr_Device res) = StateRevoked \<and> has_checkpoint ''w1'' db'"
proof -
  let ?r = "Revoke (two_texts (handoff_json (revokeCascadeHandoff ''dev_a'')) JNull) (clock 5) (demo_device StatePaired) demo_revoke
       (demo_service StatePaired []) mission_db"
  have ok: "isl (fst ?r) = False" "SuspendedWorks (projr (fst ?r)) = [''w1'']" by code_simp+
  obtain res s' db' where r: "?r = (Inr res, s', db')"
    using ok(1) by (cases ?r rule: prod_cases3; cases "fst ?r") auto
  then have "SuspendedWorks res = [''w1'']" using ok(2) by simp
  then show ?thesis using revoke_cascade [OF r] r by auto
qed

end
