(* ===== verification/Release_Rings.thy ===== *)
theory Release_Rings
  imports Go_Prelude
begin

text \<open>
  The promotion law of releases (\<^verbatim>\<open>packages/release/release.go\<close>): a release moves along the rings internal, alpha, beta, stable,
  forward one ring at a time with \<^verbatim>\<open>Advance\<close> and backward with \<^verbatim>\<open>Revert\<close>. A nil receiver is \<open>None\<close>. The injectable clock is not a field of
  the record: each operation reads it at most once, and that reading is the argument \<open>clock\<close>. The deep copy made by \<^verbatim>\<open>clone\<close> is the identity on values.
\<close>

section \<open>Releases\<close>

definition RingInternal :: string where "RingInternal = ''internal''"
definition RingAlpha :: string where "RingAlpha = ''alpha''"
definition RingBeta :: string where "RingBeta = ''beta''"
definition RingStable :: string where "RingStable = ''stable''"

lemmas ring_names = RingInternal_def RingAlpha_def RingBeta_def RingStable_def

definition RingOrder :: "string list" where
  "RingOrder = [RingInternal, RingAlpha, RingBeta, RingStable]"

definition BetaSoakHours :: int where "BetaSoakHours = 48"

record RevertEvent =
  re_From :: string
  re_To :: string
  re_Reason :: string
  re_At :: time

record Release =
  Version :: string
  Ring :: string
  KillSwitch :: "string list"
  SoakStartedAt :: "time gomap"
  RevertLog :: "RevertEvent list"

record FreezeEvidence =
  ManifestSHA256 :: string
  ContractTestsPass :: bool

datatype release_error = ErrReleaseRequired | ErrUnknownRing string | ErrVersionRequired | ErrVersionInvalid string
  | ErrKillSwitchRequired string | ErrRingSkipped string string | ErrRingBackwards string string | ErrAlreadyInRing string
  | ErrBetaUndercooked duration | ErrFreezeEvidenceRequired | ErrFreezeEvidenceMultiple | ErrFreezeMissing string
  | ErrContractsRed | ErrRevertReasonRequired | ErrRevertNotBackwards string string

text \<open>The position of a ring on the ladder (\<open>None\<close> where the code returns false).\<close>

fun index_from :: "nat \<Rightarrow> string list \<Rightarrow> string \<Rightarrow> nat option" where
  "index_from i [] ring = None"
| "index_from i (r # rs) ring = (if r = ring then Some i else index_from (Suc i) rs ring)"

definition ringIndex :: "string \<Rightarrow> nat option" where
  "ringIndex ring = index_from 0 RingOrder ring"

text \<open>The pattern \<^verbatim>\<open>^v?[0-9]+\.[0-9]+\.[0-9]+$\<close>.\<close>

definition versionPattern :: "string \<Rightarrow> bool" where
  "versionPattern s = (let parts = Split (if HasPrefix s ''v'' then drop 1 s else s) CHR ''.''
     in length parts = 3 \<and> list_all (\<lambda>p. p \<noteq> [] \<and> list_all is_digit p) parts)"

section \<open>Operations\<close>

definition ReleaseValidate :: "Release option \<Rightarrow> release_error option" where
  "ReleaseValidate ro = (case ro of None \<Rightarrow> Some ErrReleaseRequired
     | Some r \<Rightarrow>
       if ringIndex (Ring r) = None then Some (ErrUnknownRing (Ring r))
       else if Version r = [] then Some ErrVersionRequired
       else if \<not> versionPattern (Version r) then Some (ErrVersionInvalid (Version r))
       else if Ring r \<noteq> RingInternal \<and> KillSwitch r = [] then Some (ErrKillSwitchRequired (Ring r))
       else None)"

definition CheckFreeze :: "string \<Rightarrow> bool \<Rightarrow> release_error option" where
  "CheckFreeze manifest pass =
     (if \<not> sha256_hex (TrimSpace manifest) then Some (ErrFreezeMissing manifest)
      else if \<not> pass then Some ErrContractsRed else None)"

text \<open>The guards of \<^verbatim>\<open>Advance\<close> in their order: the step, the soak, the freeze evidence.\<close>

definition step_refusal :: "string \<Rightarrow> string \<Rightarrow> release_error option" where
  "step_refusal current target = (case ringIndex target of None \<Rightarrow> Some (ErrUnknownRing target)
     | Some ti \<Rightarrow> (case ringIndex current of None \<Rightarrow> Some (ErrUnknownRing current)
       | Some ci \<Rightarrow>
         if ti = ci then Some (ErrAlreadyInRing target)
         else if ti < ci then Some (ErrRingBackwards current target)
         else if ti > ci + 1 then Some (ErrRingSkipped current target) else None))"

definition soak_refusal :: "Release \<Rightarrow> string \<Rightarrow> time \<Rightarrow> release_error option" where
  "soak_refusal r target now =
     (if Ring r = RingBeta \<and> target = RingStable then
        let soak = (case map_of (SoakStartedAt r) RingBeta of None \<Rightarrow> 0 | Some entered \<Rightarrow> Sub now entered)
        in if soak < BetaSoakHours * Hour then Some (ErrBetaUndercooked soak) else None
      else None)"

definition freeze_refusal :: "string \<Rightarrow> FreezeEvidence option list \<Rightarrow> release_error option" where
  "freeze_refusal target evidence =
     (if target = RingStable then
        if length evidence > 1 then Some ErrFreezeEvidenceMultiple
        else case evidence of (Some ev) # _ \<Rightarrow> CheckFreeze (ManifestSHA256 ev) (ContractTestsPass ev)
          | _ \<Rightarrow> Some ErrFreezeEvidenceRequired
      else None)"

text \<open>The moved copy, re-validated.\<close>

definition settle :: "Release \<Rightarrow> release_error + Release" where
  "settle out = (case ReleaseValidate (Some out) of Some x \<Rightarrow> Inl x | None \<Rightarrow> Inr out)"

definition Advance ::
  "time \<Rightarrow> Release option \<Rightarrow> string \<Rightarrow> time \<Rightarrow> FreezeEvidence option list \<Rightarrow> release_error + Release" where
  "Advance clock ro target at evidence = (case ReleaseValidate ro of Some x \<Rightarrow> Inl x
     | None \<Rightarrow> let r = the ro in
       case step_refusal (Ring r) target of Some x \<Rightarrow> Inl x
       | None \<Rightarrow> let now = (if IsZero at then clock else at) in
         case soak_refusal r target now of Some x \<Rightarrow> Inl x
         | None \<Rightarrow> (case freeze_refusal target evidence of Some x \<Rightarrow> Inl x
           | None \<Rightarrow> settle (r\<lparr>Ring := target, SoakStartedAt := AList.update target now (SoakStartedAt r)\<rparr>)))"

definition Revert :: "time \<Rightarrow> Release option \<Rightarrow> string \<Rightarrow> string \<Rightarrow> release_error + Release" where
  "Revert clock ro target reason = (case ReleaseValidate ro of Some x \<Rightarrow> Inl x
     | None \<Rightarrow> let r = the ro in
       if TrimSpace reason = [] then Inl ErrRevertReasonRequired
       else case ringIndex target of None \<Rightarrow> Inl (ErrUnknownRing target)
       | Some ti \<Rightarrow> let ci = the (ringIndex (Ring r)) in
         if ti = ci then Inl (ErrAlreadyInRing target)
         else if ti > ci then Inl (ErrRevertNotBackwards (Ring r) target)
         else settle (r\<lparr>Ring := target, SoakStartedAt := AList.update target clock (SoakStartedAt r),
                RevertLog := RevertLog r @ [\<lparr>re_From = Ring r, re_To = target, re_Reason = reason, re_At = clock\<rparr>]\<rparr>))"

section \<open>Ring positions\<close>

lemma rings_differ [simp]:
  "RingInternal \<noteq> RingAlpha" "RingInternal \<noteq> RingBeta" "RingInternal \<noteq> RingStable" "RingAlpha \<noteq> RingInternal"
  "RingAlpha \<noteq> RingBeta" "RingAlpha \<noteq> RingStable" "RingBeta \<noteq> RingInternal" "RingBeta \<noteq> RingAlpha"
  "RingBeta \<noteq> RingStable" "RingStable \<noteq> RingInternal" "RingStable \<noteq> RingAlpha" "RingStable \<noteq> RingBeta"
  by (simp_all add: ring_names)

lemma ringIndex_cases:
  "ringIndex ring = Some i \<longleftrightarrow> (i = 0 \<and> ring = RingInternal) \<or> (i = 1 \<and> ring = RingAlpha)
     \<or> (i = 2 \<and> ring = RingBeta) \<or> (i = 3 \<and> ring = RingStable)"
  by (auto simp: ringIndex_def RingOrder_def)

lemma ring_at [simp]:
  "ringIndex RingInternal = Some 0" "ringIndex RingAlpha = Some 1" "ringIndex RingBeta = Some 2" "ringIndex RingStable = Some 3"
  by (simp_all add: ringIndex_cases)

lemma ringIndex_inject: "ringIndex x = Some i \<Longrightarrow> ringIndex y = Some i \<Longrightarrow> x = y"
  by (auto simp: ringIndex_cases)

definition level :: "Release \<Rightarrow> nat" where
  "level r = the (ringIndex (Ring r))"

definition valid :: "Release \<Rightarrow> bool" where
  "valid r \<longleftrightarrow> ReleaseValidate (Some r) = None"

lemma valid_iff: "valid r \<longleftrightarrow> (\<exists>i. ringIndex (Ring r) = Some i) \<and> versionPattern (Version r)
    \<and> (Ring r \<noteq> RingInternal \<longrightarrow> KillSwitch r \<noteq> [])"
  by (auto simp: valid_def ReleaseValidate_def versionPattern_def HasPrefix_def)

lemma settle_Inr: "settle out = Inr r' \<longleftrightarrow> valid out \<and> r' = out"
  by (auto simp: settle_def valid_def split: option.splits)

lemma validate_Some: "ReleaseValidate ro = None \<longleftrightarrow> (\<exists>r. ro = Some r \<and> valid r)"
  by (cases ro) (simp_all add: valid_def ReleaseValidate_def)

lemma step_refusal_None:
  "step_refusal x y = None \<longleftrightarrow> (\<exists>i. ringIndex x = Some i \<and> ringIndex y = Some (Suc i))"
  by (auto simp: step_refusal_def split: option.splits)

lemma Sub_ge: "0 \<le> k \<Longrightarrow> k < 2 ^ 63 \<Longrightarrow> k \<le> Sub t u \<longleftrightarrow> u + k \<le> t"
  by (auto simp: Sub_def)

lemma soak_bound: "BetaSoakHours * Hour < 2 ^ 63" "0 < BetaSoakHours * Hour"
  by (simp_all add: BetaSoakHours_def Hour_def Second_def)

lemma soak_refusal_None:
  "soak_refusal r target now = None \<longleftrightarrow> (Ring r = RingBeta \<longrightarrow> target = RingStable \<longrightarrow>
     (\<exists>entered. map_of (SoakStartedAt r) RingBeta = Some entered \<and> entered + BetaSoakHours * Hour \<le> now))"
proof -
  have ge: "\<not> Sub now u < BetaSoakHours * Hour \<longleftrightarrow> u + BetaSoakHours * Hour \<le> now" for u
    using soak_bound Sub_ge [of "BetaSoakHours * Hour" now u] by (simp add: not_less)
  show ?thesis
  proof (cases "map_of (SoakStartedAt r) RingBeta")
    case None
    then show ?thesis using soak_bound by (simp add: soak_refusal_def)
  next
    case (Some u)
    then show ?thesis using ge [of u] by (auto simp: soak_refusal_def)
  qed
qed

definition attested :: "FreezeEvidence option list \<Rightarrow> bool" where
  "attested evidence \<longleftrightarrow> (\<exists>ev. evidence = [Some ev] \<and> sha256_hex (TrimSpace (ManifestSHA256 ev)) \<and> ContractTestsPass ev)"

lemma freeze_refusal_None: "freeze_refusal target evidence = None \<longleftrightarrow> (target = RingStable \<longrightarrow> attested evidence)"
  by (auto simp: freeze_refusal_def attested_def CheckFreeze_def split: list.splits option.splits)

section \<open>When a move succeeds\<close>

definition moved :: "Release \<Rightarrow> string \<Rightarrow> time \<Rightarrow> RevertEvent list \<Rightarrow> Release" where
  "moved r target now log = r\<lparr>Ring := target, SoakStartedAt := AList.update target now (SoakStartedAt r), RevertLog := RevertLog r @ log\<rparr>"

lemma moved_simps [simp]:
  "Ring (moved r target now log) = target" "Version (moved r target now log) = Version r"
  "KillSwitch (moved r target now log) = KillSwitch r" "RevertLog (moved r target now log) = RevertLog r @ log"
  "map_of (SoakStartedAt (moved r target now log)) x = (if x = target then Some now else map_of (SoakStartedAt r) x)"
  by (simp_all add: moved_def update_conv)

lemma moved_eqs:
  "r\<lparr>Ring := target, SoakStartedAt := AList.update target now (SoakStartedAt r)\<rparr> = moved r target now []"
  "r\<lparr>Ring := target, SoakStartedAt := AList.update target now (SoakStartedAt r), RevertLog := RevertLog r @ log\<rparr> = moved r target now log"
  by (simp_all add: moved_def)

lemma Advance_Inr:
  "Advance clock (Some r) target at evidence = Inr r' \<longleftrightarrow> valid r \<and> step_refusal (Ring r) target = None
     \<and> soak_refusal r target (if IsZero at then clock else at) = None \<and> freeze_refusal target evidence = None
     \<and> settle (moved r target (if IsZero at then clock else at) []) = Inr r'"
  unfolding Advance_def valid_def moved_eqs Let_def by (simp split: option.split)

lemma Revert_Inr:
  "Revert clock (Some r) target reason = Inr r' \<longleftrightarrow> valid r \<and> TrimSpace reason \<noteq> []
     \<and> (\<exists>i. ringIndex target = Some i \<and> i < level r)
     \<and> settle (moved r target clock [\<lparr>re_From = Ring r, re_To = target, re_Reason = reason, re_At = clock\<rparr>]) = Inr r'"
  unfolding Revert_def valid_def moved_eqs(2) Let_def level_def by (auto split: option.split)

lemma valid_moved: "valid r \<Longrightarrow> ringIndex target = Some i \<Longrightarrow>
    valid (moved r target now log) \<longleftrightarrow> target = RingInternal \<or> KillSwitch r \<noteq> []"
  by (auto simp: valid_iff)

lemma level_Some: "valid r \<Longrightarrow> ringIndex (Ring r) = Some (level r)"
  by (auto simp: valid_iff level_def)

lemma advance_when:
  "Advance clock (Some r) target at evidence = Inr r' \<longleftrightarrow>
     valid r \<and> ringIndex target = Some (Suc (level r)) \<and> KillSwitch r \<noteq> []
     \<and> (target = RingStable \<longrightarrow> attested evidence \<and>
          (\<exists>entered. map_of (SoakStartedAt r) RingBeta = Some entered
             \<and> entered + BetaSoakHours * Hour \<le> (if IsZero at then clock else at)))
     \<and> r' = moved r target (if IsZero at then clock else at) []"
proof (cases "valid r \<and> ringIndex target = Some (Suc (level r))")
  case True
  then have v: "valid r" and t: "ringIndex target = Some (Suc (level r))" by simp_all
  note i = level_Some [OF v]
  have step: "step_refusal (Ring r) target = None" using i t by (simp add: step_refusal_None)
  have beta: "target = RingStable \<Longrightarrow> Ring r = RingBeta" using i t by (auto simp: ringIndex_cases)
  have "target \<noteq> RingInternal" using t by (auto simp: ringIndex_cases)
  then have ok: "valid (moved r target now []) \<longleftrightarrow> KillSwitch r \<noteq> []" for now
    using valid_moved [OF v t] by blast
  show ?thesis
    unfolding Advance_Inr settle_Inr soak_refusal_None freeze_refusal_None ok using v t step beta by blast
next
  case False
  then have "\<not> (valid r \<and> step_refusal (Ring r) target = None)"
    using level_Some by (auto simp: step_refusal_None)
  with False show ?thesis unfolding Advance_Inr by blast
qed

lemma revert_when:
  "Revert clock (Some r) target reason = Inr r' \<longleftrightarrow> valid r \<and> TrimSpace reason \<noteq> []
     \<and> (\<exists>i. ringIndex target = Some i \<and> i < level r)
     \<and> r' = moved r target clock [\<lparr>re_From = Ring r, re_To = target, re_Reason = reason, re_At = clock\<rparr>]"
proof -
  have "valid (moved r target now log)" if v: "valid r" and i: "ringIndex target = Some i" "i < level r" for now log i
  proof -
    have "Ring r \<noteq> RingInternal" using i level_Some [OF v] by auto
    then have "KillSwitch r \<noteq> []" using v by (simp add: valid_iff)
    then show ?thesis using valid_moved [OF v i(1)] by blast
  qed
  then show ?thesis unfolding Revert_Inr settle_Inr by blast
qed

section \<open>Histories\<close>

inductive moves :: "Release \<Rightarrow> Release \<Rightarrow> bool" where
  forward: "Advance clock (Some r) target at evidence = Inr r' \<Longrightarrow> moves r r'"
| backward: "Revert clock (Some r) target reason = Inr r' \<Longrightarrow> moves r r'"

text \<open>The successive states of one release, oldest first.\<close>

inductive history :: "Release list \<Rightarrow> bool" where
  start: "valid r \<Longrightarrow> history [r]"
| extend: "history (h @ [r]) \<Longrightarrow> moves r r' \<Longrightarrow> history (h @ [r, r'])"

inductive_cases moves_cases: "moves r r'"

lemma moves_shape:
  assumes "moves r r'"
  shows "valid r \<and> valid r' \<and> Version r' = Version r \<and> KillSwitch r' = KillSwitch r
    \<and> (level r' = Suc (level r) \<and> RevertLog r' = RevertLog r
       \<or> level r' < level r \<and> (\<exists>reason at. TrimSpace reason \<noteq> []
            \<and> RevertLog r' = RevertLog r @ [\<lparr>re_From = Ring r, re_To = Ring r', re_Reason = reason, re_At = at\<rparr>]))"
  using assms
proof (rule moves_cases)
  fix clock target at evidence
  assume a: "Advance clock (Some r) target at evidence = Inr r'"
  then have "valid r'" by (auto simp: Advance_Inr settle_Inr)
  then show ?thesis using a unfolding advance_when by (auto simp: level_def)
next
  fix clock target reason
  assume a: "Revert clock (Some r) target reason = Inr r'"
  then have "valid r'" by (auto simp: Revert_Inr settle_Inr)
  then show ?thesis using a unfolding revert_when by (auto simp: level_def)
qed

lemma moves_to_stable:
  assumes "moves r r'" "Ring r' = RingStable"
  shows "Ring r = RingBeta \<and> KillSwitch r' \<noteq> [] \<and> (\<exists>entered promoted. map_of (SoakStartedAt r') RingBeta = Some entered
    \<and> map_of (SoakStartedAt r') RingStable = Some promoted \<and> entered + BetaSoakHours * Hour \<le> promoted)"
  using assms(1)
proof (rule moves_cases)
  fix clock target at evidence
  assume "Advance clock (Some r) target at evidence = Inr r'"
  note a = this [unfolded advance_when]
  have t: "target = RingStable" using a assms(2) by simp
  moreover have "Ring r = RingBeta" using a t level_Some [of r] by (auto simp: ringIndex_cases)
  ultimately show ?thesis using a by auto
next
  fix clock target reason
  assume "Revert clock (Some r) target reason = Inr r'"
  then have "valid r" "target = RingStable" "\<exists>i. ringIndex target = Some i \<and> i < level r"
    using assms(2) by (auto simp: revert_when)
  then show ?thesis using level_Some [of r] by (auto simp: ringIndex_cases)
qed

lemma history_nonempty: "history hs \<Longrightarrow> hs \<noteq> []"
  by (induction rule: history.induct) auto

lemma history_valid: "history hs \<Longrightarrow> valid (last hs)"
  by (induction rule: history.induct) (auto dest: moves_shape)

lemma history_same_release:
  "history hs \<Longrightarrow> r \<in> set hs \<Longrightarrow> Version r = Version (last hs) \<and> KillSwitch r = KillSwitch (last hs)"
proof (induction arbitrary: r rule: history.induct)
  case (extend h x y)
  have "Version y = Version x \<and> KillSwitch y = KillSwitch x" using moves_shape [OF extend.hyps(2)] by simp
  then show ?case using extend.IH [of r] extend.prems by auto
qed simp

text \<open>The ladder has no gaps: a history that climbs from one level to another passes every level between them.\<close>

lemma history_visits:
  "history hs \<Longrightarrow> level (hd hs) \<le> k \<Longrightarrow> k \<le> level (last hs) \<Longrightarrow> \<exists>r \<in> set hs. level r = k"
proof (induction rule: history.induct)
  case (start r)
  then show ?case by auto
next
  case (extend h r r')
  have up: "level r' \<le> Suc (level r)" using moves_shape [OF extend.hyps(2)] by auto
  show ?case
  proof (cases "k = level r'")
    case False
    with up extend.prems have "k \<le> level (last (h @ [r]))" by simp
    moreover have "level (hd (h @ [r])) \<le> k" using extend.prems by (cases h) auto
    ultimately show ?thesis using extend.IH by auto
  qed auto
qed

text \<open>C16. A release that started below stable and is in stable got there lawfully, whatever promotions and reverts led to it: it has a kill switch and the version it
  started with, it was in every ring from the one it started in up to stable, and the recorded entry into stable is at least 48 hours after the recorded
  entry into beta.\<close>

theorem stable_reached_lawfully:
  assumes "history hs" and "Ring (hd hs) \<noteq> RingStable" and "Ring (last hs) = RingStable"
  shows "KillSwitch (last hs) \<noteq> [] \<and> Version (last hs) = Version (hd hs)
    \<and> (\<forall>k. level (hd hs) \<le> k \<longrightarrow> k \<le> 3 \<longrightarrow> (\<exists>r \<in> set hs. level r = k))
    \<and> (\<exists>entered promoted. map_of (SoakStartedAt (last hs)) RingBeta = Some entered
         \<and> map_of (SoakStartedAt (last hs)) RingStable = Some promoted \<and> entered + 48 * Hour \<le> promoted)"
proof -
  have "hd hs \<in> set hs" using history_nonempty [OF assms(1)] by simp
  then have version: "Version (hd hs) = Version (last hs)" using history_same_release [OF assms(1)] by blast
  have "level (last hs) = 3" using assms(3) by (simp add: level_def)
  then have visits: "\<exists>r \<in> set hs. level r = k" if "level (hd hs) \<le> k" "k \<le> 3" for k
    using history_visits [OF assms(1) that(1)] that(2) by simp
  obtain r where "moves r (last hs)"
    using assms by (cases rule: history.cases) auto
  from moves_to_stable [OF this assms(3)] show ?thesis
    using version visits unfolding BetaSoakHours_def by auto
qed

text \<open>The downgrades of a history, in order.\<close>

definition downgrades :: "Release list \<Rightarrow> (string \<times> string) list" where
  "downgrades hs = map (\<lambda>(x, y). (Ring x, Ring y)) (filter (\<lambda>(x, y). level y < level x) (zip hs (tl hs)))"

lemma downgrades_extend:
  "downgrades (h @ [r, r']) = downgrades (h @ [r]) @ (if level r' < level r then [(Ring r, Ring r')] else [])"
proof -
  have "zip (h @ [r, r']) (tl (h @ [r, r'])) = zip (h @ [r]) (tl (h @ [r])) @ [(r, r')]"
    by (induction h rule: induct_list012) simp_all
  then show ?thesis by (simp add: downgrades_def)
qed

text \<open>The revert log is the lineage of a release: along every history the log only grows, by exactly one entry for every downgrade, in the order in which they
  happened, with the rings it left and entered and a reason that is not blank; promotions add nothing.\<close>

theorem revert_log_is_lineage:
  assumes "history hs"
  shows "\<exists>log. RevertLog (last hs) = RevertLog (hd hs) @ log
    \<and> map (\<lambda>ev. (re_From ev, re_To ev)) log = downgrades hs
    \<and> filter (\<lambda>ev. TrimSpace (re_Reason ev) = []) log = []"
  using assms
proof (induction rule: history.induct)
  case (start r)
  then show ?case by (simp add: downgrades_def)
next
  case (extend h r r')
  have hd: "hd (h @ [r, r']) = hd (h @ [r])" by (cases h) auto
  from extend.IH obtain log where log: "RevertLog r = RevertLog (hd (h @ [r])) @ log"
      "map (\<lambda>ev. (re_From ev, re_To ev)) log = downgrades (h @ [r])" "filter (\<lambda>ev. TrimSpace (re_Reason ev) = []) log = []"
    by auto
  from moves_shape [OF extend.hyps(2)] consider
      "level r' = Suc (level r)" "RevertLog r' = RevertLog r"
    | reason at where "level r' < level r" "TrimSpace reason \<noteq> []"
        "RevertLog r' = RevertLog r @ [\<lparr>re_From = Ring r, re_To = Ring r', re_Reason = reason, re_At = at\<rparr>]"
    by blast
  then show ?case
  proof cases
    case 1
    then show ?thesis using log unfolding hd downgrades_extend by auto
  next
    case 2
    then show ?thesis using log unfolding hd downgrades_extend by auto
  qed
qed

text \<open>A revert to beta re-arms the soak.\<close>

lemma revert_rearms_soak:
  assumes "Revert clock (Some r) RingBeta reason = Inr r1" and "Advance clock' (Some r1) RingStable at evidence = Inr r2"
  shows "clock + 48 * Hour \<le> (if IsZero at then clock' else at)"
  using assms by (auto simp: revert_when advance_when BetaSoakHours_def)

section \<open>A promoted release\<close>

definition demo_release :: Release where
  "demo_release = \<lparr>Version = ''v1.2.3'', Ring = ''alpha'', KillSwitch = [''flag''], SoakStartedAt = [], RevertLog = []\<rparr>"

definition demo_evidence :: FreezeEvidence where
  "demo_evidence = \<lparr>ManifestSHA256 = replicate 64 (CHR ''a''), ContractTestsPass = True\<rparr>"

definition demo_beta :: Release where
  "demo_beta = moved demo_release RingBeta 7 []"

definition demo_stable :: Release where
  "demo_stable = moved demo_beta RingStable (7 + 48 * Hour) []"

definition demo_back :: Release where
  "demo_back = moved demo_stable RingBeta 9 [\<lparr>re_From = RingStable, re_To = RingBeta, re_Reason = ''bug'', re_At = 9\<rparr>]"

lemma demo_moves: "valid demo_release" "moves demo_release demo_beta" "moves demo_beta demo_stable" "moves demo_stable demo_back"
proof -
  show "valid demo_release" by code_simp
  have "Advance 0 (Some demo_release) RingBeta 7 [] = Inr demo_beta" by code_simp
  then show "moves demo_release demo_beta" by (rule forward)
  have "Advance 0 (Some demo_beta) RingStable (7 + 48 * Hour) [Some demo_evidence] = Inr demo_stable" by code_simp
  then show "moves demo_beta demo_stable" by (rule forward)
  have "Revert 9 (Some demo_stable) RingBeta ''bug'' = Inr demo_back" by code_simp
  then show "moves demo_stable demo_back" by (rule backward)
qed

lemma demo_history: "history [demo_release, demo_beta, demo_stable]" "history [demo_release, demo_beta, demo_stable, demo_back]"
proof -
  have "history [demo_release, demo_beta]" using extend [of "[]"] start demo_moves by simp
  then show h: "history [demo_release, demo_beta, demo_stable]" using extend [of "[demo_release]"] demo_moves by simp
  then show "history [demo_release, demo_beta, demo_stable, demo_back]"
    using extend [of "[demo_release, demo_beta]"] demo_moves by simp
qed

theorem stable_reached_lawfully_witness:
  "Ring demo_stable = RingStable \<and> KillSwitch demo_stable \<noteq> [] \<and> (\<exists>r \<in> set [demo_release, demo_beta, demo_stable]. level r = 2)"
proof -
  have d: "Ring (hd [demo_release, demo_beta, demo_stable]) \<noteq> RingStable" by (simp add: demo_release_def ring_names)
  have l: "Ring (last [demo_release, demo_beta, demo_stable]) = RingStable" by (simp add: demo_stable_def)
  have "level demo_release \<le> 2" by code_simp
  then show ?thesis using stable_reached_lawfully [OF demo_history(1) d l] l by auto
qed

theorem revert_log_is_lineage_witness:
  "\<exists>log. RevertLog demo_back = RevertLog demo_release @ log \<and> map (\<lambda>ev. (re_From ev, re_To ev)) log = [(''stable'', ''beta'')]"
proof -
  have "downgrades [demo_release, demo_beta, demo_stable, demo_back] = [(''stable'', ''beta'')]" by code_simp
  then show ?thesis using revert_log_is_lineage [OF demo_history(2)] by auto
qed

end
