(* ===== verification/Runner_Registry.thy ===== *)
theory Runner_Registry
  imports Scheduler Work_Store Runtime_Abi
begin

text \<open>
  Runner identities (\<^verbatim>\<open>services/runner/registry.go\<close>) and the registry of the API server: registration with its ownership gate
  (\<^verbatim>\<open>runner_register.go\<close>, \<^verbatim>\<open>runner_authz.go\<close>) and capability advertisements (\<^verbatim>\<open>runner_abi.go\<close>). The caller's verified claims are the worker id of
  its token, \<open>None\<close> when authentication is off. Validation against the embedded JSON schema is done by a library and is the parameter \<open>schema_ok\<close>; the copies the
  registry hands out have no counterpart in values.
\<close>

section \<open>Identities\<close>

record Capabilities =
  cap_OS :: "string list"
  cap_Arch :: "string list"
  cap_CPUMilli :: int
  cap_MemoryMiB :: int
  cap_GPU :: int
  cap_Toolchains :: "string list"
  cap_Labels :: "string list"

record Identity =
  id_RunnerID :: string
  id_SpiffeID :: string
  id_TrustClass :: string
  id_Capabilities :: Capabilities
  id_LifecycleState :: string
  id_EnrolledAt :: time
  id_LastHeartbeatAt :: "time option"

datatype identity_error = BadRunnerID | BadSpiffe string | BadTrustClass | BadLifecycle | NoEnrolledAt | NoCapabilities | NoTenant

definition id_char :: "char \<Rightarrow> bool" where
  "id_char ch \<longleftrightarrow> is_digit ch \<or> (97 \<le> (of_char ch :: nat) \<and> (of_char ch :: nat) \<le> 122)"

text \<open>The pattern \<^verbatim>\<open>^wrkr_[a-z0-9_-]{1,64}$\<close>.\<close>

definition RunnerIDPattern :: "string \<Rightarrow> bool" where
  "RunnerIDPattern s \<longleftrightarrow> HasPrefix s ''wrkr_'' \<and> 1 \<le> length (drop 5 s) \<and> length (drop 5 s) \<le> 64
     \<and> list_all (\<lambda>ch. id_char ch \<or> ch \<in> set ''_-'') (drop 5 s)"

text \<open>The pattern \<^verbatim>\<open>^spiffe://[a-z][a-z0-9.-]*/ns/[a-z0-9-]+/sa/[a-z0-9_-]+$\<close>: no class contains a slash, so the slashes cut it.\<close>

definition spiffePattern :: "string \<Rightarrow> bool" where
  "spiffePattern s = (case Split s CHR ''/'' of
     [scheme, gap, domain, ns, tenant, sa, name] \<Rightarrow>
       scheme = ''spiffe:'' \<and> gap = [] \<and> ns = ''ns'' \<and> sa = ''sa''
       \<and> domain \<noteq> [] \<and> id_char (hd domain) \<and> \<not> is_digit (hd domain) \<and> list_all (\<lambda>ch. id_char ch \<or> ch \<in> set ''.-'') domain
       \<and> tenant \<noteq> [] \<and> list_all (\<lambda>ch. id_char ch \<or> ch = CHR ''-'') tenant
       \<and> name \<noteq> [] \<and> list_all (\<lambda>ch. id_char ch \<or> ch \<in> set ''_-'') name
   | _ \<Rightarrow> False)"

definition trustDomain :: string where "trustDomain = ''works-execution''"

definition MintRunnerID :: "nat list \<Rightarrow> string" where
  "MintRunnerID bytes = ''wrkr_'' @ concat (map hex_byte bytes)"

definition ValidateSPIFFE :: "string \<Rightarrow> identity_error option" where
  "ValidateSPIFFE s =
     (if s = [] then Some (BadSpiffe ''empty'')
      else if \<not> spiffePattern s then Some (BadSpiffe ''pattern'')
      else let rest = drop (length ''spiffe://'') s in
      if CHR ''/'' \<notin> set rest then Some (BadSpiffe ''path'')
      else if takeWhile (\<lambda>ch. ch \<noteq> CHR ''/'') rest \<noteq> trustDomain then Some (BadSpiffe ''domain'') else None)"

definition BuildSPIFFE :: "string \<Rightarrow> string \<Rightarrow> string" where
  "BuildSPIFFE tenant sa = ''spiffe://'' @ trustDomain @ ''/ns/'' @ ToLower tenant @ ''/sa/'' @ ToLower sa"

definition BuildIdentity :: "env \<Rightarrow> string \<Rightarrow> string \<Rightarrow> Capabilities \<Rightarrow> identity_error + Identity" where
  "BuildIdentity e runnerID tenant caps =
     (if \<not> RunnerIDPattern runnerID then Inl BadRunnerID
      else if tenant = [] then Inl NoTenant
      else if cap_OS caps = [] \<or> cap_Arch caps = [] then Inl NoCapabilities
      else let i = \<lparr>id_RunnerID = runnerID, id_SpiffeID = BuildSPIFFE tenant runnerID, id_TrustClass = ''standard'',
             id_Capabilities = caps, id_LifecycleState = ''pending'', id_EnrolledAt = Now e 0, id_LastHeartbeatAt = None\<rparr>
        in case ValidateSPIFFE (id_SpiffeID i) of Some x \<Rightarrow> Inl x | None \<Rightarrow> Inr i)"

definition trust_class :: "string \<Rightarrow> bool" where
  "trust_class t \<longleftrightarrow> t \<in> {''untrusted'', ''standard'', ''privileged''}"

definition lifecycle_state :: "string \<Rightarrow> bool" where
  "lifecycle_state l \<longleftrightarrow> l \<in> {''pending'', ''active'', ''draining'', ''retired''}"

definition IdentityValidate :: "Identity \<Rightarrow> identity_error option" where
  "IdentityValidate i =
     (if \<not> RunnerIDPattern (id_RunnerID i) then Some BadRunnerID
      else case (if id_SpiffeID i \<noteq> [] then ValidateSPIFFE (id_SpiffeID i) else None) of Some x \<Rightarrow> Some x
      | None \<Rightarrow>
        if \<not> trust_class (id_TrustClass i) then Some BadTrustClass
        else if \<not> lifecycle_state (id_LifecycleState i) then Some BadLifecycle
        else if IsZero (id_EnrolledAt i) then Some NoEnrolledAt
        else if cap_OS (id_Capabilities i) = [] \<or> cap_Arch (id_Capabilities i) = [] then Some NoCapabilities
        else None)"

section \<open>The registry\<close>

record RuntimeABI =
  ra_RunnerID :: string
  ra_RegisteredAt :: time
  ra_RAB :: RAB

record runnerRegistry =
  byID :: "Identity gomap"
  bySpiffe :: "string gomap"
  abiByRunner :: "RuntimeABI gomap"

definition newRunnerRegistry :: runnerRegistry where
  "newRunnerRegistry = \<lparr>byID = [], bySpiffe = [], abiByRunner = []\<rparr>"

definition reg_get :: "runnerRegistry \<Rightarrow> string \<Rightarrow> Identity option" where
  "reg_get r rid = map_of (byID r) rid"

definition reg_put :: "Identity \<Rightarrow> runnerRegistry \<Rightarrow> runnerRegistry" where
  "reg_put i r = r\<lparr>byID := AList.update (id_RunnerID i) i (byID r),
     bySpiffe := (if id_SpiffeID i \<noteq> [] then AList.update (id_SpiffeID i) (id_RunnerID i) (bySpiffe r) else bySpiffe r)\<rparr>"

definition reg_List :: "runnerRegistry option \<Rightarrow> Identity list" where
  "reg_List ro = (case ro of None \<Rightarrow> [] | Some r \<Rightarrow> map snd (byID r))"

definition putABI :: "env \<Rightarrow> string \<Rightarrow> RAB \<Rightarrow> runnerRegistry \<Rightarrow> rab_error option \<times> runnerRegistry" where
  "putABI e rid rab r = (case RABValidate rab of Some x \<Rightarrow> (Some x, r)
     | None \<Rightarrow> (None, r\<lparr>abiByRunner := AList.update rid \<lparr>ra_RunnerID = rid, ra_RegisteredAt = Now e 0, ra_RAB = rab\<rparr> (abiByRunner r)\<rparr>))"

definition getRuntimeABI :: "runnerRegistry \<Rightarrow> string \<Rightarrow> RuntimeABI option" where
  "getRuntimeABI r rid = map_of (abiByRunner r) rid"

definition getABI :: "runnerRegistry \<Rightarrow> string \<Rightarrow> RAB option" where
  "getABI r rid = map_option ra_RAB (map_of (abiByRunner r) rid)"

definition listABI :: "runnerRegistry option \<Rightarrow> RuntimeABI list" where
  "listABI ro = (case ro of None \<Rightarrow> [] | Some r \<Rightarrow> sort_key ra_RunnerID (map snd (abiByRunner r)))"

definition defaultHeartbeatInterval :: duration where "defaultHeartbeatInterval = 10 * Second"

definition runnerHasFreshHeartbeat :: "Identity option \<Rightarrow> time \<Rightarrow> bool" where
  "runnerHasFreshHeartbeat io now = (case io of None \<Rightarrow> False
     | Some i \<Rightarrow> id_LifecycleState i = ''active''
         \<and> (case id_LastHeartbeatAt i of None \<Rightarrow> False | Some beat \<Rightarrow> \<not> beat < now - 3 * defaultHeartbeatInterval))"

section \<open>The routes\<close>

definition gateRunnerOwnership :: "string option \<Rightarrow> string \<Rightarrow> bool" where
  "gateRunnerOwnership claims rid = (case claims of None \<Rightarrow> True | Some worker \<Rightarrow> worker = rid)"

datatype registry_reply =
    RegError nat string
  | RegIdentity nat Identity
  | RegABI RuntimeABI
  | RegNegotiated string "string list" bool
  | RegRunners "Identity list"

text \<open>What a heartbeat of a known runner keeps and what it replaces.\<close>

definition refresh :: "time \<Rightarrow> Identity \<Rightarrow> Identity \<Rightarrow> Identity" where
  "refresh now new old = old\<lparr>id_LastHeartbeatAt := Some now, id_Capabilities := id_Capabilities new,
     id_TrustClass := id_TrustClass new, id_LifecycleState := id_LifecycleState new,
     id_SpiffeID := (if id_SpiffeID new \<noteq> [] then id_SpiffeID new else id_SpiffeID old)\<rparr>"

text \<open>The id is minted and the enrolment stamped when the caller left them out.\<close>

definition prepare :: "env \<Rightarrow> Identity \<Rightarrow> Identity" where
  "prepare e in0 = (let in1 = (if id_RunnerID in0 = [] then in0\<lparr>id_RunnerID := MintRunnerID (idents e [0])\<rparr> else in0)
     in if IsZero (id_EnrolledAt in1) then in1\<lparr>id_EnrolledAt := Now e 0\<rparr> else in1)"

text \<open>The upsert.\<close>

definition store_identity :: "env \<Rightarrow> Identity \<Rightarrow> runnerRegistry \<Rightarrow> registry_reply \<times> runnerRegistry" where
  "store_identity e in2 reg =
     (let now = Now e 1; in3 = in2\<lparr>id_LastHeartbeatAt := Some now\<rparr> in
      case reg_get reg (id_RunnerID in3) of
        Some old \<Rightarrow> let i = refresh now in3 old in (RegIdentity 200 i, reg_put i reg)
      | None \<Rightarrow>
        let in4 = (if id_LifecycleState in3 = [] then in3\<lparr>id_LifecycleState := ''active''\<rparr> else in3);
            in5 = (if IsZero (id_EnrolledAt in4) then in4\<lparr>id_EnrolledAt := Now e 2\<rparr> else in4)
        in (RegIdentity 201 in5, reg_put in5 reg))"

definition registerRunner ::
  "(Identity \<Rightarrow> bool) \<Rightarrow> env \<Rightarrow> string option \<Rightarrow> Identity option \<Rightarrow> runnerRegistry option \<Rightarrow> registry_reply \<times> runnerRegistry option" where
  "registerRunner schema_ok e claims body ro = (case body of None \<Rightarrow> (RegError 400 ''invalid_json'', ro)
     | Some in0 \<Rightarrow>
       if id_RunnerID in0 \<noteq> [] \<and> \<not> gateRunnerOwnership claims (id_RunnerID in0) then (RegError 403 ''not_runner_owner'', ro)
       else if IdentityValidate (prepare e in0) \<noteq> None then (RegError 400 ''validation_failed'', ro)
       else if \<not> schema_ok (prepare e in0) then (RegError 400 ''schema_violation'', ro)
       else case store_identity e (prepare e in0) (case ro of None \<Rightarrow> newRunnerRegistry | Some r \<Rightarrow> r) of (x, reg) \<Rightarrow> (x, Some reg))"

definition getRunner :: "string \<Rightarrow> runnerRegistry option \<Rightarrow> registry_reply" where
  "getRunner rid ro = (case ro of None \<Rightarrow> RegError 404 ''not_found''
     | Some r \<Rightarrow> (case reg_get r rid of None \<Rightarrow> RegError 404 ''not_found'' | Some i \<Rightarrow> RegIdentity 200 i))"

definition listRunners :: "env \<Rightarrow> string \<Rightarrow> bool \<Rightarrow> runnerRegistry option \<Rightarrow> registry_reply" where
  "listRunners e poolFilter aliveOnly ro = (case ro of None \<Rightarrow> RegRunners []
     | Some r \<Rightarrow> RegRunners (filter (\<lambda>i. (aliveOnly \<longrightarrow> runnerHasFreshHeartbeat (Some i) (Now e 0))
         \<and> (poolFilter \<noteq> [] \<longrightarrow> (''pool:'' @ poolFilter) \<in> set (cap_Labels (id_Capabilities i)))) (reg_List ro)))"

definition rabRunnerGate :: "string \<Rightarrow> runnerRegistry option \<Rightarrow> runnerRegistry option" where
  "rabRunnerGate rid ro = (if rid = [] then None
     else case ro of None \<Rightarrow> None | Some r \<Rightarrow> (case reg_get r rid of None \<Rightarrow> None | Some _ \<Rightarrow> Some r))"

definition isRABLawError :: "rab_error \<Rightarrow> bool" where
  "isRABLawError x \<longleftrightarrow> x \<noteq> ErrJSON"

text \<open>The body is \<open>None\<close> when it could not be read within the limit.\<close>

definition postRunnerABI ::
  "env \<Rightarrow> string option \<Rightarrow> string \<Rightarrow> (json \<times> bool) option option \<Rightarrow> runnerRegistry option \<Rightarrow> registry_reply \<times> runnerRegistry option" where
  "postRunnerABI e claims rid body ro = (case rabRunnerGate rid ro of None \<Rightarrow> (RegError 404 ''runner_not_found'', ro)
     | Some r \<Rightarrow>
       if \<not> gateRunnerOwnership claims rid then (RegError 403 ''not_runner_owner'', ro)
       else case body of None \<Rightarrow> (RegError 400 ''invalid_json'', ro)
       | Some bytes \<Rightarrow> (case ParseRAB bytes of
           Inl x \<Rightarrow> (RegError 400 (if isRABLawError x then ''rab_law_violation'' else ''invalid_json''), ro)
         | Inr rab \<Rightarrow> (case putABI e rid rab r of
             (Some _, r') \<Rightarrow> (RegError 400 ''rab_law_violation'', Some r')
           | (None, r') \<Rightarrow> (RegABI (the (getRuntimeABI r' rid)), Some r'))))"

definition getRunnerABI :: "string \<Rightarrow> runnerRegistry option \<Rightarrow> registry_reply" where
  "getRunnerABI rid ro = (case rabRunnerGate rid ro of None \<Rightarrow> RegError 404 ''runner_not_found''
     | Some r \<Rightarrow> (case getRuntimeABI r rid of None \<Rightarrow> RegError 404 ''abi_not_found'' | Some rec \<Rightarrow> RegABI rec))"

definition negotiateRunnerABI :: "string \<Rightarrow> string list option \<Rightarrow> runnerRegistry option \<Rightarrow> registry_reply" where
  "negotiateRunnerABI rid body ro = (case rabRunnerGate rid ro of None \<Rightarrow> RegError 404 ''runner_not_found''
     | Some r \<Rightarrow> (case body of None \<Rightarrow> RegError 400 ''invalid_json''
       | Some caps \<Rightarrow> (case getABI r rid of None \<Rightarrow> RegError 404 ''abi_not_found''
         | Some rab \<Rightarrow> (case Negotiate rab caps of Inl _ \<Rightarrow> RegError 400 ''rab_negotiation_failed''
           | Inr (granted, token) \<Rightarrow> RegNegotiated rid granted token))))"

section \<open>Well-formed registries\<close>

definition entry_ok :: "string \<Rightarrow> Identity \<Rightarrow> bool" where
  "entry_ok k i \<longleftrightarrow> id_RunnerID i = k \<and> IdentityValidate i = None \<and> id_LastHeartbeatAt i \<noteq> None"

text \<open>Every record is stored under its own id, is valid and has a heartbeat; every advertisement belongs to a registered runner and obeys the law.\<close>

definition reg_ok :: "runnerRegistry \<Rightarrow> bool" where
  "reg_ok r \<longleftrightarrow> (\<forall>k i. reg_get r k = Some i \<longrightarrow> entry_ok k i)
     \<and> (\<forall>k rec. getRuntimeABI r k = Some rec \<longrightarrow> ra_RunnerID rec = k \<and> RABValidate (ra_RAB rec) = None \<and> reg_get r k \<noteq> None)"

definition reg_opt_ok :: "runnerRegistry option \<Rightarrow> bool" where
  "reg_opt_ok ro \<longleftrightarrow> (case ro of None \<Rightarrow> True | Some r \<Rightarrow> reg_ok r)"

lemma new_registry [simp]: "reg_get newRunnerRegistry k = None" "getRuntimeABI newRunnerRegistry k = None"
  by (simp_all add: newRunnerRegistry_def reg_get_def getRuntimeABI_def)

lemma reg_get_put: "reg_get (reg_put i r) k = (if k = id_RunnerID i then Some i else reg_get r k)"
  by (simp add: reg_get_def reg_put_def update_conv)

lemma abi_put [simp]: "getRuntimeABI (reg_put i r) k = getRuntimeABI r k"
  by (simp add: getRuntimeABI_def reg_put_def)

lemma reg_put_ok:
  assumes "reg_ok r" "entry_ok (id_RunnerID i) i"
  shows "reg_ok (reg_put i r)"
  using assms unfolding reg_ok_def reg_get_put abi_put by auto

lemma identity_valid_iff: "IdentityValidate i = None \<longleftrightarrow> RunnerIDPattern (id_RunnerID i)
    \<and> (id_SpiffeID i = [] \<or> ValidateSPIFFE (id_SpiffeID i) = None)
    \<and> trust_class (id_TrustClass i) \<and> lifecycle_state (id_LifecycleState i)
    \<and> \<not> IsZero (id_EnrolledAt i) \<and> cap_OS (id_Capabilities i) \<noteq> [] \<and> cap_Arch (id_Capabilities i) \<noteq> []"
  unfolding IdentityValidate_def by (auto split: option.split)

lemma refresh_ok:
  assumes "entry_ok k old" "IdentityValidate new = None"
  shows "entry_ok k (refresh now new old)"
  using assms unfolding entry_ok_def identity_valid_iff by (auto simp: refresh_def)

lemma putABI_ok:
  assumes "reg_ok r" "reg_get r rid \<noteq> None"
  shows "reg_ok (snd (putABI e rid rab r))"
proof (cases "RABValidate rab")
  case None
  have "reg_get (snd (putABI e rid rab r)) k = reg_get r k"
    and "getRuntimeABI (snd (putABI e rid rab r)) k = (if k = rid then Some \<lparr>ra_RunnerID = rid, ra_RegisteredAt = Now e 0, ra_RAB = rab\<rparr>
      else getRuntimeABI r k)" for k
    by (simp_all add: putABI_def None reg_get_def getRuntimeABI_def update_conv)
  then show ?thesis using assms None unfolding reg_ok_def by auto
next
  case (Some x)
  then show ?thesis using assms(1) by (simp add: putABI_def)
qed

text \<open>The registration in normal form: refused without effect, or a valid record put under the id that was given or minted.\<close>

definition registered_id :: "env \<Rightarrow> Identity \<Rightarrow> string" where
  "registered_id e i = (if id_RunnerID i = [] then MintRunnerID (idents e [0]) else id_RunnerID i)"

lemma prepare_id [simp]: "id_RunnerID (prepare e i) = registered_id e i"
  by (simp add: prepare_def registered_id_def Let_def)

lemma store_identity_put:
  assumes "reg_ok reg" "IdentityValidate in2 = None"
  shows "\<exists>i. snd (store_identity e in2 reg) = reg_put i reg \<and> id_RunnerID i = id_RunnerID in2 \<and> entry_ok (id_RunnerID i) i"
proof (cases "reg_get reg (id_RunnerID in2)")
  case None
  define in3 where "in3 = in2\<lparr>id_LastHeartbeatAt := Some (Now e 1)\<rparr>"
  have v: "IdentityValidate in3 = None" using assms(2) by (simp add: in3_def identity_valid_iff)
  then have "\<not> IsZero (id_EnrolledAt in3)" "id_LifecycleState in3 \<noteq> []" by (auto simp: identity_valid_iff lifecycle_state_def)
  then have "snd (store_identity e in2 reg) = reg_put in3 reg"
    using None unfolding store_identity_def in3_def [symmetric] Let_def by (simp add: in3_def)
  moreover have "id_RunnerID in3 = id_RunnerID in2" "entry_ok (id_RunnerID in3) in3" using v by (simp_all add: entry_ok_def in3_def)
  ultimately show ?thesis by blast
next
  case (Some old)
  define in3 where "in3 = in2\<lparr>id_LastHeartbeatAt := Some (Now e 1)\<rparr>"
  have v: "IdentityValidate in3 = None" using assms(2) by (simp add: in3_def identity_valid_iff)
  have old: "entry_ok (id_RunnerID in2) old" using assms(1) Some by (simp add: reg_ok_def)
  then have "entry_ok (id_RunnerID in2) (refresh (Now e 1) in3 old)" using v by (rule refresh_ok)
  moreover have "id_RunnerID (refresh (Now e 1) in3 old) = id_RunnerID in2" using old by (simp add: refresh_def entry_ok_def)
  moreover have "snd (store_identity e in2 reg) = reg_put (refresh (Now e 1) in3 old) reg"
    using Some unfolding store_identity_def in3_def [symmetric] Let_def by (simp add: in3_def)
  ultimately show ?thesis by metis
qed

lemma registerRunner_cases:
  assumes "registerRunner schema_ok e claims body ro = (x, ro')" "reg_opt_ok ro"
  obtains (refused) "ro' = ro"
  | (stored) in0 i where "body = Some in0" "id_RunnerID in0 \<noteq> [] \<Longrightarrow> gateRunnerOwnership claims (id_RunnerID in0)"
      "ro' = Some (reg_put i (case ro of None \<Rightarrow> newRunnerRegistry | Some r \<Rightarrow> r))" "id_RunnerID i = registered_id e in0"
      "entry_ok (id_RunnerID i) i"
proof (cases body)
  case None
  then show thesis using assms refused by (simp add: registerRunner_def)
next
  case (Some in0)
  let ?reg = "case ro of None \<Rightarrow> newRunnerRegistry | Some r \<Rightarrow> r"
  have ok: "reg_ok ?reg"
    using assms(2) by (auto simp: reg_opt_ok_def reg_ok_def split: option.splits)
  show thesis
  proof (cases "(id_RunnerID in0 \<noteq> [] \<and> \<not> gateRunnerOwnership claims (id_RunnerID in0))
      \<or> IdentityValidate (prepare e in0) \<noteq> None \<or> \<not> schema_ok (prepare e in0)")
    case True
    then have "ro' = ro" using assms(1) Some by (auto simp: registerRunner_def split: if_splits)
    then show thesis by (rule refused)
  next
    case False
    then have gate: "id_RunnerID in0 \<noteq> [] \<Longrightarrow> gateRunnerOwnership claims (id_RunnerID in0)"
      and v: "IdentityValidate (prepare e in0) = None" by auto
    obtain i where i: "snd (store_identity e (prepare e in0) ?reg) = reg_put i ?reg" "id_RunnerID i = registered_id e in0"
      "entry_ok (id_RunnerID i) i" using store_identity_put [OF ok v, of e] by (metis prepare_id)
    have "ro' = Some (snd (store_identity e (prepare e in0) ?reg))"
      using assms(1) False Some by (auto simp: registerRunner_def split: prod.splits)
    then show thesis using stored [OF Some gate _ i(2,3)] i(1) by simp
  qed
qed

lemma postRunnerABI_cases:
  assumes "postRunnerABI e claims rid body ro = (x, ro')"
  obtains (refused) "ro' = ro"
  | (stored) r rab where "ro = Some r" "reg_get r rid \<noteq> None" "gateRunnerOwnership claims rid" "ro' = Some (snd (putABI e rid rab r))"
proof (cases "rabRunnerGate rid ro")
  case None
  then show thesis using assms refused by (simp add: postRunnerABI_def)
next
  case (Some r)
  then have r: "ro = Some r" "reg_get r rid \<noteq> None" by (auto simp: rabRunnerGate_def split: if_splits option.splits)
  have "ro' = ro \<or> (gateRunnerOwnership claims rid \<and> (\<exists>rab. ro' = Some (snd (putABI e rid rab r))))"
    using assms Some
    by (auto simp: postRunnerABI_def split: if_splits option.splits sum.splits prod.splits) (metis snd_conv)+
  then show thesis using refused stored [OF r] by blast
qed

section \<open>Sequences of registry requests\<close>

datatype registry_call = CRegister "string option" "Identity option" | CAdvertise "string option" string "(json \<times> bool) option option"

fun exec_registry :: "(Identity \<Rightarrow> bool) \<Rightarrow> env \<times> registry_call \<Rightarrow> runnerRegistry option \<Rightarrow> runnerRegistry option" where
  "exec_registry schema_ok (e, CRegister claims body) ro = snd (registerRunner schema_ok e claims body ro)"
| "exec_registry schema_ok (e, CAdvertise claims rid body) ro = snd (postRunnerABI e claims rid body ro)"

lemma exec_registry_ok:
  assumes "reg_opt_ok ro"
  shows "reg_opt_ok (exec_registry schema_ok a ro)"
proof -
  obtain e c where a: "a = (e, c)" by (cases a)
  show ?thesis
  proof (cases c)
    case (CRegister claims body)
    obtain x ro' where r: "registerRunner schema_ok e claims body ro = (x, ro')" by (metis surj_pair)
    from r assms have "reg_opt_ok ro'"
    proof (cases rule: registerRunner_cases)
      case (stored in0 i)
      have "reg_ok (case ro of None \<Rightarrow> newRunnerRegistry | Some r \<Rightarrow> r)"
        using assms by (auto simp: reg_opt_ok_def reg_ok_def split: option.splits)
      from reg_put_ok [OF this stored(5)] show ?thesis using stored(3) by (simp add: reg_opt_ok_def)
    qed (use assms in simp)
    then show ?thesis by (simp add: a CRegister r)
  next
    case (CAdvertise claims rid body)
    obtain x ro' where r: "postRunnerABI e claims rid body ro = (x, ro')" by (metis surj_pair)
    then have "reg_opt_ok ro'"
    proof (cases rule: postRunnerABI_cases)
      case (stored r rab)
      then show ?thesis using assms putABI_ok [of r rid e rab] by (simp add: reg_opt_ok_def)
    qed (use assms in simp)
    then show ?thesis by (simp add: a CAdvertise r)
  qed
qed

interpretation registry_ops: invariant_ops "exec_registry schema_ok" reg_opt_ok for schema_ok
  by unfold_locales (rule exec_registry_ok)

text \<open>C20. The registry holds only well-formed data: after any sequence of registrations and advertisements, by any callers, every record is stored under its own id, passes
  validation and has a heartbeat, and every advertisement is that of a registered runner, of the one known version, with known capabilities none of which is repeated, and with control only together with
  the token demand.\<close>

theorem registry_records_wellformed:
  assumes "fold (exec_registry schema_ok) calls None = Some r"
  shows "(reg_get r k = Some i \<longrightarrow> id_RunnerID i = k \<and> IdentityValidate i = None \<and> id_LastHeartbeatAt i \<noteq> None)
    \<and> (getRuntimeABI r k = Some rec \<longrightarrow> ra_RunnerID rec = k \<and> reg_get r k \<noteq> None
         \<and> Abi (ra_RAB rec) = ''rab/1.0'' \<and> set (Caps (ra_RAB rec)) \<subseteq> set CapsAllowed \<and> distinct (Caps (ra_RAB rec))
         \<and> (Has (ra_RAB rec) ''control'' \<longrightarrow> ControlTokenRequired (ra_RAB rec) = Some True))"
proof -
  have "reg_opt_ok (fold (exec_registry schema_ok) calls None)" by (rule registry_ops.inv_run) (simp add: reg_opt_ok_def)
  then have "reg_ok r" by (simp add: assms reg_opt_ok_def)
  then show ?thesis by (auto simp: reg_ok_def entry_ok_def valid_rab_iff Has_iff AbiVersion_def capSet_def)
qed

text \<open>What the registry knows of a runner.\<close>

definition runner_view :: "string \<Rightarrow> runnerRegistry option \<Rightarrow> Identity option \<times> RuntimeABI option" where
  "runner_view rid ro = (case ro of None \<Rightarrow> (None, None) | Some r \<Rightarrow> (reg_get r rid, getRuntimeABI r rid))"

fun foreign_call :: "string \<Rightarrow> env \<times> registry_call \<Rightarrow> bool" where
  "foreign_call rid (e, CRegister claims body) \<longleftrightarrow> claims \<noteq> None \<and> claims \<noteq> Some rid \<and> MintRunnerID (idents e [0]) \<noteq> rid"
| "foreign_call rid (e, CAdvertise claims k body) \<longleftrightarrow> claims \<noteq> None \<and> claims \<noteq> Some rid"

lemma foreign_call_view:
  assumes "reg_opt_ok ro" "foreign_call rid a"
  shows "runner_view rid (exec_registry schema_ok a ro) = runner_view rid ro"
proof -
  obtain e c where a: "a = (e, c)" by (cases a)
  show ?thesis
  proof (cases c)
    case (CRegister claims body)
    obtain x ro' where r: "registerRunner schema_ok e claims body ro = (x, ro')" by (metis surj_pair)
    from r assms(1) have "runner_view rid ro' = runner_view rid ro"
    proof (cases rule: registerRunner_cases)
      case (stored in0 i)
      have "id_RunnerID i \<noteq> rid"
        using stored(2,4) assms(2) by (auto simp: a CRegister registered_id_def gateRunnerOwnership_def split: if_splits option.splits)
      then show ?thesis using stored(3)
        by (simp add: runner_view_def reg_get_put split: option.split)
    qed simp
    then show ?thesis by (simp add: a CRegister r)
  next
    case (CAdvertise claims k body)
    obtain x ro' where r: "postRunnerABI e claims k body ro = (x, ro')" by (metis surj_pair)
    then have "runner_view rid ro' = runner_view rid ro"
    proof (cases rule: postRunnerABI_cases)
      case (stored r rab)
      then have "k \<noteq> rid" using assms(2) by (auto simp: a CAdvertise gateRunnerOwnership_def split: option.splits)
      then show ?thesis using stored
        by (simp add: runner_view_def putABI_def reg_get_def getRuntimeABI_def update_conv split: option.split)
    qed simp
    then show ?thesis by (simp add: a CAdvertise r)
  qed
qed

text \<open>Only the owner changes a runner: any sequence of requests authenticated as other workers leaves a runner's identity, heartbeat and advertisement as they were, provided
  no fresh id that the server mints is this runner's id.\<close>

theorem foreign_requests_leave_runner_alone:
  assumes "ro = fold (exec_registry schema_ok) before None" and "list_all (foreign_call rid) calls"
  shows "runner_view rid (fold (exec_registry schema_ok) calls ro) = runner_view rid ro"
proof -
  have "reg_opt_ok ro" unfolding assms(1) by (rule registry_ops.inv_run) (simp add: reg_opt_ok_def)
  then show ?thesis using assms(2)
    by (induction calls arbitrary: ro) (simp_all add: foreign_call_view exec_registry_ok)
qed

section \<open>A registered runner\<close>

definition demo_capabilities :: Capabilities where
  "demo_capabilities = \<lparr>cap_OS = [''linux''], cap_Arch = [''amd64''], cap_CPUMilli = 2000, cap_MemoryMiB = 4096, cap_GPU = 0,
     cap_Toolchains = [], cap_Labels = [''pool:eu'']\<rparr>"

definition demo_identity :: Identity where
  "demo_identity = \<lparr>id_RunnerID = ''wrkr_a'', id_SpiffeID = ''spiffe://works-execution/ns/acme/sa/wrkr_a'', id_TrustClass = ''standard'',
     id_Capabilities = demo_capabilities, id_LifecycleState = ''active'', id_EnrolledAt = 5, id_LastHeartbeatAt = None\<rparr>"

definition steady :: "time \<Rightarrow> env" where
  "steady t = \<lparr>nows = (\<lambda>_. t), idents = (\<lambda>p. p)\<rparr>"

definition demo_registration :: "env \<times> registry_call" where
  "demo_registration = (steady 100, CRegister (Some ''wrkr_a'') (Some demo_identity))"

definition demo_registry :: runnerRegistry where
  "demo_registry = reg_put (demo_identity\<lparr>id_LastHeartbeatAt := Some 100\<rparr>) newRunnerRegistry"

lemma demo_registered: "exec_registry (\<lambda>_. True) demo_registration None = Some demo_registry"
  by code_simp

theorem registry_records_wellformed_witness:
  "\<exists>i. reg_get demo_registry ''wrkr_a'' = Some i \<and> IdentityValidate i = None \<and> id_LastHeartbeatAt i \<noteq> None"
proof -
  have f: "fold (exec_registry (\<lambda>_. True)) [demo_registration] None = Some demo_registry" by (simp add: demo_registered)
  have "\<exists>i. reg_get demo_registry ''wrkr_a'' = Some i" by (simp add: demo_registry_def reg_get_put demo_identity_def)
  then show ?thesis using registry_records_wellformed [OF f] by blast
qed

theorem foreign_requests_leave_runner_alone_witness:
  "runner_view ''wrkr_a'' (fold (exec_registry (\<lambda>_. True)) [(steady 200, CRegister (Some ''wrkr_b'') (Some demo_identity)),
      (steady 200, CAdvertise (Some ''wrkr_b'') ''wrkr_a'' (Some (Some (JNull, False))))] (Some demo_registry))
    = runner_view ''wrkr_a'' (Some demo_registry)"
proof -
  have f: "Some demo_registry = fold (exec_registry (\<lambda>_. True)) [demo_registration] None" by (simp add: demo_registered)
  show ?thesis by (rule foreign_requests_leave_runner_alone [OF f]) code_simp
qed

end
