(* ===== verification/Worker_Auth.thy ===== *)
theory Worker_Auth
  imports Runner_Registry "HOL-Library.Word"
begin

unbundle bit_operations_syntax

text \<open>
  Worker enrolment and authentication (\<^verbatim>\<open>services/api/auth.go\<close>, \<^verbatim>\<open>services/api/enroll.go\<close>): compact HS256 tokens, the bearer middleware and the
  enrolment route. Base64url, the JSON texts of the two token parts and the HMAC under the process key are fields of the issuer, which is a parameter;
  the identity of a client certificate is an argument of the route. A route is modelled for requests with its method.
\<close>

section \<open>Tokens\<close>

record EnrollmentClaims =
  cl_WorkerID :: string
  cl_Scope :: string
  cl_IssuedAt :: time
  cl_ExpiresAt :: time
  cl_Issuer :: string

text \<open>The claims on the wire, with times in whole seconds; \<open>jc_EXP = 0\<close> also stands for a missing field.\<close>

record jwt_claims =
  jc_WorkerID :: string
  jc_Scope :: string
  jc_IAT :: int
  jc_EXP :: int
  jc_Issuer :: string

record HMACIssuer =
  b64URL :: "string \<Rightarrow> string"
  unb64URL :: "string \<Rightarrow> string option"
  hs256 :: "string \<Rightarrow> string"
  header_text :: string
  header_of :: "string \<Rightarrow> (string \<times> string) option"
  payload_text :: "jwt_claims \<Rightarrow> string"
  payload_of :: "string \<Rightarrow> jwt_claims option"
  issuer :: string
  maxTTL :: duration

datatype token_error = ErrTokenMalformed | ErrTokenBadSignature | ErrTokenExpired

text \<open>The claims of a token minted at \<open>now\<close>: a missing lifetime is an hour, and no lifetime exceeds the maximum.\<close>

definition clamp_ttl :: "HMACIssuer \<Rightarrow> duration \<Rightarrow> duration" where
  "clamp_ttl h ttl0 = (let ttl = (if ttl0 \<le> 0 then Hour else ttl0) in if ttl > maxTTL h then maxTTL h else ttl)"

definition wire_claims :: "HMACIssuer \<Rightarrow> time \<Rightarrow> string \<Rightarrow> duration \<Rightarrow> jwt_claims" where
  "wire_claims h now workerID ttl = \<lparr>jc_WorkerID = workerID, jc_Scope = ''worker'', jc_IAT = Unix now,
     jc_EXP = Unix (now + clamp_ttl h ttl), jc_Issuer = issuer h\<rparr>"

definition WorkerMint :: "HMACIssuer \<Rightarrow> time \<Rightarrow> string \<Rightarrow> duration \<Rightarrow> string option" where
  "WorkerMint h now workerID ttl = (if workerID = [] then None
     else let signingInput = b64URL h (header_text h) @ ''.'' @ b64URL h (payload_text h (wire_claims h now workerID ttl))
       in Some (signingInput @ ''.'' @ b64URL h (hs256 h signingInput)))"

definition check_claims :: "time \<Rightarrow> jwt_claims \<Rightarrow> token_error + EnrollmentClaims" where
  "check_claims now c =
     (if jc_WorkerID c = [] \<or> jc_EXP c = 0 then Inl ErrTokenMalformed
      else if Unix now \<ge> jc_EXP c then Inl ErrTokenExpired
      else if jc_Scope c \<noteq> ''worker'' then Inl ErrTokenMalformed
      else Inr \<lparr>cl_WorkerID = jc_WorkerID c, cl_Scope = jc_Scope c, cl_IssuedAt = from_unix (jc_IAT c),
        cl_ExpiresAt = from_unix (jc_EXP c), cl_Issuer = jc_Issuer c\<rparr>)"

definition WorkerVerify :: "HMACIssuer \<Rightarrow> time \<Rightarrow> string \<Rightarrow> token_error + EnrollmentClaims" where
  "WorkerVerify h now raw = (case Split raw CHR ''.'' of
     [p0, p1, p2] \<Rightarrow> (case unb64URL h p0 of None \<Rightarrow> Inl ErrTokenMalformed
       | Some headerJSON \<Rightarrow> (case header_of h headerJSON of None \<Rightarrow> Inl ErrTokenMalformed
         | Some (alg, typ) \<Rightarrow>
           if alg \<noteq> ''HS256'' \<or> (typ \<noteq> [] \<and> typ \<noteq> ''JWT'') then Inl ErrTokenMalformed
           else case unb64URL h p1 of None \<Rightarrow> Inl ErrTokenMalformed
           | Some payloadJSON \<Rightarrow> (case unb64URL h p2 of None \<Rightarrow> Inl ErrTokenMalformed
             | Some sig \<Rightarrow>
               if sig \<noteq> hs256 h (p0 @ ''.'' @ p1) then Inl ErrTokenBadSignature
               else case payload_of h payloadJSON of None \<Rightarrow> Inl ErrTokenMalformed
               | Some c \<Rightarrow> check_claims now c)))
   | _ \<Rightarrow> Inl ErrTokenMalformed)"

section \<open>The bearer middleware\<close>

datatype api_error = ApiError nat string

text \<open>The refusal, or the claims the request goes on with: none when authentication is off.\<close>

definition requireBearer :: "bool \<Rightarrow> HMACIssuer \<Rightarrow> time \<Rightarrow> string \<Rightarrow> api_error + EnrollmentClaims option" where
  "requireBearer authEnabled h now hdr =
     (if \<not> authEnabled then Inr None
      else if hdr = [] then Inl (ApiError 401 ''missing_authorization'')
      else if \<not> HasPrefix hdr ''Bearer '' then Inl (ApiError 401 ''bad_authorization_scheme'')
      else let raw = TrimSpace (drop (length ''Bearer '') hdr) in
      if raw = [] then Inl (ApiError 401 ''missing_token'')
      else case WorkerVerify h now raw of
        Inl ErrTokenExpired \<Rightarrow> Inl (ApiError 401 ''token_expired'')
      | Inl ErrTokenBadSignature \<Rightarrow> Inl (ApiError 401 ''bad_signature'')
      | Inl ErrTokenMalformed \<Rightarrow> Inl (ApiError 401 ''invalid_token'')
      | Inr c \<Rightarrow> Inr (Some c))"

section \<open>Enrolment\<close>

text \<open>The comparison that never stops early: the bytes' differences are collected in one byte.\<close>

fun diff_bytes :: "8 word \<Rightarrow> string \<Rightarrow> string \<Rightarrow> 8 word" where
  "diff_bytes d (x # xs) (y # ys) = diff_bytes (d OR (word_of_nat (of_char x) XOR word_of_nat (of_char y))) xs ys"
| "diff_bytes d _ _ = d"

definition enrollEqual :: "string \<Rightarrow> string \<Rightarrow> bool" where
  "enrollEqual a b = (if length a \<noteq> length b then False else diff_bytes 0 a b = 0)"

record enrollmentReq =
  er_WorkerID :: string
  er_Challenge :: string
  er_TTLSeconds :: int

record enrollmentResp =
  ep_Token :: string
  ep_WorkerID :: string
  ep_ExpiresAt :: time

record enroll_config =
  EnrollSecret :: string
  RequireWorkerMTLS :: bool

definition validWorkerID :: "string \<Rightarrow> bool" where
  "validWorkerID wid = RunnerIDPattern wid"

definition enroll_refusal :: "enroll_config \<Rightarrow> string \<Rightarrow> enrollmentReq option \<Rightarrow> api_error + enrollmentReq" where
  "enroll_refusal s cert body =
     (if EnrollSecret s = [] \<and> \<not> RequireWorkerMTLS s then Inl (ApiError 503 ''enrollment_disabled'')
      else case body of None \<Rightarrow> Inl (ApiError 400 ''invalid_json'')
      | Some req0 \<Rightarrow> let req = req0\<lparr>er_WorkerID := TrimSpace (er_WorkerID req0), er_Challenge := TrimSpace (er_Challenge req0)\<rparr> in
        if er_WorkerID req = [] then Inl (ApiError 400 ''missing_field'')
        else if \<not> validWorkerID (er_WorkerID req) then Inl (ApiError 400 ''invalid_worker_id'')
        else if RequireWorkerMTLS s then
          (if cert = [] \<or> er_WorkerID req \<noteq> cert then Inl (ApiError 403 ''worker_identity_mismatch'') else Inr req)
        else if \<not> enrollEqual (er_Challenge req) (EnrollSecret s) then Inl (ApiError 401 ''bad_challenge'')
        else Inr req)"

definition enroll_ttl :: "int \<Rightarrow> duration" where
  "enroll_ttl n = (let ttl = Seconds n in if ttl \<le> 0 then Hour else ttl)"

definition enrollHandler ::
  "enroll_config \<Rightarrow> HMACIssuer \<Rightarrow> env \<Rightarrow> string \<Rightarrow> enrollmentReq option \<Rightarrow> api_error + enrollmentResp" where
  "enrollHandler s h e cert body = (case enroll_refusal s cert body of Inl x \<Rightarrow> Inl x
     | Inr req \<Rightarrow>
       (case WorkerMint h (Now e 0) (er_WorkerID req) (enroll_ttl (er_TTLSeconds req)) of None \<Rightarrow> Inl (ApiError 500 ''mint_failed'')
        | Some tok \<Rightarrow> (case WorkerVerify h (Now e 1) tok of Inl _ \<Rightarrow> Inl (ApiError 500 ''verify_failed'')
          | Inr claims \<Rightarrow> Inr \<lparr>ep_Token = tok, ep_WorkerID = er_WorkerID req, ep_ExpiresAt = cl_ExpiresAt claims\<rparr>)))"

section \<open>The constant-time comparison\<close>

lemma byte_eq_iff: "(word_of_nat (of_char x) :: 8 word) = word_of_nat (of_char y) \<longleftrightarrow> x = y"
proof -
  have "take_bit 8 (of_char c :: nat) = of_char c" for c by (simp add: take_bit_nat_eq_self_iff)
  then show ?thesis by (simp add: word_of_nat_eq_iff)
qed

lemma xor_zero_iff: "(v :: 8 word) XOR w = 0 \<longleftrightarrow> v = w"
proof
  assume "v XOR w = 0"
  then have "v XOR (v XOR w) = v" by simp
  then show "v = w" by (simp flip: xor.assoc)
qed simp

lemma diff_bytes_zero: "length a = length b \<Longrightarrow> diff_bytes d a b = 0 \<longleftrightarrow> d = 0 \<and> a = b"
  by (induction d a b rule: diff_bytes.induct) (auto simp: or_eq_0_iff xor_zero_iff byte_eq_iff)

lemma enrollEqual_iff: "enrollEqual a b \<longleftrightarrow> a = b"
  by (auto simp: enrollEqual_def diff_bytes_zero)

section \<open>Lifetime of a token\<close>

text \<open>What is relied on of base64url and JSON at the texts of one token: a part decodes to what it encodes and has neither dots nor spaces.\<close>

definition part_ok :: "HMACIssuer \<Rightarrow> string \<Rightarrow> bool" where
  "part_ok h x \<longleftrightarrow> unb64URL h (b64URL h x) = Some x \<and> CHR ''.'' \<notin> set (b64URL h x) \<and> list_all (\<lambda>c. \<not> is_space c) (b64URL h x)"

definition token_codec_ok :: "HMACIssuer \<Rightarrow> jwt_claims \<Rightarrow> bool" where
  "token_codec_ok h c \<longleftrightarrow> part_ok h (header_text h) \<and> part_ok h (payload_text h c)
     \<and> part_ok h (hs256 h (b64URL h (header_text h) @ ''.'' @ b64URL h (payload_text h c)))
     \<and> header_of h (header_text h) = Some (''HS256'', ''JWT'') \<and> payload_of h (payload_text h c) = Some c"

lemma verify_minted:
  assumes "WorkerMint h now w ttl = Some tok" "token_codec_ok h (wire_claims h now w ttl)"
  shows "WorkerVerify h t tok = check_claims t (wire_claims h now w ttl)"
proof -
  let ?p0 = "b64URL h (header_text h)" and ?p1 = "b64URL h (payload_text h (wire_claims h now w ttl))"
  let ?sig = "hs256 h (?p0 @ ''.'' @ ?p1)"
  have tok: "tok = ?p0 @ CHR ''.'' # ?p1 @ CHR ''.'' # b64URL h ?sig"
    using assms(1) by (auto simp: WorkerMint_def Let_def split: if_splits)
  have "Split tok CHR ''.'' = [?p0, ?p1, b64URL h ?sig]"
    unfolding tok using assms(2) by (simp add: token_codec_ok_def part_ok_def Split_sep Split_no_sep)
  then show ?thesis using assms(2) by (simp add: WorkerVerify_def token_codec_ok_def part_ok_def)
qed

lemma clamp_bounds: "clamp_ttl h ttl \<le> maxTTL h"
  by (simp add: clamp_ttl_def Let_def)

text \<open>A worker token names its worker until it expires, and never lives longer than the issuer's maximum: a minted token verifies, with the worker it was minted for and the scope worker, exactly before
  its expiry in whole seconds, which is at most the maximum lifetime after minting; afterwards it is refused as expired. Zero and negative lifetimes mean
  an hour. It is assumed that the texts of the token decode.\<close>

theorem worker_token_lifetime:
  assumes "WorkerMint h now w ttl = Some tok" and "token_codec_ok h (wire_claims h now w ttl)" and "Unix (now + clamp_ttl h ttl) \<noteq> 0"
  shows "(t < from_unix (Unix (now + clamp_ttl h ttl)) \<longrightarrow>
      (\<exists>c. WorkerVerify h t tok = Inr c \<and> cl_WorkerID c = w \<and> cl_Scope c = ''worker'' \<and> cl_ExpiresAt c \<le> now + maxTTL h))
    \<and> (\<not> t < from_unix (Unix (now + clamp_ttl h ttl)) \<longrightarrow> WorkerVerify h t tok = Inl ErrTokenExpired)
    \<and> (now + maxTTL h \<le> t \<longrightarrow> WorkerVerify h t tok = Inl ErrTokenExpired)"
proof -
  let ?c = "wire_claims h now w ttl"
  have w: "w \<noteq> []" using assms(1) by (auto simp: WorkerMint_def)
  have exp: "from_unix (jc_EXP ?c) \<le> now + maxTTL h"
    using from_unix_bounds(1) [of "now + clamp_ttl h ttl"] clamp_bounds [of h ttl] by (simp add: wire_claims_def)
  have "WorkerVerify h t tok = check_claims t ?c" by (rule verify_minted [OF assms(1,2)])
  also have "\<dots> = (if t < from_unix (jc_EXP ?c) then Inr \<lparr>cl_WorkerID = w, cl_Scope = ''worker'', cl_IssuedAt = from_unix (jc_IAT ?c),
        cl_ExpiresAt = from_unix (jc_EXP ?c), cl_Issuer = issuer h\<rparr> else Inl ErrTokenExpired)"
  proof -
    have "Unix t \<ge> jc_EXP ?c \<longleftrightarrow> \<not> t < from_unix (jc_EXP ?c)" using Unix_less [of t "jc_EXP ?c"] by linarith
    then show ?thesis using w assms(3) by (simp only: check_claims_def) (simp add: wire_claims_def)
  qed
  finally show ?thesis using exp by (simp add: wire_claims_def)
qed

section \<open>From enrolment to the bearer check\<close>

lemma TrimSpace_id: "list_all (\<lambda>c. \<not> is_space c) s \<Longrightarrow> TrimSpace s = s"
proof -
  assume s: "list_all (\<lambda>c. \<not> is_space c) s"
  have drop: "dropWhile is_space u = u" if "list_all (\<lambda>c. \<not> is_space c) u" for u using that by (cases u) auto
  have "list_all (\<lambda>c. \<not> is_space c) (rev s)" using s by simp
  then show ?thesis using s by (simp add: TrimSpace_def drop)
qed

lemma enroll_refusal_Inr:
  assumes "enroll_refusal s cert body = Inr req"
  shows "RunnerIDPattern (er_WorkerID req) \<and> (if RequireWorkerMTLS s then er_WorkerID req = cert
      else EnrollSecret s \<noteq> [] \<and> er_Challenge req = EnrollSecret s)"
  using assms by (auto simp: enroll_refusal_def validWorkerID_def enrollEqual_iff Let_def split: if_splits option.splits)

lemma not_space [simp]: "\<not> is_space CHR ''.''"
  by (simp add: is_space_def)

lemma minted_text:
  assumes "WorkerMint h now w ttl = Some tok" "token_codec_ok h (wire_claims h now w ttl)"
  shows "tok \<noteq> []" "list_all (\<lambda>c. \<not> is_space c) tok"
proof -
  let ?p0 = "b64URL h (header_text h)" and ?p1 = "b64URL h (payload_text h (wire_claims h now w ttl))"
  have tok: "tok = ?p0 @ CHR ''.'' # ?p1 @ CHR ''.'' # b64URL h (hs256 h (?p0 @ ''.'' @ ?p1))"
    using assms(1) by (auto simp: WorkerMint_def Let_def split: if_splits)
  show "tok \<noteq> []" unfolding tok by simp
  show "list_all (\<lambda>c. \<not> is_space c) tok" unfolding tok using assms(2) by (simp add: token_codec_ok_def part_ok_def)
qed

text \<open>Enrolment proves an identity and the bearer check recognises it: a worker that is handed a token has an id of the registry's form, and either presented the
  client certificate of that id or the configured, non-empty enrolment secret; until the token expires, a request that carries it is authenticated as exactly this worker.\<close>

theorem enrolled_worker_is_recognised:
  assumes "enrollHandler s h e cert (Some req) = Inr resp"
    and "token_codec_ok h (wire_claims h (Now e 0) (TrimSpace (er_WorkerID req)) (enroll_ttl (er_TTLSeconds req)))"
    and "t < ep_ExpiresAt resp"
  shows "RunnerIDPattern (ep_WorkerID resp)
    \<and> (if RequireWorkerMTLS s then ep_WorkerID resp = cert else EnrollSecret s \<noteq> [] \<and> TrimSpace (er_Challenge req) = EnrollSecret s)
    \<and> (\<exists>c. requireBearer True h t (''Bearer '' @ ep_Token resp) = Inr (Some c) \<and> cl_WorkerID c = ep_WorkerID resp)"
proof -
  define w where "w = TrimSpace (er_WorkerID req)"
  define ttl where "ttl = enroll_ttl (er_TTLSeconds req)"
  obtain req' claims where r: "enroll_refusal s cert (Some req) = Inr req'"
    and m': "WorkerMint h (Now e 0) (er_WorkerID req') (enroll_ttl (er_TTLSeconds req')) = Some (ep_Token resp)"
    and v: "WorkerVerify h (Now e 1) (ep_Token resp) = Inr claims"
    and resp: "ep_WorkerID resp = er_WorkerID req'" "ep_ExpiresAt resp = cl_ExpiresAt claims"
    using assms(1) by (auto simp: enrollHandler_def split: sum.splits option.splits)
  have req': "er_WorkerID req' = w" "er_TTLSeconds req' = er_TTLSeconds req" "er_Challenge req' = TrimSpace (er_Challenge req)"
    using r by (auto simp: enroll_refusal_def w_def Let_def split: if_splits)
  have m: "WorkerMint h (Now e 0) w ttl = Some (ep_Token resp)" using m' by (simp add: req' ttl_def)
  let ?c = "wire_claims h (Now e 0) w ttl"
  have codec: "token_codec_ok h ?c" using assms(2) by (simp add: w_def ttl_def)
  have wid: "w \<noteq> []" using m by (auto simp: WorkerMint_def)
  have "check_claims (Now e 1) ?c = Inr claims" using verify_minted [OF m codec] v by simp
  then have c: "jc_EXP ?c \<noteq> 0" "cl_ExpiresAt claims = from_unix (jc_EXP ?c)" by (auto simp: check_claims_def split: if_splits)
  have live: "\<not> jc_EXP ?c \<le> Unix t" using assms(3) Unix_less [of t "jc_EXP ?c"] resp(2) c(2) by simp
  obtain cl where cl: "WorkerVerify h t (ep_Token resp) = Inr cl" "cl_WorkerID cl = w"
    using verify_minted [OF m codec, of t] wid c(1) live by (simp add: check_claims_def wire_claims_def)
  have "requireBearer True h t (''Bearer '' @ ep_Token resp) = Inr (Some cl)"
    using minted_text [OF m codec] cl(1) by (simp add: requireBearer_def HasPrefix_def TrimSpace_id Let_def)
  then show ?thesis using enroll_refusal_Inr [OF r] cl(2) resp(1) req' by auto
qed

section \<open>An enrolled worker\<close>

definition plain_issuer :: HMACIssuer where
  "plain_issuer = \<lparr>b64URL = id, unb64URL = Some, hs256 = (\<lambda>_. ''s''), header_text = ''h'', header_of = (\<lambda>_. Some (''HS256'', ''JWT'')),
     payload_text = (\<lambda>_. ''p''), payload_of = (\<lambda>_. None), issuer = ''dev'', maxTTL = 24 * Hour\<rparr>"

definition demo_hmac :: HMACIssuer where
  "demo_hmac = plain_issuer\<lparr>payload_of := (\<lambda>_. Some (wire_claims plain_issuer 0 ''wrkr_a'' (60 * Second)))\<rparr>"

lemma demo_wire: "wire_claims demo_hmac 0 ''wrkr_a'' (60 * Second) = wire_claims plain_issuer 0 ''wrkr_a'' (60 * Second)"
  by (simp add: wire_claims_def demo_hmac_def clamp_ttl_def plain_issuer_def)

lemma demo_codec_ok: "token_codec_ok demo_hmac (wire_claims demo_hmac 0 ''wrkr_a'' (60 * Second))"
  unfolding demo_wire by (simp add: token_codec_ok_def part_ok_def demo_hmac_def plain_issuer_def is_space_def)

theorem worker_token_lifetime_witness:
  "\<exists>tok. WorkerMint demo_hmac 0 ''wrkr_a'' (60 * Second) = Some tok \<and> WorkerVerify demo_hmac (24 * Hour) tok = Inl ErrTokenExpired
    \<and> (\<exists>c. WorkerVerify demo_hmac Second tok = Inr c \<and> cl_WorkerID c = ''wrkr_a'')"
proof -
  obtain tok where m: "WorkerMint demo_hmac 0 ''wrkr_a'' (60 * Second) = Some tok" by (simp add: WorkerMint_def Let_def)
  have u: "Unix (0 + clamp_ttl demo_hmac (60 * Second)) \<noteq> 0" by code_simp
  have b: "Second < from_unix (Unix (0 + clamp_ttl demo_hmac (60 * Second)))" "0 + maxTTL demo_hmac \<le> 24 * Hour" by code_simp+
  show ?thesis
    using worker_token_lifetime [OF m demo_codec_ok u, of Second] worker_token_lifetime [OF m demo_codec_ok u, of "24 * Hour"] b m by blast
qed

definition demo_enrol :: enrollmentReq where
  "demo_enrol = \<lparr>er_WorkerID = ''wrkr_a'', er_Challenge = ''open'', er_TTLSeconds = 60\<rparr>"

definition zero_env :: env where
  "zero_env = \<lparr>nows = (\<lambda>_. 0), idents = id\<rparr>"

lemma zero_env_Now [simp]: "Now zero_env i = 0"
  by (simp add: Now_def zero_env_def)

lemma demo_enrol_trim: "TrimSpace (er_WorkerID demo_enrol) = ''wrkr_a''" "enroll_ttl (er_TTLSeconds demo_enrol) = 60 * Second"
  by code_simp+

theorem enrolled_worker_is_recognised_witness:
  "\<exists>resp c. enrollHandler \<lparr>EnrollSecret = ''open'', RequireWorkerMTLS = False\<rparr> demo_hmac zero_env [] (Some demo_enrol) = Inr resp
    \<and> requireBearer True demo_hmac Second (''Bearer '' @ ep_Token resp) = Inr (Some c) \<and> cl_WorkerID c = ep_WorkerID resp"
proof -
  define resp where "resp = \<lparr>ep_Token = ''h.p.s'', ep_WorkerID = ''wrkr_a'', ep_ExpiresAt = from_unix (Unix (60 * Second))\<rparr>"
  have h: "enrollHandler \<lparr>EnrollSecret = ''open'', RequireWorkerMTLS = False\<rparr> demo_hmac zero_env [] (Some demo_enrol) = Inr resp"
    unfolding resp_def by code_simp
  have codec: "token_codec_ok demo_hmac (wire_claims demo_hmac (Now zero_env 0) (TrimSpace (er_WorkerID demo_enrol)) (enroll_ttl (er_TTLSeconds demo_enrol)))"
    using demo_codec_ok by (simp add: demo_enrol_trim)
  have t: "Second < ep_ExpiresAt resp" unfolding resp_def by code_simp
  from enrolled_worker_is_recognised [OF h codec t] h show ?thesis by blast
qed

end
