(* ===== verification/Artifact_Cas.thy ===== *)
theory Artifact_Cas
  imports Worker_Auth Lease_Store
begin

text \<open>
  The content-addressed artifact store (\<^verbatim>\<open>services/api/artifact_transfer.go\<close>): uploads of workers are verified against their digest and placed under a path made of
  it, downloads are hashed again. The directory is a map from relative paths to bytes. An upload returns the states of the directory after each of its system
  calls, so that a crash leaves one of them behind. SHA-256 in hexadecimal is the parameter \<open>dig\<close>; the system calls that fail are a parameter of every operation.
\<close>

section \<open>Directory\<close>

type_synonym files = "string \<Rightarrow> string option"

datatype fs_call = OpenRoot | MkdirAll | RandomRead | OpenTmp | SyncTmp | CloseTmp | Rename | RemoveTmp

text \<open>Which calls fail, after how many bytes a failing write stops, and which files cannot be read for another reason than that they do not exist.\<close>

record disk_faults =
  call_fails :: "fs_call \<Rightarrow> bool"
  short_write :: "nat option"
  read_fails :: "string \<Rightarrow> bool"

datatype cas_error = errArtifactStoreUnavailable | errArtifactContentMissing | errArtifactTooLarge | errArtifactMetadataMismatch
  | ErrNotExist | DifferentBytes | DiskError

definition MaxArtifactBytes :: nat where "MaxArtifactBytes = 33554432"

text \<open>\<^verbatim>\<open>hex.DecodeString\<close> accepts both cases.\<close>

definition hex_any :: "char \<Rightarrow> bool" where
  "hex_any c \<longleftrightarrow> is_hex c \<or> (65 \<le> (of_char c :: nat) \<and> (of_char c :: nat) \<le> 70)"

definition validArtifactDigest :: "string \<Rightarrow> bool" where
  "validArtifactDigest digest = (if length digest \<noteq> 64 \<or> ToLower digest \<noteq> digest then False else list_all hex_any digest)"

definition artifactCASRelativePath :: "string \<Rightarrow> string" where
  "artifactCASRelativePath digest = (if \<not> validArtifactDigest digest then [] else ''cas/sha256/'' @ take 2 digest @ ''/'' @ digest)"

text \<open>\<^verbatim>\<open>filepath.Base\<close> and, for the paths of the store, \<^verbatim>\<open>filepath.Dir\<close>.\<close>

definition path_Base :: "string \<Rightarrow> string" where
  "path_Base p = (if p = [] then ''.'' else let q = dropWhile (\<lambda>c. c = CHR ''/'') (rev p); b = rev (takeWhile (\<lambda>c. c \<noteq> CHR ''/'') q) in
     if b = [] then ''/'' else b)"

definition path_Dir :: "string \<Rightarrow> string" where
  "path_Dir p = rev (tl (dropWhile (\<lambda>c. c \<noteq> CHR ''/'') (rev p)))"

definition segment_char :: "char \<Rightarrow> bool" where
  "segment_char c \<longleftrightarrow> (let n = of_char c :: nat in (97 \<le> n \<and> n \<le> 122) \<or> (65 \<le> n \<and> n \<le> 90) \<or> (48 \<le> n \<and> n \<le> 57)
     \<or> c = CHR ''_'' \<or> c = CHR ''-'' \<or> c = CHR ''.'')"

definition SafeArtifactPathSegment :: "string \<Rightarrow> bool" where
  "SafeArtifactPathSegment value =
     (if value = [] \<or> value = ''.'' \<or> value = ''..'' \<or> path_Base value \<noteq> value then False else list_all segment_char value)"

section \<open>Upload\<close>

definition readLimitedArtifactFile :: "disk_faults \<Rightarrow> files \<Rightarrow> string \<Rightarrow> cas_error + string" where
  "readLimitedArtifactFile fl fs path =
     (if read_fails fl path then Inl DiskError else case fs path of None \<Rightarrow> Inl ErrNotExist
      | Some content \<Rightarrow> if length content > MaxArtifactBytes then Inl errArtifactTooLarge else Inr content)"

definition tmp_name :: "string \<Rightarrow> string \<Rightarrow> string" where
  "tmp_name destination rnd = path_Dir destination @ ''/.artifact-'' @ rnd"

text \<open>The deferred removal of the temporary file.\<close>

definition cleanup :: "disk_faults \<Rightarrow> string \<Rightarrow> files \<Rightarrow> files" where
  "cleanup fl tmp fs = (if call_fails fl RemoveTmp then fs else fs(tmp := None))"

definition write_new :: "disk_faults \<Rightarrow> string \<Rightarrow> string \<Rightarrow> string \<Rightarrow> files \<Rightarrow> cas_error option \<times> files list" where
  "write_new fl rnd destination content fs =
     (let tmp = tmp_name destination rnd; made = fs(tmp \<mapsto> []); full = fs(tmp \<mapsto> content) in
      if call_fails fl RandomRead then (Some DiskError, [])
      else if call_fails fl OpenTmp \<or> fs tmp \<noteq> None then (Some DiskError, [])
      else case short_write fl of
        Some k \<Rightarrow> (Some DiskError, [made, fs(tmp \<mapsto> take k content), cleanup fl tmp (fs(tmp \<mapsto> take k content))])
      | None \<Rightarrow>
        if call_fails fl SyncTmp \<or> call_fails fl CloseTmp then (Some DiskError, [made, full, cleanup fl tmp full])
        else if call_fails fl Rename then
          ((case readLimitedArtifactFile fl fs destination of Inr existing \<Rightarrow> if existing = content then None else Some DiskError
            | Inl _ \<Rightarrow> Some DiskError), [made, full, cleanup fl tmp full])
        else (None, [made, full, fs(destination \<mapsto> content)]))"

definition persistCASBytes :: "disk_faults \<Rightarrow> string \<Rightarrow> string \<Rightarrow> string \<Rightarrow> files \<Rightarrow> cas_error option \<times> files list" where
  "persistCASBytes fl rnd destination content fs =
     (if call_fails fl MkdirAll then (Some DiskError, [])
      else case readLimitedArtifactFile fl fs destination of
        Inr existing \<Rightarrow> if existing = content then (None, []) else (Some DifferentBytes, [])
      | Inl e \<Rightarrow> if e \<noteq> ErrNotExist then (Some e, []) else write_new fl rnd destination content fs)"

text \<open>The bytes of an upload: those supplied, or for a worker that shares the directory the log file of its node.\<close>

definition upload_content :: "disk_faults \<Rightarrow> Lease \<Rightarrow> string option \<Rightarrow> files \<Rightarrow> cas_error + string" where
  "upload_content fl lease supplied fs = (case supplied of Some c \<Rightarrow> Inr c
     | None \<Rightarrow> if \<not> SafeArtifactPathSegment (lease_WorkID lease) \<or> \<not> SafeArtifactPathSegment (lease_NodeID lease) then Inl errArtifactContentMissing
       else case readLimitedArtifactFile fl fs (lease_WorkID lease @ ''/'' @ lease_NodeID lease @ ''.log'') of
         Inr c \<Rightarrow> Inr c | Inl errArtifactTooLarge \<Rightarrow> Inl errArtifactTooLarge | Inl _ \<Rightarrow> Inl errArtifactContentMissing)"

definition verified_upload :: "(string \<Rightarrow> string) \<Rightarrow> Artifact \<Rightarrow> string \<Rightarrow> cas_error option" where
  "verified_upload dig artifact content =
     (if length content > MaxArtifactBytes then Some errArtifactTooLarge
      else if Size artifact < 0 \<or> Size artifact \<noteq> int (length content) \<or> \<not> validArtifactDigest (art_ID artifact) \<or> art_ID artifact \<noteq> dig content
      then Some errArtifactMetadataMismatch
      else if artifactCASRelativePath (art_ID artifact) = [] then Some errArtifactMetadataMismatch else None)"

definition persistWorkerArtifact ::
  "(string \<Rightarrow> string) \<Rightarrow> bool \<Rightarrow> disk_faults \<Rightarrow> string \<Rightarrow> Lease option \<Rightarrow> Artifact option \<Rightarrow> string option \<Rightarrow> files \<Rightarrow> (cas_error + Artifact) \<times> files list" where
  "persistWorkerArtifact dig configured fl rnd lease0 artifact0 supplied fs =
     (if \<not> configured then (Inl errArtifactStoreUnavailable, [])
      else case (lease0, artifact0) of
        (Some lease, Some artifact) \<Rightarrow>
          if art_NodeID artifact = [] \<or> art_NodeID artifact \<noteq> lease_NodeID lease then (Inl errArtifactMetadataMismatch, [])
          else if call_fails fl OpenRoot then (Inl DiskError, [])
          else (case upload_content fl lease supplied fs of Inl e \<Rightarrow> (Inl e, [])
            | Inr content \<Rightarrow> (case verified_upload dig artifact content of Some e \<Rightarrow> (Inl e, [])
              | None \<Rightarrow> let destination = artifactCASRelativePath (art_ID artifact) in
                (case persistCASBytes fl rnd destination content fs of
                  (Some e, trace) \<Rightarrow> (Inl e, trace)
                | (None, trace) \<Rightarrow> (Inr (artifact\<lparr>Path := destination\<rparr>), trace))))
      | _ \<Rightarrow> (Inl errArtifactMetadataMismatch, []))"

text \<open>The directory after the calls.\<close>

definition after :: "files \<Rightarrow> files list \<Rightarrow> files" where
  "after fs trace = last (fs # trace)"

section \<open>Download\<close>

definition readVerifiedCASArtifact :: "(string \<Rightarrow> string) \<Rightarrow> disk_faults \<Rightarrow> files \<Rightarrow> Artifact \<Rightarrow> cas_error + string" where
  "readVerifiedCASArtifact dig fl fs artifact =
     (if \<not> validArtifactDigest (art_ID artifact) \<or> Path artifact \<noteq> artifactCASRelativePath (art_ID artifact)
         \<or> Size artifact < 0 \<or> Size artifact > int MaxArtifactBytes then Inl errArtifactMetadataMismatch
      else let path = artifactCASRelativePath (art_ID artifact) in
      if read_fails fl path then Inl DiskError
      else case fs path of None \<Rightarrow> Inl ErrNotExist
      | Some file \<Rightarrow> let content = take (MaxArtifactBytes + 1) file in
        if int (length content) \<noteq> Size artifact \<or> length content > MaxArtifactBytes \<or> dig content \<noteq> art_ID artifact
        then Inl errArtifactMetadataMismatch else Inr content)"

definition workArtifactHandler ::
  "(string \<Rightarrow> string) \<Rightarrow> bool \<Rightarrow> disk_faults \<Rightarrow> db \<Rightarrow> files \<Rightarrow> string \<Rightarrow> string \<Rightarrow> api_error + string" where
  "workArtifactHandler dig configured fl db fs workID digest =
     (if \<not> configured then Inl (ApiError 503 ''artifacts_unavailable'')
      else if \<not> validArtifactDigest digest then Inl (ApiError 404 ''artifact_not_found'')
      else case GetWork workID db of
        Inl ErrNotFound \<Rightarrow> Inl (ApiError 404 ''work_not_found'')
      | Inl _ \<Rightarrow> Inl (ApiError 500 ''get_failed'')
      | Inr work \<Rightarrow> (case find (\<lambda>a. art_ID a = digest \<and> artifactCASRelativePath (art_ID a) = Path a) (Artifacts work) of
          None \<Rightarrow> Inl (ApiError 404 ''artifact_not_found'')
        | Some matched \<Rightarrow>
          if call_fails fl OpenRoot then Inl (ApiError 500 ''artifact_store_failed'')
          else case readVerifiedCASArtifact dig fl fs matched of
            Inl ErrNotExist \<Rightarrow> Inl (ApiError 404 ''artifact_content_not_found'')
          | Inl _ \<Rightarrow> Inl (ApiError 500 ''artifact_integrity_failed'')
          | Inr content \<Rightarrow> Inr content))"

section \<open>Paths\<close>

lemma digest_iff: "validArtifactDigest d \<longleftrightarrow> sha256_hex d"
proof -
  have "lower_char c = c \<and> hex_any c \<longleftrightarrow> is_hex c" for c
  proof -
    have "of_char (lower_char c) = (if 65 \<le> (of_char c :: nat) \<and> (of_char c :: nat) \<le> 90 then of_char c + 32 else (of_char c :: nat))"
      by (auto simp: lower_char_def)
    then show ?thesis by (auto simp: hex_any_def is_hex_def lower_char_def)
  qed
  then have "map lower_char d = d \<and> list_all hex_any d \<longleftrightarrow> list_all is_hex d" by (induction d) auto
  then show ?thesis by (auto simp: validArtifactDigest_def sha256_hex_def ToLower_def)
qed

lemma hex_not_dot: "sha256_hex d \<Longrightarrow> CHR ''.'' \<notin> set d" "sha256_hex d \<Longrightarrow> CHR ''/'' \<notin> set d"
  by (auto simp: sha256_hex_def list_all_iff is_hex_def)

lemma cas_path: "sha256_hex d \<Longrightarrow> artifactCASRelativePath d = ''cas/sha256/'' @ take 2 d @ ''/'' @ d"
  by (simp add: artifactCASRelativePath_def digest_iff)

lemma cas_path_inj: "sha256_hex d \<Longrightarrow> sha256_hex d' \<Longrightarrow> artifactCASRelativePath d = artifactCASRelativePath d' \<longleftrightarrow> d = d'"
  by (auto simp: cas_path sha256_hex_def)

lemma cas_path_no_dot: "sha256_hex d \<Longrightarrow> CHR ''.'' \<notin> set (artifactCASRelativePath d)"
  using hex_not_dot(1) [of d] by (auto simp: cas_path dest: in_set_takeD)

lemma tmp_not_cas: "sha256_hex d \<Longrightarrow> artifactCASRelativePath d \<noteq> tmp_name dest rnd"
  using cas_path_no_dot [of d] by (auto simp: tmp_name_def)

lemma cas_path_ne: "sha256_hex d \<Longrightarrow> artifactCASRelativePath d \<noteq> []"
  by (simp add: cas_path)

section \<open>What an upload changes\<close>

lemma readLimited_Inr: "readLimitedArtifactFile fl fs p = Inr c \<Longrightarrow> fs p = Some c \<and> length c \<le> MaxArtifactBytes"
  by (auto simp: readLimitedArtifactFile_def split: if_splits option.splits)

lemma readLimited_NotExist: "readLimitedArtifactFile fl fs p = Inl ErrNotExist \<Longrightarrow> fs p = None"
  by (auto simp: readLimitedArtifactFile_def split: if_splits option.splits)

text \<open>The store at a digest: the only change is from nothing to the whole content.\<close>

definition cas_step :: "string \<Rightarrow> string \<Rightarrow> string \<Rightarrow> files \<Rightarrow> files \<Rightarrow> bool" where
  "cas_step d dest content fs fs' \<longleftrightarrow> (let p = artifactCASRelativePath d in
     fs' p = fs p \<or> p = dest \<and> fs p = None \<and> fs' p = Some content)"

lemma write_new_step:
  assumes "write_new fl rnd dest content fs = (res, trace)" "fs' \<in> set trace" "sha256_hex d" "fs dest = None"
  shows "cas_step d dest content fs fs'"
proof -
  have tmp: "artifactCASRelativePath d \<noteq> tmp_name dest rnd" by (rule tmp_not_cas [OF assms(3)])
  then show ?thesis using assms
    by (auto simp: write_new_def cas_step_def cleanup_def Let_def split: if_splits option.splits)
qed

lemma write_new_done:
  assumes "write_new fl rnd dest content fs = (None, trace)" "fs dest = None"
  shows "after fs trace dest = Some content"
  using assms by (auto simp: write_new_def after_def readLimitedArtifactFile_def Let_def split: if_splits option.splits sum.splits)

lemma persistCAS_step:
  assumes "persistCASBytes fl rnd dest content fs = (res, trace)" "fs' \<in> set trace" "sha256_hex d"
  shows "cas_step d dest content fs fs'"
  using assms write_new_step readLimited_NotExist by (auto simp: persistCASBytes_def split: if_splits sum.splits)

lemma persistCAS_done:
  assumes "persistCASBytes fl rnd dest content fs = (None, trace)"
  shows "after fs trace dest = Some content"
  using assms write_new_done readLimited_NotExist readLimited_Inr
  by (fastforce simp: persistCASBytes_def after_def split: if_splits sum.splits)

lemma verified_upload_None:
  assumes "verified_upload dig a content = None"
  shows "length content \<le> MaxArtifactBytes \<and> Size a = int (length content) \<and> sha256_hex (dig content) \<and> art_ID a = dig content"
  using assms by (auto simp: verified_upload_def digest_iff split: if_splits)

lemma persistWorker_cases:
  assumes "persistWorkerArtifact dig cfg fl rnd l a bytes fs = (res, trace)"
  obtains e where "trace = []" "res = Inl e"
  | lease artifact content r where "l = Some lease" "a = Some artifact" "upload_content fl lease bytes fs = Inr content"
      "verified_upload dig artifact content = None" "persistCASBytes fl rnd (artifactCASRelativePath (art_ID artifact)) content fs = (r, trace)"
      "res = (case r of Some e \<Rightarrow> Inl e | None \<Rightarrow> Inr (artifact\<lparr>Path := artifactCASRelativePath (art_ID artifact)\<rparr>))"
  using assms by (auto simp: persistWorkerArtifact_def Let_def split: if_splits option.splits sum.splits prod.splits)

lemma persistWorker_step:
  assumes "persistWorkerArtifact dig cfg fl rnd l a bytes fs = (res, trace)" "fs' \<in> set trace" "sha256_hex d"
  obtains content where "cas_step d (artifactCASRelativePath (dig content)) content fs fs'" "length content \<le> MaxArtifactBytes" "sha256_hex (dig content)"
  using assms(1)
proof (cases rule: persistWorker_cases)
  case (1 e)
  then show ?thesis using assms(2) by simp
next
  case (2 lease artifact content r)
  have id: "art_ID artifact = dig content" "sha256_hex (dig content)" "length content \<le> MaxArtifactBytes"
    using verified_upload_None [OF 2(4)] by simp_all
  show ?thesis using that [OF _ id(3,2)] persistCAS_step [OF 2(5) assms(2,3)] by (simp add: id(1))
qed

lemma persistWorker_done:
  assumes "persistWorkerArtifact dig cfg fl rnd (Some l) (Some a) bytes fs = (Inr a', trace)"
  obtains content where "upload_content fl l bytes fs = Inr content" "verified_upload dig a content = None"
    "a' = a\<lparr>Path := artifactCASRelativePath (art_ID a)\<rparr>" "after fs trace (artifactCASRelativePath (art_ID a)) = Some content"
  using assms
proof (cases rule: persistWorker_cases)
  case (2 lease artifact content r)
  then have "r = None" by (simp split: option.splits)
  then show ?thesis using that [of content] 2 persistCAS_done by simp
qed simp

section \<open>Uploads in sequence\<close>

record upload =
  up_faults :: disk_faults
  up_random :: string
  up_lease :: Lease
  up_artifact :: Artifact
  up_content :: "string option"

definition exec_upload :: "(string \<Rightarrow> string) \<Rightarrow> bool \<Rightarrow> upload \<Rightarrow> files \<Rightarrow> files" where
  "exec_upload dig cfg u fs = after fs (snd (persistWorkerArtifact dig cfg (up_faults u) (up_random u)
     (Some (up_lease u)) (Some (up_artifact u)) (up_content u) fs))"

text \<open>Every file of the store is the whole content its name is the digest of.\<close>

definition cas_ok :: "(string \<Rightarrow> string) \<Rightarrow> files \<Rightarrow> bool" where
  "cas_ok dig fs \<longleftrightarrow> (\<forall>d c. sha256_hex d \<longrightarrow> fs (artifactCASRelativePath d) = Some c \<longrightarrow> dig c = d \<and> length c \<le> MaxArtifactBytes)"

text \<open>The content at a digest.\<close>

definition cas_look :: "files \<Rightarrow> string \<Rightarrow> string option" where
  "cas_look fs d = (if sha256_hex d then fs (artifactCASRelativePath d) else None)"

lemma persistWorker_keeps:
  assumes "persistWorkerArtifact dig cfg fl rnd l a bytes fs = (res, trace)" "fs' \<in> set trace" "cas_look fs d = Some c"
  shows "cas_look fs' d = Some c"
proof -
  have d: "sha256_hex d" and c: "fs (artifactCASRelativePath d) = Some c" using assms(3) by (auto simp: cas_look_def split: if_splits)
  from persistWorker_step [OF assms(1,2) d] c d show ?thesis by (auto simp: cas_look_def cas_step_def Let_def)
qed

lemma persistWorker_ok:
  assumes "persistWorkerArtifact dig cfg fl rnd l a bytes fs = (res, trace)" "fs' \<in> set trace" "cas_ok dig fs"
  shows "cas_ok dig fs'"
  unfolding cas_ok_def
proof (intro allI impI)
  fix d c assume d: "sha256_hex d" and c: "fs' (artifactCASRelativePath d) = Some c"
  obtain content where step: "cas_step d (artifactCASRelativePath (dig content)) content fs fs'"
    and content: "length content \<le> MaxArtifactBytes" "sha256_hex (dig content)"
    using persistWorker_step [OF assms(1,2) d] .
  show "dig c = d \<and> length c \<le> MaxArtifactBytes"
  proof (cases "fs' (artifactCASRelativePath d) = fs (artifactCASRelativePath d)")
    case True
    then have "fs (artifactCASRelativePath d) = Some c" using c by simp
    then show ?thesis using assms(3) d unfolding cas_ok_def by blast
  next
    case False
    then show ?thesis using step content c cas_path_inj [OF d content(2)] by (simp add: cas_step_def Let_def)
  qed
qed

lemma after_mem: "after fs trace = fs \<or> after fs trace \<in> set trace"
  by (auto simp: after_def)

lemma exec_upload_cases:
  obtains "exec_upload dig cfg u fs = fs"
  | res trace where "persistWorkerArtifact dig cfg (up_faults u) (up_random u) (Some (up_lease u)) (Some (up_artifact u)) (up_content u) fs = (res, trace)"
      "exec_upload dig cfg u fs \<in> set trace"
proof -
  obtain res trace where p: "persistWorkerArtifact dig cfg (up_faults u) (up_random u) (Some (up_lease u)) (Some (up_artifact u)) (up_content u) fs = (res, trace)"
    by (rule prod.exhaust)
  then have "exec_upload dig cfg u fs = after fs trace" by (simp add: exec_upload_def)
  then show ?thesis using after_mem [of fs trace] p that(1) that(2) [OF p] by auto
qed

text \<open>A store whose entries are never changed: what one operation keeps, every sequence keeps.\<close>

locale write_once =
  fixes exec :: "'op \<Rightarrow> 's \<Rightarrow> 's"
    and look :: "'s \<Rightarrow> 'k \<Rightarrow> 'v option"
  assumes keeps: "look s k = Some v \<Longrightarrow> look (exec a s) k = Some v"
begin

lemma keeps_run: "look s k = Some v \<Longrightarrow> look (fold exec as s) k = Some v"
  by (induction as arbitrary: s) (auto simp: keeps)

end

interpretation cas_store: write_once "exec_upload dig cfg" cas_look
proof unfold_locales
  fix s k v a assume look: "cas_look s k = Some v"
  show "cas_look (exec_upload dig cfg a s) k = Some v"
    by (rule exec_upload_cases [of dig cfg a s]) (use look persistWorker_keeps in auto)
qed

interpretation cas_files: invariant_ops "exec_upload dig cfg" "cas_ok dig"
proof unfold_locales
  fix s a assume ok: "cas_ok dig s"
  show "cas_ok dig (exec_upload dig cfg a s)"
    by (rule exec_upload_cases [of dig cfg a s]) (use ok persistWorker_ok in auto)
qed

lemma read_stored:
  assumes "cas_look fs (art_ID a) = Some c" "Size a = int (length c)" "length c \<le> MaxArtifactBytes" "dig c = art_ID a"
    and "Path a = artifactCASRelativePath (art_ID a)" "\<not> read_fails fl (Path a)"
  shows "readVerifiedCASArtifact dig fl fs a = Inr c"
proof -
  have "sha256_hex (art_ID a)" "fs (artifactCASRelativePath (art_ID a)) = Some c"
    using assms(1) by (auto simp: cas_look_def split: if_splits)
  then show ?thesis using assms(2-6) by (simp add: readVerifiedCASArtifact_def digest_iff)
qed

section \<open>Properties\<close>

text \<open>C23. What is uploaded can be downloaded, byte for byte, for as long as the store lives: after an accepted upload, and after any number of further uploads (accepted,
  refused or failing in the middle), reading the recorded artifact returns exactly the bytes of the upload, unless the disk fails.\<close>

theorem artifact_round_trip:
  assumes "persistWorkerArtifact dig cfg fl rnd (Some l) (Some a) (Some content) fs = (Inr a', trace)"
    and "\<not> read_fails fl' (Path a')"
  shows "readVerifiedCASArtifact dig fl' (fold (exec_upload dig cfg') us (after fs trace)) a' = Inr content"
proof -
  from persistWorker_done [OF assms(1)] obtain content' where
    up: "upload_content fl l (Some content) fs = Inr content'" "verified_upload dig a content' = None"
    "a' = a\<lparr>Path := artifactCASRelativePath (art_ID a)\<rparr>" "after fs trace (artifactCASRelativePath (art_ID a)) = Some content'" .
  have c: "content' = content" using up(1) by (simp add: upload_content_def)
  have v: "length content \<le> MaxArtifactBytes" "Size a = int (length content)" "sha256_hex (dig content)" "art_ID a = dig content"
    using verified_upload_None [OF up(2)] by (simp_all add: c)
  have "cas_look (after fs trace) (art_ID a) = Some content" using up(4) v(3,4) by (simp add: cas_look_def c)
  then have "cas_look (fold (exec_upload dig cfg') us (after fs trace)) (art_ID a) = Some content" by (rule cas_store.keeps_run)
  then show ?thesis using v assms(2) by (intro read_stored) (simp_all add: up(3))
qed

text \<open>C24. A crash in the middle of an upload leaves no half-written artifact behind: in every state of the directory between two system calls each file of the store is
  the whole content its name is the digest of, and every content that was there before is still there, whatever calls fail.\<close>

theorem upload_crash_safe:
  assumes "cas_ok dig fs" and "fs' \<in> set (snd (persistWorkerArtifact dig cfg fl rnd l a bytes fs))"
  shows "cas_ok dig fs' \<and> (\<forall>d c. cas_look fs d = Some c \<longrightarrow> cas_look fs' d = Some c)"
proof -
  obtain res trace where p: "persistWorkerArtifact dig cfg fl rnd l a bytes fs = (res, trace)" by (rule prod.exhaust)
  then have mem: "fs' \<in> set trace" using assms(2) by simp
  show ?thesis using persistWorker_ok [OF p mem assms(1)] persistWorker_keeps [OF p mem] by blast
qed

text \<open>The download serves only what was asked for, even from a damaged directory: bytes that are returned have the requested digest, and the Work lists an
  artifact with this digest and this size.\<close>

theorem served_bytes_match_digest:
  assumes "workArtifactHandler dig cfg fl db fs workID digest = Inr content"
  shows "dig content = digest \<and> length content \<le> MaxArtifactBytes
    \<and> (\<exists>w a. GetWork workID db = Inr w \<and> a \<in> set (Artifacts w) \<and> art_ID a = digest \<and> Size a = int (length content))"
proof -
  obtain w a where w: "GetWork workID db = Inr w"
    and f: "find (\<lambda>a. art_ID a = digest \<and> artifactCASRelativePath (art_ID a) = Path a) (Artifacts w) = Some a"
    and r: "readVerifiedCASArtifact dig fl fs a = Inr content"
    using assms by (auto simp: workArtifactHandler_def split: if_splits option.splits sum.splits store_error.splits cas_error.splits)
  have "a \<in> set (Artifacts w)" "art_ID a = digest" using f by (auto simp: find_Some_iff)
  moreover have "dig content = art_ID a \<and> length content \<le> MaxArtifactBytes \<and> Size a = int (length content)"
    using r by (auto simp: readVerifiedCASArtifact_def Let_def split: if_splits option.splits)
  ultimately show ?thesis using w by blast
qed

section \<open>An uploaded artifact\<close>

definition no_faults :: disk_faults where
  "no_faults = \<lparr>call_fails = (\<lambda>_. False), short_write = None, read_fails = (\<lambda>_. False)\<rparr>"

definition zero_digest :: "string \<Rightarrow> string" where
  "zero_digest s = replicate 64 CHR ''0''"

definition demo_artifact :: Artifact where
  "demo_artifact = \<lparr>art_ID = zero_digest [], MimeType = [], Size = 2, art_NodeID = ''n'', Path = []\<rparr>"

definition demo_upload_lease :: Lease where
  "demo_upload_lease = \<lparr>lease_ID = ''l'', lease_WorkID = ''w'', lease_NodeID = ''n'', lease_WorkerID = ''k'', lease_AttemptID = ''a'',
     GrantedAt = 0, ExpiresAt = 0, LastBeatAt = 0, lease_Status = LeaseActive\<rparr>"

definition failing_upload :: upload where
  "failing_upload = \<lparr>up_faults = no_faults\<lparr>short_write := Some 1\<rparr>, up_random = ''1'', up_lease = demo_upload_lease,
     up_artifact = demo_artifact, up_content = Some ''no''\<rparr>"

lemma demo_upload:
  obtains a' trace where "persistWorkerArtifact zero_digest True no_faults ''0'' (Some demo_upload_lease) (Some demo_artifact) (Some ''ok'') (\<lambda>_. None) = (Inr a', trace)"
    "a' = demo_artifact\<lparr>Path := artifactCASRelativePath (zero_digest [])\<rparr>" "trace \<noteq> []"
proof -
  have d: "sha256_hex (zero_digest s)" for s by (simp add: sha256_hex_def zero_digest_def list_all_iff is_hex_def)
  then have "artifactCASRelativePath (zero_digest s) \<noteq> []" for s by (rule cas_path_ne)
  then have "verified_upload zero_digest demo_artifact ''ok'' = None"
    using d by (simp add: verified_upload_def demo_artifact_def digest_iff MaxArtifactBytes_def) (simp add: zero_digest_def)
  then show ?thesis using that
    by (simp add: persistWorkerArtifact_def persistCASBytes_def write_new_def readLimitedArtifactFile_def upload_content_def no_faults_def
        demo_artifact_def demo_upload_lease_def Let_def)
qed

theorem artifact_round_trip_witness:
  "\<exists>a' fs. readVerifiedCASArtifact zero_digest no_faults (fold (exec_upload zero_digest True) [failing_upload] fs) a' = Inr ''ok''"
proof -
  obtain a' trace where p: "persistWorkerArtifact zero_digest True no_faults ''0'' (Some demo_upload_lease) (Some demo_artifact) (Some ''ok'') (\<lambda>_. None) = (Inr a', trace)"
    by (rule demo_upload)
  have "\<not> read_fails no_faults (Path a')" by (simp add: no_faults_def)
  from artifact_round_trip [OF p this] show ?thesis by blast
qed

theorem upload_crash_safe_witness:
  "\<exists>fs'. fs' \<in> set (snd (persistWorkerArtifact zero_digest True no_faults ''0'' (Some demo_upload_lease) (Some demo_artifact) (Some ''ok'') (\<lambda>_. None)))
     \<and> cas_ok zero_digest fs'"
proof -
  obtain a' trace where p: "persistWorkerArtifact zero_digest True no_faults ''0'' (Some demo_upload_lease) (Some demo_artifact) (Some ''ok'') (\<lambda>_. None) = (Inr a', trace)"
    and ne: "trace \<noteq> []" by (rule demo_upload)
  have empty: "cas_ok zero_digest (\<lambda>_. None)" by (simp add: cas_ok_def)
  have mem: "hd trace \<in> set (snd (persistWorkerArtifact zero_digest True no_faults ''0'' (Some demo_upload_lease) (Some demo_artifact) (Some ''ok'') (\<lambda>_. None)))"
    using ne by (simp add: p)
  from upload_crash_safe [OF empty mem] mem show ?thesis by blast
qed

definition stored_artifact :: Artifact where
  "stored_artifact = demo_artifact\<lparr>Path := artifactCASRelativePath (zero_digest [])\<rparr>"

theorem served_bytes_match_digest_witness:
  "\<exists>fs. workArtifactHandler zero_digest True no_faults (demo_db\<lparr>artifacts := [(''w1'', stored_artifact)]\<rparr>) fs ''w1'' (zero_digest []) = Inr ''ok''
     \<and> zero_digest ''ok'' = zero_digest []"
proof -
  define db where "db = demo_db\<lparr>artifacts := [(''w1'', stored_artifact)]\<rparr>"
  define fs where "fs = [artifactCASRelativePath (zero_digest []) \<mapsto> ''ok'']"
  have d: "sha256_hex (zero_digest [])" by (simp add: sha256_hex_def zero_digest_def list_all_iff is_hex_def)
  have "get_row ''w1'' db = Some (work_columns (stamp_work demo_env demo_work))" using demo_row by (simp add: db_def get_row_def)
  then obtain w where w: "GetWork ''w1'' db = Inr w" "Artifacts w = [stored_artifact]" by (simp add: GetWork_def artifacts_of_def db_def)
  have r: "readVerifiedCASArtifact zero_digest no_faults fs stored_artifact = Inr ''ok''"
    using d by (simp add: readVerifiedCASArtifact_def digest_iff stored_artifact_def demo_artifact_def fs_def no_faults_def MaxArtifactBytes_def) (simp add: zero_digest_def)
  have served: "workArtifactHandler zero_digest True no_faults db fs ''w1'' (zero_digest []) = Inr ''ok''"
    using w d r by (simp add: workArtifactHandler_def digest_iff) (simp add: stored_artifact_def demo_artifact_def no_faults_def)
  with served_bytes_match_digest [OF served] show ?thesis unfolding db_def by blast
qed

end
