(* ===== verification/Lease_Api.thy ===== *)
theory Lease_Api
  imports Artifact_Cas Lease_Policy Governed_Resume
begin

text \<open>
  The lease routes of the API server (\<^verbatim>\<open>services/api/leases.go\<close>) with the gates in front of the store: the token's owner (\<^verbatim>\<open>claim_owner_authz.go\<close>,
  \<^verbatim>\<open>lease_owner_authz.go\<close>), the control token of an advertised runtime (\<^verbatim>\<open>claim_abi_gate.go\<close>, \<^verbatim>\<open>rab_control_token.go\<close>), pool membership, hard requirements, the policy
  engine, and the reservation route of the platform (\<^verbatim>\<open>placement_reservation_v2.go\<close>). The server's state is the store, the runner registry and the artifact
  directory. A request is its verified worker id (\<open>None\<close> when authentication is off), its control-token header and its decoded body (\<open>None\<close> for text that does not
  decode). HMAC-SHA256 under a key, base64url, SHA-256 and the rendering of times are fields of the configuration; log lines, the message texts of errors and the
  publisher that is told about finished Works have no counterpart.
\<close>

section \<open>State and configuration\<close>

record api_config =
  RABControlKey :: string
  hmac_sha256 :: "string \<Rightarrow> string \<Rightarrow> string"
  enc_b64 :: "string \<Rightarrow> string"
  dec_b64 :: "string \<Rightarrow> string option"
  PolicyLoaded :: bool
  ArtifactsDir :: bool
  digest_of :: "string \<Rightarrow> string"
  fmt_time :: "time \<Rightarrow> string"
  PlatformAPIToken :: string
  bridgeSecret :: string

record api_state =
  st_db :: db
  st_registry :: "runnerRegistry option"
  st_files :: files

datatype lease_reply =
    LError nat string
  | LGranted Lease Attempt
  | LLease Lease
  | LWork Work
  | LReleased string
  | LRevoked string
  | LReserved string string string string

section \<open>Control tokens\<close>

definition hex_encode :: "string \<Rightarrow> string" where
  "hex_encode s = concat (map (\<lambda>c. hex_byte (of_char c)) s)"

definition hex_val :: "char \<Rightarrow> nat option" where
  "hex_val c = (let n = of_char c :: nat in if 48 \<le> n \<and> n \<le> 57 then Some (n - 48) else if 97 \<le> n \<and> n \<le> 102 then Some (n - 87)
     else if 65 \<le> n \<and> n \<le> 70 then Some (n - 55) else None)"

fun hex_decode :: "string \<Rightarrow> string option" where
  "hex_decode [] = Some []"
| "hex_decode [c] = None"
| "hex_decode (a # b # s) = (case (hex_val a, hex_val b, hex_decode s) of
     (Some h, Some l, Some r) \<Rightarrow> Some (char_of (16 * h + l) # r) | _ \<Rightarrow> None)"

definition controlMAC :: "api_config \<Rightarrow> string \<Rightarrow> string \<Rightarrow> string" where
  "controlMAC g key runnerID = hmac_sha256 g key runnerID"

definition MintRABControlToken :: "api_config \<Rightarrow> string \<Rightarrow> string \<Rightarrow> string option" where
  "MintRABControlToken g key runnerID =
     (if key = [] then None else if runnerID = [] then None
      else Some (enc_b64 g runnerID @ ''.'' @ hex_encode (controlMAC g key runnerID)))"

definition VerifyControlToken :: "api_config \<Rightarrow> string \<Rightarrow> string \<Rightarrow> bool" where
  "VerifyControlToken g hdr runnerID =
     (if RABControlKey g = [] \<or> runnerID = [] then False
      else case Split hdr CHR ''.'' of
        [p0, p1] \<Rightarrow> (case dec_b64 g p0 of None \<Rightarrow> False
          | Some idBytes \<Rightarrow> if idBytes \<noteq> runnerID then False
            else case hex_decode p1 of None \<Rightarrow> False
            | Some sig \<Rightarrow> if length sig \<noteq> 32 then False else sig = controlMAC g (RABControlKey g) runnerID)
      | _ \<Rightarrow> False)"

section \<open>Gates\<close>

definition abiFor :: "runnerRegistry option \<Rightarrow> string \<Rightarrow> RAB option" where
  "abiFor reg runnerID = (if runnerID = [] then None else case reg of None \<Rightarrow> None | Some r \<Rightarrow> getABI r runnerID)"

definition gateClaimByRAB :: "api_config \<Rightarrow> runnerRegistry option \<Rightarrow> string \<Rightarrow> string \<Rightarrow> api_error option" where
  "gateClaimByRAB g reg runnerID hdr =
     (case abiFor reg runnerID of None \<Rightarrow> None
      | Some rab \<Rightarrow> if \<not> RequiresControlToken rab then None
        else if RABControlKey g \<noteq> [] then
          (if \<not> VerifyControlToken g hdr runnerID then
             (if hdr = [] then Some (ApiError 403 ''control_token_required'') else Some (ApiError 403 ''control_token_invalid''))
           else None)
        else if hdr = [] then Some (ApiError 403 ''control_token_required'')
        else None)"

definition gateClaimOwner :: "string option \<Rightarrow> string \<Rightarrow> api_error option" where
  "gateClaimOwner claims claimedWorkerID = (case claims of None \<Rightarrow> None
     | Some worker \<Rightarrow> if worker = claimedWorkerID then None else Some (ApiError 403 ''worker_id_mismatch''))"

definition gateLeaseOwner :: "string option \<Rightarrow> string \<Rightarrow> db \<Rightarrow> api_error option" where
  "gateLeaseOwner claims leaseID db = (case claims of None \<Rightarrow> None
     | Some worker \<Rightarrow> (case GetLease leaseID db of
         Inl ErrNotFound \<Rightarrow> Some (ApiError 404 ''not_found'')
       | Inl _ \<Rightarrow> Some (ApiError 500 ''lease_lookup_failed'')
       | Inr lease \<Rightarrow> if worker = lease_WorkerID lease then None else Some (ApiError 403 ''lease_not_owner'')))"

text \<open>\<^verbatim>\<open>strings.Index\<close> and the tenant segment of a SPIFFE id.\<close>

fun str_Index :: "string \<Rightarrow> string \<Rightarrow> nat option" where
  "str_Index [] p = (if p = [] then Some 0 else None)"
| "str_Index (c # s) p = (if HasPrefix (c # s) p then Some 0 else map_option Suc (str_Index s p))"

definition runnerTenantFromSpiffe :: "string \<Rightarrow> string" where
  "runnerTenantFromSpiffe spiffe = (case str_Index spiffe ''/ns/'' of None \<Rightarrow> []
     | Some i \<Rightarrow> let rest = drop (i + 4) spiffe in (case str_Index rest ''/'' of None \<Rightarrow> rest | Some j \<Rightarrow> take j rest))"

definition runner_of :: "Identity \<Rightarrow> Runner" where
  "runner_of i = zero_Runner\<lparr>RunnerID := id_RunnerID i, r_Tenant := runnerTenantFromSpiffe (id_SpiffeID i), r_TrustClass := id_TrustClass i,
     Lifecycle := id_LifecycleState i, r_OS := cap_OS (id_Capabilities i), r_Arch := cap_Arch (id_Capabilities i),
     r_CPUMilli := cap_CPUMilli (id_Capabilities i), r_MemoryMiB := cap_MemoryMiB (id_Capabilities i), r_GPU := cap_GPU (id_Capabilities i),
     Toolchains := cap_Toolchains (id_Capabilities i), Labels := cap_Labels (id_Capabilities i)\<rparr>"

definition runnersFromIdentities :: "Identity option list \<Rightarrow> Runner list" where
  "runnersFromIdentities ids = map runner_of (concat (map (\<lambda>i. case i of None \<Rightarrow> [] | Some x \<Rightarrow> [x]) ids))"

definition reg_lookup :: "runnerRegistry option \<Rightarrow> string \<Rightarrow> Identity option" where
  "reg_lookup reg wid = (case reg of None \<Rightarrow> None | Some r \<Rightarrow> reg_get r wid)"

definition runnerIsLivePoolMember :: "runnerRegistry option \<Rightarrow> string \<Rightarrow> string \<Rightarrow> time \<Rightarrow> bool" where
  "runnerIsLivePoolMember reg workerID pool now = (case reg of None \<Rightarrow> False
     | Some r \<Rightarrow> (case reg_get r workerID of None \<Rightarrow> False
       | Some i \<Rightarrow> if \<not> runnerHasFreshHeartbeat (Some i) now then False
         else list_ex (\<lambda>label. label = ''pool:'' @ pool) (cap_Labels (id_Capabilities i))))"

definition scheduler_error_text :: "scheduler_error \<Rightarrow> string" where
  "scheduler_error_text x = (case x of ErrNilWork \<Rightarrow> ''scheduler: work is nil'' | ErrNilNode \<Rightarrow> ''scheduler: node is nil''
     | ErrEmptyPool \<Rightarrow> ''scheduler: empty runner pool'' | ErrNoEligibleRunner \<Rightarrow> ''scheduler: no eligible runner'')"

definition poolRunnerMeetsWorkRequirements ::
  "(nat \<Rightarrow> visit) \<Rightarrow> runnerRegistry option \<Rightarrow> string \<Rightarrow> Work \<Rightarrow> string \<Rightarrow> bool \<times> string" where
  "poolRunnerMeetsWorkRequirements vs reg workerID work nodeID = (case reg of None \<Rightarrow> (False, ''runner registry is unavailable'')
     | Some r \<Rightarrow> (case reg_get r workerID of None \<Rightarrow> (False, ''runner is not registered'')
       | Some i \<Rightarrow> (case map_of (Graph work) nodeID of None \<Rightarrow> (True, [])
         | Some node \<Rightarrow> (case Select vs (Some work) (Some node) (runnersFromIdentities [Some i]) of
             (_, None) \<Rightarrow> (True, [])
           | (Some a, Some x) \<Rightarrow> if Reasoning a \<noteq> [] then (False, Reasoning a) else (False, scheduler_error_text x)
           | (None, Some x) \<Rightarrow> (False, scheduler_error_text x)))))"

definition policy_input :: "string \<Rightarrow> string \<Rightarrow> string \<Rightarrow> Work \<Rightarrow> Identity option \<Rightarrow> DecisionInput" where
  "policy_input workID nodeID workerID work io =
     \<lparr>di_Request = \<lparr>rc_Action = ''lease.grant'', rc_WorkID = workID, rc_NodeID = nodeID, rc_WorkerID = workerID\<rparr>,
      di_Work = \<lparr>wv_ID = work_ID work, wv_Policy = work_Policy work, wv_State = work_State work\<rparr>,
      di_Evidence = work_Evidence work,
      di_Runner = (case io of None \<Rightarrow> \<lparr>vw_RunnerID = workerID, vw_TrustClass = ''untrusted'', vw_LifecycleState = ''active''\<rparr>
        | Some i \<Rightarrow> \<lparr>vw_RunnerID = workerID, vw_TrustClass = id_TrustClass i, vw_LifecycleState = id_LifecycleState i\<rparr>)\<rparr>"

text \<open>The policy check of both routes.\<close>

definition policy_refusal :: "api_config \<Rightarrow> DecisionInput \<Rightarrow> api_error option" where
  "policy_refusal g inp = (if PolicyLoaded g then
     (case EvaluateOrError inp of (dec, True) \<Rightarrow> Some (ApiError 403 (formatDenyReason (firstReason (DenyReasons dec)))) | (_, False) \<Rightarrow> None) else None)"

section \<open>Granting\<close>

record grantLeaseBody =
  gl_WorkID :: string
  gl_NodeID :: string
  gl_WorkerID :: string
  gl_TTLSeconds :: int

text \<open>The refusals before the store is read; otherwise the worker id without its surrounding spaces.\<close>

definition claim_refusal :: "api_config \<Rightarrow> string option \<Rightarrow> string \<Rightarrow> grantLeaseBody \<Rightarrow> runnerRegistry option \<Rightarrow> api_error + string" where
  "claim_refusal g claims hdr b reg =
     (if gl_WorkID b = [] \<or> gl_NodeID b = [] \<or> gl_WorkerID b = [] then Inl (ApiError 400 ''missing_field'')
      else let worker = TrimSpace (gl_WorkerID b) in
      if worker = [] then Inl (ApiError 400 ''invalid_worker_id'')
      else case gateClaimOwner claims worker of Some x \<Rightarrow> Inl x
      | None \<Rightarrow> (case gateClaimByRAB g reg worker hdr of Some x \<Rightarrow> Inl x | None \<Rightarrow> Inr worker))"

text \<open>Pool isolation, the hard requirements of a pool Work, and the policy.\<close>

definition grant_refusal :: "api_config \<Rightarrow> (nat \<Rightarrow> visit) \<Rightarrow> time \<Rightarrow> string \<Rightarrow> string \<Rightarrow> string \<Rightarrow> Work \<Rightarrow> runnerRegistry option \<Rightarrow> api_error option" where
  "grant_refusal g vs now worker workID nodeID work reg =
     (let pool = Pool (work_Requirements work) in
      if pool \<noteq> [] \<and> \<not> runnerIsLivePoolMember reg worker pool now then Some (ApiError 403 ''pool_mismatch'')
      else if pool \<noteq> [] \<and> \<not> fst (poolRunnerMeetsWorkRequirements vs reg worker work nodeID) then Some (ApiError 403 ''runner_not_eligible'')
      else policy_refusal g (policy_input workID nodeID worker work (reg_lookup reg worker)))"

definition grantLease ::
  "api_config \<Rightarrow> (nat \<Rightarrow> visit) \<Rightarrow> env \<Rightarrow> string option \<Rightarrow> string \<Rightarrow> grantLeaseBody option \<Rightarrow> api_state \<Rightarrow> lease_reply \<times> api_state" where
  "grantLease g vs e claims hdr body st =
     (case body of None \<Rightarrow> (LError 400 ''invalid_json'', st)
      | Some b \<Rightarrow> (case claim_refusal g claims hdr b (st_registry st) of Inl (ApiError c r) \<Rightarrow> (LError c r, st)
        | Inr worker \<Rightarrow> (case GetWork (gl_WorkID b) (st_db st) of
            Inl ErrNotFound \<Rightarrow> (LError 404 ''work_not_found'', st)
          | Inl _ \<Rightarrow> (LError 500 ''get_work_failed'', st)
          | Inr work \<Rightarrow> (case grant_refusal g vs (Now e 0) worker (gl_WorkID b) (gl_NodeID b) work (st_registry st) of Some (ApiError c r) \<Rightarrow> (LError c r, st)
            | None \<Rightarrow> (case GrantLease (call 0 e) (gl_WorkID b) (gl_NodeID b) worker (Seconds (gl_TTLSeconds b)) (st_db st) of
                (Inr (l, a), db') \<Rightarrow> (LGranted l a, st\<lparr>st_db := db'\<rparr>)
              | (Inl ErrNotFound, db') \<Rightarrow> (LError 404 ''work_not_found'', st\<lparr>st_db := db'\<rparr>)
              | (Inl ErrLeaseConflict, db') \<Rightarrow> (LError 409 ''lease_conflict'', st\<lparr>st_db := db'\<rparr>)
              | (Inl _, db') \<Rightarrow> (LError 500 ''grant_failed'', st\<lparr>st_db := db'\<rparr>))))))"

section \<open>The verbs on a lease\<close>

definition heartbeatLease :: "env \<Rightarrow> string \<Rightarrow> int \<Rightarrow> api_state \<Rightarrow> lease_reply \<times> api_state" where
  "heartbeatLease e lid ttlSeconds st =
     (case RenewLease (call 0 e) lid (Seconds ttlSeconds) (st_db st) of
        (Inr l, db') \<Rightarrow> (LLease l, st\<lparr>st_db := db'\<rparr>)
      | (Inl ErrNotFound, db') \<Rightarrow> (LError 404 ''lease_not_found'', st\<lparr>st_db := db'\<rparr>)
      | (Inl ErrLeaseNotActive, db') \<Rightarrow> (LError 409 ''lease_not_active'', st\<lparr>st_db := db'\<rparr>)
      | (Inl _, db') \<Rightarrow> (LError 500 ''renew_failed'', st\<lparr>st_db := db'\<rparr>))"

text \<open>What the decoder makes of a completion: too long, not JSON, or the body; absent bytes are \<open>None\<close>.\<close>

record completeLeaseBody =
  cb_ExitCode :: int
  cb_Artifact :: "Artifact option"
  cb_ArtifactContent :: "string option"
  cb_Evidence :: "Evidence list"

datatype completion_text = TooLarge | NotJSON | Completion completeLeaseBody

definition upload_error :: "cas_error \<Rightarrow> lease_reply" where
  "upload_error x = (case x of errArtifactStoreUnavailable \<Rightarrow> LError 503 ''artifacts_unavailable''
     | errArtifactTooLarge \<Rightarrow> LError 413 ''artifact_too_large'' | errArtifactContentMissing \<Rightarrow> LError 422 ''artifact_content_required''
     | errArtifactMetadataMismatch \<Rightarrow> LError 422 ''artifact_integrity_failed'' | _ \<Rightarrow> LError 500 ''artifact_store_failed'')"

text \<open>The artifact of a completion: checked against the active lease and uploaded; it comes back with its path in the store.\<close>

definition accept_artifact ::
  "api_config \<Rightarrow> disk_faults \<Rightarrow> string \<Rightarrow> string \<Rightarrow> completeLeaseBody \<Rightarrow> api_state \<Rightarrow> (lease_reply + Artifact option) \<times> api_state" where
  "accept_artifact g fl rnd lid b st = (case cb_Artifact b of None \<Rightarrow> (Inr None, st)
     | Some art \<Rightarrow> (case GetLease lid (st_db st) of
         Inl ErrNotFound \<Rightarrow> (Inl (LError 404 ''lease_not_found''), st)
       | Inl _ \<Rightarrow> (Inl (LError 500 ''lease_lookup_failed''), st)
       | Inr lease \<Rightarrow>
         if lease_Status lease \<noteq> LeaseActive then (Inl (LError 409 ''lease_not_active''), st)
         else if art_NodeID art \<noteq> lease_NodeID lease then (Inl (LError 400 ''artifact_node_mismatch''), st)
         else case persistWorkerArtifact (digest_of g) (ArtifactsDir g) fl rnd (Some lease) (Some art) (cb_ArtifactContent b) (st_files st) of
           (Inl x, trace) \<Rightarrow> (Inl (upload_error x), st\<lparr>st_files := after (st_files st) trace\<rparr>)
         | (Inr art', trace) \<Rightarrow> (Inr (Some art'), st\<lparr>st_files := after (st_files st) trace\<rparr>)))"

text \<open>The answer to a completion; the store's changes stay also when it fails.\<close>

definition complete_reply :: "Work result \<times> db \<Rightarrow> api_state \<Rightarrow> lease_reply \<times> api_state" where
  "complete_reply answer st = (case answer of
      (Inr wk, db') \<Rightarrow> (LWork wk, st\<lparr>st_db := db'\<rparr>)
    | (Inl ErrNotFound, db') \<Rightarrow> (LError 404 ''lease_not_found'', st\<lparr>st_db := db'\<rparr>)
    | (Inl ErrLeaseNotActive, db') \<Rightarrow> (LError 409 ''lease_not_active'', st\<lparr>st_db := db'\<rparr>)
    | (Inl _, db') \<Rightarrow> (LError 500 ''complete_failed'', st\<lparr>st_db := db'\<rparr>))"

definition completeLease ::
  "api_config \<Rightarrow> disk_faults \<Rightarrow> string \<Rightarrow> env \<Rightarrow> string \<Rightarrow> completion_text \<Rightarrow> api_state \<Rightarrow> lease_reply \<times> api_state" where
  "completeLease g fl rnd e lid body st = (case body of
      TooLarge \<Rightarrow> (LError 413 ''completion_too_large'', st)
    | NotJSON \<Rightarrow> (LError 400 ''invalid_json'', st)
    | Completion b \<Rightarrow>
      if cb_Artifact b = None \<and> cb_ArtifactContent b \<noteq> None then (LError 400 ''artifact_metadata_required'', st)
      else if cb_ExitCode b = 0 \<and> cb_Artifact b = None then (LError 422 ''artifact_required'', st)
      else case accept_artifact g fl rnd lid b st of (Inl r, st1) \<Rightarrow> (r, st1)
      | (Inr art, st1) \<Rightarrow> complete_reply (CompleteLease (digest_of g) (fmt_time g) (call 0 e) lid (cb_ExitCode b) art (cb_Evidence b) (st_db st1)) st1)"

definition releaseLease :: "env \<Rightarrow> string \<Rightarrow> string \<Rightarrow> api_state \<Rightarrow> lease_reply \<times> api_state" where
  "releaseLease e lid reason st = (case ReleaseLease (call 0 e) lid reason (st_db st) of
      (Inr _, db') \<Rightarrow> (LReleased lid, st\<lparr>st_db := db'\<rparr>)
    | (Inl ErrNotFound, db') \<Rightarrow> (LError 404 ''lease_not_found'', st\<lparr>st_db := db'\<rparr>)
    | (Inl _, db') \<Rightarrow> (LError 409 ''release_failed'', st\<lparr>st_db := db'\<rparr>))"

definition revokeLease :: "env \<Rightarrow> string \<Rightarrow> string \<Rightarrow> api_state \<Rightarrow> lease_reply \<times> api_state" where
  "revokeLease e lid reason st = (case RevokeLease (call 0 e) lid reason (st_db st) of
      (Inr _, db') \<Rightarrow> (LRevoked lid, st\<lparr>st_db := db'\<rparr>)
    | (Inl ErrNotFound, db') \<Rightarrow> (LError 404 ''lease_not_found'', st\<lparr>st_db := db'\<rparr>)
    | (Inl _, db') \<Rightarrow> (LError 409 ''revoke_failed'', st\<lparr>st_db := db'\<rparr>))"

text \<open>A POST below \<^verbatim>\<open>/v1/leases/\<close> with its decoded body for every action; an optional body that does not decode reads as zero values.\<close>

record lease_request =
  lq_Claims :: "string option"
  lq_Header :: string
  lq_Path :: string
  lq_Grant :: "grantLeaseBody option"
  lq_TTLSeconds :: int
  lq_Completion :: completion_text
  lq_Reason :: string
  lq_Faults :: disk_faults
  lq_Random :: string

definition lease_action ::
  "api_config \<Rightarrow> env \<Rightarrow> lease_request \<Rightarrow> string \<Rightarrow> string \<Rightarrow> api_state \<Rightarrow> lease_reply \<times> api_state" where
  "lease_action g e q lid action st =
     (if action = ''heartbeat'' then heartbeatLease e lid (lq_TTLSeconds q) st
      else if action = ''complete'' then completeLease g (lq_Faults q) (lq_Random q) e lid (lq_Completion q) st
      else if action = ''release'' then releaseLease e lid (lq_Reason q) st
      else if action = ''revoke'' then revokeLease e lid (lq_Reason q) st
      else (LError 404 ''not_found'', st))"

definition leaseItemHandler ::
  "api_config \<Rightarrow> (nat \<Rightarrow> visit) \<Rightarrow> env \<Rightarrow> lease_request \<Rightarrow> api_state \<Rightarrow> lease_reply \<times> api_state" where
  "leaseItemHandler g vs e q st = (case Split (lq_Path q) CHR ''/'' of
      [] \<Rightarrow> (LError 400 ''missing_id'', st)
    | [p0] \<Rightarrow> if p0 = ''grant'' then grantLease g vs e (lq_Claims q) (lq_Header q) (lq_Grant q) st else (LError 400 ''missing_id'', st)
    | lid # action # _ \<Rightarrow> if lid = [] then (LError 400 ''missing_id'', st)
      else case gateLeaseOwner (lq_Claims q) lid (st_db st) of Some (ApiError c r) \<Rightarrow> (LError c r, st)
      | None \<Rightarrow> lease_action g e q lid action st)"

section \<open>Reservation by the platform\<close>

record dispatchPlacementBinding =
  pb_Schema :: string
  pb_MissionID :: string
  pb_SelectedNode :: string
  pb_PlacementDecisionDigest :: string
  pb_SnapshotDigest :: string
  pb_PolicyVersion :: string

record placementReservationV2 =
  pr_Schema :: string
  pr_NodeID :: string
  pr_SelectedWorker :: string
  pr_TTLSeconds :: int
  pr_PlacementBinding :: "dispatchPlacementBinding option"

definition authorizeDispatchV2Platform :: "api_config \<Rightarrow> string \<Rightarrow> string \<Rightarrow> api_error option" where
  "authorizeDispatchV2Platform g authz bridge =
     (if length (PlatformAPIToken g) < 32 then Some (ApiError 503 ''platform_auth_unavailable'')
      else if \<not> HasPrefix authz ''Bearer '' then Some (ApiError 401 ''platform_auth_required'')
      else let gotToken = TrimSpace (drop (length ''Bearer '') authz) in
      if gotToken = [] \<or> gotToken \<noteq> PlatformAPIToken g then Some (ApiError 401 ''platform_auth_failed'')
      else if \<not> BridgeSecretConfigured (bridgeSecret g) then Some (ApiError 503 ''bridge_unavailable'')
      else if bridge = [] \<or> bridge \<noteq> bridgeSecret g then Some (ApiError 401 ''bridge_unauthorized'')
      else None)"

text \<open>The checks of the request itself; otherwise node, worker and lifetime in seconds.\<close>

definition reservation_request :: "placementReservationV2 \<Rightarrow> api_error + string \<times> string \<times> int" where
  "reservation_request req =
     (let nodeID = TrimSpace (pr_NodeID req); worker = TrimSpace (pr_SelectedWorker req) in
      if pr_Schema req \<noteq> ''placement.reservation/1.0'' \<or> nodeID = [] \<or> worker = [] then Inl (ApiError 400 ''placement_reservation_invalid'')
      else case pr_PlacementBinding req of None \<Rightarrow> Inl (ApiError 400 ''placement_reservation_invalid'')
      | Some pb \<Rightarrow>
        if pb_Schema pb \<noteq> ''runtime.placement-dispatch-binding/0.1'' \<or> TrimSpace (pb_MissionID pb) = [] \<or> TrimSpace (pb_PlacementDecisionDigest pb) = []
          \<or> TrimSpace (pb_SnapshotDigest pb) = [] \<or> TrimSpace (pb_PolicyVersion pb) = [] \<or> pb_SelectedNode pb \<noteq> worker
        then Inl (ApiError 409 ''placement_binding_mismatch'')
        else let ttl = (if pr_TTLSeconds req \<le> 0 then 25 else pr_TTLSeconds req) in
          if ttl > 300 then Inl (ApiError 400 ''placement_reservation_invalid'') else Inr (nodeID, worker, ttl))"

text \<open>The checks against the server's own state.\<close>

definition reservation_refusal ::
  "api_config \<Rightarrow> (nat \<Rightarrow> visit) \<Rightarrow> env \<Rightarrow> string \<Rightarrow> string \<Rightarrow> string \<Rightarrow> Work \<Rightarrow> runnerRegistry option \<Rightarrow> api_error option" where
  "reservation_refusal g vs e workID nodeID worker work reg =
     (if reg = None \<or> \<not> runnerHasFreshHeartbeat (reg_lookup reg worker) (Now e 0) then Some (ApiError 409 ''selected_worker_unavailable'')
      else let pool = Pool (work_Requirements work) in
      if pool \<noteq> [] \<and> \<not> runnerIsLivePoolMember reg worker pool (Now e 1) then Some (ApiError 409 ''selected_worker_pool_mismatch'')
      else if \<not> fst (poolRunnerMeetsWorkRequirements vs reg worker work nodeID) then Some (ApiError 409 ''selected_worker_not_eligible'')
      else policy_refusal g (policy_input workID nodeID worker work (reg_lookup reg worker)))"

definition reservePlacementV2 ::
  "api_config \<Rightarrow> (nat \<Rightarrow> visit) \<Rightarrow> env \<Rightarrow> string \<Rightarrow> string \<Rightarrow> string \<Rightarrow> placementReservationV2 option \<Rightarrow> api_state \<Rightarrow> lease_reply \<times> api_state" where
  "reservePlacementV2 g vs e authz bridge path body st =
     (let workID = TrimSpace path in
      if workID = [] then (LError 400 ''missing_id'', st)
      else case authorizeDispatchV2Platform g authz bridge of Some (ApiError c r) \<Rightarrow> (LError c r, st)
      | None \<Rightarrow> (case body of None \<Rightarrow> (LError 400 ''invalid_json'', st)
        | Some req \<Rightarrow> (case reservation_request req of Inl (ApiError c r) \<Rightarrow> (LError c r, st)
          | Inr (nodeID, worker, ttl) \<Rightarrow> (case GetWork workID (st_db st) of
              Inl ErrNotFound \<Rightarrow> (LError 404 ''work_not_found'', st)
            | Inl _ \<Rightarrow> (LError 500 ''get_work_failed'', st)
            | Inr work \<Rightarrow> (case reservation_refusal g vs e workID nodeID worker work (st_registry st) of Some (ApiError c r) \<Rightarrow> (LError c r, st)
              | None \<Rightarrow> (case GrantPlacementLease (call 0 e) workID nodeID worker (Seconds ttl) (st_db st) of
                  (Inr (l, a), db') \<Rightarrow> (LReserved workID (lease_WorkerID l) (lease_ID l) (att_ID a), st\<lparr>st_db := db'\<rparr>)
                | (Inl ErrNotFound, db') \<Rightarrow> (LError 404 ''work_not_found'', st\<lparr>st_db := db'\<rparr>)
                | (Inl ErrLeaseConflict, db') \<Rightarrow> (LError 409 ''lease_conflict'', st\<lparr>st_db := db'\<rparr>)
                | (Inl _, db') \<Rightarrow> (LError 500 ''placement_reservation_failed'', st\<lparr>st_db := db'\<rparr>)))))))"

section \<open>Control tokens bind a runner\<close>

lemma hex_val_digit: "n < 16 \<Longrightarrow> hex_val (hex_digit n) = Some n"
  by (auto simp: hex_val_def hex_digit_def Let_def)

lemma hex_decode_byte: "hex_decode (hex_byte (of_char c) @ s) = map_option ((#) c) (hex_decode s)"
proof -
  define x where "x = (of_char c :: nat)"
  have "x < 256" by (simp add: x_def)
  then have "x div 16 < 16" by (simp add: less_mult_imp_div_less)
  then have "16 * (x div 16 mod 16) + x mod 16 = x" by simp
  then have "char_of (16 * (x div 16 mod 16) + x mod 16) = c" by (simp add: x_def)
  then show ?thesis by (simp add: hex_byte_def hex_val_digit flip: x_def split: option.splits)
qed

lemma hex_round_trip: "hex_decode (hex_encode s) = Some s"
  by (induction s) (simp_all add: hex_encode_def hex_decode_byte)

lemma hex_byte_no_dot: "CHR ''.'' \<notin> set (hex_byte n)"
proof -
  have "hex_digit k \<noteq> CHR ''.''" if "k < 16" for k
    using hex_val_digit [OF that] by (auto simp: hex_val_def Let_def)
  then show ?thesis by (simp add: hex_byte_def eq_commute [of "CHR ''.''"])
qed

lemma hex_encode_no_dot: "CHR ''.'' \<notin> set (hex_encode s)"
  using hex_byte_no_dot by (auto simp: hex_encode_def)

lemma split_token: "CHR ''.'' \<notin> set (enc_b64 g r) \<Longrightarrow> Split (enc_b64 g r @ ''.'' @ hex_encode s) CHR ''.'' = [enc_b64 g r, hex_encode s]"
  using Split_two [OF _ hex_encode_no_dot [of s]] by simp

text \<open>A control token is bound to one runner: the token minted for a runner under the server's key verifies for that runner, and for no other runner. Relied on of
  base64url is that it decodes what it encodes and writes no dots, and of HMAC-SHA256 its size.\<close>

theorem control_token_binds_runner:
  assumes "MintRABControlToken g (RABControlKey g) runner = Some tok"
    and "dec_b64 g (enc_b64 g runner) = Some runner" and "CHR ''.'' \<notin> set (enc_b64 g runner)"
    and "length (hmac_sha256 g (RABControlKey g) runner) = 32"
  shows "VerifyControlToken g tok other \<longleftrightarrow> other = runner"
proof -
  have m: "RABControlKey g \<noteq> []" "runner \<noteq> []" "tok = enc_b64 g runner @ ''.'' @ hex_encode (controlMAC g (RABControlKey g) runner)"
    using assms(1) by (auto simp: MintRABControlToken_def split: if_splits)
  show ?thesis unfolding m(3) VerifyControlToken_def split_token [OF assms(3)]
    using m(1,2) assms(2,4) by (auto simp: hex_round_trip controlMAC_def)
qed

section \<open>A worker reaches only its own leases\<close>

definition others :: "string \<Rightarrow> db \<Rightarrow> Lease list" where
  "others w db = filter (\<lambda>l. lease_WorkerID l \<noteq> w) (leases db)"

lemma others_update:
  assumes "\<And>l. l \<in> set ls \<Longrightarrow> P l \<Longrightarrow> lease_WorkerID l = w" and "\<And>l. lease_WorkerID (f l) = lease_WorkerID l"
  shows "filter (\<lambda>l. lease_WorkerID l \<noteq> w) (update_where P f ls) = filter (\<lambda>l. lease_WorkerID l \<noteq> w) ls"
  using assms(1) by (induction ls) (auto simp: update_where_def assms(2))

text \<open>The lease the gate has seen is the only one with its id.\<close>

definition owns :: "string \<Rightarrow> string \<Rightarrow> db \<Rightarrow> bool" where
  "owns w lid db \<longleftrightarrow> (\<forall>l \<in> set (leases db). lease_ID l = lid \<longrightarrow> lease_WorkerID l = w)"

lemma gate_owns:
  assumes "gateLeaseOwner (Some w) lid db = None" "store_ok db"
  shows "owns w lid db"
proof -
  obtain l where "find_row lease_ID lid (leases db) = Some l" "lease_WorkerID l = w"
    using assms(1) by (auto simp: gateLeaseOwner_def GetLease_def split: option.splits if_splits)
  then show ?thesis using lease_row_unique [OF assms(2)] by (auto simp: owns_def dest!: find_row_Some)
qed

lemma RenewLease_others: "owns w lid db \<Longrightarrow> others w (snd (RenewLease e lid ttl db)) = others w db"
  by (auto simp: RenewLease_def others_def owns_def Let_def intro!: others_update split: option.splits)

lemma transition_others: "owns w lid db \<Longrightarrow> others w (snd (transitionLeaseAttempt e lid to st r db)) = others w db"
  by (auto simp: transitionLeaseAttempt_def others_def owns_def Let_def finish_attempt_def intro!: others_update split: option.splits)

lemma release_completed_others: "owns w lid db \<Longrightarrow> others w (snd (release_completed e lid code db)) = others w db"
  by (auto simp: release_completed_def others_def owns_def Let_def finish_attempt_def intro!: others_update split: option.splits)

lemma quiet_leases: "quiet db db' \<Longrightarrow> leases db' = leases db"
  by (simp add: quiet_def)

lemma finalize_leases: "leases (finalize_work e w db) = leases db"
  by (simp add: finalize_work_def UpdateState_view(2) UpdateStateEventful_view(2))

lemma CompleteLease_leases: "leases (snd (CompleteLease dig fmt e lid code art evs db)) = leases (snd (release_completed e lid code db))"
proof -
  obtain r db1 where r: "release_completed e lid code db = (r, db1)" by (rule prod.exhaust)
  define m where "m wid = (case art of None \<Rightarrow> (Inr (), db1) | Some x \<Rightarrow> (case AppendArtifact (call 0 e) wid x db1 of
      (Inl y, d) \<Rightarrow> (Inl y, d) | (Inr _, d) \<Rightarrow> (Inr (), d)))" for wid
  have m: "leases (snd (m wid)) = leases db1" for wid
    using AppendArtifact_quiet [of db1 "call 0 e" wid] by (auto simp: m_def dest!: quiet_leases split: option.splits prod.splits sum.splits)
       (metis quiet_leases snd_conv)+
  have ev: "leases (snd (append_evidence_loop (call 1 e) 0 wid evs d)) = leases d" for wid d
    by (rule quiet_leases [OF append_evidence_loop_quiet])
  have cl: "leases (classifyFailedAttempts dig fmt (call 2 e) w d) = leases d" for w d
    by (rule quiet_leases [OF classify_quiet])
  show ?thesis
  proof (cases r)
    case (Inr wid)
    obtain r2 db2 where r2: "m wid = (r2, db2)" by (rule prod.exhaust)
    obtain r3 db3 where r3: "append_evidence_loop (call 1 e) 0 wid evs db2 = (r3, db3)" by (rule prod.exhaust)
    show ?thesis using m [of wid] ev [of wid db2] r Inr r2 r3
      by (simp add: CompleteLease_def Let_def finalize_leases cl flip: m_def split: sum.splits)
  qed (simp add: CompleteLease_def r)
qed

lemma CompleteLease_others: "owns w lid db \<Longrightarrow> others w (snd (CompleteLease dig fmt e lid code art evs db)) = others w db"
  using release_completed_others [of w lid db e code] by (simp add: others_def CompleteLease_leases)

lemma GrantLease_others: "others w (snd (GrantLease e wid nid w ttl db)) = others w db"
proof (cases rule: GrantLease_cases [of e wid nid w ttl db])
  case (granted w' db1 db')
  let ?l = "new_lease (fresh e 1 ''lse'') wid nid w (fresh e 0 ''att'') (Now e 0) (default_ttl ttl)"
  have "leases db' = leases db @ [?l]" using granted(5,7) by (auto simp: insert_lease_def Let_def split: if_splits)
  then show ?thesis using granted(6) by (simp add: others_def new_lease_def)
qed simp

section \<open>What the routes do to the store\<close>

lemma heartbeat_db: "st_db (snd (heartbeatLease e lid n st)) = snd (RenewLease (call 0 e) lid (Seconds n) (st_db st))"
  by (auto simp: heartbeatLease_def split: prod.splits sum.splits store_error.splits)

lemma release_db: "st_db (snd (releaseLease e lid r st)) = snd (ReleaseLease (call 0 e) lid r (st_db st))"
  by (auto simp: releaseLease_def split: prod.splits sum.splits store_error.splits)

lemma revoke_db: "st_db (snd (revokeLease e lid r st)) = snd (RevokeLease (call 0 e) lid r (st_db st))"
  by (auto simp: revokeLease_def split: prod.splits sum.splits store_error.splits)

lemma accept_artifact_db: "st_db (snd (accept_artifact g fl rnd lid b st)) = st_db st"
  by (auto simp: accept_artifact_def split: option.splits sum.splits store_error.splits prod.splits)

lemma complete_reply_db: "st_db (snd (complete_reply answer st)) = snd answer"
  by (auto simp: complete_reply_def split: prod.splits sum.splits store_error.splits)

lemma complete_db:
  obtains "st_db (snd (completeLease g fl rnd e lid body st)) = st_db st"
  | code art evs where "st_db (snd (completeLease g fl rnd e lid body st)) = snd (CompleteLease (digest_of g) (fmt_time g) (call 0 e) lid code art evs (st_db st))"
proof -
  have "st_db (snd (completeLease g fl rnd e lid body st)) = st_db st
    \<or> (\<exists>code art evs. st_db (snd (completeLease g fl rnd e lid body st)) = snd (CompleteLease (digest_of g) (fmt_time g) (call 0 e) lid code art evs (st_db st)))"
  proof (cases body)
    case (Completion b)
    obtain r st1 where a: "accept_artifact g fl rnd lid b st = (r, st1)" by (rule prod.exhaust)
    then have "st_db st1 = st_db st" using accept_artifact_db [of g fl rnd lid b st] by simp
    then show ?thesis using Completion a by (cases r) (auto simp: completeLease_def complete_reply_db)
  qed (simp_all add: completeLease_def)
  then show ?thesis using that by blast
qed

lemma claim_refusal_Inr:
  assumes "claim_refusal g claims hdr b reg = Inr worker"
  shows "worker = TrimSpace (gl_WorkerID b) \<and> worker \<noteq> [] \<and> gateClaimOwner claims worker = None \<and> gateClaimByRAB g reg worker hdr = None"
  using assms by (auto simp: claim_refusal_def Let_def split: if_splits option.splits)

lemma grant_cases:
  obtains (refused) c r where "grantLease g vs e claims hdr body st = (LError c r, st)"
  | (tried) b worker work where "body = Some b" "claim_refusal g claims hdr b (st_registry st) = Inr worker"
      "GetWork (gl_WorkID b) (st_db st) = Inr work"
      "grant_refusal g vs (Now e 0) worker (gl_WorkID b) (gl_NodeID b) work (st_registry st) = None"
proof -
  have "(\<exists>c r. grantLease g vs e claims hdr body st = (LError c r, st)) \<or> (\<exists>b worker work. body = Some b
      \<and> claim_refusal g claims hdr b (st_registry st) = Inr worker \<and> GetWork (gl_WorkID b) (st_db st) = Inr work
      \<and> grant_refusal g vs (Now e 0) worker (gl_WorkID b) (gl_NodeID b) work (st_registry st) = None)"
    by (cases body) (auto simp: grantLease_def split: sum.splits api_error.splits store_error.splits option.splits)
  then show ?thesis using that by blast
qed

lemma grant_tried:
  assumes "claim_refusal g claims hdr b (st_registry st) = Inr worker" "GetWork (gl_WorkID b) (st_db st) = Inr work"
    and "grant_refusal g vs (Now e 0) worker (gl_WorkID b) (gl_NodeID b) work (st_registry st) = None"
  shows "st_db (snd (grantLease g vs e claims hdr (Some b) st)) = snd (GrantLease (call 0 e) (gl_WorkID b) (gl_NodeID b) worker (Seconds (gl_TTLSeconds b)) (st_db st))"
    and "fst (grantLease g vs e claims hdr (Some b) st) = LGranted l a \<Longrightarrow>
      fst (GrantLease (call 0 e) (gl_WorkID b) (gl_NodeID b) worker (Seconds (gl_TTLSeconds b)) (st_db st)) = Inr (l, a)"
  using assms by (auto simp: grantLease_def split: prod.splits sum.splits store_error.splits)

lemma grant_db:
  obtains "st_db (snd (grantLease g vs e claims hdr body st)) = st_db st"
  | worker wid nid ttl where "gateClaimOwner claims worker = None"
      "st_db (snd (grantLease g vs e claims hdr body st)) = snd (GrantLease (call 0 e) wid nid worker ttl (st_db st))"
proof (cases rule: grant_cases [of g vs e claims hdr body st])
  case (refused c r)
  then show ?thesis using that(1) by simp
next
  case (tried b worker work)
  have "gateClaimOwner claims worker = None" using claim_refusal_Inr [OF tried(2)] by blast
  then show ?thesis using that(2) grant_tried(1) [OF tried(2-4)] tried(1) by blast
qed

text \<open>Every call of the lease routes, with the clock readings and random numbers it uses.\<close>

definition exec_lease :: "api_config \<Rightarrow> (nat \<Rightarrow> visit) \<Rightarrow> env \<times> lease_request \<Rightarrow> api_state \<Rightarrow> api_state" where
  "exec_lease g vs c st = snd (leaseItemHandler g vs (fst c) (snd c) st)"

lemma exec_lease_db:
  obtains (same) "st_db (exec_lease g vs (e, q) st) = st_db st"
  | (grant) "st_db (exec_lease g vs (e, q) st) = st_db (snd (grantLease g vs e (lq_Claims q) (lq_Header q) (lq_Grant q) st))"
  | (action) lid act where "gateLeaseOwner (lq_Claims q) lid (st_db st) = None"
      "st_db (exec_lease g vs (e, q) st) = st_db (snd (lease_action g e q lid act st))"
proof -
  consider "Split (lq_Path q) CHR ''/'' = []" | p0 where "Split (lq_Path q) CHR ''/'' = [p0]"
    | lid act rest where "Split (lq_Path q) CHR ''/'' = lid # act # rest" by (metis remdups_adj.cases)
  then show ?thesis
  proof cases
    case 1
    then show ?thesis by (intro same) (simp add: exec_lease_def leaseItemHandler_def)
  next
    case (2 p0)
    then show ?thesis using same grant by (cases "p0 = ''grant''") (simp_all add: exec_lease_def leaseItemHandler_def)
  next
    case (3 lid act rest)
    show ?thesis
    proof (cases "lid = [] \<or> gateLeaseOwner (lq_Claims q) lid (st_db st) \<noteq> None")
      case True
      then show ?thesis using 3 by (intro same) (auto simp: exec_lease_def leaseItemHandler_def split: api_error.splits)
    next
      case False
      then show ?thesis using 3 by (intro action [of lid act]) (simp_all add: exec_lease_def leaseItemHandler_def)
    qed
  qed
qed

lemma action_db:
  obtains "st_db (snd (lease_action g e q lid act st)) = st_db st"
  | ttl where "st_db (snd (lease_action g e q lid act st)) = snd (RenewLease (call 0 e) lid ttl (st_db st))"
  | code art evs where "st_db (snd (lease_action g e q lid act st)) = snd (CompleteLease (digest_of g) (fmt_time g) (call 0 e) lid code art evs (st_db st))"
  | to status reason where "to \<noteq> LeaseActive" "st_db (snd (lease_action g e q lid act st)) = snd (transitionLeaseAttempt (call 0 e) lid to status reason (st_db st))"
proof -
  consider "act = ''heartbeat''" | "act = ''complete''" | "act = ''release''" | "act = ''revoke''"
    | "act \<noteq> ''heartbeat''" "act \<noteq> ''complete''" "act \<noteq> ''release''" "act \<noteq> ''revoke''" by blast
  then show ?thesis
  proof cases
    case 1
    then show ?thesis by (intro that(2)) (simp add: lease_action_def heartbeat_db)
  next
    case 2
    then have a: "lease_action g e q lid act st = completeLease g (lq_Faults q) (lq_Random q) e lid (lq_Completion q) st" by (simp add: lease_action_def)
    show ?thesis by (rule complete_db [of g "lq_Faults q" "lq_Random q" e lid "lq_Completion q" st]) (use a that(1,3) in auto)
  next
    case 3
    then show ?thesis by (intro that(4) [of LeaseReleased]) (simp_all add: lease_action_def release_db ReleaseLease_def)
  next
    case 4
    then show ?thesis by (intro that(4) [of LeaseRevoked]) (simp_all add: lease_action_def revoke_db RevokeLease_def)
  next
    case 5
    then show ?thesis by (intro that(1)) (simp add: lease_action_def)
  qed
qed

lemma action_advances: "advances CanTransition (st_db st) (st_db (snd (lease_action g e q lid act st)))"
  by (rule action_db [of g e q lid act st]) (simp_all add: RenewLease_advances CompleteLease_advances transitionLeaseAttempt_advances)

lemma exec_lease_advances: "advances CanTransition (st_db st) (st_db (exec_lease g vs (e, q) st))"
proof (cases rule: exec_lease_db [of g vs e q st])
  case grant
  show ?thesis by (rule grant_db [of g vs e "lq_Claims q" "lq_Header q" "lq_Grant q" st]) (simp_all add: grant GrantLease_advances)
qed (simp_all add: action_advances)

interpretation lease_routes: invariant_ops "exec_lease g vs" "\<lambda>st. store_ok (st_db st)"
proof unfold_locales
  fix st :: api_state and a assume "store_ok (st_db st)"
  then show "store_ok (st_db (exec_lease g vs a st))" using exec_lease_advances [of st g vs "fst a" "snd a"] by (simp add: advances_def)
qed

lemma action_others:
  assumes "owns w lid (st_db st)"
  shows "others w (st_db (snd (lease_action g e q lid act st))) = others w (st_db st)"
  by (rule action_db [of g e q lid act st]) (simp_all add: RenewLease_others CompleteLease_others transition_others assms)

lemma exec_lease_others:
  assumes "store_ok (st_db st)" "lq_Claims q = Some w"
  shows "others w (st_db (exec_lease g vs (e, q) st)) = others w (st_db st)"
proof (cases rule: exec_lease_db [of g vs e q st])
  case grant
  have "worker = w" if "gateClaimOwner (lq_Claims q) worker = None" for worker
    using that assms(2) by (simp add: gateClaimOwner_def split: if_splits)
  then show ?thesis using grant GrantLease_others
    by (cases rule: grant_db [of g vs e "lq_Claims q" "lq_Header q" "lq_Grant q" st]) auto
next
  case (action lid act)
  then have "owns w lid (st_db st)" using gate_owns [OF _ assms(1)] assms(2) by simp
  then show ?thesis using action(2) by (simp add: action_others)
qed simp

text \<open>C22. An authenticated worker reaches only its own leases: whatever sequence of requests a worker sends to the lease routes with its token, every lease of another
  worker keeps its row, and every lease that appears is its own. The lease table stays consistent on the way.\<close>

theorem worker_changes_only_its_leases:
  assumes "store_ok (st_db st)" and "\<And>e q. (e, q) \<in> set calls \<Longrightarrow> lq_Claims q = Some w"
  shows "others w (st_db (fold (exec_lease g vs) calls st)) = others w (st_db st) \<and> store_ok (st_db (fold (exec_lease g vs) calls st))"
proof -
  have "others w (st_db (fold (exec_lease g vs) calls st)) = others w (st_db st)" using assms
  proof (induction calls arbitrary: st)
    case (Cons c calls)
    obtain e q where c: "c = (e, q)" by (rule prod.exhaust)
    have "others w (st_db (exec_lease g vs (e, q) st)) = others w (st_db st)"
      using Cons.prems c by (intro exec_lease_others) auto
    moreover have "others w (st_db (fold (exec_lease g vs) calls (exec_lease g vs c st))) = others w (st_db (exec_lease g vs c st))"
      using Cons.prems by (intro Cons.IH lease_routes.inv_exec) auto
    ultimately show ?case by (simp add: c)
  qed simp
  then show ?thesis using lease_routes.inv_run [OF assms(1)] by blast
qed

section \<open>What a grant proves\<close>

text \<open>What a runner that advertised that it needs a control token has shown: with a control key on the server, a header that names this runner and carries the proof over its name
  under the key; without a key, only that the header is not empty.\<close>

definition control_shown :: "api_config \<Rightarrow> runnerRegistry option \<Rightarrow> string \<Rightarrow> string \<Rightarrow> bool" where
  "control_shown g reg worker hdr \<longleftrightarrow> (case abiFor reg worker of None \<Rightarrow> True
     | Some rab \<Rightarrow> RequiresControlToken rab \<longrightarrow>
         (if RABControlKey g = [] then hdr \<noteq> []
          else \<exists>name mac. Split hdr CHR ''.'' = [name, mac] \<and> dec_b64 g name = Some worker \<and> hex_decode mac = Some (hmac_sha256 g (RABControlKey g) worker)))"

text \<open>The registered runner of the worker meets the hard requirements of the node.\<close>

definition runner_fits :: "runnerRegistry option \<Rightarrow> string \<Rightarrow> Work \<Rightarrow> string \<Rightarrow> bool" where
  "runner_fits reg worker work nodeID \<longleftrightarrow> (\<exists>i. reg_lookup reg worker = Some i
     \<and> (\<forall>n. map_of (Graph work) nodeID = Some n \<longrightarrow> meets_requirements work n (runner_of i)))"

text \<open>It is active, has sent a heartbeat in time and carries the label of the pool.\<close>

definition live_member :: "runnerRegistry option \<Rightarrow> string \<Rightarrow> string \<Rightarrow> time \<Rightarrow> bool" where
  "live_member reg worker pool now \<longleftrightarrow> (\<exists>i beat. reg_lookup reg worker = Some i \<and> id_LifecycleState i = ''active''
     \<and> id_LastHeartbeatAt i = Some beat \<and> now \<le> beat + 30 * Second \<and> ''pool:'' @ pool \<in> set (cap_Labels (id_Capabilities i)))"

lemma VerifyControlToken_shown:
  "VerifyControlToken g hdr worker \<Longrightarrow> \<exists>name mac. Split hdr CHR ''.'' = [name, mac] \<and> dec_b64 g name = Some worker \<and> hex_decode mac = Some (hmac_sha256 g (RABControlKey g) worker)"
  by (auto simp: VerifyControlToken_def controlMAC_def split: if_splits list.splits option.splits)

lemma gate_control: "gateClaimByRAB g reg worker hdr = None \<Longrightarrow> control_shown g reg worker hdr"
  using VerifyControlToken_shown [of g hdr worker] by (auto simp: gateClaimByRAB_def control_shown_def split: option.splits if_splits)

lemma member_live: "runnerIsLivePoolMember reg worker pool now \<Longrightarrow> live_member reg worker pool now"
  by (auto simp: runnerIsLivePoolMember_def live_member_def reg_lookup_def list_ex_iff runnerHasFreshHeartbeat_def defaultHeartbeatInterval_def split: option.splits if_splits)

lemma single_pool_select:
  assumes "snd (Select vs (Some w) (Some n) [r]) = None"
  shows "meets_requirements w n r"
proof -
  have "entries vs w n 0 [r] \<noteq> []" using assms Select_error [of "[r]" vs w n] by (auto split: if_splits)
  then show ?thesis by (simp add: entries_eq_Nil hardFilter_pass_iff)
qed

lemma requirements_fit:
  assumes "fst (poolRunnerMeetsWorkRequirements vs reg worker work nodeID)"
  shows "runner_fits reg worker work nodeID"
proof -
  obtain r i where r: "reg = Some r" "reg_get r worker = Some i"
    using assms by (auto simp: poolRunnerMeetsWorkRequirements_def split: option.splits)
  have "meets_requirements work n (runner_of i)" if n: "map_of (Graph work) nodeID = Some n" for n
  proof -
    have "runnersFromIdentities [Some i] = [runner_of i]" by (simp add: runnersFromIdentities_def)
    then have "snd (Select vs (Some work) (Some n) [runner_of i]) = None"
      using assms r n by (auto simp: poolRunnerMeetsWorkRequirements_def split: prod.splits option.splits if_splits)
    then show ?thesis by (rule single_pool_select)
  qed
  then show ?thesis using r by (auto simp: runner_fits_def reg_lookup_def)
qed

lemma policy_allows: "policy_refusal g inp = None \<Longrightarrow> PolicyLoaded g \<Longrightarrow> rule_allow inp"
proof -
  assume "policy_refusal g inp = None" "PolicyLoaded g"
  then have "Allow (Evaluate inp)" by (cases "Allow (Evaluate inp)") (simp_all add: policy_refusal_def EvaluateOrError_def Let_def)
  then show ?thesis by (simp add: Allow_iff)
qed

lemma grant_refusal_None:
  assumes "grant_refusal g vs now worker wid nid work reg = None"
  shows "(Pool (work_Requirements work) \<noteq> [] \<longrightarrow> live_member reg worker (Pool (work_Requirements work)) now \<and> runner_fits reg worker work nid)
    \<and> (PolicyLoaded g \<longrightarrow> rule_allow (policy_input wid nid worker work (reg_lookup reg worker)))"
  using assms member_live requirements_fit policy_allows by (auto simp: grant_refusal_def Let_def split: if_splits)

lemma GrantLease_fields:
  assumes "fst (GrantLease e wid nid worker ttl db) = Inr (l, a)"
  shows "lease_WorkID l = wid \<and> lease_NodeID l = nid \<and> lease_WorkerID l = worker"
  using assms by (cases rule: GrantLease_cases [of e wid nid worker ttl db]) (auto simp: new_lease_def)

text \<open>C21. Whoever is granted a lease was entitled to it: the lease is for the requested node and worker, and when the caller has a worker token, for the worker of that token. A runtime that
  advertised that it needs a control token showed one, which under a configured control key is the proof for this very runner, and without a key any non-empty header. For a Work of a pool
  the worker's runner is an active member of the pool whose last heartbeat is at most 30 seconds old and that meets every hard requirement of the node, if the graph has this node;
  and when policies are loaded a rule allows the grant.\<close>

theorem granted_lease_is_authorised:
  assumes "grantLease g vs e claims hdr (Some b) st = (LGranted l a, st')"
  shows "\<exists>work. GetWork (gl_WorkID b) (st_db st) = Inr work \<and> lease_WorkID l = gl_WorkID b \<and> lease_NodeID l = gl_NodeID b
    \<and> lease_WorkerID l = TrimSpace (gl_WorkerID b) \<and> (claims = None \<or> claims = Some (lease_WorkerID l))
    \<and> control_shown g (st_registry st) (lease_WorkerID l) hdr
    \<and> (Pool (work_Requirements work) \<noteq> [] \<longrightarrow> live_member (st_registry st) (lease_WorkerID l) (Pool (work_Requirements work)) (Now e 0)
        \<and> runner_fits (st_registry st) (lease_WorkerID l) work (lease_NodeID l))
    \<and> (PolicyLoaded g \<longrightarrow> rule_allow (policy_input (gl_WorkID b) (gl_NodeID b) (lease_WorkerID l) work (reg_lookup (st_registry st) (lease_WorkerID l))))"
proof (cases rule: grant_cases [of g vs e claims hdr "Some b" st])
  case (refused c r)
  then show ?thesis using assms by simp
next
  case (tried b' worker work)
  then have b: "b' = b" by simp
  note t = tried(2-4) [unfolded b]
  have "fst (GrantLease (call 0 e) (gl_WorkID b) (gl_NodeID b) worker (Seconds (gl_TTLSeconds b)) (st_db st)) = Inr (l, a)"
    by (rule grant_tried(2) [OF t]) (simp add: assms)
  note l = GrantLease_fields [OF this]
  have c: "worker = TrimSpace (gl_WorkerID b)" "gateClaimOwner claims worker = None" "gateClaimByRAB g (st_registry st) worker hdr = None"
    using claim_refusal_Inr [OF t(1)] by blast+
  have "claims = None \<or> claims = Some worker" using c(2) by (auto simp: gateClaimOwner_def split: option.splits if_splits)
  then show ?thesis using l t(2) c(1) gate_control [OF c(3)] grant_refusal_None [OF t(3)] by auto
qed

section \<open>What a reservation proves\<close>

lemma authorize_None:
  assumes "authorizeDispatchV2Platform g authz bridge = None"
  shows "32 \<le> length (PlatformAPIToken g) \<and> TrimSpace (drop 7 authz) = PlatformAPIToken g \<and> 32 \<le> length (bridgeSecret g) \<and> bridge = bridgeSecret g"
  using assms by (auto simp: authorizeDispatchV2Platform_def BridgeSecretConfigured_def minBridgeSecretLen_def Let_def eval_nat_numeral not_less split: if_splits)

lemma reservation_request_Inr:
  assumes "reservation_request req = Inr (nid, worker, ttl)"
  shows "worker = TrimSpace (pr_SelectedWorker req) \<and> 0 < ttl \<and> ttl \<le> 300 \<and> (\<exists>pb. pr_PlacementBinding req = Some pb \<and> pb_SelectedNode pb = worker)"
  using assms by (auto simp: reservation_request_def Let_def split: if_splits option.splits)

lemma reservation_refusal_None:
  assumes "reservation_refusal g vs e wid nid worker work reg = None"
  shows "runnerHasFreshHeartbeat (reg_lookup reg worker) (Now e 0) \<and> runner_fits reg worker work nid
    \<and> (Pool (work_Requirements work) \<noteq> [] \<longrightarrow> live_member reg worker (Pool (work_Requirements work)) (Now e 1))
    \<and> (PolicyLoaded g \<longrightarrow> rule_allow (policy_input wid nid worker work (reg_lookup reg worker)))"
  using assms member_live requirements_fit policy_allows by (auto simp: reservation_refusal_def Let_def split: if_splits)

lemma reserve_cases:
  assumes "reservePlacementV2 g vs e authz bridge path body st = (LReserved wid worker lid aid, st')"
  obtains req nid ttl work l a where "wid = TrimSpace path" "authorizeDispatchV2Platform g authz bridge = None" "body = Some req"
    "\<exists>w. reservation_request req = Inr (nid, w, ttl) \<and> reservation_refusal g vs e wid nid w work (st_registry st) = None
       \<and> GrantPlacementLease (call 0 e) wid nid w (Seconds ttl) (st_db st) = (Inr (l, a), st_db st')"
    "GetWork wid (st_db st) = Inr work" "worker = lease_WorkerID l"
  using assms by (auto simp: reservePlacementV2_def Let_def split: if_splits option.splits sum.splits store_error.splits api_error.splits prod.splits)

lemma GrantPlacementLease_worker:
  "GrantPlacementLease e wid nid worker ttl db = (Inr (l, a), db') \<Longrightarrow> lease_WorkerID l = worker"
  by (auto simp: GrantPlacementLease_def Let_def new_lease_def split: option.splits if_splits sum.splits)

text \<open>A reservation never trusts the platform's view: it is made only for a caller that shows both platform secrets, for the worker its placement binding names, for
  at most five minutes, and only when the server itself finds the worker active with a fresh heartbeat, a member of the required pool, able to meet the hard requirements
  of the node, and allowed by a rule when policies are loaded.\<close>

theorem reservation_is_revalidated:
  assumes "reservePlacementV2 g vs e authz bridge path body st = (LReserved wid worker lid aid, st')"
  shows "TrimSpace (drop 7 authz) = PlatformAPIToken g \<and> bridge = bridgeSecret g \<and> 32 \<le> length (PlatformAPIToken g) \<and> 32 \<le> length (bridgeSecret g)
    \<and> (\<exists>req nid ttl work. body = Some req \<and> reservation_request req = Inr (nid, worker, ttl) \<and> ttl \<le> 300
        \<and> (\<exists>pb. pr_PlacementBinding req = Some pb \<and> pb_SelectedNode pb = worker)
        \<and> GetWork wid (st_db st) = Inr work \<and> runnerHasFreshHeartbeat (reg_lookup (st_registry st) worker) (Now e 0)
        \<and> runner_fits (st_registry st) worker work nid
        \<and> (Pool (work_Requirements work) \<noteq> [] \<longrightarrow> live_member (st_registry st) worker (Pool (work_Requirements work)) (Now e 1))
        \<and> (PolicyLoaded g \<longrightarrow> rule_allow (policy_input wid nid worker work (reg_lookup (st_registry st) worker))))"
proof -
  obtain req nid ttl work l a w where auth: "authorizeDispatchV2Platform g authz bridge = None" and body: "body = Some req"
    and r: "reservation_request req = Inr (nid, w, ttl)" "reservation_refusal g vs e wid nid w work (st_registry st) = None"
    and l: "GrantPlacementLease (call 0 e) wid nid w (Seconds ttl) (st_db st) = (Inr (l, a), st_db st')"
    and work: "GetWork wid (st_db st) = Inr work" "worker = lease_WorkerID l"
    using reserve_cases [OF assms] by metis
  have w: "w = worker" using GrantPlacementLease_worker [OF l] work(2) by simp
  show ?thesis using authorize_None [OF auth] body r(1) reservation_request_Inr [OF r(1)] reservation_refusal_None [OF r(2)] work(1)
    unfolding w by blast
qed

section \<open>Concrete requests\<close>

definition demo_config :: api_config where
  "demo_config = \<lparr>RABControlKey = ''k'', hmac_sha256 = (\<lambda>_ _. replicate 32 CHR ''x''), enc_b64 = id, dec_b64 = Some, PolicyLoaded = True,
     ArtifactsDir = True, digest_of = zero_digest, fmt_time = (\<lambda>_. []), PlatformAPIToken = replicate 32 CHR ''p'', bridgeSecret = replicate 32 CHR ''b''\<rparr>"

definition demo_request :: lease_request where
  "demo_request = \<lparr>lq_Claims = Some ''intruder'', lq_Header = [], lq_Path = lease_ID demo_lease @ ''/revoke'', lq_Grant = None, lq_TTLSeconds = 0,
     lq_Completion = NotJSON, lq_Reason = ''mine'', lq_Faults = no_faults, lq_Random = []\<rparr>"

definition demo_claim :: "string \<Rightarrow> string \<Rightarrow> grantLeaseBody" where
  "demo_claim node worker = \<lparr>gl_WorkID = ''w1'', gl_NodeID = node, gl_WorkerID = worker, gl_TTLSeconds = 0\<rparr>"

definition demo_state_of :: "db \<Rightarrow> api_state" where
  "demo_state_of db = \<lparr>st_db = db, st_registry = Some demo_registry, st_files = (\<lambda>_. None)\<rparr>"

theorem control_token_binds_runner_witness:
  "\<exists>tok. MintRABControlToken demo_config (RABControlKey demo_config) ''wrkr_a'' = Some tok
     \<and> VerifyControlToken demo_config tok ''wrkr_a'' \<and> \<not> VerifyControlToken demo_config tok ''wrkr_b''"
proof -
  obtain tok where m: "MintRABControlToken demo_config (RABControlKey demo_config) ''wrkr_a'' = Some tok"
    by (simp add: MintRABControlToken_def demo_config_def)
  have g: "dec_b64 demo_config (enc_b64 demo_config ''wrkr_a'') = Some ''wrkr_a''" "CHR ''.'' \<notin> set (enc_b64 demo_config ''wrkr_a'')"
    "length (hmac_sha256 demo_config (RABControlKey demo_config) ''wrkr_a'') = 32" by (simp_all add: demo_config_def)
  show ?thesis using control_token_binds_runner [OF m g] m by simp
qed

theorem worker_changes_only_its_leases_witness:
  "others ''intruder'' (st_db (fold (exec_lease demo_config (\<lambda>_. std_visit)) [(clock 0, demo_request)] (demo_state_of leased_db))) = [demo_lease]"
proof -
  have ok: "store_ok (st_db (demo_state_of leased_db))" by (simp add: demo_state_of_def leased_db_ok)
  have claims: "lq_Claims q = Some ''intruder''" if "(e, q) \<in> set [(clock 0, demo_request)]" for e q using that by (simp add: demo_request_def)
  have "others ''intruder'' (st_db (demo_state_of leased_db)) = [demo_lease]"
    by (simp add: others_def demo_state_of_def leased_db_leases) (simp add: demo_lease_def new_lease_def)
  then show ?thesis
    using worker_changes_only_its_leases [where calls = "[(clock 0, demo_request)]" and w = "''intruder''" and g = demo_config and vs = "\<lambda>_. std_visit", OF ok claims] by simp
qed

lemma demo_get_work:
  obtains work where "GetWork ''w1'' demo_db = Inr work" "Pool (work_Requirements work) = []" "work_Policy work = work_Policy zero_Work"
    "Graph work = Graph demo_work" "work_Requirements work = work_Requirements zero_Work" "work_Objective work = work_Objective demo_work"
    "work_Source work = work_Source zero_Work"
proof -
  have "Graph (stamp_work e w) = Graph w" "work_Requirements (stamp_work e w) = work_Requirements w" "work_Policy (stamp_work e w) = work_Policy w"
    "work_Objective (stamp_work e w) = work_Objective w" "work_Source (stamp_work e w) = work_Source w" for e w
    by (simp_all add: stamp_work_def Let_def)
  then show ?thesis using that by (simp add: GetWork_def demo_row work_columns_def) (simp add: demo_work_def zero_Work_def)
qed

lemma demo_policy: "work_Policy work = work_Policy zero_Work \<Longrightarrow> policy_refusal g (policy_input wid nid worker work io) = None"
  by (simp add: policy_refusal_def EvaluateOrError_def Evaluate_def policy_input_def zero_Work_def)

lemma demo_granted:
  assumes "node \<noteq> []"
  obtains l a st' where "grantLease demo_config vs (clock 0) (Some ''worker'') [] (Some (demo_claim node '' worker '')) (demo_state_of demo_db) = (LGranted l a, st')"
    "lease_NodeID l = node"
proof -
  obtain work where w: "GetWork ''w1'' demo_db = Inr work" "Pool (work_Requirements work) = []" "work_Policy work = work_Policy zero_Work" by (rule demo_get_work)
  have trim: "TrimSpace '' worker '' = ''worker''" by code_simp
  have abi: "abiFor (Some demo_registry) ''worker'' = None" by code_simp
  have c: "claim_refusal demo_config (Some ''worker'') [] (demo_claim node '' worker '') (st_registry (demo_state_of demo_db)) = Inr ''worker''"
    using assms by (simp add: claim_refusal_def demo_claim_def trim gateClaimOwner_def gateClaimByRAB_def demo_state_of_def abi)
  have r: "grant_refusal demo_config vs (Now (clock 0) 0) ''worker'' ''w1'' node work (st_registry (demo_state_of demo_db)) = None"
    using w by (simp add: grant_refusal_def demo_policy)
  obtain l a db' where gl: "GrantLease (call 0 (clock 0)) ''w1'' node ''worker'' (Seconds 0) demo_db = (Inr (l, a), db')"
    by (simp add: GrantLease_def demo_row demo_state Let_def paused_def active_on_def demo_tables insert_lease_def new_attempt_def)
  have "lease_NodeID l = node" using GrantLease_fields [of "call 0 (clock 0)" "''w1''" node "''worker''" "Seconds 0" demo_db l a] gl by simp
  then show ?thesis using that c r w(1) gl by (simp add: grantLease_def demo_claim_def demo_state_of_def)
qed

theorem granted_lease_is_authorised_witness:
  "\<exists>l a st'. grantLease demo_config (\<lambda>_. std_visit) (clock 0) (Some ''worker'') [] (Some (demo_claim ''build'' '' worker '')) (demo_state_of demo_db) = (LGranted l a, st')
     \<and> lease_WorkerID l = ''worker''"
proof -
  obtain l a st' where g: "grantLease demo_config (\<lambda>_. std_visit) (clock 0) (Some ''worker'') [] (Some (demo_claim ''build'' '' worker '')) (demo_state_of demo_db) = (LGranted l a, st')"
    by (rule demo_granted [of "''build''"]) simp_all
  from granted_lease_is_authorised [OF g] g show ?thesis by auto
qed

text \<open>Neither the routes nor the store look at whether the node exists: a lease on a node that the Work's graph does not have is granted. The hard requirements of
  a pool are skipped for such a node, because the store is expected to refuse it.\<close>

theorem unknown_node_is_leased:
  "\<exists>work l a st'. GetWork ''w1'' demo_db = Inr work \<and> map_of (Graph work) ''ghost'' = None
     \<and> grantLease demo_config vs (clock 0) (Some ''worker'') [] (Some (demo_claim ''ghost'' '' worker '')) (demo_state_of demo_db) = (LGranted l a, st')
     \<and> lease_NodeID l = ''ghost'' \<and> fst (poolRunnerMeetsWorkRequirements vs (Some demo_registry) ''wrkr_a'' work ''ghost'')"
proof -
  obtain work where w: "GetWork ''w1'' demo_db = Inr work" "Graph work = Graph demo_work" by (rule demo_get_work)
  obtain l a st' where g: "grantLease demo_config vs (clock 0) (Some ''worker'') [] (Some (demo_claim ''ghost'' '' worker '')) (demo_state_of demo_db) = (LGranted l a, st')"
    "lease_NodeID l = ''ghost''" by (rule demo_granted [of "''ghost''" vs]) simp_all
  have "map_of (Graph work) ''ghost'' = None" by (simp add: w(2) demo_work_def)
  moreover have "reg_get demo_registry ''wrkr_a'' \<noteq> None" by code_simp
  ultimately show ?thesis using w(1) g by (auto simp: poolRunnerMeetsWorkRequirements_def)
qed

definition demo_reservation :: placementReservationV2 where
  "demo_reservation = \<lparr>pr_Schema = ''placement.reservation/1.0'', pr_NodeID = ''build'', pr_SelectedWorker = ''wrkr_a'', pr_TTLSeconds = 0,
     pr_PlacementBinding = Some \<lparr>pb_Schema = ''runtime.placement-dispatch-binding/0.1'', pb_MissionID = ''m'', pb_SelectedNode = ''wrkr_a'',
       pb_PlacementDecisionDigest = ''d'', pb_SnapshotDigest = ''s'', pb_PolicyVersion = ''1''\<rparr>\<rparr>"

lemma demo_runner_fits:
  assumes "GetWork ''w1'' demo_db = Inr work"
  shows "fst (poolRunnerMeetsWorkRequirements vs (Some demo_registry) ''wrkr_a'' work ''build'')"
proof -
  define i where "i = demo_identity\<lparr>id_LastHeartbeatAt := Some 100\<rparr>"
  have i: "reg_get demo_registry ''wrkr_a'' = Some i" by (simp add: i_def demo_registry_def reg_get_put demo_identity_def)
  obtain work' where w': "GetWork ''w1'' demo_db = Inr work'" "work_Policy work' = work_Policy zero_Work" "Graph work' = Graph demo_work"
    "work_Requirements work' = work_Requirements zero_Work" "work_Objective work' = work_Objective demo_work" "work_Source work' = work_Source zero_Work"
    by (rule demo_get_work)
  then have w: "work' = work" using assms by simp
  let ?n = "zero_Node\<lparr>Run := ''make''\<rparr>"
  have n: "map_of (Graph work) ''build'' = Some ?n" using w'(3) by (simp add: w demo_work_def)
  have "hardFilter (runner_of i) work ?n = []"
    using w'(2,4-6) by (simp add: w hardFilter_def runner_of_def i_def demo_identity_def zero_Work_def Let_def hasNetworkEgress_def zero_Node_def
        trustMeets_def tenantOf_def demo_work_def)
  then have "snd (Select vs (Some work) (Some ?n) [runner_of i]) = None" by (simp add: Select_error entries_eq_Nil)
  then show ?thesis using i n by (auto simp: poolRunnerMeetsWorkRequirements_def runnersFromIdentities_def split: prod.splits option.splits)
qed

theorem reservation_is_revalidated_witness:
  "\<exists>lid aid st'. reservePlacementV2 demo_config (\<lambda>_. std_visit) (steady 100) (''Bearer '' @ replicate 32 CHR ''p'') (replicate 32 CHR ''b'') ''w1'' (Some demo_reservation)
     (demo_state_of demo_db) = (LReserved ''w1'' ''wrkr_a'' lid aid, st')
   \<and> runnerHasFreshHeartbeat (reg_lookup (Some demo_registry) ''wrkr_a'') (Now (steady 100) 0)"
proof -
  obtain work where w: "GetWork ''w1'' demo_db = Inr work" "Pool (work_Requirements work) = []" "work_Policy work = work_Policy zero_Work" by (rule demo_get_work)
  have auth: "authorizeDispatchV2Platform demo_config (''Bearer '' @ replicate 32 CHR ''p'') (replicate 32 CHR ''b'') = None" by code_simp
  have req: "reservation_request demo_reservation = Inr (''build'', ''wrkr_a'', 25)" by code_simp
  have path: "TrimSpace ''w1'' = ''w1''" by code_simp
  have fresh: "runnerHasFreshHeartbeat (reg_lookup (Some demo_registry) ''wrkr_a'') (Now (steady 100) 0)" by code_simp
  have r: "reservation_refusal demo_config (\<lambda>_. std_visit) (steady 100) ''w1'' ''build'' ''wrkr_a'' work (Some demo_registry) = None"
    using w demo_runner_fits [OF w(1)] fresh by (simp add: reservation_refusal_def demo_policy)
  obtain l a db' where gl: "GrantPlacementLease (call 0 (steady 100)) ''w1'' ''build'' ''wrkr_a'' (Seconds 25) demo_db = (Inr (l, a), db')"
    by (simp add: GrantPlacementLease_def demo_row demo_state Let_def paused_def active_on_def demo_tables insert_lease_def new_attempt_def CanTransition_def)
  have res: "reservePlacementV2 demo_config (\<lambda>_. std_visit) (steady 100) (''Bearer '' @ replicate 32 CHR ''p'') (replicate 32 CHR ''b'') ''w1'' (Some demo_reservation)
     (demo_state_of demo_db) = (LReserved ''w1'' ''wrkr_a'' (lease_ID l) (att_ID a), (demo_state_of demo_db)\<lparr>st_db := db'\<rparr>)"
    using w(1) r gl GrantPlacementLease_worker [OF gl] unfolding reservePlacementV2_def auth path by (simp add: req demo_state_of_def)
  from reservation_is_revalidated [OF res] res fresh show ?thesis by blast
qed

end
