(* ===== verification/Execution_Context.thy ===== *)
theory Execution_Context
  imports Lease_Api
begin

text \<open>
  Execution contexts (\<^verbatim>\<open>packages/executioncontext\<close>), their table (\<^verbatim>\<open>services/work/store/execution_context.go\<close>) and the two routes
  (\<^verbatim>\<open>services/api/execution_context_handler.go\<close>). The table is a list of contexts with their creation time; it references the Works and is read beside the leases
  of the store. A missing prior context is the empty string, as the reads return it.
\<close>

section \<open>Contexts\<close>

record ExecContext =
  ec_Schema :: string
  ec_ID :: string
  ec_PriorContextID :: string
  ec_OrganizationID :: string
  ec_TenantID :: string
  ec_PrincipalID :: string
  ec_MissionID :: string
  ec_AuthorityLeaseID :: string
  ec_WorkID :: string
  ec_WorkerID :: string
  ec_WorkerLeaseID :: string
  ec_AdmissionDecisionID :: string
  ec_TraceID :: string

text \<open>The anchored patterns \<^verbatim>\<open>^<prefix>_[a-f0-9]{32}$\<close>.\<close>

definition id_pattern :: "string \<Rightarrow> string \<Rightarrow> bool" where
  "id_pattern prefix s \<longleftrightarrow> (let p = prefix @ ''_'' in HasPrefix s p \<and> length (drop (length p) s) = 32 \<and> list_all is_hex (drop (length p) s))"

datatype context_error = ErrSchema | ErrFormat string | ErrLeaseMismatch | ErrConflict | ErrContextNotFound

text \<open>The map of identifiers is visited in any order; only the name in the error depends on it.\<close>

definition id_values :: "ExecContext \<Rightarrow> (string \<times> string \<times> string) list" where
  "id_values c = [(''execution_context_id'', ''ctx'', ec_ID c), (''organization_id'', ''org'', ec_OrganizationID c), (''tenant_id'', ''ten'', ec_TenantID c),
     (''principal_id'', ''prn'', ec_PrincipalID c), (''authority_lease_id'', ''auth'', ec_AuthorityLeaseID c), (''work_id'', ''wrk'', ec_WorkID c),
     (''worker_id'', ''wrkr'', ec_WorkerID c), (''worker_lease_id'', ''lse'', ec_WorkerLeaseID c),
     (''admission_decision_id'', ''pdr'', ec_AdmissionDecisionID c), (''trace_id'', ''trc'', ec_TraceID c)]"

definition ContextValidate :: "ExecContext \<Rightarrow> context_error option" where
  "ContextValidate c =
     (if ec_Schema c \<noteq> ''execution-context/1.0'' then Some ErrSchema
      else case find (\<lambda>(name, prefix, value). \<not> id_pattern prefix value) (id_values c) of
        Some (name, _) \<Rightarrow> Some (ErrFormat name)
      | None \<Rightarrow>
        if length (ec_MissionID c) < 5 \<or> take 4 (ec_MissionID c) \<noteq> ''mis_'' then Some (ErrFormat ''mission_id'')
        else if ec_PriorContextID c \<noteq> [] \<and> \<not> id_pattern ''ctx'' (ec_PriorContextID c) then Some (ErrFormat ''prior_execution_context_id'')
        else None)"

definition MintCorrelationIDs :: "env \<Rightarrow> string \<times> string" where
  "MintCorrelationIDs e = (fresh e 0 ''ctx'', fresh e 1 ''trc'')"

section \<open>Table\<close>

type_synonym context_table = "(ExecContext \<times> time) list"

text \<open>The constraints of the table: its keys and the reference to the Work.\<close>

definition insert_context :: "db \<Rightarrow> ExecContext \<Rightarrow> time \<Rightarrow> context_table \<Rightarrow> context_table option" where
  "insert_context db c now t =
     (if list_ex (\<lambda>(r, _). ec_ID r = ec_ID c) t \<or> get_row (ec_WorkID c) db = None
        \<or> list_ex (\<lambda>(r, _). ec_WorkerLeaseID r = ec_WorkerLeaseID c \<and> ec_AuthorityLeaseID r = ec_AuthorityLeaseID c
            \<and> ec_AdmissionDecisionID r = ec_AdmissionDecisionID c) t
      then None else Some (t @ [(c, now)]))"

definition find_context :: "string \<Rightarrow> context_table \<Rightarrow> ExecContext option" where
  "find_context cid t = map_option (\<lambda>(c, _). c\<lparr>ec_Schema := ''execution-context/1.0''\<rparr>) (find (\<lambda>(c, _). ec_ID c = cid) t)"

text \<open>The context that is stored: the schema, an id when none was given, and the worker of the lease.\<close>

definition leased_context :: "env \<Rightarrow> Lease \<Rightarrow> ExecContext \<Rightarrow> ExecContext" where
  "leased_context e l inp = inp\<lparr>ec_Schema := ''execution-context/1.0'', ec_ID := (if ec_ID inp = [] then fresh e 0 ''ctx'' else ec_ID inp),
     ec_WorkerID := lease_WorkerID l\<rparr>"

definition CreateExecutionContext :: "env \<Rightarrow> ExecContext \<Rightarrow> db \<Rightarrow> context_table \<Rightarrow> (context_error + ExecContext) \<times> context_table" where
  "CreateExecutionContext e inp db t = (case find_row lease_ID (ec_WorkerLeaseID inp) (leases db) of
      None \<Rightarrow> (Inl ErrLeaseMismatch, t)
    | Some l \<Rightarrow>
      if lease_WorkID l \<noteq> ec_WorkID inp then (Inl ErrLeaseMismatch, t)
      else let c = leased_context e l inp in
      case ContextValidate c of Some x \<Rightarrow> (Inl x, t)
      | None \<Rightarrow>
        if ec_PriorContextID c \<noteq> [] \<and> (case find_context (ec_PriorContextID c) t of None \<Rightarrow> True | Some prior \<Rightarrow> ec_WorkID prior \<noteq> ec_WorkID c)
        then (Inl ErrConflict, t)
        else case insert_context db c (Now e 0) t of None \<Rightarrow> (Inl ErrConflict, t) | Some t' \<Rightarrow> (Inr c, t'))"

definition GetExecutionContext :: "string \<Rightarrow> context_table \<Rightarrow> context_error + ExecContext" where
  "GetExecutionContext cid t = (case find_context cid t of None \<Rightarrow> Inl ErrContextNotFound | Some c \<Rightarrow> Inr c)"

text \<open>\<^verbatim>\<open>ORDER BY created_at, id\<close>, on the texts \<open>fmt\<close> renders.\<close>

definition ListExecutionContextsByWorkID :: "(time \<Rightarrow> string) \<Rightarrow> string \<Rightarrow> context_table \<Rightarrow> ExecContext list" where
  "ListExecutionContextsByWorkID fmt wid t =
     map (\<lambda>(c, _). c\<lparr>ec_Schema := ''execution-context/1.0''\<rparr>) (sort_key (\<lambda>(c, made). (fmt made, ec_ID c)) (filter (\<lambda>(c, _). ec_WorkID c = wid) t))"

section \<open>Routes\<close>

definition createExecutionContext ::
  "api_config \<Rightarrow> env \<Rightarrow> string \<Rightarrow> string \<Rightarrow> string \<Rightarrow> ExecContext option \<Rightarrow> db \<Rightarrow> context_table \<Rightarrow> (api_error + ExecContext) \<times> context_table" where
  "createExecutionContext g e authz bridge workID body db t = (case authorizeDispatchV2Platform g authz bridge of Some x \<Rightarrow> (Inl x, t)
     | None \<Rightarrow> (case body of None \<Rightarrow> (Inl (ApiError 400 ''invalid_json''), t)
       | Some b \<Rightarrow> (case CreateExecutionContext e (b\<lparr>ec_Schema := [], ec_ID := [], ec_WorkerID := [], ec_WorkID := workID\<rparr>) db t of
           (Inr c, t') \<Rightarrow> (Inr c, t')
         | (Inl ErrLeaseMismatch, t') \<Rightarrow> (Inl (ApiError 404 ''execution_context_not_available''), t')
         | (Inl ErrConflict, t') \<Rightarrow> (Inl (ApiError 409 ''execution_context_conflict''), t')
         | (Inl _, t') \<Rightarrow> (Inl (ApiError 400 ''execution_context_invalid''), t'))))"

definition executionContextItemHandler :: "string \<Rightarrow> context_table \<Rightarrow> api_error + ExecContext" where
  "executionContextItemHandler cid t =
     (if cid = [] \<or> CHR ''/'' \<in> set cid then Inl (ApiError 404 ''not_found'')
      else case GetExecutionContext cid t of Inr c \<Rightarrow> Inr c | Inl _ \<Rightarrow> Inl (ApiError 404 ''not_found''))"

section \<open>What the table holds\<close>

text \<open>Every context is valid, names the worker and the Work of its lease, and no two share their id or their three leases and decisions.\<close>

definition context_key :: "ExecContext \<Rightarrow> string \<times> string \<times> string" where
  "context_key c = (ec_WorkerLeaseID c, ec_AuthorityLeaseID c, ec_AdmissionDecisionID c)"

definition context_ok :: "db \<Rightarrow> ExecContext \<Rightarrow> bool" where
  "context_ok db c \<longleftrightarrow> ContextValidate c = None
     \<and> (\<exists>l \<in> set (leases db). lease_ID l = ec_WorkerLeaseID c \<and> lease_WorkID l = ec_WorkID c \<and> lease_WorkerID l = ec_WorkerID c)"

definition contexts_ok :: "db \<Rightarrow> context_table \<Rightarrow> bool" where
  "contexts_ok db t \<longleftrightarrow> list_all (\<lambda>(c, _). context_ok db c) t \<and> distinct (map (ec_ID \<circ> fst) t) \<and> distinct (map (context_key \<circ> fst) t)"

lemma find_append: "find P (xs @ ys) = (case find P xs of None \<Rightarrow> find P ys | Some x \<Rightarrow> Some x)"
  by (induction xs) auto

lemma insert_context_ok:
  assumes "insert_context db c now t = Some t'" "contexts_ok db t" "context_ok db c"
  shows "contexts_ok db t'"
proof -
  have t': "t' = t @ [(c, now)]" and new: "\<not> list_ex (\<lambda>(r, _). ec_ID r = ec_ID c) t"
    "\<not> list_ex (\<lambda>(r, _). ec_WorkerLeaseID r = ec_WorkerLeaseID c \<and> ec_AuthorityLeaseID r = ec_AuthorityLeaseID c
        \<and> ec_AdmissionDecisionID r = ec_AdmissionDecisionID c) t"
    using assms(1) by (auto simp: insert_context_def split: if_splits)
  have "ec_ID c \<notin> set (map (ec_ID \<circ> fst) t)" "context_key c \<notin> set (map (context_key \<circ> fst) t)"
    using new by (auto simp: list_ex_iff context_key_def)
  then show ?thesis using assms(2,3) by (simp add: t' contexts_ok_def)
qed

lemma leased_context_fields [simp]:
  "ec_WorkID (leased_context e l inp) = ec_WorkID inp" "ec_WorkerLeaseID (leased_context e l inp) = ec_WorkerLeaseID inp"
  "ec_WorkerID (leased_context e l inp) = lease_WorkerID l" "ec_Schema (leased_context e l inp) = ''execution-context/1.0''"
  by (simp_all add: leased_context_def)

lemma Create_Inr:
  assumes "CreateExecutionContext e inp db t = (Inr c, t')"
  shows "context_ok db c \<and> insert_context db c (Now e 0) t = Some t' \<and> ec_WorkID c = ec_WorkID inp \<and> ec_WorkerLeaseID c = ec_WorkerLeaseID inp
    \<and> ec_Schema c = ''execution-context/1.0''"
proof -
  obtain l where l: "find_row lease_ID (ec_WorkerLeaseID inp) (leases db) = Some l" "lease_WorkID l = ec_WorkID inp" "c = leased_context e l inp"
    "ContextValidate c = None" "insert_context db c (Now e 0) t = Some t'"
    using assms by (auto simp: CreateExecutionContext_def Let_def split: option.splits if_splits)
  then have "context_ok db c" using find_row_Some [OF l(1)] by (auto simp: context_ok_def)
  with l(3,5) show ?thesis by simp
qed

lemma Create_Inl: "CreateExecutionContext e inp db t = (Inl x, t') \<Longrightarrow> t' = t"
  by (auto simp: CreateExecutionContext_def Let_def split: option.splits if_splits)

text \<open>A context is immutable and speaks of a real lease: the table keeps only valid contexts whose worker and Work are those of their lease, with unique ids and unique
  combinations of worker lease, authority lease and admission decision; a created context reads back as it was returned, a refused creation changes nothing, and
  what was stored before stays readable.\<close>

theorem contexts_speak_of_leases:
  assumes "contexts_ok db t" and "CreateExecutionContext e inp db t = (r, t')"
  shows "contexts_ok db t' \<and> (\<forall>cid c. find_context cid t = Some c \<longrightarrow> find_context cid t' = Some c)
    \<and> (case r of Inl _ \<Rightarrow> t' = t | Inr c \<Rightarrow> GetExecutionContext (ec_ID c) t' = Inr c \<and> ec_WorkID c = ec_WorkID inp)"
proof (cases r)
  case (Inl x)
  then have "t' = t" using Create_Inl [OF assms(2) [unfolded Inl]] by simp
  then show ?thesis using assms(1) Inl by simp
next
  case (Inr c)
  note c = Create_Inr [OF assms(2) [unfolded Inr]]
  have ok: "contexts_ok db t'" using insert_context_ok [OF _ assms(1)] c by blast
  have t': "t' = t @ [(c, Now e 0)]" and new: "\<not> list_ex (\<lambda>(r, _). ec_ID r = ec_ID c) t"
    using c by (auto simp: insert_context_def split: if_splits)
  have "find (\<lambda>(r, _). ec_ID r = ec_ID c) t = None" using new by (auto simp: find_None_iff list_ex_iff)
  then have "find_context (ec_ID c) t' = Some (c\<lparr>ec_Schema := ''execution-context/1.0''\<rparr>)" by (simp add: find_context_def t' find_append)
  moreover have "c\<lparr>ec_Schema := ''execution-context/1.0''\<rparr> = c" using c by simp
  ultimately have "GetExecutionContext (ec_ID c) t' = Inr c" by (simp add: GetExecutionContext_def)
  moreover have "find_context cid t' = Some x" if "find_context cid t = Some x" for cid x
    using that by (auto simp: find_context_def t' find_append)
  ultimately show ?thesis using ok c Inr by simp
qed

text \<open>No worker that the registry named can have a context: a server-minted runner id has sixteen hexadecimal digits, a context demands thirty-two, so every
  creation for a lease of such a worker is refused, whatever its other fields are.\<close>

theorem minted_worker_has_no_context:
  assumes "find_row lease_ID (ec_WorkerLeaseID inp) (leases db) = Some l" and "lease_WorkerID l = MintRunnerID bytes" and "length bytes = 8"
  shows "\<exists>x. CreateExecutionContext e inp db t = (Inl x, t)"
proof -
  have len: "length (MintRunnerID bytes) = 21"
  proof -
    have "length (concat (map hex_byte bytes)) = 2 * length bytes" by (induction bytes) (simp_all add: hex_byte_def)
    then show ?thesis using assms(3) by (simp add: MintRunnerID_def)
  qed
  have "ContextValidate c \<noteq> None" if "ec_WorkerID c = MintRunnerID bytes" for c
    using that len by (auto simp: ContextValidate_def id_values_def id_pattern_def Let_def find_None_iff split: option.splits if_splits)
  then have "ContextValidate (leased_context e l inp) \<noteq> None" using assms(2) by simp
  then show ?thesis using assms(1) by (auto simp: CreateExecutionContext_def Let_def)
qed

section \<open>A context\<close>

definition hex_id :: "string \<Rightarrow> string" where
  "hex_id prefix = prefix @ ''_'' @ replicate 32 CHR ''0''"

definition context_lease :: "string \<Rightarrow> Lease" where
  "context_lease worker = \<lparr>lease_ID = hex_id ''lse'', lease_WorkID = hex_id ''wrk'', lease_NodeID = ''n'', lease_WorkerID = worker,
     lease_AttemptID = ''a'', GrantedAt = 0, ExpiresAt = 10, LastBeatAt = 0, lease_Status = LeaseActive\<rparr>"

definition context_db :: "string \<Rightarrow> db" where
  "context_db worker = empty_db\<lparr>works := [zero_Work\<lparr>work_ID := hex_id ''wrk''\<rparr>], leases := [context_lease worker]\<rparr>"

definition demo_context :: ExecContext where
  "demo_context = \<lparr>ec_Schema = [], ec_ID = hex_id ''ctx'', ec_PriorContextID = [], ec_OrganizationID = hex_id ''org'', ec_TenantID = hex_id ''ten'',
     ec_PrincipalID = hex_id ''prn'', ec_MissionID = ''mis_1'', ec_AuthorityLeaseID = hex_id ''auth'', ec_WorkID = hex_id ''wrk'', ec_WorkerID = [],
     ec_WorkerLeaseID = hex_id ''lse'', ec_AdmissionDecisionID = hex_id ''pdr'', ec_TraceID = hex_id ''trc''\<rparr>"

lemma demo_context_created:
  "CreateExecutionContext zero_env demo_context (context_db (hex_id ''wrkr'')) [] =
     (Inr (demo_context\<lparr>ec_Schema := ''execution-context/1.0'', ec_WorkerID := hex_id ''wrkr''\<rparr>),
      [(demo_context\<lparr>ec_Schema := ''execution-context/1.0'', ec_WorkerID := hex_id ''wrkr''\<rparr>, 0)])"
proof -
  let ?c = "demo_context\<lparr>ec_Schema := ''execution-context/1.0'', ec_WorkerID := hex_id ''wrkr''\<rparr>"
  have v: "ContextValidate ?c = None" by code_simp
  have l: "find_row lease_ID (ec_WorkerLeaseID demo_context) (leases (context_db (hex_id ''wrkr''))) = Some (context_lease (hex_id ''wrkr''))"
    by (simp add: context_db_def context_lease_def demo_context_def find_row_def)
  have i: "insert_context (context_db (hex_id ''wrkr'')) ?c 0 [] = Some [(?c, 0)]"
    by (simp add: insert_context_def context_db_def demo_context_def get_row_def find_row_def)
  have f: "lease_WorkID (context_lease w) = ec_WorkID demo_context" "lease_WorkerID (context_lease w) = w" "ec_ID demo_context \<noteq> []" "ec_PriorContextID demo_context = []" for w
    by (simp_all add: context_lease_def demo_context_def hex_id_def)
  show ?thesis using v i by (simp add: CreateExecutionContext_def leased_context_def l f Let_def)
qed

theorem contexts_speak_of_leases_witness:
  "\<exists>c t'. CreateExecutionContext zero_env demo_context (context_db (hex_id ''wrkr'')) [] = (Inr c, t')
     \<and> contexts_ok (context_db (hex_id ''wrkr'')) t' \<and> GetExecutionContext (ec_ID c) t' = Inr c"
proof -
  have empty: "contexts_ok (context_db (hex_id ''wrkr'')) []" by (simp add: contexts_ok_def)
  from contexts_speak_of_leases [OF empty demo_context_created] demo_context_created show ?thesis by auto
qed

theorem minted_worker_has_no_context_witness:
  "\<exists>x. CreateExecutionContext zero_env demo_context (context_db (MintRunnerID (replicate 8 0))) [] = (Inl x, [])"
proof -
  have l: "find_row lease_ID (ec_WorkerLeaseID demo_context) (leases (context_db (MintRunnerID (replicate 8 0)))) = Some (context_lease (MintRunnerID (replicate 8 0)))"
    by (simp add: context_db_def context_lease_def demo_context_def find_row_def)
  have "length (replicate 8 (0 :: nat)) = 8" by (rule length_replicate)
  then show ?thesis using minted_worker_has_no_context [OF l, of "replicate 8 0"] by (simp add: context_lease_def)
qed

end
