(* ===== verification/Dispatch_Seal.thy ===== *)
theory Dispatch_Seal
  imports Execution_Context
begin

text \<open>
  The dispatch acceptance seal: the acceptor (\<^verbatim>\<open>internal/dispatch/acceptance.go\<close>), its SQLite tables (\<^verbatim>\<open>services/work/store/dispatch_store.go\<close>,
  \<^verbatim>\<open>dispatch_v2_store.go\<close>) and the routes (\<^verbatim>\<open>services/api/dispatch_handler.go\<close>, \<^verbatim>\<open>dispatch_v2_handler.go\<close>). A row of the acceptance table has its three key
  columns and the record that its JSON column holds. Budgets are signed 64-bit integers with their wrap-around written out. The placement binding of the
  routes and that of the acceptor have the same fields and are one record here. Every operation of the acceptor but the two atomic ones reads a record, changes
  it and saves it in separate statements; the functions on records are separate definitions, so that the interleavings of two calls can be stated.
\<close>

section \<open>Records\<close>

record Dispatch =
  dp_MissionID :: string
  dp_AuthorityRef :: string
  dp_AuthorityEpoch :: int
  dp_RuntimeDispatchID :: string
  dp_AttemptID :: string
  dp_EffectID :: string
  dp_IdempotencyKey :: string
  dp_BudgetRef :: string
  dp_BudgetCeiling :: int
  dp_CheckpointID :: string
  dp_EvidenceRoot :: string
  dp_VerificationSubj :: string
  dp_CausalID :: string
  dp_Placement :: "dispatchPlacementBinding option"

record VerificationVerdict =
  vv_Result :: string
  vv_Subject :: string
  vv_EvidenceRef :: string
  vv_RecordedAt :: time

record Acceptance =
  ac_ContractVersion :: string
  ac_WorkID :: string
  ac_WorksExecutionID :: string
  ac_Dispatch :: Dispatch
  ac_AcceptedAt :: time
  ac_AuthorityEpochAt :: int
  ac_EffectApplied :: bool
  ac_BudgetSpent :: int
  ac_Revoked :: bool
  ac_Outcome :: string
  ac_Verified :: bool
  ac_VerifierID :: string
  ac_Verdict :: "VerificationVerdict option"
  ac_ExecutionContextID :: string
  ac_TraceID :: string

record V2Binding =
  bd_WorkID :: string
  bd_OrganizationID :: string
  bd_TenantID :: string
  bd_PrincipalID :: string
  bd_AuthorityLeaseID :: string
  bd_WorkerLeaseID :: string
  bd_AdmissionDecisionID :: string

record VerificationSubjectBinding =
  sb_WorksExecutionID :: string
  sb_WorkID :: string
  sb_AttemptID :: string
  sb_EffectID :: string
  sb_CausalID :: string
  sb_Subject :: string
  sb_BoundAt :: time

datatype dispatch_error =
    ErrMissingBinding | ErrStaleAuthority | ErrCausalMismatch | ErrUnknownAcceptance | ErrEffectDuplicate | ErrBudgetExhausted
  | ErrAuthorityRevoked | ErrSelfVerification | ErrStaleSubject | ErrVerifierUnavailable | ErrInvalidSpend | ErrInvalidBudget
  | ErrExecutionNotTerminal | ErrMissingVerdictEvidence | ErrInvalidVerdict | ErrV2StoreRequired | ErrContextBinding
  | ErrWorkerLeaseUnavailable | ErrPlacementBindingInvalid | ErrPlacementMismatch | ErrSubjectNotBound | ErrSubjectConflict
  | ErrInvalidSubject | ErrUnknownOutcome | ErrStoreIdentity | ErrStoreConstraint

record acceptance_row =
  row_execution :: string
  row_key :: string
  row_causal :: string
  row_record :: Acceptance

record seal_db =
  acceptances :: "acceptance_row list"
  subjects :: "VerificationSubjectBinding list"
  sd_contexts :: context_table

definition row_of :: "Acceptance \<Rightarrow> acceptance_row" where
  "row_of a = \<lparr>row_execution = ac_WorksExecutionID a, row_key = dp_IdempotencyKey (ac_Dispatch a), row_causal = dp_CausalID (ac_Dispatch a), row_record = a\<rparr>"

section \<open>Tables\<close>

definition loadAcceptance :: "(acceptance_row \<Rightarrow> bool) \<Rightarrow> seal_db \<Rightarrow> dispatch_error + Acceptance option" where
  "loadAcceptance p s = (case find p (acceptances s) of None \<Rightarrow> Inr None
     | Some r \<Rightarrow> let a = row_record r in
       if ac_WorksExecutionID a \<noteq> row_execution r \<or> dp_IdempotencyKey (ac_Dispatch a) \<noteq> row_key r \<or> dp_CausalID (ac_Dispatch a) \<noteq> row_causal r
       then Inl ErrStoreIdentity else Inr (Some a))"

definition LoadByIdempotency :: "string \<Rightarrow> seal_db \<Rightarrow> dispatch_error + Acceptance option" where
  "LoadByIdempotency key s = loadAcceptance (\<lambda>r. row_key r = key) s"

definition LoadByExecution :: "string \<Rightarrow> seal_db \<Rightarrow> dispatch_error + Acceptance option" where
  "LoadByExecution eid s = loadAcceptance (\<lambda>r. row_execution r = eid) s"

definition identity_missing :: "Acceptance \<Rightarrow> bool" where
  "identity_missing a \<longleftrightarrow> ac_WorksExecutionID a = [] \<or> dp_IdempotencyKey (ac_Dispatch a) = [] \<or> dp_CausalID (ac_Dispatch a) = []"

text \<open>The insert with \<^verbatim>\<open>ON CONFLICT(idempotency_key) DO NOTHING\<close>: whether a row was added, or a violation of the primary key.\<close>

definition insert_acceptance :: "Acceptance \<Rightarrow> seal_db \<Rightarrow> dispatch_error + bool \<times> seal_db" where
  "insert_acceptance a s =
     (if list_ex (\<lambda>r. row_key r = dp_IdempotencyKey (ac_Dispatch a)) (acceptances s) then Inr (False, s)
      else if list_ex (\<lambda>r. row_execution r = ac_WorksExecutionID a) (acceptances s) then Inl ErrStoreConstraint
      else Inr (True, s\<lparr>acceptances := acceptances s @ [row_of a]\<rparr>))"

definition AcceptIfAbsent :: "Acceptance \<Rightarrow> seal_db \<Rightarrow> (dispatch_error + Acceptance) \<times> seal_db" where
  "AcceptIfAbsent a s =
     (if identity_missing a then (Inl ErrStoreIdentity, s)
      else case insert_acceptance a s of Inl x \<Rightarrow> (Inl x, s)
      | Inr (True, s') \<Rightarrow> (Inr a, s')
      | Inr (False, s') \<Rightarrow> (case LoadByIdempotency (dp_IdempotencyKey (ac_Dispatch a)) s' of
          Inl x \<Rightarrow> (Inl x, s) | Inr None \<Rightarrow> (Inl ErrStoreIdentity, s) | Inr (Some existing) \<Rightarrow> (Inr existing, s')))"

definition SpendIfWithinCeiling :: "string \<Rightarrow> int \<Rightarrow> seal_db \<Rightarrow> (dispatch_error + Acceptance option) \<times> seal_db" where
  "SpendIfWithinCeiling eid amount s =
     (if amount \<le> 0 then (Inl ErrInvalidSpend, s)
      else case LoadByExecution eid s of Inl x \<Rightarrow> (Inl x, s)
      | Inr None \<Rightarrow> (Inr None, s)
      | Inr (Some a) \<Rightarrow> let ceiling = dp_BudgetCeiling (ac_Dispatch a) in
        if ac_Revoked a then (Inr None, s)
        else if ceiling < 0 \<or> ac_BudgetSpent a < 0 \<or> ac_BudgetSpent a > ceiling then (Inr None, s)
        else if amount > wrap64 (ceiling - ac_BudgetSpent a) then (Inr None, s)
        else let a' = a\<lparr>ac_BudgetSpent := wrap64 (ac_BudgetSpent a + amount)\<rparr> in
          (Inr (Some a'), s\<lparr>acceptances := update_where (\<lambda>r. row_execution r = eid) (\<lambda>r. r\<lparr>row_record := a'\<rparr>) (acceptances s)\<rparr>))"

definition Save :: "Acceptance \<Rightarrow> seal_db \<Rightarrow> dispatch_error option \<times> seal_db" where
  "Save a s =
     (let eid = ac_WorksExecutionID a; key = dp_IdempotencyKey (ac_Dispatch a) in
      if identity_missing a then (Some ErrStoreIdentity, s)
      else if list_ex (\<lambda>r. row_key r = key \<and> row_execution r \<noteq> eid) (acceptances s) then (Some ErrStoreConstraint, s)
      else if list_ex (\<lambda>r. row_execution r = eid) (acceptances s)
      then (None, s\<lparr>acceptances := update_where (\<lambda>r. row_execution r = eid) (\<lambda>_. row_of a) (acceptances s)\<rparr>)
      else (None, s\<lparr>acceptances := acceptances s @ [row_of a]\<rparr>))"

definition LoadVerificationSubject :: "string \<Rightarrow> seal_db \<Rightarrow> VerificationSubjectBinding option" where
  "LoadVerificationSubject eid s = find_row sb_WorksExecutionID eid (subjects s)"

definition BindSubjectRow :: "time \<Rightarrow> VerificationSubjectBinding \<Rightarrow> seal_db \<Rightarrow> (dispatch_error + VerificationSubjectBinding) \<times> seal_db" where
  "BindSubjectRow now b s =
     (if sb_WorksExecutionID b = [] \<or> sb_WorkID b = [] \<or> sb_AttemptID b = [] \<or> sb_EffectID b = [] \<or> sb_CausalID b = [] \<or> sb_Subject b = []
      then (Inl ErrInvalidSubject, s)
      else let s' = s\<lparr>subjects := insert_ignore sb_WorksExecutionID (b\<lparr>sb_BoundAt := now\<rparr>) (subjects s)\<rparr> in
        (case LoadVerificationSubject (sb_WorksExecutionID b) s' of None \<Rightarrow> (Inl ErrSubjectNotBound, s) | Some winner \<Rightarrow> (Inr winner, s')))"

section \<open>The acceptor\<close>

definition placementDigestPattern :: "string \<Rightarrow> bool" where
  "placementDigestPattern d \<longleftrightarrow> HasPrefix d ''sha256:'' \<and> sha256_hex (drop 7 d)"

definition validPlacementBinding :: "dispatchPlacementBinding option \<Rightarrow> string \<Rightarrow> bool" where
  "validPlacementBinding po missionID = (case po of None \<Rightarrow> True
     | Some p \<Rightarrow> pb_Schema p = ''runtime.placement-dispatch-binding/0.1'' \<and> pb_MissionID p = missionID \<and> TrimSpace (pb_SelectedNode p) \<noteq> []
         \<and> placementDigestPattern (pb_PlacementDecisionDigest p) \<and> placementDigestPattern (pb_SnapshotDigest p) \<and> TrimSpace (pb_PolicyVersion p) \<noteq> [])"

definition SamePlacementBinding :: "dispatchPlacementBinding option \<Rightarrow> dispatchPlacementBinding option \<Rightarrow> bool" where
  "SamePlacementBinding a b = (case (a, b) of (None, None) \<Rightarrow> True | (None, Some _) \<Rightarrow> False | (Some _, None) \<Rightarrow> False
     | (Some x, Some y) \<Rightarrow> pb_Schema x = pb_Schema y \<and> pb_MissionID x = pb_MissionID y \<and> pb_SelectedNode x = pb_SelectedNode y
         \<and> pb_PlacementDecisionDigest x = pb_PlacementDecisionDigest y \<and> pb_SnapshotDigest x = pb_SnapshotDigest y
         \<and> pb_PolicyVersion x = pb_PolicyVersion y)"

definition git_char :: "char \<Rightarrow> bool" where
  "git_char c \<longleftrightarrow> segment_char c"

definition exactGitSubjectPattern :: "string \<Rightarrow> bool" where
  "exactGitSubjectPattern s \<longleftrightarrow> HasPrefix s ''git:'' \<and>
     (let r = drop 4 s; owner = takeWhile git_char r; r1 = dropWhile git_char r; repo = takeWhile git_char (drop 1 r1); r2 = dropWhile git_char (drop 1 r1) in
      owner \<noteq> [] \<and> take 1 r1 = ''/'' \<and> repo \<noteq> [] \<and> take 1 r2 = ''@'' \<and> length (drop 1 r2) = 40 \<and> list_all is_hex (drop 1 r2))"

text \<open>The identity a key is bound to.\<close>

definition same_dispatch :: "Acceptance \<Rightarrow> Dispatch \<Rightarrow> bool" where
  "same_dispatch a d \<longleftrightarrow> dp_IdempotencyKey (ac_Dispatch a) = dp_IdempotencyKey d \<and> dp_CausalID (ac_Dispatch a) = dp_CausalID d
     \<and> dp_AuthorityEpoch (ac_Dispatch a) = dp_AuthorityEpoch d \<and> dp_MissionID (ac_Dispatch a) = dp_MissionID d"

definition exec_id :: "string \<Rightarrow> string" where
  "exec_id key = ''wexec/'' @ key"

lemma exec_id_eq [simp]: "exec_id k = exec_id k' \<longleftrightarrow> k = k'" "exec_id k \<noteq> []"
  by (simp_all add: exec_id_def)

definition new_acceptance :: "string \<Rightarrow> string \<Rightarrow> env \<Rightarrow> int \<Rightarrow> Dispatch \<Rightarrow> Acceptance" where
  "new_acceptance version workID e epoch d = (case MintCorrelationIDs (call 0 e) of (ctxID, trcID) \<Rightarrow>
     \<lparr>ac_ContractVersion = version, ac_WorkID = workID, ac_WorksExecutionID = exec_id (dp_IdempotencyKey d), ac_Dispatch = d,
      ac_AcceptedAt = Now e 0, ac_AuthorityEpochAt = epoch, ac_EffectApplied = False, ac_BudgetSpent = 0, ac_Revoked = False,
      ac_Outcome = ''ACCEPTED'', ac_Verified = False, ac_VerifierID = [], ac_Verdict = None, ac_ExecutionContextID = ctxID, ac_TraceID = trcID\<rparr>)"

definition DispatchAccept :: "env \<Rightarrow> Dispatch \<Rightarrow> int \<Rightarrow> seal_db \<Rightarrow> (dispatch_error + Acceptance) \<times> seal_db" where
  "DispatchAccept e d currentEpoch s =
     (if dp_MissionID d = [] \<or> dp_AuthorityRef d = [] \<or> dp_RuntimeDispatchID d = [] \<or> dp_IdempotencyKey d = [] then (Inl ErrMissingBinding, s)
      else case LoadByIdempotency (dp_IdempotencyKey d) s of Inl x \<Rightarrow> (Inl x, s)
      | Inr (Some existing) \<Rightarrow> if same_dispatch existing d then (Inr existing, s) else (Inl ErrCausalMismatch, s)
      | Inr None \<Rightarrow>
        if dp_AuthorityEpoch d < currentEpoch then (Inl ErrStaleAuthority, s)
        else (case AcceptIfAbsent (new_acceptance ''dispatch.acceptance/1.0'' [] e (dp_AuthorityEpoch d) d) s of
            (Inl x, s') \<Rightarrow> (Inl x, s')
          | (Inr accepted, s') \<Rightarrow> if same_dispatch accepted d then (Inr accepted, s') else (Inl ErrCausalMismatch, s')))"

definition acc_get :: "string \<Rightarrow> seal_db \<Rightarrow> dispatch_error + Acceptance" where
  "acc_get eid s = (case LoadByExecution eid s of Inl x \<Rightarrow> Inl x | Inr None \<Rightarrow> Inl ErrUnknownAcceptance | Inr (Some a) \<Rightarrow> Inr a)"

text \<open>Read, change, save.\<close>

definition modify :: "(Acceptance \<Rightarrow> dispatch_error + Acceptance) \<Rightarrow> string \<Rightarrow> seal_db \<Rightarrow> dispatch_error option \<times> seal_db" where
  "modify f eid s = (case acc_get eid s of Inl x \<Rightarrow> (Some x, s)
     | Inr a \<Rightarrow> (case f a of Inl x \<Rightarrow> (Some x, s) | Inr a' \<Rightarrow> Save a' s))"

definition revoke_record :: "Acceptance \<Rightarrow> dispatch_error + Acceptance" where
  "revoke_record a = Inr (a\<lparr>ac_Revoked := True\<rparr>)"

definition DispatchRevoke :: "string \<Rightarrow> seal_db \<Rightarrow> dispatch_error option \<times> seal_db" where
  "DispatchRevoke eid s = modify revoke_record eid s"

definition Spend :: "string \<Rightarrow> int \<Rightarrow> seal_db \<Rightarrow> dispatch_error option \<times> seal_db" where
  "Spend eid amount s =
     (if amount \<le> 0 then (Some ErrInvalidSpend, s)
      else case SpendIfWithinCeiling eid amount s of (Inl x, s') \<Rightarrow> (Some x, s')
      | (Inr (Some _), s') \<Rightarrow> (None, s')
      | (Inr None, s') \<Rightarrow> (case acc_get eid s' of Inl x \<Rightarrow> (Some x, s')
          | Inr a \<Rightarrow> let ceiling = dp_BudgetCeiling (ac_Dispatch a) in
            if ac_Revoked a then (Some ErrAuthorityRevoked, s')
            else if ceiling < 0 \<or> ac_BudgetSpent a < 0 \<or> ac_BudgetSpent a > ceiling then (Some ErrInvalidBudget, s')
            else if amount > wrap64 (ceiling - ac_BudgetSpent a) then (Some ErrBudgetExhausted, s')
            else (Some ErrAuthorityRevoked, s')))"

definition effect_record :: "string \<Rightarrow> bool \<Rightarrow> Acceptance \<Rightarrow> dispatch_error + Acceptance" where
  "effect_record effectID outcomeKnown a =
     (if ac_Revoked a then Inl ErrAuthorityRevoked
      else if effectID \<noteq> dp_EffectID (ac_Dispatch a) then Inl ErrCausalMismatch
      else if ac_EffectApplied a then Inl ErrEffectDuplicate
      else if \<not> outcomeKnown then Inr (a\<lparr>ac_Outcome := ''INDETERMINATE''\<rparr>)
      else Inr (a\<lparr>ac_EffectApplied := True\<rparr>))"

definition ApplyEffect :: "string \<Rightarrow> string \<Rightarrow> bool \<Rightarrow> seal_db \<Rightarrow> dispatch_error option \<times> seal_db" where
  "ApplyEffect eid effectID outcomeKnown s = modify (effect_record effectID outcomeKnown) eid s"

definition complete_record :: "string \<Rightarrow> Acceptance \<Rightarrow> dispatch_error + Acceptance" where
  "complete_record outcm a =
     (if ac_Revoked a then Inl ErrAuthorityRevoked
      else if outcm = ''SUCCEEDED'' \<or> outcm = ''FAILED'' then Inr (a\<lparr>ac_Outcome := outcm\<rparr>) else Inl ErrUnknownOutcome)"

definition Complete :: "string \<Rightarrow> string \<Rightarrow> seal_db \<Rightarrow> dispatch_error option \<times> seal_db" where
  "Complete eid outcm s = modify (complete_record outcm) eid s"

record verdict_call =
  vc_VerifierID :: string
  vc_Subject :: string
  vc_SubjectCurrent :: bool
  vc_VerifierAvailable :: bool
  vc_Result :: string
  vc_EvidenceRef :: string

text \<open>The subject a verdict must be about: that of the dispatch, or for the second contract the one bound after the effect.\<close>

definition expected_subject :: "seal_db \<Rightarrow> Acceptance \<Rightarrow> dispatch_error + string" where
  "expected_subject s a = (if ac_ContractVersion a = ''dispatch.acceptance/2.0'' then
      (case LoadVerificationSubject (ac_WorksExecutionID a) s of None \<Rightarrow> Inl ErrSubjectNotBound
       | Some b \<Rightarrow> if sb_Subject b = [] then Inl ErrSubjectNotBound else Inr (sb_Subject b))
    else Inr (dp_VerificationSubj (ac_Dispatch a)))"

definition verdict_record :: "time \<Rightarrow> verdict_call \<Rightarrow> seal_db \<Rightarrow> Acceptance \<Rightarrow> dispatch_error + Acceptance" where
  "verdict_record now v s a =
     (if vc_VerifierID v = [] \<or> vc_VerifierID v = dp_RuntimeDispatchID (ac_Dispatch a) then Inl ErrSelfVerification
      else case expected_subject s a of Inl x \<Rightarrow> Inl x
      | Inr expected \<Rightarrow>
        if \<not> vc_SubjectCurrent v \<or> vc_Subject v \<noteq> expected then Inl ErrStaleSubject
        else if \<not> vc_VerifierAvailable v then Inl ErrVerifierUnavailable
        else if ac_Revoked a then Inl ErrAuthorityRevoked
        else if ac_Outcome a \<noteq> ''SUCCEEDED'' \<and> ac_Outcome a \<noteq> ''FAILED'' then Inl ErrExecutionNotTerminal
        else if TrimSpace (vc_Result v) = [] \<or> TrimSpace (vc_EvidenceRef v) = [] then Inl ErrMissingVerdictEvidence
        else if vc_Result v \<noteq> ''ACCEPT'' \<and> vc_Result v \<noteq> ''REJECT'' then Inl ErrInvalidVerdict
        else Inr (a\<lparr>ac_Verified := (vc_Result v = ''ACCEPT''), ac_VerifierID := vc_VerifierID v,
          ac_Verdict := Some \<lparr>vv_Result = vc_Result v, vv_Subject = vc_Subject v, vv_EvidenceRef = vc_EvidenceRef v, vv_RecordedAt = now\<rparr>\<rparr>))"

definition RecordVerdict :: "env \<Rightarrow> string \<Rightarrow> verdict_call \<Rightarrow> seal_db \<Rightarrow> dispatch_error option \<times> seal_db" where
  "RecordVerdict e eid v s = modify (verdict_record (Now e 0) v s) eid s"

definition BindVerificationSubject ::
  "env \<Rightarrow> string \<Rightarrow> string \<Rightarrow> string \<Rightarrow> string \<Rightarrow> string \<Rightarrow> string \<Rightarrow> seal_db \<Rightarrow> (dispatch_error + VerificationSubjectBinding) \<times> seal_db" where
  "BindVerificationSubject e eid workID attemptID effectID causalID subject s =
     (if \<not> exactGitSubjectPattern subject then (Inl ErrInvalidSubject, s)
      else case acc_get eid s of Inl x \<Rightarrow> (Inl x, s)
      | Inr a \<Rightarrow>
        if ac_ContractVersion a \<noteq> ''dispatch.acceptance/2.0'' then (Inl ErrV2StoreRequired, s)
        else if ac_WorkID a \<noteq> workID \<or> dp_AttemptID (ac_Dispatch a) \<noteq> attemptID \<or> dp_EffectID (ac_Dispatch a) \<noteq> effectID
          \<or> dp_CausalID (ac_Dispatch a) \<noteq> causalID then (Inl ErrCausalMismatch, s)
        else (case BindSubjectRow (Now e 0) \<lparr>sb_WorksExecutionID = eid, sb_WorkID = workID, sb_AttemptID = attemptID, sb_EffectID = effectID,
              sb_CausalID = causalID, sb_Subject = subject, sb_BoundAt = 0\<rparr> s of
            (Inl x, s') \<Rightarrow> (Inl x, s')
          | (Inr winner, s') \<Rightarrow>
            if sb_WorksExecutionID winner \<noteq> eid \<or> sb_WorkID winner \<noteq> workID \<or> sb_AttemptID winner \<noteq> attemptID \<or> sb_EffectID winner \<noteq> effectID
              \<or> sb_CausalID winner \<noteq> causalID then (Inl ErrCausalMismatch, s')
            else if sb_Subject winner \<noteq> subject then (Inl ErrSubjectConflict, s') else (Inr winner, s')))"

section \<open>Acceptance in context\<close>

definition same_context_dispatch :: "string \<Rightarrow> Acceptance \<Rightarrow> Acceptance \<Rightarrow> bool" where
  "same_context_dispatch workID existing accepted \<longleftrightarrow> ac_ContractVersion existing = ''dispatch.acceptance/2.0'' \<and> ac_WorkID existing = workID
     \<and> dp_CausalID (ac_Dispatch existing) = dp_CausalID (ac_Dispatch accepted) \<and> dp_MissionID (ac_Dispatch existing) = dp_MissionID (ac_Dispatch accepted)
     \<and> dp_AuthorityRef (ac_Dispatch existing) = dp_AuthorityRef (ac_Dispatch accepted)
     \<and> SamePlacementBinding (dp_Placement (ac_Dispatch existing)) (dp_Placement (ac_Dispatch accepted))"

definition lease_available :: "string \<Rightarrow> time \<Rightarrow> Lease \<Rightarrow> bool" where
  "lease_available workID now l \<longleftrightarrow> lease_WorkID l = workID \<and> lease_Status l = LeaseActive \<and> now < ExpiresAt l"

definition context_of :: "Acceptance \<Rightarrow> V2Binding \<Rightarrow> Lease \<Rightarrow> ExecContext" where
  "context_of a b l = \<lparr>ec_Schema = ''execution-context/1.0'', ec_ID = ac_ExecutionContextID a, ec_PriorContextID = [], ec_OrganizationID = bd_OrganizationID b,
     ec_TenantID = bd_TenantID b, ec_PrincipalID = bd_PrincipalID b, ec_MissionID = dp_MissionID (ac_Dispatch a), ec_AuthorityLeaseID = bd_AuthorityLeaseID b,
     ec_WorkID = bd_WorkID b, ec_WorkerID = lease_WorkerID l, ec_WorkerLeaseID = bd_WorkerLeaseID b,
     ec_AdmissionDecisionID = bd_AdmissionDecisionID b, ec_TraceID = ac_TraceID a\<rparr>"

text \<open>The record and the context that were committed for a key.\<close>

definition committed :: "Acceptance \<Rightarrow> seal_db \<Rightarrow> dispatch_error + Acceptance \<times> ExecContext" where
  "committed a s = (case find_context (ac_ExecutionContextID a) (sd_contexts s) of None \<Rightarrow> Inl ErrContextBinding | Some ec \<Rightarrow> Inr (a, ec))"

definition insert_contextual ::
  "env \<Rightarrow> db \<Rightarrow> Acceptance \<Rightarrow> ExecContext \<Rightarrow> seal_db \<Rightarrow> (dispatch_error + Acceptance \<times> ExecContext) \<times> seal_db" where
  "insert_contextual e db accepted ec s = (case insert_acceptance accepted s of Inl x \<Rightarrow> (Inl x, s)
     | Inr (False, _) \<Rightarrow> (case LoadByIdempotency (dp_IdempotencyKey (ac_Dispatch accepted)) s of
         Inl x \<Rightarrow> (Inl x, s)
       | Inr None \<Rightarrow> (Inl ErrStoreIdentity, s)
       | Inr (Some winner) \<Rightarrow>
         if \<not> SamePlacementBinding (dp_Placement (ac_Dispatch winner)) (dp_Placement (ac_Dispatch accepted)) then (Inl ErrCausalMismatch, s)
         else (committed winner s, s))
     | Inr (True, s1) \<Rightarrow> (case insert_context db ec (Now e 1) (sd_contexts s1) of None \<Rightarrow> (Inl ErrContextBinding, s)
         | Some t \<Rightarrow> (Inr (accepted, ec), s1\<lparr>sd_contexts := t\<rparr>)))"

definition AcceptContextualIfAbsent ::
  "env \<Rightarrow> db \<Rightarrow> string \<Rightarrow> Acceptance \<Rightarrow> V2Binding \<Rightarrow> seal_db \<Rightarrow> (dispatch_error + Acceptance \<times> ExecContext) \<times> seal_db" where
  "AcceptContextualIfAbsent e db workID accepted b s =
     (if ac_ContractVersion accepted \<noteq> ''dispatch.acceptance/2.0'' then (Inl ErrContextBinding, s)
      else if bd_WorkID b = [] \<or> bd_WorkID b \<noteq> workID \<or> ac_WorkID accepted \<noteq> workID then (Inl ErrContextBinding, s)
      else case LoadByIdempotency (dp_IdempotencyKey (ac_Dispatch accepted)) s of Inl x \<Rightarrow> (Inl x, s)
      | Inr (Some existing) \<Rightarrow> if \<not> same_context_dispatch workID existing accepted then (Inl ErrCausalMismatch, s) else (committed existing s, s)
      | Inr None \<Rightarrow> (case find_row lease_ID (bd_WorkerLeaseID b) (leases db) of None \<Rightarrow> (Inl ErrWorkerLeaseUnavailable, s)
        | Some l \<Rightarrow>
          if \<not> lease_available workID (Now e 0) l then (Inl ErrWorkerLeaseUnavailable, s)
          else if (case dp_Placement (ac_Dispatch accepted) of None \<Rightarrow> False | Some p \<Rightarrow> pb_SelectedNode p \<noteq> lease_WorkerID l) then (Inl ErrPlacementMismatch, s)
          else if ContextValidate (context_of accepted b l) \<noteq> None then (Inl ErrContextBinding, s)
          else insert_contextual e db accepted (context_of accepted b l) s))"

definition accepted_as_asked :: "Acceptance \<Rightarrow> Dispatch \<Rightarrow> V2Binding \<Rightarrow> bool" where
  "accepted_as_asked a d b \<longleftrightarrow> ac_ContractVersion a = ''dispatch.acceptance/2.0'' \<and> ac_WorkID a = bd_WorkID b
     \<and> dp_IdempotencyKey (ac_Dispatch a) = dp_IdempotencyKey d \<and> dp_CausalID (ac_Dispatch a) = dp_CausalID d \<and> dp_MissionID (ac_Dispatch a) = dp_MissionID d
     \<and> dp_AuthorityRef (ac_Dispatch a) = dp_AuthorityRef d \<and> dp_RuntimeDispatchID (ac_Dispatch a) = dp_RuntimeDispatchID d
     \<and> dp_EffectID (ac_Dispatch a) = dp_EffectID d \<and> SamePlacementBinding (dp_Placement (ac_Dispatch a)) (dp_Placement d)"

definition context_as_asked :: "ExecContext \<Rightarrow> Acceptance \<Rightarrow> Dispatch \<Rightarrow> V2Binding \<Rightarrow> bool" where
  "context_as_asked ec a d b \<longleftrightarrow> ec_ID ec = ac_ExecutionContextID a \<and> ec_TraceID ec = ac_TraceID a \<and> ec_WorkID ec = bd_WorkID b
     \<and> ec_OrganizationID ec = bd_OrganizationID b \<and> ec_TenantID ec = bd_TenantID b \<and> ec_PrincipalID ec = bd_PrincipalID b
     \<and> ec_MissionID ec = dp_MissionID d \<and> ec_AuthorityLeaseID ec = bd_AuthorityLeaseID b \<and> ec_WorkerLeaseID ec = bd_WorkerLeaseID b
     \<and> ec_AdmissionDecisionID ec = bd_AdmissionDecisionID b"

definition v2_refusal :: "Dispatch \<Rightarrow> V2Binding \<Rightarrow> dispatch_error option" where
  "v2_refusal d b =
     (if dp_MissionID d = [] \<or> dp_AuthorityRef d = [] \<or> dp_RuntimeDispatchID d = [] \<or> dp_IdempotencyKey d = [] \<or> dp_EffectID d = []
        \<or> dp_AttemptID d = [] \<or> dp_CausalID d = [] then Some ErrMissingBinding
      else if \<not> validPlacementBinding (dp_Placement d) (dp_MissionID d) then Some ErrPlacementBindingInvalid
      else if bd_WorkID b = [] \<or> bd_OrganizationID b = [] \<or> bd_TenantID b = [] \<or> bd_PrincipalID b = [] \<or> bd_AuthorityLeaseID b = []
        \<or> bd_WorkerLeaseID b = [] \<or> bd_AdmissionDecisionID b = [] then Some ErrContextBinding
      else if dp_AuthorityRef d \<noteq> bd_AuthorityLeaseID b then Some ErrContextBinding
      else None)"

definition AcceptV2 :: "env \<Rightarrow> db \<Rightarrow> string \<Rightarrow> Dispatch \<Rightarrow> V2Binding \<Rightarrow> seal_db \<Rightarrow> (dispatch_error + Acceptance \<times> ExecContext) \<times> seal_db" where
  "AcceptV2 e db workID d b s = (case v2_refusal d b of Some x \<Rightarrow> (Inl x, s)
     | None \<Rightarrow> (case AcceptContextualIfAbsent (call 1 e) db workID (new_acceptance ''dispatch.acceptance/2.0'' (bd_WorkID b) e 0 d) b s of
         (Inl x, s') \<Rightarrow> (Inl x, s')
       | (Inr (a, ec), s') \<Rightarrow>
         if \<not> accepted_as_asked a d b then (Inl ErrCausalMismatch, s')
         else if \<not> context_as_asked ec a d b then (Inl ErrContextBinding, s')
         else (Inr (a, ec), s')))"

section \<open>Routes\<close>

text \<open>The first contract's route: the acceptor and the resolver of the authority epoch may not be wired.\<close>

definition dispatch_status :: "dispatch_error \<Rightarrow> api_error" where
  "dispatch_status x = (case x of ErrMissingBinding \<Rightarrow> ApiError 400 ''dispatch_missing_binding'' | ErrStaleAuthority \<Rightarrow> ApiError 409 ''dispatch_stale_authority''
     | ErrCausalMismatch \<Rightarrow> ApiError 409 ''dispatch_causal_mismatch'' | _ \<Rightarrow> ApiError 500 ''dispatch_accept_failed'')"

definition acceptDispatch ::
  "env \<Rightarrow> int option \<Rightarrow> string \<Rightarrow> Dispatch option \<Rightarrow> db \<Rightarrow> seal_db \<Rightarrow> (api_error + Acceptance) \<times> seal_db" where
  "acceptDispatch e currentEpoch workID body db s =
     (if workID = [] then (Inl (ApiError 400 ''missing_id''), s)
      else case currentEpoch of None \<Rightarrow> (Inl (ApiError 503 ''dispatch_accept_unavailable''), s)
      | Some epoch \<Rightarrow> (case body of None \<Rightarrow> (Inl (ApiError 400 ''invalid_json''), s)
        | Some d \<Rightarrow>
          if dp_AuthorityEpoch d < 0 \<or> dp_BudgetCeiling d < 0 then (Inl (ApiError 400 ''dispatch_contract_violation''), s)
          else case GetWork workID db of
            Inl ErrNotFound \<Rightarrow> (Inl (ApiError 404 ''not_found''), s)
          | Inl _ \<Rightarrow> (Inl (ApiError 500 ''work_read_failed''), s)
          | Inr _ \<Rightarrow> (case DispatchAccept e (d\<lparr>dp_Placement := None\<rparr>) epoch s of
              (Inl x, s') \<Rightarrow> (Inl (dispatch_status x), s') | (Inr a, s') \<Rightarrow> (Inr a, s'))))"

definition dispatch_v2_status :: "dispatch_error \<Rightarrow> api_error" where
  "dispatch_v2_status x =
     (if x = ErrMissingBinding \<or> x = ErrContextBinding \<or> x = ErrPlacementBindingInvalid then ApiError 400 ''dispatch_v2_binding_invalid''
      else if x = ErrPlacementMismatch then ApiError 409 ''placement_mismatch''
      else if x = ErrWorkerLeaseUnavailable then ApiError 409 ''worker_lease_unavailable''
      else if x = ErrCausalMismatch then ApiError 409 ''dispatch_causal_mismatch''
      else if x = ErrV2StoreRequired then ApiError 503 ''dispatch_v2_unavailable''
      else ApiError 500 ''dispatch_v2_accept_failed'')"

text \<open>The request of the second contract: its schema, the dispatch and the binding; the route fixes the Work, the epoch and the authority reference.\<close>

definition acceptDispatchV2 ::
  "api_config \<Rightarrow> env \<Rightarrow> string \<Rightarrow> string \<Rightarrow> string \<Rightarrow> (string \<times> Dispatch \<times> V2Binding) option \<Rightarrow> db \<Rightarrow> seal_db
    \<Rightarrow> (api_error + Acceptance \<times> ExecContext) \<times> seal_db" where
  "acceptDispatchV2 g e authz bridge workID body db s =
     (if workID = [] then (Inl (ApiError 400 ''missing_id''), s)
      else case authorizeDispatchV2Platform g authz bridge of Some x \<Rightarrow> (Inl x, s)
      | None \<Rightarrow> (case body of None \<Rightarrow> (Inl (ApiError 400 ''invalid_json''), s)
        | Some (schema, d, b) \<Rightarrow>
          if schema \<noteq> ''dispatch.acceptance/2.0'' \<or> dp_BudgetCeiling d < 0 then (Inl (ApiError 400 ''dispatch_v2_contract_violation''), s)
          else case AcceptV2 e db workID
              (d\<lparr>dp_AuthorityRef := bd_AuthorityLeaseID b, dp_AuthorityEpoch := 0, dp_VerificationSubj := []\<rparr>) (b\<lparr>bd_WorkID := workID\<rparr>) s of
            (Inl x, s') \<Rightarrow> (Inl (dispatch_v2_status x), s') | (Inr r, s') \<Rightarrow> (Inr r, s')))"

definition subject_status :: "dispatch_error \<Rightarrow> api_error" where
  "subject_status x =
     (if x = ErrInvalidSubject then ApiError 400 ''invalid_verification_subject''
      else if x = ErrUnknownAcceptance then ApiError 404 ''dispatch_acceptance_not_found''
      else if x = ErrCausalMismatch \<or> x = ErrSubjectConflict then ApiError 409 ''verification_subject_conflict''
      else if x = ErrV2StoreRequired then ApiError 503 ''dispatch_v2_unavailable''
      else ApiError 500 ''verification_subject_bind_failed'')"

record dispatchSubjectV2Request =
  ds_Schema :: string
  ds_AttemptID :: string
  ds_EffectID :: string
  ds_CausalID :: string
  ds_Subject :: string

definition bindDispatchVerificationSubjectV2 ::
  "api_config \<Rightarrow> env \<Rightarrow> string \<Rightarrow> string \<Rightarrow> string \<Rightarrow> string \<Rightarrow> dispatchSubjectV2Request option \<Rightarrow> seal_db
    \<Rightarrow> (api_error + VerificationSubjectBinding) \<times> seal_db" where
  "bindDispatchVerificationSubjectV2 g e authz bridge workID eid body s =
     (if workID = [] \<or> eid = [] then (Inl (ApiError 400 ''missing_id''), s)
      else case authorizeDispatchV2Platform g authz bridge of Some x \<Rightarrow> (Inl x, s)
      | None \<Rightarrow> (case body of None \<Rightarrow> (Inl (ApiError 400 ''invalid_json''), s)
        | Some q \<Rightarrow>
          if ds_Schema q \<noteq> ''dispatch.verification-subject/1.0'' then (Inl (ApiError 400 ''subject_binding_contract_violation''), s)
          else case BindVerificationSubject e eid workID (ds_AttemptID q) (ds_EffectID q) (ds_CausalID q) (ds_Subject q) s of
            (Inl x, s') \<Rightarrow> (Inl (subject_status x), s') | (Inr r, s') \<Rightarrow> (Inr r, s')))"

end
