(* ===== verification/Dispatch_Runs.thy ===== *)
theory Dispatch_Runs
  imports Dispatch_Seal
begin

text \<open>
  What holds along every sequence of calls of the acceptor: the rows of its table, the changes one record can go through, the properties of the seal, and the two
  ways in which concurrent or repeated calls break it.
\<close>

section \<open>Records in the table\<close>

text \<open>Rows agree with their records, and keys and execution ids are unique and belong together.\<close>

definition row_ok :: "acceptance_row \<Rightarrow> bool" where
  "row_ok r \<longleftrightarrow> r = row_of (row_record r) \<and> row_key r \<noteq> [] \<and> row_causal r \<noteq> [] \<and> row_execution r = exec_id (row_key r)"

definition seal_ok :: "seal_db \<Rightarrow> bool" where
  "seal_ok s \<longleftrightarrow> list_all row_ok (acceptances s) \<and> distinct (map row_key (acceptances s))"

definition look :: "seal_db \<Rightarrow> string \<Rightarrow> Acceptance option" where
  "look s eid = map_option row_record (find (\<lambda>r. row_execution r = eid) (acceptances s))"

text \<open>The changes of one record.\<close>

inductive acc_step :: "seal_db \<Rightarrow> Acceptance \<Rightarrow> Acceptance \<Rightarrow> bool" where
  spend: "0 < amount \<Longrightarrow> \<not> ac_Revoked a \<Longrightarrow> 0 \<le> ac_BudgetSpent a \<Longrightarrow> ac_BudgetSpent a \<le> dp_BudgetCeiling (ac_Dispatch a)
    \<Longrightarrow> amount \<le> wrap64 (dp_BudgetCeiling (ac_Dispatch a) - ac_BudgetSpent a)
    \<Longrightarrow> acc_step s a (a\<lparr>ac_BudgetSpent := wrap64 (ac_BudgetSpent a + amount)\<rparr>)"
| revoke: "revoke_record a = Inr a' \<Longrightarrow> acc_step s a a'"
| effect: "effect_record effectID known a = Inr a' \<Longrightarrow> acc_step s a a'"
| complete: "complete_record outcm a = Inr a' \<Longrightarrow> acc_step s a a'"
| verdict: "verdict_record now v s a = Inr a' \<Longrightarrow> acc_step s a a'"

inductive_cases acc_stepE: "acc_step s a a'"

lemmas record_defs = revoke_record_def effect_record_def complete_record_def verdict_record_def

lemma acc_step_identity:
  "acc_step s a a' \<Longrightarrow> ac_Dispatch a' = ac_Dispatch a \<and> ac_WorksExecutionID a' = ac_WorksExecutionID a \<and> ac_ContractVersion a' = ac_ContractVersion a
     \<and> ac_WorkID a' = ac_WorkID a \<and> ac_ExecutionContextID a' = ac_ExecutionContextID a \<and> ac_TraceID a' = ac_TraceID a
     \<and> (ac_Revoked a \<longrightarrow> ac_Revoked a') \<and> (ac_EffectApplied a \<longrightarrow> ac_EffectApplied a')"
  by (elim acc_stepE) (auto simp: record_defs split: if_splits sum.splits)

lemma exec_of_key: "row_ok r \<Longrightarrow> row_execution r = exec_id key \<longleftrightarrow> row_key r = key"
  by (simp add: row_ok_def)

lemma find_by_key:
  "list_all row_ok rs \<Longrightarrow> find (\<lambda>r. row_key r = key) rs = find (\<lambda>r. row_execution r = exec_id key) rs"
  by (induction rs) (auto simp: exec_of_key)

lemma row_ok_identity:
  assumes "row_ok r"
  shows "ac_WorksExecutionID (row_record r) = row_execution r" "dp_IdempotencyKey (ac_Dispatch (row_record r)) = row_key r"
    "dp_CausalID (ac_Dispatch (row_record r)) = row_causal r"
proof -
  have "r = row_of (row_record r)" using assms by (simp add: row_ok_def)
  then show "ac_WorksExecutionID (row_record r) = row_execution r" "dp_IdempotencyKey (ac_Dispatch (row_record r)) = row_key r"
    "dp_CausalID (ac_Dispatch (row_record r)) = row_causal r" by (metis acceptance_row.select_convs row_of_def)+
qed

lemma load_rows:
  assumes "list_all row_ok (acceptances s)"
  shows "loadAcceptance p s = Inr (map_option row_record (find p (acceptances s)))"
proof (cases "find p (acceptances s)")
  case (Some r)
  then have "r \<in> set (acceptances s)" by (auto simp: find_Some_iff)
  then have "row_ok r" using assms by (simp add: list_all_iff)
  then show ?thesis using Some by (simp add: loadAcceptance_def row_ok_identity)
qed (simp add: loadAcceptance_def)

lemma load_exec: "seal_ok s \<Longrightarrow> LoadByExecution eid s = Inr (look s eid)"
  by (simp add: LoadByExecution_def load_rows look_def seal_ok_def)

lemma load_key: "seal_ok s \<Longrightarrow> LoadByIdempotency key s = Inr (look s (exec_id key))"
  by (simp add: LoadByIdempotency_def load_rows look_def seal_ok_def find_by_key)

lemma get_look: "seal_ok s \<Longrightarrow> acc_get eid s = (case look s eid of None \<Rightarrow> Inl ErrUnknownAcceptance | Some a \<Rightarrow> Inr a)"
  by (simp add: acc_get_def load_exec split: option.splits)

lemma look_row:
  assumes "seal_ok s" "look s eid = Some a"
  shows "row_of a \<in> set (acceptances s)" "row_ok (row_of a)" "ac_WorksExecutionID a = eid"
proof -
  obtain r where r: "find (\<lambda>r. row_execution r = eid) (acceptances s) = Some r" "a = row_record r" using assms(2) by (auto simp: look_def)
  then have mem: "r \<in> set (acceptances s)" "row_execution r = eid" by (auto simp: find_Some_iff)
  then have ok: "row_ok r" using assms(1) by (auto simp: seal_ok_def list_all_iff)
  have "row_of a = r" using ok r(2) by (simp add: row_ok_def)
  then show "row_of a \<in> set (acceptances s)" "row_ok (row_of a)" "ac_WorksExecutionID a = eid"
    using mem ok r(2) by (simp_all add: row_ok_identity)
qed

lemma look_identity:
  assumes "seal_ok s" "look s eid = Some a"
  shows "\<not> identity_missing a" "eid = exec_id (dp_IdempotencyKey (ac_Dispatch a))"
  using look_row [OF assms] by (auto simp: row_ok_def row_of_def identity_missing_def)

definition set_row :: "Acceptance \<Rightarrow> seal_db \<Rightarrow> seal_db" where
  "set_row a s = s\<lparr>acceptances := update_where (\<lambda>r. row_execution r = ac_WorksExecutionID a) (\<lambda>_. row_of a) (acceptances s)\<rparr>"

lemma find_update:
  assumes "\<And>r. row_execution (f r) = eid'"
  shows "find (\<lambda>r. row_execution r = eid) (update_where (\<lambda>r. row_execution r = eid') f rs)
    = (if eid = eid' then map_option f (find (\<lambda>r. row_execution r = eid) rs) else find (\<lambda>r. row_execution r = eid) rs)"
  by (induction rs) (auto simp: update_where_def assms)

lemma set_row_effect:
  assumes "seal_ok s" "look s eid = Some a" "ac_Dispatch a' = ac_Dispatch a" "ac_WorksExecutionID a' = ac_WorksExecutionID a"
  shows "seal_ok (set_row a' s)" "look (set_row a' s) = (look s)(eid \<mapsto> a')"
proof -
  have eid: "ac_WorksExecutionID a' = eid" using look_row(3) [OF assms(1,2)] assms(4) by simp
  have rk: "row_key (row_of a') = row_key (row_of a)" "row_ok (row_of a')"
    using look_row(2) [OF assms(1,2)] assms(3,4) by (auto simp: row_of_def row_ok_def)
  have same: "row_key r = row_key (row_of a)" if "r \<in> set (acceptances s)" "row_execution r = eid" for r
  proof -
    have "row_ok r" using assms(1) that(1) by (auto simp: seal_ok_def list_all_iff)
    then show ?thesis using that(2) look_identity(2) [OF assms(1,2)] by (simp add: row_ok_def row_of_def)
  qed
  have "map row_key (acceptances (set_row a' s)) = map row_key (acceptances s)"
    using same rk(1) by (auto simp: set_row_def update_where_def eid)
  moreover have "list_all row_ok (acceptances (set_row a' s))"
    using assms(1) rk(2) by (auto simp: set_row_def update_where_def seal_ok_def list_all_iff)
  ultimately show "seal_ok (set_row a' s)" using assms(1) by (simp add: seal_ok_def)
  have "\<And>r. row_execution (row_of a') = eid" by (simp add: row_of_def eid)
  then show "look (set_row a' s) = (look s)(eid \<mapsto> a')"
    using assms(2) by (auto simp: fun_eq_iff look_def set_row_def eid find_update row_of_def)
qed

lemma Save_known:
  assumes "seal_ok s" "look s eid = Some a" "ac_Dispatch a' = ac_Dispatch a" "ac_WorksExecutionID a' = ac_WorksExecutionID a"
  shows "Save a' s = (None, set_row a' s)"
proof -
  have id: "\<not> identity_missing a'" using look_identity(1) [OF assms(1,2)] assms(3,4) by (simp add: identity_missing_def)
  have eid: "ac_WorksExecutionID a' = eid" using look_row(3) [OF assms(1,2)] assms(4) by simp
  have "row_execution r = eid" if "r \<in> set (acceptances s)" "row_key r = dp_IdempotencyKey (ac_Dispatch a')" for r
    using that assms(1,3) look_identity(2) [OF assms(1,2)] by (auto simp: seal_ok_def list_all_iff row_ok_def)
  then have "\<not> list_ex (\<lambda>r. row_key r = dp_IdempotencyKey (ac_Dispatch a') \<and> row_execution r \<noteq> eid) (acceptances s)" by (auto simp: list_ex_iff)
  moreover have "row_execution (row_of a) = eid" by (simp add: row_of_def look_row(3) [OF assms(1,2)])
  then have "list_ex (\<lambda>r. row_execution r = eid) (acceptances s)" using look_row(1) [OF assms(1,2)] by (auto simp: list_ex_iff)
  ultimately show ?thesis using id by (simp add: Save_def set_row_def eid Let_def)
qed

definition add_row :: "Acceptance \<Rightarrow> seal_db \<Rightarrow> seal_db" where
  "add_row a s = s\<lparr>acceptances := acceptances s @ [row_of a]\<rparr>"

lemma find_snoc: "find P (xs @ [x]) = (case find P xs of None \<Rightarrow> if P x then Some x else None | Some y \<Rightarrow> Some y)"
  by (induction xs) auto

lemma add_row_effect:
  assumes "seal_ok s" "look s (ac_WorksExecutionID a) = None" "row_ok (row_of a)"
  shows "seal_ok (add_row a s)" "look (add_row a s) = (look s)(ac_WorksExecutionID a \<mapsto> a)" "insert_acceptance a s = Inr (True, add_row a s)"
proof -
  have e: "row_execution (row_of a) = ac_WorksExecutionID a" by (simp add: row_of_def)
  have no: "find (\<lambda>r. row_execution r = ac_WorksExecutionID a) (acceptances s) = None" using assms(2) by (simp add: look_def)
  have nk: "row_key r \<noteq> dp_IdempotencyKey (ac_Dispatch a)" "row_execution r \<noteq> ac_WorksExecutionID a" if "r \<in> set (acceptances s)" for r
  proof -
    show "row_execution r \<noteq> ac_WorksExecutionID a" using no that by (auto simp: find_None_iff)
    then show "row_key r \<noteq> dp_IdempotencyKey (ac_Dispatch a)"
      using assms(1,3) that by (auto simp: seal_ok_def list_all_iff row_ok_def row_of_def)
  qed
  have "row_key (row_of a) \<notin> set (map row_key (acceptances s))" using nk(1) by (simp add: row_of_def) (metis imageE)
  then show "seal_ok (add_row a s)" using assms(1,3) by (simp add: seal_ok_def add_row_def)
  show "look (add_row a s) = (look s)(ac_WorksExecutionID a \<mapsto> a)"
    using no by (auto simp: fun_eq_iff look_def add_row_def find_snoc e row_of_def split: option.splits)
  show "insert_acceptance a s = Inr (True, add_row a s)"
    using nk by (auto simp: insert_acceptance_def add_row_def list_ex_iff)
qed

section \<open>The operations\<close>

text \<open>What one operation may do to the table: add a fresh record under a new id, or change known records by a step.\<close>

definition fresh_record :: "Acceptance \<Rightarrow> bool" where
  "fresh_record a \<longleftrightarrow> \<not> ac_EffectApplied a \<and> ac_BudgetSpent a = 0 \<and> \<not> ac_Revoked a \<and> ac_Outcome a = ''ACCEPTED'' \<and> \<not> ac_Verified a"

definition seal_step :: "seal_db \<Rightarrow> seal_db \<Rightarrow> bool" where
  "seal_step s s' \<longleftrightarrow> seal_ok s' \<and> (\<forall>eid. case look s eid of
     None \<Rightarrow> (case look s' eid of None \<Rightarrow> True | Some a \<Rightarrow> fresh_record a)
   | Some a \<Rightarrow> (\<exists>a'. look s' eid = Some a' \<and> (a' = a \<or> acc_step s a a')))
   \<and> (\<forall>eid b. LoadVerificationSubject eid s = Some b \<longrightarrow> LoadVerificationSubject eid s' = Some b)"

lemma seal_step_refl: "seal_ok s \<Longrightarrow> seal_step s s"
  by (auto simp: seal_step_def split: option.splits)

lemma set_row_step:
  assumes "seal_ok s" "look s eid = Some a" "acc_step s a a'"
  shows "seal_step s (set_row a' s)"
proof -
  have i: "ac_Dispatch a' = ac_Dispatch a" "ac_WorksExecutionID a' = ac_WorksExecutionID a" using acc_step_identity [OF assms(3)] by simp_all
  have "subjects (set_row a' s) = subjects s" by (simp add: set_row_def)
  then show ?thesis using set_row_effect [OF assms(1,2) i] assms(2,3)
    by (auto simp: seal_step_def LoadVerificationSubject_def split: option.splits)
qed

lemma add_row_step:
  assumes "seal_ok s" "look s (ac_WorksExecutionID a) = None" "row_ok (row_of a)" "fresh_record a"
  shows "seal_step s (add_row a s)"
proof -
  have "subjects (add_row a s) = subjects s" by (simp add: add_row_def)
  then show ?thesis using add_row_effect [OF assms(1-3)] assms(2,4)
    by (auto simp: seal_step_def LoadVerificationSubject_def split: option.splits)
qed

lemma modify_known:
  assumes "seal_ok s" "\<And>a a'. f a = Inr a' \<Longrightarrow> acc_step s a a'"
  shows "modify f eid s = (case look s eid of None \<Rightarrow> (Some ErrUnknownAcceptance, s)
    | Some a \<Rightarrow> (case f a of Inl x \<Rightarrow> (Some x, s) | Inr a' \<Rightarrow> (None, set_row a' s)))"
proof (cases "look s eid")
  case (Some a)
  have "Save a' s = (None, set_row a' s)" if "f a = Inr a'" for a'
    using acc_step_identity [OF assms(2) [OF that]] by (intro Save_known [OF assms(1) Some]) simp_all
  then show ?thesis by (simp add: modify_def get_look [OF assms(1)] Some split: sum.splits)
qed (simp add: modify_def get_look [OF assms(1)])

lemma modify_step:
  assumes "seal_ok s" "\<And>a a'. f a = Inr a' \<Longrightarrow> acc_step s a a'"
  shows "seal_step s (snd (modify f eid s))"
proof -
  have "modify f eid s = (case look s eid of None \<Rightarrow> (Some ErrUnknownAcceptance, s)
    | Some a \<Rightarrow> (case f a of Inl x \<Rightarrow> (Some x, s) | Inr a' \<Rightarrow> (None, set_row a' s)))" by (rule modify_known [OF assms])
  then show ?thesis using set_row_step [OF assms(1)] assms(2) seal_step_refl [OF assms(1)] by (auto split: option.splits sum.splits)
qed

lemma Spend_known:
  assumes "seal_ok s" "look s eid = Some a"
  shows "Spend eid amount s = (let ceiling = dp_BudgetCeiling (ac_Dispatch a) in
     if amount \<le> 0 then (Some ErrInvalidSpend, s) else if ac_Revoked a then (Some ErrAuthorityRevoked, s)
     else if ceiling < 0 \<or> ac_BudgetSpent a < 0 \<or> ac_BudgetSpent a > ceiling then (Some ErrInvalidBudget, s)
     else if amount > wrap64 (ceiling - ac_BudgetSpent a) then (Some ErrBudgetExhausted, s)
     else (None, set_row (a\<lparr>ac_BudgetSpent := wrap64 (ac_BudgetSpent a + amount)\<rparr>) s))"
proof -
  let ?a' = "a\<lparr>ac_BudgetSpent := wrap64 (ac_BudgetSpent a + amount)\<rparr>"
  have row: "r\<lparr>row_record := ?a'\<rparr> = row_of ?a'" if "r \<in> set (acceptances s)" "row_execution r = eid" for r
  proof -
    have ok: "row_ok r" using assms(1) that(1) by (auto simp: seal_ok_def list_all_iff)
    have k: "row_ok (row_of a)" "row_of a \<in> set (acceptances s)" "row_execution (row_of a) = eid"
      using look_row [OF assms] by (simp_all add: row_of_def)
    have "row_key r = row_key (row_of a)" using ok k(1,3) that(2) by (simp add: row_ok_def)
    then have "r = row_of a" using assms(1) that(1) k(2) by (auto simp: seal_ok_def distinct_map dest: inj_onD)
    then show ?thesis by (simp add: row_of_def)
  qed
  have eid: "ac_WorksExecutionID a = eid" by (rule look_row(3) [OF assms])
  have "update_where (\<lambda>r. row_execution r = eid) (\<lambda>r. r\<lparr>row_record := ?a'\<rparr>) (acceptances s)
      = update_where (\<lambda>r. row_execution r = eid) (\<lambda>_. row_of ?a') (acceptances s)"
    using row by (auto simp: update_where_def)
  then show ?thesis
    by (simp add: Spend_def SpendIfWithinCeiling_def load_exec [OF assms(1)] get_look [OF assms(1)] assms(2) set_row_def eid Let_def)
qed

lemma Spend_step: "seal_ok s \<Longrightarrow> seal_step s (snd (Spend eid amount s))"
proof (cases "look s eid")
  case None
  assume ok: "seal_ok s"
  then have "snd (Spend eid amount s) = s" using None by (simp add: Spend_def SpendIfWithinCeiling_def load_exec get_look)
  then show ?thesis using seal_step_refl [OF ok] by simp
next
  case (Some a)
  assume ok: "seal_ok s"
  show ?thesis unfolding Spend_known [OF ok Some] Let_def
    using seal_step_refl [OF ok] by (auto intro!: set_row_step [OF ok Some] acc_step.spend)
qed

lemma new_acceptance_fields [simp]:
  "ac_WorksExecutionID (new_acceptance v w e ep d) = exec_id (dp_IdempotencyKey d)" "ac_Dispatch (new_acceptance v w e ep d) = d"
  "ac_ContractVersion (new_acceptance v w e ep d) = v" "ac_WorkID (new_acceptance v w e ep d) = w" "fresh_record (new_acceptance v w e ep d)"
  by (simp_all add: new_acceptance_def fresh_record_def split: prod.splits)

lemma new_row_ok: "dp_IdempotencyKey d \<noteq> [] \<Longrightarrow> dp_CausalID d \<noteq> [] \<Longrightarrow> row_ok (row_of (new_acceptance v w e ep d))"
  by (simp add: row_ok_def row_of_def)

lemma Accept_known:
  assumes "seal_ok s" "dp_MissionID d \<noteq> []" "dp_AuthorityRef d \<noteq> []" "dp_RuntimeDispatchID d \<noteq> []" "dp_IdempotencyKey d \<noteq> []"
  shows "DispatchAccept e d epoch s = (case look s (exec_id (dp_IdempotencyKey d)) of
     Some a \<Rightarrow> (if same_dispatch a d then Inr a else Inl ErrCausalMismatch, s)
   | None \<Rightarrow> if dp_AuthorityEpoch d < epoch then (Inl ErrStaleAuthority, s)
       else if dp_CausalID d = [] then (Inl ErrStoreIdentity, s)
       else let a = new_acceptance ''dispatch.acceptance/1.0'' [] e (dp_AuthorityEpoch d) d in (Inr a, add_row a s))"
proof (cases "look s (exec_id (dp_IdempotencyKey d))")
  case None
  let ?a = "new_acceptance ''dispatch.acceptance/1.0'' [] e (dp_AuthorityEpoch d) d"
  have "identity_missing ?a \<longleftrightarrow> dp_CausalID d = []" using assms(5) by (simp add: identity_missing_def)
  moreover have "insert_acceptance ?a s = Inr (True, add_row ?a s)" if "dp_CausalID d \<noteq> []"
    using add_row_effect(3) [OF assms(1) _ new_row_ok [OF assms(5) that]] None by simp
  ultimately show ?thesis using None assms
    by (simp add: DispatchAccept_def load_key AcceptIfAbsent_def same_dispatch_def Let_def)
qed (use assms in \<open>simp add: DispatchAccept_def load_key\<close>)

lemma Accept_step: "seal_ok s \<Longrightarrow> seal_step s (snd (DispatchAccept e d epoch s))"
proof (cases "dp_MissionID d = [] \<or> dp_AuthorityRef d = [] \<or> dp_RuntimeDispatchID d = [] \<or> dp_IdempotencyKey d = []")
  case True
  assume "seal_ok s"
  with True show ?thesis by (simp add: DispatchAccept_def seal_step_refl)
next
  case False
  assume ok: "seal_ok s"
  note known = Accept_known [OF ok, of d e epoch]
  have "seal_step s (add_row (new_acceptance ''dispatch.acceptance/1.0'' [] e (dp_AuthorityEpoch d) d) s)"
    if "look s (exec_id (dp_IdempotencyKey d)) = None" "dp_CausalID d \<noteq> []"
    using False that by (intro add_row_step [OF ok]) (simp_all add: new_row_ok)
  then show ?thesis using False seal_step_refl [OF ok] known by (auto simp: Let_def split: option.splits)
qed

lemma insert_contextual_step:
  assumes "seal_ok s" "look s (ac_WorksExecutionID a) = None" "row_ok (row_of a)" "fresh_record a"
  shows "insert_contextual e db a ec s = (case insert_context db ec (Now e 1) (sd_contexts s) of None \<Rightarrow> (Inl ErrContextBinding, s)
      | Some t \<Rightarrow> (Inr (a, ec), (add_row a s)\<lparr>sd_contexts := t\<rparr>))"
proof -
  have "sd_contexts (add_row a s) = sd_contexts s" by (simp add: add_row_def)
  then show ?thesis by (simp add: insert_contextual_def add_row_effect(3) [OF assms(1-3)])
qed

lemma look_contexts [simp]: "look (s\<lparr>sd_contexts := t\<rparr>) = look s" "seal_ok (s\<lparr>sd_contexts := t\<rparr>) = seal_ok s"
  "LoadVerificationSubject eid (s\<lparr>sd_contexts := t\<rparr>) = LoadVerificationSubject eid s"
  by (simp_all add: fun_eq_iff look_def seal_ok_def LoadVerificationSubject_def)

lemma seal_step_contexts: "seal_step s (s'\<lparr>sd_contexts := t\<rparr>) = seal_step s s'"
  by (simp only: seal_step_def look_contexts)

text \<open>What a call of the second contract comes to: a refusal without effect, the committed record, or a new record with its context.\<close>

lemma AcceptV2_cases:
  assumes "seal_ok s"
  obtains (refused) x where "AcceptV2 e db wid d b s = (Inl x, s)"
  | (replay) a ec where "look s (exec_id (dp_IdempotencyKey d)) = Some a" "find_context (ac_ExecutionContextID a) (sd_contexts s) = Some ec"
      "snd (AcceptV2 e db wid d b s) = s" "AcceptV2 e db wid d b s = (Inr (a, ec), s)" "accepted_as_asked a d b" "context_as_asked ec a d b"
  | (accepted) l t where "look s (exec_id (dp_IdempotencyKey d)) = None" "find_row lease_ID (bd_WorkerLeaseID b) (leases db) = Some l"
      "lease_available wid (Now (call 1 e) 0) l" "bd_WorkID b = wid" "v2_refusal d b = None"
      "\<forall>p. dp_Placement d = Some p \<longrightarrow> pb_SelectedNode p = lease_WorkerID l"
      "ContextValidate (context_of (new_acceptance ''dispatch.acceptance/2.0'' wid e 0 d) b l) = None"
      "insert_context db (context_of (new_acceptance ''dispatch.acceptance/2.0'' wid e 0 d) b l) (Now (call 1 e) 1) (sd_contexts s) = Some t"
      "AcceptV2 e db wid d b s = (Inr (new_acceptance ''dispatch.acceptance/2.0'' wid e 0 d, context_of (new_acceptance ''dispatch.acceptance/2.0'' wid e 0 d) b l),
         (add_row (new_acceptance ''dispatch.acceptance/2.0'' wid e 0 d) s)\<lparr>sd_contexts := t\<rparr>)"
proof (cases "v2_refusal d b = None \<and> bd_WorkID b = wid")
  case False
  then have "\<exists>x. AcceptV2 e db wid d b s = (Inl x, s)"
    by (cases "v2_refusal d b") (auto simp: AcceptV2_def AcceptContextualIfAbsent_def)
  then show ?thesis using refused by blast
next
  case True
  then have key: "dp_IdempotencyKey d \<noteq> []" "dp_CausalID d \<noteq> []" "bd_WorkID b \<noteq> []" and wid: "bd_WorkID b = wid" "v2_refusal d b = None"
    by (auto simp: v2_refusal_def split: if_splits)
  define a where "a = new_acceptance ''dispatch.acceptance/2.0'' wid e 0 d"
  have af: "ac_Dispatch a = d" "ac_ContractVersion a = ''dispatch.acceptance/2.0''" "ac_WorkID a = wid" "ac_WorksExecutionID a = exec_id (dp_IdempotencyKey d)"
    "fresh_record a" "row_ok (row_of a)" by (simp_all add: a_def new_row_ok key)
  have v2: "AcceptV2 e db wid d b s = (case AcceptContextualIfAbsent (call 1 e) db wid a b s of
      (Inl x, s') \<Rightarrow> (Inl x, s') | (Inr (a, ec), s') \<Rightarrow> if \<not> accepted_as_asked a d b then (Inl ErrCausalMismatch, s')
        else if \<not> context_as_asked ec a d b then (Inl ErrContextBinding, s') else (Inr (a, ec), s'))"
    by (simp add: AcceptV2_def wid a_def)
  show ?thesis
  proof (cases "look s (exec_id (dp_IdempotencyKey d))")
    case (Some x)
    then have "(\<exists>y. AcceptV2 e db wid d b s = (Inl y, s)) \<or> (\<exists>ec. find_context (ac_ExecutionContextID x) (sd_contexts s) = Some ec
        \<and> AcceptV2 e db wid d b s = (Inr (x, ec), s) \<and> accepted_as_asked x d b \<and> context_as_asked ec x d b)"
      using key(3) by (auto simp: v2 AcceptContextualIfAbsent_def af wid(1) load_key [OF assms] committed_def split: option.splits)
    then show ?thesis using refused replay [OF Some] by auto
  next
    case None
    have ins: "insert_contextual (call 1 e) db a ec s = (case insert_context db ec (Now (call 1 e) 1) (sd_contexts s) of None \<Rightarrow> (Inl ErrContextBinding, s)
        | Some t \<Rightarrow> (Inr (a, ec), (add_row a s)\<lparr>sd_contexts := t\<rparr>))" for ec
      by (rule insert_contextual_step [OF assms]) (use None af in simp_all)
    have asked: "accepted_as_asked a d b" "context_as_asked (context_of a b l) a d b" for l
      using wid(1) by (auto simp: accepted_as_asked_def context_as_asked_def context_of_def af SamePlacementBinding_def split: option.splits)
    have acc: "AcceptContextualIfAbsent (call 1 e) db wid a b s = (case find_row lease_ID (bd_WorkerLeaseID b) (leases db) of None \<Rightarrow> (Inl ErrWorkerLeaseUnavailable, s)
        | Some l \<Rightarrow> if \<not> lease_available wid (Now (call 1 e) 0) l then (Inl ErrWorkerLeaseUnavailable, s)
          else if (case dp_Placement d of None \<Rightarrow> False | Some p \<Rightarrow> pb_SelectedNode p \<noteq> lease_WorkerID l) then (Inl ErrPlacementMismatch, s)
          else if ContextValidate (context_of a b l) \<noteq> None then (Inl ErrContextBinding, s)
          else insert_contextual (call 1 e) db a (context_of a b l) s)"
      using key(3) wid(1) None
      by (cases "find_row lease_ID (bd_WorkerLeaseID b) (leases db)") (simp_all add: AcceptContextualIfAbsent_def af load_key [OF assms])
    have "(\<exists>y. AcceptV2 e db wid d b s = (Inl y, s)) \<or> (\<exists>l t. find_row lease_ID (bd_WorkerLeaseID b) (leases db) = Some l
        \<and> lease_available wid (Now (call 1 e) 0) l \<and> (\<forall>p. dp_Placement d = Some p \<longrightarrow> pb_SelectedNode p = lease_WorkerID l)
        \<and> ContextValidate (context_of a b l) = None \<and> insert_context db (context_of a b l) (Now (call 1 e) 1) (sd_contexts s) = Some t
        \<and> AcceptV2 e db wid d b s = (Inr (a, context_of a b l), (add_row a s)\<lparr>sd_contexts := t\<rparr>))"
      unfolding v2 acc ins by (auto simp: asked split: option.splits)
    then show ?thesis using refused accepted [OF None _ _ wid] unfolding a_def by blast
  qed
qed

lemma inserted_context_found:
  assumes "insert_context db ec now t = Some t'" "ec_Schema ec = ''execution-context/1.0''"
  shows "find_context (ec_ID ec) t' = Some ec"
proof -
  have "find (\<lambda>(c, _). ec_ID c = ec_ID ec) t = None" using assms(1) by (auto simp: insert_context_def find_None_iff list_ex_iff split: if_splits)
  moreover have "t' = t @ [(ec, now)]" using assms(1) by (auto simp: insert_context_def split: if_splits)
  ultimately show ?thesis using assms(2) by (simp add: find_context_def find_append)
qed

lemma AcceptV2_step: "seal_ok s \<Longrightarrow> seal_step s (snd (AcceptV2 e db wid d b s))"
proof -
  assume ok: "seal_ok s"
  from ok show ?thesis
  proof (cases rule: AcceptV2_cases [where e = e and db = db and wid = wid and d = d and b = b])
    case (accepted l t)
    have key: "dp_IdempotencyKey d \<noteq> []" "dp_CausalID d \<noteq> []" using accepted(5) by (auto simp: v2_refusal_def split: if_splits)
    have "seal_step s (add_row (new_acceptance ''dispatch.acceptance/2.0'' wid e 0 d) s)"
      by (rule add_row_step [OF ok]) (simp_all add: accepted(1) new_row_ok key)
    then show ?thesis using accepted(9) by (simp add: seal_step_contexts)
  qed (simp_all add: seal_step_refl [OF ok])
qed

lemma Bind_step: "seal_ok s \<Longrightarrow> seal_step s (snd (BindVerificationSubject e eid w a f c sub s))"
proof -
  assume ok: "seal_ok s"
  have bind: "seal_step s (snd (BindSubjectRow now b s))" for now b
  proof -
    have "LoadVerificationSubject k (s\<lparr>subjects := insert_ignore sb_WorksExecutionID r (subjects s)\<rparr>) = Some x"
      if "LoadVerificationSubject k s = Some x" for k r x
      using that by (auto simp: LoadVerificationSubject_def sql_table.look_ins)
    moreover have "look (s\<lparr>subjects := u\<rparr>) = look s" "seal_ok (s\<lparr>subjects := u\<rparr>)" for u
      using ok by (simp_all add: fun_eq_iff look_def seal_ok_def)
    ultimately have "seal_step s (s\<lparr>subjects := insert_ignore sb_WorksExecutionID r (subjects s)\<rparr>)" for r
      by (auto simp: seal_step_def split: option.splits)
    then show ?thesis using seal_step_refl [OF ok] by (auto simp: BindSubjectRow_def Let_def split: option.splits)
  qed
  define b where "b = \<lparr>sb_WorksExecutionID = eid, sb_WorkID = w, sb_AttemptID = a, sb_EffectID = f, sb_CausalID = c, sb_Subject = sub, sb_BoundAt = 0\<rparr>"
  have "snd (BindVerificationSubject e eid w a f c sub s) \<in> {s, snd (BindSubjectRow (Now e 0) b s)}"
    by (auto simp: BindVerificationSubject_def b_def split: sum.splits prod.splits)
  then show ?thesis using bind [of "Now e 0" b] seal_step_refl [OF ok] by auto
qed

section \<open>Sequences of calls\<close>

datatype seal_call =
    CallAccept Dispatch int
  | CallAcceptV2 db string Dispatch V2Binding
  | CallSpend string int
  | CallRevoke string
  | CallEffect string string bool
  | CallComplete string string
  | CallVerdict string verdict_call
  | CallBind string string string string string string

text \<open>A call with its clock readings and random numbers, and for the second contract the store it reads the leases from.\<close>

fun exec_seal :: "env \<times> seal_call \<Rightarrow> seal_db \<Rightarrow> seal_db" where
  "exec_seal (e, CallAccept d epoch) s = snd (DispatchAccept e d epoch s)"
| "exec_seal (e, CallAcceptV2 db wid d b) s = snd (AcceptV2 e db wid d b s)"
| "exec_seal (e, CallSpend eid amount) s = snd (Spend eid amount s)"
| "exec_seal (e, CallRevoke eid) s = snd (DispatchRevoke eid s)"
| "exec_seal (e, CallEffect eid effectID known) s = snd (ApplyEffect eid effectID known s)"
| "exec_seal (e, CallComplete eid outcm) s = snd (Complete eid outcm s)"
| "exec_seal (e, CallVerdict eid v) s = snd (RecordVerdict e eid v s)"
| "exec_seal (e, CallBind eid w a f c sub) s = snd (BindVerificationSubject e eid w a f c sub s)"

lemma exec_seal_step: "seal_ok s \<Longrightarrow> seal_step s (exec_seal c s)"
proof -
  assume ok: "seal_ok s"
  obtain e k where c: "c = (e, k)" by (rule prod.exhaust)
  show ?thesis unfolding c
    by (cases k) (auto simp: DispatchRevoke_def ApplyEffect_def Complete_def RecordVerdict_def intro!: Accept_step AcceptV2_step Spend_step Bind_step modify_step ok
        intro: acc_step.revoke acc_step.effect acc_step.complete acc_step.verdict)
qed

interpretation seal_table: invariant_ops exec_seal seal_ok
  using exec_seal_step by unfold_locales (simp add: seal_step_def)

text \<open>A relation on records that every step keeps holds between the record of an execution before and after any sequence of calls.\<close>

lemma run_known:
  assumes "seal_ok s" "look s eid = Some a" "\<And>a. R a a" "\<And>a b c. R a b \<Longrightarrow> R b c \<Longrightarrow> R a c" "\<And>s a b. acc_step s a b \<Longrightarrow> R a b"
  shows "\<exists>a'. look (fold exec_seal cs s) eid = Some a' \<and> R a a'"
  using assms(1,2)
proof (induction cs arbitrary: s a)
  case Nil
  then show ?case using assms(3) by simp
next
  case (Cons c cs)
  have step: "seal_step s (exec_seal c s)" by (rule exec_seal_step [OF Cons.prems(1)])
  then obtain a1 where a1: "look (exec_seal c s) eid = Some a1" "a1 = a \<or> acc_step s a a1" using Cons.prems(2) by (auto simp: seal_step_def dest!: spec [of _ eid])
  have "seal_ok (exec_seal c s)" using step by (simp add: seal_step_def)
  from Cons.IH [OF this a1(1)] obtain a' where "look (fold exec_seal cs (exec_seal c s)) eid = Some a'" "R a1 a'" by blast
  moreover have "R a a1" using a1(2) assms(3,5) by blast
  ultimately show ?case using assms(4) by auto
qed

text \<open>A property of records that fresh ones have, every step keeps and the rest of the table does not disturb holds of every record in every run.\<close>

lemma run_invariant:
  assumes "\<And>s a. fresh_record a \<Longrightarrow> Q s a" "\<And>s a b. acc_step s a b \<Longrightarrow> Q s a \<Longrightarrow> Q s b" "\<And>s s' a. seal_step s s' \<Longrightarrow> Q s a \<Longrightarrow> Q s' a"
    and "seal_ok s" "\<And>eid a. look s eid = Some a \<Longrightarrow> Q s a" "look (fold exec_seal cs s) eid = Some a"
  shows "Q (fold exec_seal cs s) a"
  using assms(4-6)
proof (induction cs arbitrary: s)
  case (Cons c cs)
  have step: "seal_step s (exec_seal c s)" by (rule exec_seal_step [OF Cons.prems(1)])
  have q: "Q (exec_seal c s) b" if "look (exec_seal c s) k = Some b" for k b
  proof (rule assms(3) [OF step])
    show "Q s b" using step that Cons.prems(2) [of k] assms(1,2) by (cases "look s k") (auto simp: seal_step_def dest!: spec [of _ k])
  qed
  have "Q (fold exec_seal cs (exec_seal c s)) a"
  proof (rule Cons.IH)
    show "seal_ok (exec_seal c s)" using step by (simp add: seal_step_def)
    show "look (fold exec_seal cs (exec_seal c s)) eid = Some a" using Cons.prems(3) by simp
  qed (rule q)
  then show ?case by simp
qed simp

definition empty_seal :: seal_db where
  "empty_seal = \<lparr>acceptances = [], subjects = [], sd_contexts = []\<rparr>"

lemma empty_seal_ok: "seal_ok empty_seal" "look empty_seal eid = None"
  by (simp_all add: empty_seal_def seal_ok_def look_def)

section \<open>Concurrent calls\<close>

text \<open>Clients whose calls read a record, change it and save it in two statements of their own, beside spends, which \<^verbatim>\<open>SpendIfWithinCeiling\<close> makes in one transaction.\<close>

datatype client =
    Calling string "Acceptance \<Rightarrow> dispatch_error + Acceptance"
  | Saving Acceptance
  | Spending string int
  | Finished "dispatch_error option"

inductive race_step :: "seal_db \<times> client list \<Rightarrow> seal_db \<times> client list \<Rightarrow> bool" where
  read: "i < length cs \<Longrightarrow> cs ! i = Calling eid f \<Longrightarrow> acc_get eid s = Inr a \<Longrightarrow> f a = Inr a' \<Longrightarrow> race_step (s, cs) (s, cs[i := Saving a'])"
| unknown: "i < length cs \<Longrightarrow> cs ! i = Calling eid f \<Longrightarrow> acc_get eid s = Inl x \<Longrightarrow> race_step (s, cs) (s, cs[i := Finished (Some x)])"
| refused: "i < length cs \<Longrightarrow> cs ! i = Calling eid f \<Longrightarrow> acc_get eid s = Inr a \<Longrightarrow> f a = Inl x \<Longrightarrow> race_step (s, cs) (s, cs[i := Finished (Some x)])"
| save: "i < length cs \<Longrightarrow> cs ! i = Saving a \<Longrightarrow> Save a s = (r, s') \<Longrightarrow> race_step (s, cs) (s', cs[i := Finished r])"
| spend: "i < length cs \<Longrightarrow> cs ! i = Spending eid n \<Longrightarrow> Spend eid n s = (r, s') \<Longrightarrow> race_step (s, cs) (s', cs[i := Finished r])"

text \<open>A client alone makes the call of the acceptor.\<close>

lemma lone_call: "modify f eid s = (r, s') \<Longrightarrow> race_step\<^sup>*\<^sup>* (s, [Calling eid f]) (s', [Finished r])"
proof -
  assume m: "modify f eid s = (r, s')"
  have one: "race_step (s, cs) t \<Longrightarrow> race_step\<^sup>*\<^sup>* (s, cs) t" for s cs t by (rule r_into_rtranclp)
  show ?thesis
  proof (cases "acc_get eid s")
    case (Inl x)
    then show ?thesis using m race_step.unknown [of 0 "[Calling eid f]" eid f s x] by (auto simp: modify_def)
  next
    case (Inr a)
    show ?thesis
    proof (cases "f a")
      case (Inl x)
      then show ?thesis using m Inr race_step.refused [of 0 "[Calling eid f]" eid f s a x] by (auto simp: modify_def)
    next
      case (Inr a')
      have "race_step (s, [Calling eid f]) (s, [Saving a'])" using race_step.read [of 0 "[Calling eid f]" eid f s a a'] \<open>acc_get eid s = Inr a\<close> Inr by simp
      moreover have "race_step (s, [Saving a']) (s', [Finished r])"
        using race_step.save [of 0 "[Saving a']" a' s r s'] m \<open>acc_get eid s = Inr a\<close> Inr by (simp add: modify_def)
      ultimately show ?thesis by (meson r_into_rtranclp rtranclp_trans)
    qed
  qed
qed

text \<open>The calls of the acceptor that read a record and save it.\<close>

inductive acceptor_call :: "seal_db \<Rightarrow> (Acceptance \<Rightarrow> dispatch_error + Acceptance) \<Rightarrow> bool" for s where
  "acceptor_call s revoke_record"
| "acceptor_call s (effect_record effectID known)"
| "acceptor_call s (complete_record outcm)"
| "acceptor_call s (verdict_record now v s)"

lemma call_step: "acceptor_call s f \<Longrightarrow> f a = Inr b \<Longrightarrow> acc_step s a b"
  by (elim acceptor_call.cases) (auto intro: acc_step.intros)

lemma call_identity:
  assumes "acceptor_call s f" "f a = Inr b"
  shows "ac_Dispatch b = ac_Dispatch a" "ac_WorksExecutionID b = ac_WorksExecutionID a" "ac_BudgetSpent b = ac_BudgetSpent a"
  using acc_step_identity [OF call_step [OF assms]] assms(2)
  by (simp_all, cases rule: acceptor_call.cases [OF assms(1)]) (auto simp: record_defs split: if_splits sum.splits)

lemma call_frame:
  assumes "acceptor_call s f"
  shows "acceptor_call (set_row b s) f"
proof -
  have "verdict_record now v (set_row b s) = verdict_record now v s" for now v
    by (simp add: fun_eq_iff verdict_record_def expected_subject_def LoadVerificationSubject_def set_row_def)
  then have v: "acceptor_call (set_row b s) (verdict_record now v s)" for now v by (metis acceptor_call.intros(4))
  show ?thesis by (rule acceptor_call.cases [OF assms]) (simp_all add: acceptor_call.intros v)
qed

lemma call_alone:
  assumes "seal_ok s" "look s eid = Some a" "acceptor_call s f" "f a = Inr b"
  shows "seal_ok (set_row b s)" "look (set_row b s) eid = Some b" "modify f eid s = (None, set_row b s)"
proof -
  show "seal_ok (set_row b s)" "look (set_row b s) eid = Some b"
    using set_row_effect [OF assms(1,2) call_identity(1,2) [OF assms(3,4)]] by simp_all
  show "modify f eid s = (None, set_row b s)"
    using modify_known [OF assms(1) call_step [OF assms(3)]] assms(2,4) by simp
qed

text \<open>Two clients read the same record; the one that saves last wins.\<close>

lemma last_save_wins:
  assumes ok: "seal_ok s" and look: "look s eid = Some a" and f: "f a = Inr b" and g: "g a = Inr c"
    and same: "ac_Dispatch b = ac_Dispatch a" "ac_WorksExecutionID b = ac_WorksExecutionID a" "ac_Dispatch c = ac_Dispatch a" "ac_WorksExecutionID c = ac_WorksExecutionID a"
  shows "\<exists>s'. race_step\<^sup>*\<^sup>* (s, [Calling eid f, Calling eid g]) (s', [Finished None, Finished None]) \<and> look s' eid = Some c"
proof -
  have get: "acc_get eid s = Inr a" by (simp add: get_look [OF ok] look)
  note s1 = set_row_effect [OF ok look same(1,2)]
  have l1: "look (set_row b s) eid = Some b" by (simp add: s1(2))
  have e2: "ac_Dispatch c = ac_Dispatch b" "ac_WorksExecutionID c = ac_WorksExecutionID b" using same by simp_all
  have l2: "look (set_row c (set_row b s)) eid = Some c" by (simp add: set_row_effect(2) [OF s1(1) l1 e2])
  have "race_step (s, [Calling eid f, Calling eid g]) (s, [Saving b, Calling eid g])"
    using race_step.read [of 0 "[Calling eid f, Calling eid g]" eid f s a b] get f by simp
  moreover have "race_step (s, [Saving b, Calling eid g]) (s, [Saving b, Saving c])"
    using race_step.read [of 1 "[Saving b, Calling eid g]" eid g s a c] get g by simp
  moreover have "race_step (s, [Saving b, Saving c]) (set_row b s, [Finished None, Saving c])"
    using race_step.save [of 0 "[Saving b, Saving c]" b s] Save_known [OF ok look same(1,2)] by simp
  moreover have "race_step (set_row b s, [Finished None, Saving c]) (set_row c (set_row b s), [Finished None, Finished None])"
    using race_step.save [of 1 "[Finished None, Saving c]" c "set_row b s"] Save_known [OF s1(1) l1 e2] by simp
  ultimately show ?thesis using l2 by (meson r_into_rtranclp rtranclp_trans)
qed

lemma save_undoes_spend:
  assumes ok: "seal_ok s" and look: "look s eid = Some a" and g: "g a = Inr c" and spend: "Spend eid n s = (None, s1)"
    and same: "ac_Dispatch c = ac_Dispatch a" "ac_WorksExecutionID c = ac_WorksExecutionID a"
  shows "\<exists>s'. race_step\<^sup>*\<^sup>* (s, [Spending eid n, Calling eid g]) (s', [Finished None, Finished None]) \<and> look s' eid = Some c"
proof -
  have get: "acc_get eid s = Inr a" by (simp add: get_look [OF ok] look)
  let ?b = "a\<lparr>ac_BudgetSpent := wrap64 (ac_BudgetSpent a + n)\<rparr>"
  have s1: "s1 = set_row ?b s" using spend by (auto simp: Spend_known [OF ok look] Let_def split: if_splits)
  have l1: "seal_ok s1" "look s1 eid = Some ?b" using set_row_effect [OF ok look, of ?b] by (simp_all add: s1)
  have e2: "ac_Dispatch c = ac_Dispatch ?b" "ac_WorksExecutionID c = ac_WorksExecutionID ?b" using same by simp_all
  have l2: "look (set_row c s1) eid = Some c" by (simp add: set_row_effect(2) [OF l1 e2])
  have "race_step (s, [Spending eid n, Calling eid g]) (s, [Spending eid n, Saving c])"
    using race_step.read [of 1 "[Spending eid n, Calling eid g]" eid g s a c] get g by simp
  moreover have "race_step (s, [Spending eid n, Saving c]) (s1, [Finished None, Saving c])"
    using race_step.spend [of 0 "[Spending eid n, Saving c]" eid n s] spend by simp
  moreover have "race_step (s1, [Finished None, Saving c]) (set_row c s1, [Finished None, Finished None])"
    using race_step.save [of 1 "[Finished None, Saving c]" c s1] Save_known [OF l1 e2] by simp
  ultimately show ?thesis using l2 by (meson r_into_rtranclp rtranclp_trans)
qed

section \<open>Properties\<close>

text \<open>The record and the context an accepted request of the second contract is answered with name what was asked for.\<close>

definition answers_request :: "Acceptance \<Rightarrow> ExecContext \<Rightarrow> Dispatch \<Rightarrow> V2Binding \<Rightarrow> bool" where
  "answers_request a ec d b \<longleftrightarrow>
     ac_ContractVersion a = ''dispatch.acceptance/2.0'' \<and> ac_WorkID a = bd_WorkID b \<and> dp_IdempotencyKey (ac_Dispatch a) = dp_IdempotencyKey d
     \<and> dp_CausalID (ac_Dispatch a) = dp_CausalID d \<and> dp_MissionID (ac_Dispatch a) = dp_MissionID d \<and> dp_AuthorityRef (ac_Dispatch a) = dp_AuthorityRef d
     \<and> dp_RuntimeDispatchID (ac_Dispatch a) = dp_RuntimeDispatchID d \<and> dp_EffectID (ac_Dispatch a) = dp_EffectID d
     \<and> ec_ID ec = ac_ExecutionContextID a \<and> ec_TraceID ec = ac_TraceID a \<and> ec_WorkID ec = bd_WorkID b \<and> ec_OrganizationID ec = bd_OrganizationID b
     \<and> ec_TenantID ec = bd_TenantID b \<and> ec_PrincipalID ec = bd_PrincipalID b \<and> ec_MissionID ec = dp_MissionID d
     \<and> ec_AuthorityLeaseID ec = bd_AuthorityLeaseID b \<and> ec_WorkerLeaseID ec = bd_WorkerLeaseID b \<and> ec_AdmissionDecisionID ec = bd_AdmissionDecisionID b"

lemma checked_answers_request: "accepted_as_asked a d b \<Longrightarrow> context_as_asked ec a d b \<Longrightarrow> answers_request a ec d b"
  by (auto simp: answers_request_def accepted_as_asked_def context_as_asked_def)

text \<open>C25. An execution never spends more than the ceiling of its dispatch: in every run from an empty table the budget spent is between zero and the ceiling, for
  every ceiling a 64-bit integer can hold, and a spend succeeds exactly when a positive amount still fits and the authority is not revoked; then it is
  added without wrapping around, and a refused spend changes nothing.\<close>

theorem dispatch_budget_never_exceeded:
  assumes "s = fold exec_seal cs empty_seal" and "look s eid = Some a" and "dp_BudgetCeiling (ac_Dispatch a) < 2 ^ 63"
  shows "0 \<le> ac_BudgetSpent a \<and> ac_BudgetSpent a \<le> max 0 (dp_BudgetCeiling (ac_Dispatch a))
    \<and> (fst (Spend eid amount s) = None \<longleftrightarrow> 0 < amount \<and> \<not> ac_Revoked a \<and> ac_BudgetSpent a + amount \<le> dp_BudgetCeiling (ac_Dispatch a))
    \<and> (fst (Spend eid amount s) = None \<longrightarrow> look (snd (Spend eid amount s)) eid = Some (a\<lparr>ac_BudgetSpent := ac_BudgetSpent a + amount\<rparr>))
    \<and> (fst (Spend eid amount s) \<noteq> None \<longrightarrow> snd (Spend eid amount s) = s)"
proof -
  let ?ok = "\<lambda>a. dp_BudgetCeiling (ac_Dispatch a) < 2 ^ 63 \<longrightarrow> 0 \<le> ac_BudgetSpent a \<and> ac_BudgetSpent a \<le> max 0 (dp_BudgetCeiling (ac_Dispatch a))"
  have w: "wrap64 (c - x) = c - x" "0 < n \<Longrightarrow> n \<le> c - x \<Longrightarrow> wrap64 (x + n) = x + n" if "0 \<le> x" "x \<le> c" "c < 2 ^ 63" for c x n :: int
    using that by (auto intro!: wrap64_id)
  have step: "?ok b" if "acc_step s a b" "?ok a" for s a b
    using that(1)
  proof cases
    case (spend amount)
    then show ?thesis using w [of "ac_BudgetSpent a" "dp_BudgetCeiling (ac_Dispatch a)"] by auto
  qed (use that(2) in \<open>auto simp: record_defs split: if_splits sum.splits\<close>)
  have ok: "seal_ok s" unfolding assms(1) by (rule seal_table.inv_run [OF empty_seal_ok(1)])
  have b: "0 \<le> ac_BudgetSpent a \<and> ac_BudgetSpent a \<le> max 0 (dp_BudgetCeiling (ac_Dispatch a))"
    using run_invariant [of "\<lambda>_. ?ok", OF _ _ _ empty_seal_ok(1) _ assms(2) [unfolded assms(1)]] step empty_seal_ok(2) assms(3)
    by (auto simp: fresh_record_def)
  let ?a' = "a\<lparr>ac_BudgetSpent := wrap64 (ac_BudgetSpent a + amount)\<rparr>"
  have upd: "look (set_row ?a' s) eid = Some ?a'" using set_row_effect(2) [OF ok assms(2), of ?a'] by simp
  show ?thesis
  proof (cases "dp_BudgetCeiling (ac_Dispatch a) < 0")
    case True
    then show ?thesis using b by (auto simp: Spend_known [OF ok assms(2)] Let_def)
  next
    case False
    then show ?thesis using b assms(3) w [of "ac_BudgetSpent a" "dp_BudgetCeiling (ac_Dispatch a)"] upd
      by (auto simp: Spend_known [OF ok assms(2)] Let_def)
  qed
qed

text \<open>An effect is applied at most once: after an accepted application no later application for the same execution succeeds, whatever calls of the acceptor lie
  between, one after the other.\<close>

theorem effect_applied_at_most_once:
  assumes "seal_ok s" and "ApplyEffect eid effectID True s = (None, s1)"
  shows "fst (ApplyEffect eid effectID' known (fold exec_seal cs s1)) \<noteq> None"
proof -
  have step: "acc_step s a a'" if "effect_record f k a = Inr a'" for f k a a' s by (rule acc_step.effect [OF that])
  have m: "ApplyEffect eid f k s = (case look s eid of None \<Rightarrow> (Some ErrUnknownAcceptance, s)
      | Some a \<Rightarrow> (case effect_record f k a of Inl x \<Rightarrow> (Some x, s) | Inr a' \<Rightarrow> (None, set_row a' s)))" if "seal_ok s" for f k s
    unfolding ApplyEffect_def by (rule modify_known [OF that step])
  obtain a where a: "look s eid = Some a" "effect_record effectID True a = Inr (a\<lparr>ac_EffectApplied := True\<rparr>)" "s1 = set_row (a\<lparr>ac_EffectApplied := True\<rparr>) s"
    using assms(2) m [OF assms(1)] by (auto simp: effect_record_def split: option.splits sum.splits if_splits)
  have s1: "seal_ok s1" "look s1 eid = Some (a\<lparr>ac_EffectApplied := True\<rparr>)"
    using set_row_effect [OF assms(1) a(1), of "a\<lparr>ac_EffectApplied := True\<rparr>"] by (simp_all add: a(3))
  obtain a' where a': "look (fold exec_seal cs s1) eid = Some a'" "ac_EffectApplied a'"
    using run_known [OF s1, of "\<lambda>a b. ac_EffectApplied a \<longrightarrow> ac_EffectApplied b" cs] acc_step_identity by auto
  have "isl (effect_record effectID' known a')" using a'(2) by (simp add: effect_record_def)
  then show ?thesis using a'(1) m [OF seal_table.inv_run [OF s1(1)], of effectID' known cs] by (auto split: sum.splits)
qed

text \<open>C26. An execution counts as verified only on a verdict: in every run from an empty table a verified execution carries an ACCEPT verdict with an evidence
  reference, by a named verifier other than the dispatching runtime, about exactly the subject of its dispatch, or for the second contract about the subject in the
  row that was bound to this execution.\<close>

theorem verified_needs_verdict:
  assumes "look (fold exec_seal cs empty_seal) eid = Some a" and "ac_Verified a"
  shows "\<exists>v. ac_Verdict a = Some v \<and> vv_Result v = ''ACCEPT'' \<and> TrimSpace (vv_EvidenceRef v) \<noteq> [] \<and> ac_VerifierID a \<noteq> []
    \<and> ac_VerifierID a \<noteq> dp_RuntimeDispatchID (ac_Dispatch a)
    \<and> (if ac_ContractVersion a = ''dispatch.acceptance/2.0''
        then \<exists>b. find_row sb_WorksExecutionID eid (subjects (fold exec_seal cs empty_seal)) = Some b \<and> vv_Subject v = sb_Subject b \<and> vv_Subject v \<noteq> []
        else vv_Subject v = dp_VerificationSubj (ac_Dispatch a))"
proof -
  let ?Q = "\<lambda>s a. ac_Verified a \<longrightarrow> (\<exists>v. ac_Verdict a = Some v \<and> vv_Result v = ''ACCEPT'' \<and> TrimSpace (vv_EvidenceRef v) \<noteq> [] \<and> ac_VerifierID a \<noteq> []
    \<and> ac_VerifierID a \<noteq> dp_RuntimeDispatchID (ac_Dispatch a) \<and> expected_subject s a = Inr (vv_Subject v))"
  have same: "expected_subject s b = expected_subject s a" if "acc_step s a b" for s a b
    using acc_step_identity [OF that] by (simp add: expected_subject_def)
  have "?Q s b" if st: "acc_step s a b" and q: "?Q s a" for s a b
    using st
  proof cases
    case (verdict now v)
    then show ?thesis using same [OF st] by (auto simp: verdict_record_def split: if_splits sum.splits)
  qed (use q same [OF st] in \<open>auto simp: record_defs split: if_splits\<close>)
  moreover have "expected_subject s' a = Inr x" if "seal_step s s'" "expected_subject s a = Inr x" for s s' a x
    using that by (auto simp: expected_subject_def seal_step_def split: if_splits option.splits)
  then have "?Q s' a" if "seal_step s s'" "?Q s a" for s s' a using that by blast
  moreover have "?Q s a" if "fresh_record a" for s a using that by (simp add: fresh_record_def)
  ultimately have "?Q (fold exec_seal cs empty_seal) a"
    using run_invariant [of ?Q, OF _ _ _ empty_seal_ok(1) _ assms(1)] empty_seal_ok(2) by auto
  then obtain v where v: "ac_Verdict a = Some v" "vv_Result v = ''ACCEPT''" "TrimSpace (vv_EvidenceRef v) \<noteq> []" "ac_VerifierID a \<noteq> []"
    "ac_VerifierID a \<noteq> dp_RuntimeDispatchID (ac_Dispatch a)" "expected_subject (fold exec_seal cs empty_seal) a = Inr (vv_Subject v)"
    using assms(2) by blast
  have "ac_WorksExecutionID a = eid" by (rule look_row(3) [OF seal_table.inv_run [OF empty_seal_ok(1)] assms(1)])
  with v(6) have "if ac_ContractVersion a = ''dispatch.acceptance/2.0''
      then \<exists>b. find_row sb_WorksExecutionID eid (subjects (fold exec_seal cs empty_seal)) = Some b \<and> vv_Subject v = sb_Subject b \<and> vv_Subject v \<noteq> []
      else vv_Subject v = dp_VerificationSubj (ac_Dispatch a)"
    by (auto simp: expected_subject_def LoadVerificationSubject_def split: if_splits option.splits)
  with v(1-5) show ?thesis by blast
qed

text \<open>An accepted dispatch stays accepted: whatever calls follow, and however the authority's epoch advances, the same dispatch gets the same execution,
  context and trace ids back without changing the table, and another dispatch that reuses its key with a different causal id is refused.\<close>

theorem acceptance_replay:
  assumes "seal_ok s" and "DispatchAccept e d epoch s = (Inr a, s1)"
  shows "\<exists>a'. DispatchAccept e' d epoch' (fold exec_seal cs s1) = (Inr a', fold exec_seal cs s1) \<and> ac_WorksExecutionID a' = ac_WorksExecutionID a
    \<and> ac_Dispatch a' = ac_Dispatch a \<and> ac_ExecutionContextID a' = ac_ExecutionContextID a \<and> ac_TraceID a' = ac_TraceID a
    \<and> (dp_CausalID d' \<noteq> dp_CausalID d \<longrightarrow> fst (DispatchAccept e' (d\<lparr>dp_CausalID := dp_CausalID d'\<rparr>) epoch' (fold exec_seal cs s1)) = Inl ErrCausalMismatch)"
proof -
  have m: "dp_MissionID d \<noteq> []" "dp_AuthorityRef d \<noteq> []" "dp_RuntimeDispatchID d \<noteq> []" "dp_IdempotencyKey d \<noteq> []"
    using assms(2) by (auto simp: DispatchAccept_def split: if_splits)
  note known = Accept_known [OF _ m]
  have a: "look s1 (exec_id (dp_IdempotencyKey d)) = Some a \<and> same_dispatch a d"
  proof (cases "look s (exec_id (dp_IdempotencyKey d))")
    case None
    then have "a = new_acceptance ''dispatch.acceptance/1.0'' [] e (dp_AuthorityEpoch d) d" "s1 = add_row a s" "dp_CausalID d \<noteq> []"
      using assms(2) known [OF assms(1), of e epoch] by (auto simp: Let_def split: if_splits)
    then show ?thesis using add_row_effect(2) [OF assms(1), of a] None m by (simp add: new_row_ok same_dispatch_def)
  next
    case (Some x)
    then show ?thesis using assms(2) known [OF assms(1), of e epoch] by (auto split: if_splits)
  qed
  have ok: "seal_ok s1" using Accept_step [OF assms(1), of e d epoch] assms(2) by (simp add: seal_step_def)
  define same where "same = (\<lambda>(a :: Acceptance) (b :: Acceptance). ac_WorksExecutionID b = ac_WorksExecutionID a \<and> ac_Dispatch b = ac_Dispatch a
    \<and> ac_ExecutionContextID b = ac_ExecutionContextID a \<and> ac_TraceID b = ac_TraceID a)"
  obtain a' where a': "look (fold exec_seal cs s1) (exec_id (dp_IdempotencyKey d)) = Some a'" "same a a'"
    using run_known [OF ok conjunct1 [OF a], of same cs] acc_step_identity by (auto simp: same_def)
  have ok': "seal_ok (fold exec_seal cs s1)" by (rule seal_table.inv_run [OF ok])
  let ?d = "d\<lparr>dp_CausalID := dp_CausalID d'\<rparr>"
  have "DispatchAccept e' ?d epoch' (fold exec_seal cs s1) = (if same_dispatch a' ?d then Inr a' else Inl ErrCausalMismatch, fold exec_seal cs s1)"
    using Accept_known [OF ok', of ?d e' epoch'] m a'(1) by simp
  moreover have "DispatchAccept e' d epoch' (fold exec_seal cs s1) = (Inr a', fold exec_seal cs s1)"
    using known [OF ok', of e' epoch'] a a' by (simp add: same_def same_dispatch_def)
  ultimately show ?thesis using a a'(2) by (auto simp: same_def same_dispatch_def)
qed

text \<open>C27. The second contract accepts a dispatch together with its context or not at all: a refused call changes nothing; after an accepted one the table holds the
  record of the request's Work, dispatch, mission, authority and effect, and the context that names its organisation, tenant, principal, mission, leases and admission
  decision, also when the answer is the record of an earlier request with the same key; and when the record is new the context names the
  worker of an active, unexpired lease of the same Work, which is the node the placement selected.\<close>

theorem contextual_acceptance_binds_lease:
  assumes "seal_ok s" and "AcceptV2 e db wid d b s = (r, s')"
  shows "case r of Inl x \<Rightarrow> s' = s
    | Inr (a, ec) \<Rightarrow> look s' (exec_id (dp_IdempotencyKey d)) = Some a \<and> find_context (ac_ExecutionContextID a) (sd_contexts s') = Some ec \<and> answers_request a ec d b
      \<and> (look s (exec_id (dp_IdempotencyKey d)) = None \<longrightarrow> (\<exists>l. find_row lease_ID (ec_WorkerLeaseID ec) (leases db) = Some l \<and> lease_Status l = LeaseActive
          \<and> lease_WorkID l = wid \<and> Now (call 1 e) 0 < ExpiresAt l \<and> ec_WorkerID ec = lease_WorkerID l
          \<and> (\<forall>p. dp_Placement d = Some p \<longrightarrow> pb_SelectedNode p = ec_WorkerID ec)))"
  using assms(1)
proof (cases rule: AcceptV2_cases [where e = e and db = db and wid = wid and d = d and b = b])
  case (accepted l t)
  let ?a = "new_acceptance ''dispatch.acceptance/2.0'' wid e 0 d"
  have key: "dp_IdempotencyKey d \<noteq> []" "dp_CausalID d \<noteq> []" using accepted(5) by (auto simp: v2_refusal_def split: if_splits)
  have row: "look (add_row ?a s) (exec_id (dp_IdempotencyKey d)) = Some ?a"
    using add_row_effect(2) [OF assms(1), of ?a] accepted(1) by (simp add: new_row_ok key)
  have ctx: "find_context (ac_ExecutionContextID ?a) t = Some (context_of ?a b l)"
    using inserted_context_found [OF accepted(8)] by (simp add: context_of_def)
  have "answers_request ?a (context_of ?a b l) d b" using accepted(4) by (simp add: answers_request_def context_of_def)
  then show ?thesis using assms(2) accepted row ctx by (auto simp: lease_available_def context_of_def)
next
  case (replay a ec)
  then show ?thesis using assms(2) checked_answers_request by auto
qed (use assms(2) in auto)

text \<open>C28. Calls on one execution that overlap can lose each other's changes, because each saves the whole record it has read. For any two revocations, effect applications, completions or verdicts that
  both succeed on the record as it is, there is an interleaving in which both report success and the record is what the second made of the old one, without a trace of the first; and there is one
  in which a spend is reported as accepted and the call that saves after it restores the amount spent before. One after the other, the second call works on the record
  the first has left.\<close>

theorem concurrent_calls_lose_updates:
  assumes "seal_ok s" and "look s eid = Some a" and "acceptor_call s f" "f a = Inr b" and "acceptor_call s g" "g a = Inr c"
  shows "(\<exists>s'. race_step\<^sup>*\<^sup>* (s, [Calling eid f, Calling eid g]) (s', [Finished None, Finished None]) \<and> look s' eid = Some c)
    \<and> (fst (Spend eid n s) = None \<longrightarrow> (\<exists>s'. race_step\<^sup>*\<^sup>* (s, [Spending eid n, Calling eid g]) (s', [Finished None, Finished None])
        \<and> look s' eid = Some c \<and> ac_BudgetSpent c = ac_BudgetSpent a))
    \<and> (\<forall>c'. g b = Inr c' \<longrightarrow> look (snd (modify g eid (snd (modify f eid s)))) eid = Some c')"
proof (intro conjI impI allI)
  note fi = call_identity [OF assms(3,4)] and gi = call_identity [OF assms(5,6)]
  show "\<exists>s'. race_step\<^sup>*\<^sup>* (s, [Calling eid f, Calling eid g]) (s', [Finished None, Finished None]) \<and> look s' eid = Some c"
    by (rule last_save_wins [of s eid a f b g c]) (simp_all add: assms fi gi)
  show "\<exists>s'. race_step\<^sup>*\<^sup>* (s, [Spending eid n, Calling eid g]) (s', [Finished None, Finished None]) \<and> look s' eid = Some c \<and> ac_BudgetSpent c = ac_BudgetSpent a"
    if "fst (Spend eid n s) = None"
  proof -
    have "Spend eid n s = (None, snd (Spend eid n s))" using that by (simp add: prod_eq_iff)
    then have "\<exists>s'. race_step\<^sup>*\<^sup>* (s, [Spending eid n, Calling eid g]) (s', [Finished None, Finished None]) \<and> look s' eid = Some c"
      by (intro save_undoes_spend [of s eid a g c]) (simp_all add: assms gi)
    then show ?thesis using gi(3) by blast
  qed
  show "look (snd (modify g eid (snd (modify f eid s)))) eid = Some c'" if "g b = Inr c'" for c'
  proof -
    note one = call_alone [of s eid a f b, OF assms(1-4)]
    note two = call_alone [of "set_row b s" eid b g c', OF one(1,2) call_frame [OF assms(5)] that]
    show ?thesis by (simp only: one(3) two(3) snd_conv two(2))
  qed
qed

text \<open>An effect of unknown outcome does not stay undecided: the application that resolves it to INDETERMINATE leaves it unapplied, so the same effect can be
  applied again, and the execution can be completed as SUCCEEDED without any reconciliation.\<close>

theorem indeterminate_effect_can_be_repeated:
  assumes "seal_ok s" and "look s eid = Some a" and "\<not> ac_Revoked a" and "\<not> ac_EffectApplied a"
  shows "case ApplyEffect eid (dp_EffectID (ac_Dispatch a)) False s of (r1, s1) \<Rightarrow>
    case ApplyEffect eid (dp_EffectID (ac_Dispatch a)) True s1 of (r2, s2) \<Rightarrow> case Complete eid ''SUCCEEDED'' s2 of (r3, s3) \<Rightarrow>
      r1 = None \<and> map_option ac_Outcome (look s1 eid) = Some ''INDETERMINATE'' \<and> r2 = None \<and> r3 = None
      \<and> look s3 eid = Some (a\<lparr>ac_EffectApplied := True, ac_Outcome := ''SUCCEEDED''\<rparr>)"
proof -
  have one: "modify f eid s = (None, set_row b s) \<and> seal_ok (set_row b s) \<and> look (set_row b s) eid = Some b"
    if "seal_ok s" "look s eid = Some a" "f a = Inr b" "\<And>s a b. f a = Inr b \<Longrightarrow> acc_step s a b" for s a b f
    using modify_known [OF that(1,4)] that(2,3) set_row_effect [OF that(1,2), of b] acc_step_identity [OF that(4) [OF that(3)]] by simp
  let ?f = "effect_record (dp_EffectID (ac_Dispatch a))"
  let ?a1 = "a\<lparr>ac_Outcome := ''INDETERMINATE''\<rparr>" and ?a2 = "a\<lparr>ac_EffectApplied := True, ac_Outcome := ''INDETERMINATE''\<rparr>"
  let ?a3 = "a\<lparr>ac_EffectApplied := True, ac_Outcome := ''SUCCEEDED''\<rparr>"
  have r: "?f False a = Inr ?a1" "?f True ?a1 = Inr ?a2" "complete_record ''SUCCEEDED'' ?a2 = Inr ?a3"
    using assms(3,4) by (simp_all add: effect_record_def complete_record_def)
  have s1: "modify (?f False) eid s = (None, set_row ?a1 s) \<and> seal_ok (set_row ?a1 s) \<and> look (set_row ?a1 s) eid = Some ?a1"
    by (rule one [where f = "?f False", OF assms(1,2) r(1) acc_step.effect])
  then have s2: "modify (?f True) eid (set_row ?a1 s) = (None, set_row ?a2 (set_row ?a1 s)) \<and> seal_ok (set_row ?a2 (set_row ?a1 s))
      \<and> look (set_row ?a2 (set_row ?a1 s)) eid = Some ?a2"
    by (intro one [where f = "?f True", OF _ _ r(2) acc_step.effect]) simp_all
  then have "modify (complete_record ''SUCCEEDED'') eid (set_row ?a2 (set_row ?a1 s)) = (None, set_row ?a3 (set_row ?a2 (set_row ?a1 s)))
      \<and> seal_ok (set_row ?a3 (set_row ?a2 (set_row ?a1 s))) \<and> look (set_row ?a3 (set_row ?a2 (set_row ?a1 s))) eid = Some ?a3"
    by (intro one [where f = "complete_record ''SUCCEEDED''", OF _ _ r(3) acc_step.complete]) simp_all
  then show ?thesis using s1 s2 by (simp add: ApplyEffect_def Complete_def)
qed

section \<open>Examples\<close>

definition seal_env :: env where
  "seal_env = \<lparr>nows = (\<lambda>_. 0), idents = (\<lambda>_. replicate 16 0)\<rparr>"

definition demo_dispatch :: Dispatch where
  "demo_dispatch = \<lparr>dp_MissionID = ''mis_1'', dp_AuthorityRef = hex_id ''auth'', dp_AuthorityEpoch = 0, dp_RuntimeDispatchID = ''rt'', dp_AttemptID = ''att'',
     dp_EffectID = ''eff'', dp_IdempotencyKey = ''k'', dp_BudgetRef = ''b'', dp_BudgetCeiling = 100, dp_CheckpointID = [], dp_EvidenceRoot = [],
     dp_VerificationSubj = ''subj'', dp_CausalID = ''c'', dp_Placement = None\<rparr>"

definition demo_binding :: V2Binding where
  "demo_binding = \<lparr>bd_WorkID = hex_id ''wrk'', bd_OrganizationID = hex_id ''org'', bd_TenantID = hex_id ''ten'', bd_PrincipalID = hex_id ''prn'',
     bd_AuthorityLeaseID = hex_id ''auth'', bd_WorkerLeaseID = hex_id ''lse'', bd_AdmissionDecisionID = hex_id ''pdr''\<rparr>"

definition demo_verdict :: verdict_call where
  "demo_verdict = \<lparr>vc_VerifierID = ''ver'', vc_Subject = ''subj'', vc_SubjectCurrent = True, vc_VerifierAvailable = True, vc_Result = ''ACCEPT'', vc_EvidenceRef = ''ev''\<rparr>"

abbreviation demo_calls :: "(env \<times> seal_call) list" where
  "demo_calls \<equiv> [(seal_env, CallAccept demo_dispatch 0)]"

definition demo_record :: Acceptance where
  "demo_record = new_acceptance ''dispatch.acceptance/1.0'' [] seal_env 0 demo_dispatch"

lemma demo_dispatch_fields: "dp_MissionID demo_dispatch \<noteq> []" "dp_AuthorityRef demo_dispatch \<noteq> []" "dp_RuntimeDispatchID demo_dispatch = ''rt''"
  "dp_IdempotencyKey demo_dispatch = ''k''" "dp_CausalID demo_dispatch = ''c''" "dp_AuthorityEpoch demo_dispatch = 0" "dp_BudgetCeiling demo_dispatch = 100"
  by (simp_all add: demo_dispatch_def hex_id_def)

lemma demo_accept: "DispatchAccept seal_env demo_dispatch 0 empty_seal = (Inr demo_record, add_row demo_record empty_seal)"
  by (simp add: Accept_known empty_seal_ok demo_dispatch_fields demo_record_def Let_def)

lemma demo_look: "look (fold exec_seal demo_calls empty_seal) (exec_id ''k'') = Some demo_record" "ac_Dispatch demo_record = demo_dispatch" "fresh_record demo_record"
  "seal_ok (fold exec_seal demo_calls empty_seal)"
proof -
  show "ac_Dispatch demo_record = demo_dispatch" "fresh_record demo_record" by (simp_all add: demo_record_def)
  have "row_ok (row_of demo_record)" by (simp add: demo_record_def new_row_ok demo_dispatch_fields)
  then show "look (fold exec_seal demo_calls empty_seal) (exec_id ''k'') = Some demo_record"
    using add_row_effect(2) [OF empty_seal_ok(1), of demo_record] empty_seal_ok(2) by (simp add: demo_accept demo_record_def demo_dispatch_fields)
  show "seal_ok (fold exec_seal demo_calls empty_seal)" by (rule seal_table.inv_run [OF empty_seal_ok(1)])
qed

theorem dispatch_budget_never_exceeded_witness:
  "\<exists>s a. s = fold exec_seal demo_calls empty_seal \<and> look s (exec_id ''k'') = Some a \<and> fst (Spend (exec_id ''k'') 100 s) = None
     \<and> fst (Spend (exec_id ''k'') 101 s) \<noteq> None \<and> fst (Spend (exec_id ''k'') 0 s) \<noteq> None"
proof -
  let ?s = "fold exec_seal demo_calls empty_seal"
  have "fst (Spend (exec_id ''k'') n ?s) = None \<longleftrightarrow> 0 < n \<and> n \<le> 100" for n
    using dispatch_budget_never_exceeded [OF refl demo_look(1), of n] demo_look(2,3) by (simp add: demo_dispatch_fields fresh_record_def)
  then show ?thesis using demo_look(1) by (intro exI [of _ ?s] exI [of _ demo_record]) simp
qed

theorem effect_applied_at_most_once_witness:
  "\<exists>s1. ApplyEffect (exec_id ''k'') ''eff'' True (fold exec_seal demo_calls empty_seal) = (None, s1) \<and> fst (ApplyEffect (exec_id ''k'') ''eff'' True s1) \<noteq> None"
proof -
  let ?s = "fold exec_seal demo_calls empty_seal"
  have r: "effect_record ''eff'' True demo_record = Inr (demo_record\<lparr>ac_EffectApplied := True\<rparr>)"
    using demo_look(2,3) by (simp add: effect_record_def fresh_record_def demo_dispatch_def)
  have "ApplyEffect (exec_id ''k'') ''eff'' True ?s = (None, set_row (demo_record\<lparr>ac_EffectApplied := True\<rparr>) ?s)" unfolding ApplyEffect_def
    by (subst modify_known [OF demo_look(4) acc_step.effect]) (simp_all only: demo_look(1) r option.case sum.case)
  then obtain s1 where "ApplyEffect (exec_id ''k'') ''eff'' True ?s = (None, s1)" by blast
  then show ?thesis using effect_applied_at_most_once [OF demo_look(4), of "exec_id ''k''" "''eff''" s1 "''eff''" True "[]"] by auto
qed

theorem verified_needs_verdict_witness:
  "\<exists>s a v. s = fold exec_seal (demo_calls @ [(seal_env, CallComplete (exec_id ''k'') ''SUCCEEDED''), (seal_env, CallVerdict (exec_id ''k'') demo_verdict)]) empty_seal
     \<and> look s (exec_id ''k'') = Some a \<and> ac_Verdict a = Some v \<and> vv_Subject v = dp_VerificationSubj (ac_Dispatch a)"
proof -
  let ?cs = "demo_calls @ [(seal_env, CallComplete (exec_id ''k'') ''SUCCEEDED''), (seal_env, CallVerdict (exec_id ''k'') demo_verdict)]"
  have "map_option ac_Verified (look (fold exec_seal ?cs empty_seal) (exec_id ''k'')) = Some True" by code_simp
  moreover have "map_option (\<lambda>a. ac_ContractVersion a = ''dispatch.acceptance/2.0'') (look (fold exec_seal ?cs empty_seal) (exec_id ''k'')) = Some False" by code_simp
  ultimately obtain a where a: "look (fold exec_seal ?cs empty_seal) (exec_id ''k'') = Some a" "ac_Verified a" "ac_ContractVersion a \<noteq> ''dispatch.acceptance/2.0''" by auto
  from verified_needs_verdict [OF a(1,2)] a(1,3) show ?thesis by (simp only: if_False) blast
qed

theorem acceptance_replay_witness:
  "\<exists>a. DispatchAccept seal_env demo_dispatch 7 (snd (DispatchAccept seal_env demo_dispatch 0 empty_seal)) = (Inr a, snd (DispatchAccept seal_env demo_dispatch 0 empty_seal))
     \<and> ac_WorksExecutionID a = exec_id ''k''"
  using acceptance_replay [OF empty_seal_ok(1) demo_accept, of seal_env 7 "[]" demo_dispatch] by (auto simp: demo_accept demo_record_def demo_dispatch_fields)

theorem contextual_acceptance_binds_lease_witness:
  "\<exists>a ec s'. AcceptV2 seal_env (context_db (hex_id ''wrkr'')) (hex_id ''wrk'') demo_dispatch demo_binding empty_seal = (Inr (a, ec), s')
     \<and> look s' (exec_id ''k'') = Some a \<and> ec_WorkerID ec = hex_id ''wrkr''"
proof -
  let ?r = "AcceptV2 seal_env (context_db (hex_id ''wrkr'')) (hex_id ''wrk'') demo_dispatch demo_binding empty_seal"
  have "map_sum id (ec_WorkerID \<circ> snd) (fst ?r) = Inr (hex_id ''wrkr'')" by code_simp
  then obtain a ec s' where r: "?r = (Inr (a, ec), s')" "ec_WorkerID ec = hex_id ''wrkr''" by (cases ?r) (auto simp: map_sum_def split: sum.splits)
  then show ?thesis using contextual_acceptance_binds_lease [OF empty_seal_ok(1) r(1)] by (auto simp: demo_dispatch_fields)
qed

theorem concurrent_calls_lose_updates_witness:
  "\<exists>s'. race_step\<^sup>*\<^sup>* (fold exec_seal demo_calls empty_seal, [Calling (exec_id ''k'') revoke_record, Calling (exec_id ''k'') (complete_record ''SUCCEEDED'')])
       (s', [Finished None, Finished None]) \<and> look s' (exec_id ''k'') = Some (demo_record\<lparr>ac_Outcome := ''SUCCEEDED''\<rparr>)"
proof -
  have r: "\<not> ac_Revoked demo_record" using demo_look(3) by (simp add: fresh_record_def)
  have f: "revoke_record demo_record = Inr (demo_record\<lparr>ac_Revoked := True\<rparr>)" by (simp add: revoke_record_def)
  have g: "complete_record ''SUCCEEDED'' demo_record = Inr (demo_record\<lparr>ac_Outcome := ''SUCCEEDED''\<rparr>)" using r by (simp add: complete_record_def)
  from concurrent_calls_lose_updates [OF demo_look(4,1) acceptor_call.intros(1) f acceptor_call.intros(3) g] show ?thesis by blast
qed

theorem indeterminate_effect_can_be_repeated_witness:
  "fst (ApplyEffect (exec_id ''k'') ''eff'' False (fold exec_seal demo_calls empty_seal)) = None"
proof -
  have f: "\<not> ac_Revoked demo_record" "\<not> ac_EffectApplied demo_record" using demo_look(3) by (simp_all add: fresh_record_def)
  from indeterminate_effect_can_be_repeated [OF demo_look(4,1) f] show ?thesis by (simp add: demo_look(2) demo_dispatch_def split: prod.splits)
qed

end
