(* ===== verification/Event_Stream.thy ===== *)
theory Event_Stream
  imports Worker_Auth
begin

text \<open>
  The journal of a Work over HTTP (\<^verbatim>\<open>services/api/work_events.go\<close>): the cursor listing and the resumable stream of server-sent events. The polling loop of
  the stream runs until the client goes away; it is a function of the sequence of polls, each with the database it sees, whether its query fails and how many
  frames the connection still takes. The text that renders a timestamp is a parameter. Shown: however the stream ends, what was sent and what a reconnect at the
  last frame sends are together the journal after the first cursor; and a poll catches up.
\<close>

section \<open>Numbers in requests\<close>

text \<open>\<^verbatim>\<open>strconv.ParseInt(s, 10, 64)\<close>, and \<^verbatim>\<open>strconv.Atoi\<close> on a 64-bit platform.\<close>

definition digits_value :: "string \<Rightarrow> int" where
  "digits_value ds = foldl (\<lambda>n c. 10 * n + (of_char c - 48)) 0 ds"

definition ParseInt64 :: "string \<Rightarrow> int option" where
  "ParseInt64 s =
     (let neg = (take 1 s = ''-''); ds = (if neg \<or> take 1 s = ''+'' then drop 1 s else s); v = (if neg then - digits_value ds else digits_value ds) in
      if ds = [] \<or> \<not> list_all is_digit ds then None else if v < - (2 ^ 63) \<or> v \<ge> 2 ^ 63 then None else Some v)"

section \<open>Frames and requests\<close>

datatype frame =
    Connected
  | EventFrame int string json
  | KeepAlive
  | ResetFrame string
  | ErrorFrame

record journal_envelope =
  je_ID :: string
  je_WorkID :: string
  je_Type :: string
  je_ObservedAt :: string
  je_Sequence :: int
  je_Data :: json

record journal_request =
  jr_After :: "string option"
  jr_Limit :: "string option"
  jr_LastEventID :: string

datatype journal_reply =
    Refused api_error
  | Listed "journal_envelope list"
  | Streamed "frame list"

definition ssePollLimit :: int where "ssePollLimit = 200"

definition valid_data :: "raw_message \<Rightarrow> json" where
  "valid_data d = (case d of RawJSON j \<Rightarrow> j | _ \<Rightarrow> JObj [])"

section \<open>The listing\<close>

definition list_after :: "string option \<Rightarrow> int option" where
  "list_after q = (case q of None \<Rightarrow> Some 0 | Some [] \<Rightarrow> Some 0
     | Some v \<Rightarrow> (case ParseInt64 v of None \<Rightarrow> None | Some n \<Rightarrow> if n < 0 then None else Some n))"

definition list_limit :: "string option \<Rightarrow> int option" where
  "list_limit q = (case q of None \<Rightarrow> Some 200 | Some [] \<Rightarrow> Some 200
     | Some v \<Rightarrow> (case ParseInt64 v of None \<Rightarrow> None | Some n \<Rightarrow> if n < 1 then None else Some (if n > 1000 then 1000 else n)))"

definition journal_envelope_of :: "(time \<Rightarrow> string) \<Rightarrow> WorkEvent \<Rightarrow> journal_envelope" where
  "journal_envelope_of fmt ev = \<lparr>je_ID = we_ID ev, je_WorkID = we_WorkID ev, je_Type = we_Type ev, je_ObservedAt = fmt (ObservedAt ev),
     je_Sequence = Sequence ev, je_Data = valid_data (Data ev)\<rparr>"

definition serveJournalList :: "(time \<Rightarrow> string) \<Rightarrow> journal_request \<Rightarrow> string \<Rightarrow> db \<Rightarrow> journal_reply" where
  "serveJournalList fmt q workID db = (case list_after (jr_After q) of None \<Rightarrow> Refused (ApiError 400 ''invalid_cursor'')
     | Some after \<Rightarrow> (case list_limit (jr_Limit q) of None \<Rightarrow> Refused (ApiError 400 ''invalid_limit'')
       | Some limit \<Rightarrow> Listed (map (journal_envelope_of fmt) (ListWorkEventsAfter workID after limit db))))"

section \<open>The stream\<close>

text \<open>One round of the loop: the database it reads, whether the context is done, whether the query fails, and after how many frames a write fails, if one does.\<close>

record poll =
  pl_db :: db
  pl_done :: bool
  pl_fails :: bool
  pl_writes :: "nat option"

definition frame_of :: "WorkEvent \<Rightarrow> frame" where
  "frame_of ev = EventFrame (Sequence ev) (we_Type ev) (valid_data (Data ev))"

text \<open>The frames that are sent, and the cursor at the end.\<close>

fun stream_polls :: "string \<Rightarrow> int \<Rightarrow> poll list \<Rightarrow> frame list \<times> int" where
  "stream_polls workID cursor [] = ([], cursor)"
| "stream_polls workID cursor (p # ps) =
     (if pl_done p then ([], cursor)
      else if pl_fails p then ([ErrorFrame], cursor)
      else let rows = ListWorkEventsAfter workID cursor ssePollLimit (pl_db p) in
        if rows = [] then
          (if pl_writes p = Some 0 then ([], cursor)
           else case stream_polls workID cursor ps of (fs, c) \<Rightarrow> (KeepAlive # fs, c))
        else let sent = (case pl_writes p of None \<Rightarrow> rows | Some k \<Rightarrow> take k rows); cursor' = (if sent = [] then cursor else Sequence (last sent)) in
          if length sent < length rows then (map frame_of sent, cursor')
          else case stream_polls workID cursor' ps of (fs, c) \<Rightarrow> (map frame_of sent @ fs, c))"

text \<open>The cursor a client supplied: none starts at zero, a bad one cannot be resumed.\<close>

definition resume_cursor :: "string \<Rightarrow> int option" where
  "resume_cursor header = (let raw = TrimSpace header in if raw = [] then Some 0
     else case ParseInt64 raw of None \<Rightarrow> None | Some v \<Rightarrow> if v < 0 then None else Some v)"

definition workExists :: "string \<Rightarrow> db \<Rightarrow> bool" where
  "workExists workID db = (case OldestWorkEventSequence workID db of Inr _ \<Rightarrow> True | Inl _ \<Rightarrow> False)"

definition ServeWorkEvents :: "(time \<Rightarrow> string) \<Rightarrow> journal_request \<Rightarrow> string \<Rightarrow> db \<Rightarrow> poll list \<Rightarrow> journal_reply" where
  "ServeWorkEvents fmt q workID db polls =
     (if workID = [] then Refused (ApiError 404 ''not_found'')
      else if \<not> workExists workID db then Refused (ApiError 404 ''not_found'')
      else if jr_After q \<noteq> None \<or> jr_Limit q \<noteq> None then serveJournalList fmt q workID db
      else case resume_cursor (jr_LastEventID q) of None \<Rightarrow> Streamed [Connected, ResetFrame workID]
      | Some cursor \<Rightarrow>
        if TrimSpace (jr_LastEventID q) = [] then Streamed (Connected # fst (stream_polls workID cursor polls))
        else case OldestWorkEventSequence workID db of Inl _ \<Rightarrow> Refused (ApiError 500 ''internal_error'')
        | Inr oldest \<Rightarrow> if cursor < oldest then Streamed [Connected, ResetFrame workID]
            else Streamed (Connected # fst (stream_polls workID cursor polls)))"

section \<open>What is pending\<close>

definition pending :: "string \<Rightarrow> int \<Rightarrow> db \<Rightarrow> WorkEvent list" where
  "pending workID cursor db = filter (\<lambda>ev. we_WorkID ev = workID \<and> Sequence ev > cursor) (events db)"

lemma page_of_pending:
  assumes "journal_ok db"
  shows "ListWorkEventsAfter workID cursor ssePollLimit db = take 200 (pending workID cursor db)"
proof -
  have "sorted_wrt (<) (map Sequence (events db))" using assms by (simp add: journal_ok_def)
  from sorted_events_strict [OF this] show ?thesis by (simp add: ListWorkEventsAfter_def pending_def ssePollLimit_def Let_def)
qed

lemma pending_sorted: "journal_ok db \<Longrightarrow> sorted_wrt (\<lambda>a b. Sequence a < Sequence b) (pending workID cursor db)"
  by (simp add: journal_ok_def pending_def sorted_wrt_map sorted_wrt_filter)

text \<open>What is pending after a row that was sent is the rest.\<close>

lemma pending_split:
  assumes "journal_ok db" "pending workID cursor db = sent @ rest" "sent \<noteq> []"
  shows "pending workID (Sequence (last sent)) db = rest"
proof -
  let ?l = "last sent"
  have split: "pending workID cursor db = butlast sent @ ?l # rest" using append_butlast_last_id [OF assms(3)] assms(2) by (metis append.assoc append_Cons append_Nil)
  have sorted: "sorted_wrt (\<lambda>a b. Sequence a < Sequence b) (butlast sent @ ?l # rest)" using pending_sorted [OF assms(1), of workID cursor] by (simp only: split)
  have "?l \<in> set (pending workID cursor db)" by (simp add: split)
  then have "Sequence ?l > cursor" by (simp add: pending_def)
  then have "pending workID (Sequence ?l) db = filter (\<lambda>ev. Sequence ev > Sequence ?l) (pending workID cursor db)"
    by (auto simp: pending_def intro!: filter_cong)
  also have "\<dots> = filter (\<lambda>ev. Sequence ev > Sequence ?l) (butlast sent @ ?l # rest)" by (simp only: split)
  also have "\<dots> = rest" using sorted by (auto simp: sorted_wrt_append filter_empty_conv intro!: filter_True)
  finally show ?thesis .
qed

text \<open>A later database: the journal has only grown.\<close>

definition grown :: "db \<Rightarrow> db \<Rightarrow> bool" where
  "grown db db' \<longleftrightarrow> journal_ok db \<and> journal_ok db' \<and> (\<exists>more. events db' = events db @ more)"

definition is_event :: "frame \<Rightarrow> bool" where
  "is_event f = (case f of EventFrame _ _ _ \<Rightarrow> True | _ \<Rightarrow> False)"

lemma filter_frames [simp]: "filter is_event (map frame_of evs) = map frame_of evs"
  by (induction evs) (simp_all add: is_event_def frame_of_def)

lemma is_event_other [simp]: "\<not> is_event KeepAlive" "\<not> is_event ErrorFrame"
  by (simp_all add: is_event_def)

text \<open>Rows sent from an earlier journal are the first of what is pending in a later one.\<close>

lemma sent_is_prefix:
  assumes "grown db db'" "pending workID cursor db = sent @ rest"
  shows "\<exists>rest'. pending workID cursor db' = sent @ rest'"
proof -
  obtain more where "events db' = events db @ more" using assms(1) by (auto simp: grown_def)
  then have "pending workID cursor db' = pending workID cursor db @ filter (\<lambda>ev. we_WorkID ev = workID \<and> Sequence ev > cursor) more" by (simp add: pending_def)
  then show ?thesis using assms(2) by simp
qed

lemma stream_partition:
  assumes "\<And>p. p \<in> set ps \<Longrightarrow> grown (pl_db p) db" "journal_ok db" "stream_polls workID cursor ps = (fs, c)"
  shows "map frame_of (pending workID cursor db) = filter is_event fs @ map frame_of (pending workID c db)"
  using assms(1,3)
proof (induction ps arbitrary: cursor fs)
  case (Cons p ps)
  define rows where "rows = ListWorkEventsAfter workID cursor ssePollLimit (pl_db p)"
  define sent where "sent = (case pl_writes p of None \<Rightarrow> rows | Some k \<Rightarrow> take k rows)"
  define cursor' where "cursor' = (if sent = [] then cursor else Sequence (last sent))"
  have grown: "grown (pl_db p) db" using Cons.prems(1) by simp
  then have "rows = take 200 (pending workID cursor (pl_db p))" by (simp add: rows_def page_of_pending grown_def)
  then have "\<exists>rest. pending workID cursor (pl_db p) = sent @ rest" unfolding sent_def by (metis append_take_drop_id append.assoc option.case_eq_if)
  then obtain rest where rest: "pending workID cursor db = sent @ rest" using sent_is_prefix [OF grown] by blast
  have part: "pending workID cursor db = sent @ pending workID cursor' db"
    using rest pending_split [OF assms(2) rest] by (auto simp: cursor'_def)
  have IH: "map frame_of (pending workID k db) = filter is_event fs @ map frame_of (pending workID c db)" if "stream_polls workID k ps = (fs, c)" for k fs
    using Cons.IH [OF _ that] Cons.prems(1) by simp
  have eq: "stream_polls workID cursor (p # ps) = (if pl_done p then ([], cursor) else if pl_fails p then ([ErrorFrame], cursor)
      else if rows = [] then (if pl_writes p = Some 0 then ([], cursor) else case stream_polls workID cursor ps of (fs, c) \<Rightarrow> (KeepAlive # fs, c))
      else if length sent < length rows then (map frame_of sent, cursor')
      else case stream_polls workID cursor' ps of (fs, c) \<Rightarrow> (map frame_of sent @ fs, c))"
    unfolding stream_polls.simps(2) Let_def rows_def [symmetric] sent_def [symmetric] cursor'_def [symmetric] by (rule refl)
  show ?case
  proof (cases "stream_polls workID cursor ps")
    case (Pair fs1 c1)
    note here = this
    show ?thesis
    proof (cases "stream_polls workID cursor' ps")
      case (Pair fs2 c2)
      then show ?thesis using Cons.prems(2) here IH [of cursor] IH [of cursor'] part unfolding eq by (auto split: if_splits)
    qed
  qed
qed simp

section \<open>The texts of cursors\<close>

lemma digits_value_snoc: "digits_value (ds @ [c]) = 10 * digits_value ds + (of_char c - 48)"
  by (simp add: digits_value_def)

lemma digit_char: "is_digit (char_of (48 + n mod 10 :: nat))" "of_char (char_of (48 + n mod 10 :: nat) :: char) = (48 + int (n mod 10))"
proof -
  have lt: "n mod 10 < 10" by simp
  then have c: "of_char (char_of (48 + n mod 10 :: nat) :: char) = (48 + n mod 10 :: nat)" by simp
  then show "is_digit (char_of (48 + n mod 10 :: nat))" using lt by (simp add: is_digit_def)
  have "of_char x = int (of_char x)" for x :: char by (simp add: of_nat_of_char)
  then show "of_char (char_of (48 + n mod 10 :: nat) :: char) = (48 + int (n mod 10))" using c by simp
qed

lemma dec_nat_digits: "dec_nat n \<noteq> [] \<and> list_all is_digit (dec_nat n) \<and> digits_value (dec_nat n) = int n"
proof (induction n rule: dec_nat.induct)
  case (1 n)
  show ?case
  proof (cases "n < 10")
    case True
    then show ?thesis using digit_char [of n] by (simp add: dec_nat.simps [of n] digits_value_def)
  next
    case False
    have "int n = 10 * int (n div 10) + int (n mod 10)" by presburger
    then show ?thesis using 1 [OF False] digit_char [of n] by (simp add: dec_nat.simps [of n] digits_value_snoc False)
  qed
qed

lemma digit_not: "is_digit c \<Longrightarrow> c \<noteq> CHR ''-'' \<and> c \<noteq> CHR ''+'' \<and> \<not> is_space c"
  by (auto simp: is_digit_def is_space_def)

text \<open>The cursor a stream prints is the cursor it reads.\<close>

lemma resume_cursor_printed:
  assumes "0 \<le> k" "k < 2 ^ 63"
  shows "resume_cursor (dec_int k) = Some k" "TrimSpace (dec_int k) \<noteq> []"
proof -
  let ?d = "dec_nat (nat k)"
  have d: "?d \<noteq> []" "list_all is_digit ?d" "digits_value ?d = k" using dec_nat_digits [of "nat k"] assms(1) by auto
  obtain c r where cr: "?d = c # r" using d(1) by (cases ?d) auto
  have space: "\<not> is_space x" if "x \<in> set ?d" for x using d(2) that digit_not by (auto simp: list_all_iff)
  have "dropWhile is_space ?d = ?d" using space [of c] by (simp add: cr)
  moreover have "dropWhile is_space (rev ?d) = rev ?d" using space [of "last ?d"] d(1) by (cases "rev ?d") (auto simp flip: hd_rev)
  ultimately have trim: "TrimSpace ?d = ?d" by (simp add: TrimSpace_def)
  have "c \<noteq> CHR ''-'' \<and> c \<noteq> CHR ''+''" using d(2) digit_not [of c] by (simp add: cr)
  then have "ParseInt64 ?d = Some k" using d assms by (simp add: ParseInt64_def Let_def cr)
  then show "resume_cursor (dec_int k) = Some k" "TrimSpace (dec_int k) \<noteq> []"
    using assms(1) d(1) by (simp_all add: resume_cursor_def dec_int_def trim)
qed

section \<open>The cursor of a stream\<close>

lemma stream_cursor:
  assumes "\<And>p. p \<in> set ps \<Longrightarrow> journal_ok (pl_db p)" "stream_polls workID cursor ps = (fs, c)"
  shows "c = cursor \<or> (\<exists>p \<in> set ps. \<exists>ev \<in> set (events (pl_db p)). we_WorkID ev = workID \<and> Sequence ev = c)"
  using assms
proof (induction ps arbitrary: cursor fs)
  case (Cons p ps)
  define rows where "rows = ListWorkEventsAfter workID cursor ssePollLimit (pl_db p)"
  define sent where "sent = (case pl_writes p of None \<Rightarrow> rows | Some k \<Rightarrow> take k rows)"
  define cursor' where "cursor' = (if sent = [] then cursor else Sequence (last sent))"
  have "set sent \<subseteq> set rows" by (auto simp: sent_def dest: in_set_takeD split: option.splits)
  also have "\<dots> \<subseteq> set (pending workID cursor (pl_db p))" using Cons.prems(1) by (auto simp: rows_def page_of_pending dest: in_set_takeD)
  finally have sub: "set sent \<subseteq> set (pending workID cursor (pl_db p))" .
  have here: "cursor' = cursor \<or> (\<exists>ev \<in> set (events (pl_db p)). we_WorkID ev = workID \<and> Sequence ev = cursor')"
  proof (cases "sent = []")
    case False
    then have "last sent \<in> set (pending workID cursor (pl_db p))" using sub by auto
    then show ?thesis using False by (auto simp: cursor'_def pending_def)
  qed (simp add: cursor'_def)
  have IH: "c = k \<or> (\<exists>p \<in> set ps. \<exists>ev \<in> set (events (pl_db p)). we_WorkID ev = workID \<and> Sequence ev = c)" if "stream_polls workID k ps = (fs, c)" for k fs
    using Cons.IH [OF _ that] Cons.prems(1) by simp
  have eq: "stream_polls workID cursor (p # ps) = (if pl_done p then ([], cursor) else if pl_fails p then ([ErrorFrame], cursor)
      else if rows = [] then (if pl_writes p = Some 0 then ([], cursor) else case stream_polls workID cursor ps of (fs, c) \<Rightarrow> (KeepAlive # fs, c))
      else if length sent < length rows then (map frame_of sent, cursor')
      else case stream_polls workID cursor' ps of (fs, c) \<Rightarrow> (map frame_of sent @ fs, c))"
    unfolding stream_polls.simps(2) Let_def rows_def [symmetric] sent_def [symmetric] cursor'_def [symmetric] by (rule refl)
  obtain fs1 c1 where 1: "stream_polls workID cursor ps = (fs1, c1)" by (rule prod.exhaust)
  obtain fs2 c2 where 2: "stream_polls workID cursor' ps = (fs2, c2)" by (rule prod.exhaust)
  have "c = cursor \<or> c = cursor' \<or> c = c1 \<or> c = c2" using Cons.prems(2) unfolding eq 1 2 by (auto split: if_splits)
  then show ?case using here IH [of cursor] IH [of cursor'] 1 2 by auto
qed simp

lemma resume_known:
  assumes "journal_ok db" "ev \<in> set (events db)" "we_WorkID ev = workID" "workID \<noteq> []" "Sequence ev < 2 ^ 63"
  shows "ServeWorkEvents fmt \<lparr>jr_After = None, jr_Limit = None, jr_LastEventID = dec_int (Sequence ev)\<rparr> workID db polls
    = Streamed (Connected # fst (stream_polls workID (Sequence ev) polls))"
proof -
  have "workID \<in> work_ID ` set (works db)" "1 \<le> Sequence ev" using assms(1-3) by (auto simp: journal_ok_def)
  then have row: "get_row workID db \<noteq> None" by (auto simp: get_row_None)
  let ?xs = "map Sequence (filter (\<lambda>ev. we_WorkID ev = workID) (events db))"
  have mem: "Sequence ev \<in> set ?xs" using assms(2,3) by auto
  then have "?xs \<noteq> []" by (intro notI) simp
  moreover have "Min (set ?xs) \<le> Sequence ev" by (rule Min_le [OF finite_set mem])
  ultimately have "\<exists>s \<le> Sequence ev. OldestWorkEventSequence workID db = Inr s"
    using row by (auto simp: OldestWorkEventSequence_def workEventBoundary_def)
  moreover have "resume_cursor (dec_int (Sequence ev)) = Some (Sequence ev)" "TrimSpace (dec_int (Sequence ev)) \<noteq> []"
    using resume_cursor_printed [of "Sequence ev"] \<open>1 \<le> Sequence ev\<close> assms(5) by simp_all
  ultimately show ?thesis using assms(4) by (auto simp: ServeWorkEvents_def workExists_def)
qed

section \<open>Properties\<close>

text \<open>C31. A reconnect loses nothing and repeats nothing: however a stream of a Work ends (the client goes away, a write or a query fails), a reconnect that
  names the last event it was sent gets no reset, and the events of both streams, in order, are exactly the events of the journal after the first cursor up to
  what is still pending, while the journal grows throughout.\<close>

theorem reconnect_resumes_exactly:
  assumes "\<And>p. p \<in> set ps \<Longrightarrow> grown (pl_db p) db1" and "grown db1 db" and "\<And>p. p \<in> set ps' \<Longrightarrow> grown (pl_db p) db"
    and "stream_polls workID cursor ps = (fs, c)" and "c \<noteq> cursor" and "workID \<noteq> []" and "next_seq db1 \<le> 2 ^ 63"
  shows "\<exists>fs' c'. ServeWorkEvents fmt \<lparr>jr_After = None, jr_Limit = None, jr_LastEventID = dec_int c\<rparr> workID db1 ps' = Streamed (Connected # fs')
    \<and> map frame_of (pending workID cursor db) = filter is_event fs @ filter is_event fs' @ map frame_of (pending workID c' db)"
proof -
  have grown_trans: "grown a b \<Longrightarrow> grown b d \<Longrightarrow> grown a d" for a b d by (auto simp: grown_def)
  have ok: "journal_ok db1" "journal_ok db" using assms(2) by (simp_all add: grown_def)
  obtain p ev where ev: "p \<in> set ps" "ev \<in> set (events (pl_db p))" "we_WorkID ev = workID" "Sequence ev = c"
    using stream_cursor [OF _ assms(4)] assms(1,5) by (auto simp: grown_def)
  then have mem: "ev \<in> set (events db1)" using assms(1) [OF ev(1)] by (auto simp: grown_def)
  then have "c < 2 ^ 63" using ok(1) ev(4) assms(7) by (auto simp: journal_ok_def)
  then have serve: "ServeWorkEvents fmt \<lparr>jr_After = None, jr_Limit = None, jr_LastEventID = dec_int c\<rparr> workID db1 ps' = Streamed (Connected # fst (stream_polls workID c ps'))"
    using resume_known [OF ok(1) mem ev(3) assms(6), of fmt ps'] ev(4) by simp
  obtain fs' c' where run: "stream_polls workID c ps' = (fs', c')" by (rule prod.exhaust)
  have "map frame_of (pending workID cursor db) = filter is_event fs @ map frame_of (pending workID c db)"
    by (rule stream_partition [OF _ ok(2) assms(4)]) (use assms(1,2) grown_trans in blast)
  moreover have "map frame_of (pending workID c db) = filter is_event fs' @ map frame_of (pending workID c' db)"
    by (rule stream_partition [OF assms(3) ok(2) run])
  ultimately show ?thesis using serve run by auto
qed

text \<open>C32. The stream catches up in a bounded number of polls: after one poll for every two hundred pending events all of them have been sent, once and in
  order, and the next poll sends a keep-alive and leaves nothing pending.\<close>

theorem stream_catches_up:
  assumes "journal_ok db" and "length (pending workID cursor db) \<le> 200 * k"
  shows "\<exists>fs c. stream_polls workID cursor (replicate (Suc k) \<lparr>pl_db = db, pl_done = False, pl_fails = False, pl_writes = None\<rparr>) = (fs, c)
    \<and> filter is_event fs = map frame_of (pending workID cursor db) \<and> fs \<noteq> [] \<and> last fs = KeepAlive \<and> pending workID c db = []"
  using assms(2)
proof (induction k arbitrary: cursor)
  case 0
  then show ?case by (simp add: page_of_pending [OF assms(1)])
next
  case (Suc k)
  let ?p = "\<lparr>pl_db = db, pl_done = False, pl_fails = False, pl_writes = None\<rparr>"
  define sent where "sent = take 200 (pending workID cursor db)"
  show ?case
  proof (cases "pending workID cursor db = []")
    case True
    then obtain fs c where "stream_polls workID cursor (replicate (Suc k) ?p) = (fs, c)" "filter is_event fs = []" "fs \<noteq> []" "last fs = KeepAlive"
      "pending workID c db = []" using Suc.IH [of cursor] by auto
    then show ?thesis using True by (simp add: page_of_pending [OF assms(1)])
  next
    case False
    then have ne: "sent \<noteq> []" by (simp add: sent_def)
    have split: "pending workID cursor db = sent @ drop 200 (pending workID cursor db)" by (simp add: sent_def)
    then have rest: "pending workID (Sequence (last sent)) db = drop 200 (pending workID cursor db)" by (rule pending_split [OF assms(1) _ ne])
    then have "length (pending workID (Sequence (last sent)) db) \<le> 200 * k" using Suc.prems by simp
    from Suc.IH [OF this] obtain fs c where run: "stream_polls workID (Sequence (last sent)) (replicate (Suc k) ?p) = (fs, c)"
      "filter is_event fs = map frame_of (drop 200 (pending workID cursor db))" "fs \<noteq> []" "last fs = KeepAlive" "pending workID c db = []" by (auto simp: rest)
    have "stream_polls workID cursor (replicate (Suc (Suc k)) ?p) = (map frame_of sent @ fs, c)"
      using run(1) ne by (simp add: page_of_pending [OF assms(1)] flip: sent_def)
    moreover have "map frame_of sent @ map frame_of (drop 200 (pending workID cursor db)) = map frame_of (pending workID cursor db)"
      by (metis map_append split)
    ultimately show ?thesis using run by auto
  qed
qed

text \<open>A cursor below the first row of a Work is answered with a reset, though the journal still has every row after it.\<close>

theorem reset_without_gap:
  assumes "journal_ok db" and "ev \<in> set (events db)" and "we_WorkID ev = workID" and "workID \<noteq> []"
    and "\<And>x. x \<in> set (events db) \<Longrightarrow> we_WorkID x = workID \<Longrightarrow> c < Sequence x" and "0 \<le> c"
  shows "ServeWorkEvents fmt \<lparr>jr_After = None, jr_Limit = None, jr_LastEventID = dec_int c\<rparr> workID db polls = Streamed [Connected, ResetFrame workID]
    \<or> 2 ^ 63 \<le> c"
proof (cases "c < 2 ^ 63")
  case True
  have "workID \<in> work_ID ` set (works db)" using assms(1-3) by (auto simp: journal_ok_def)
  then have row: "get_row workID db \<noteq> None" by (auto simp: get_row_None)
  let ?xs = "map Sequence (filter (\<lambda>ev. we_WorkID ev = workID) (events db))"
  have ne: "?xs \<noteq> []" using assms(2,3) by (auto simp: filter_empty_conv)
  then have "c < Min (set ?xs)" using assms(5) by (subst Min_gr_iff) (auto simp: filter_empty_conv)
  then have "\<exists>s > c. OldestWorkEventSequence workID db = Inr s" using row ne by (auto simp: OldestWorkEventSequence_def workEventBoundary_def)
  then show ?thesis using assms(4) resume_cursor_printed [OF assms(6) True] by (auto simp: ServeWorkEvents_def workExists_def)
qed simp

section \<open>Examples\<close>

definition event_db :: db where
  "event_db = empty_db\<lparr>works := [zero_Work\<lparr>work_ID := ''w''\<rparr>], next_seq := 4,
     events := map (\<lambda>n. \<lparr>Sequence = n, we_ID = dec_int n, we_WorkID = ''w'', we_Type = ''t'', ObservedAt = 0, Data = RawEmpty\<rparr>) [2, 3]\<rparr>"

lemma event_db_ok: "journal_ok event_db"
proof -
  have "dec_int 2 \<noteq> dec_int 3" by code_simp
  then show ?thesis by (simp add: journal_ok_def event_db_def)
qed

theorem reconnect_resumes_exactly_witness:
  "\<exists>fs fs' c'. stream_polls ''w'' 0 [\<lparr>pl_db = event_db, pl_done = False, pl_fails = False, pl_writes = Some 1\<rparr>] = (fs, 2)
     \<and> ServeWorkEvents (\<lambda>_. []) \<lparr>jr_After = None, jr_Limit = None, jr_LastEventID = dec_int 2\<rparr> ''w'' event_db [] = Streamed (Connected # fs')
     \<and> map frame_of (pending ''w'' 0 event_db) = filter is_event fs @ filter is_event fs' @ map frame_of (pending ''w'' c' event_db)"
proof -
  let ?ps = "[\<lparr>pl_db = event_db, pl_done = False, pl_fails = False, pl_writes = Some 1\<rparr>]"
  have "snd (stream_polls ''w'' 0 ?ps) = 2" by code_simp
  then obtain fs where run: "stream_polls ''w'' 0 ?ps = (fs, 2)" by (cases "stream_polls ''w'' 0 ?ps") auto
  have g: "grown event_db event_db" by (simp add: grown_def event_db_ok)
  have "\<exists>fs' c'. ServeWorkEvents (\<lambda>_. []) \<lparr>jr_After = None, jr_Limit = None, jr_LastEventID = dec_int 2\<rparr> ''w'' event_db [] = Streamed (Connected # fs')
     \<and> map frame_of (pending ''w'' 0 event_db) = filter is_event fs @ filter is_event fs' @ map frame_of (pending ''w'' c' event_db)"
    by (rule reconnect_resumes_exactly [OF _ g _ run]) (simp_all add: g, simp add: event_db_def)
  then show ?thesis using run by blast
qed

theorem stream_catches_up_witness:
  "\<exists>fs c. stream_polls ''w'' 0 (replicate 2 \<lparr>pl_db = event_db, pl_done = False, pl_fails = False, pl_writes = None\<rparr>) = (fs, c)
     \<and> filter is_event fs = map frame_of (pending ''w'' 0 event_db) \<and> last fs = KeepAlive"
proof -
  have "length (pending ''w'' 0 event_db) \<le> 200 * 1" by (simp add: pending_def event_db_def)
  from stream_catches_up [OF event_db_ok this] show ?thesis unfolding numeral_2_eq_2 One_nat_def by blast
qed

end
