(* ===== verification/Brain_Laws.thy ===== *)
theory Brain_Laws
  imports Workgraph
begin

text \<open>
  The laws of the brain namespace: objects, revisions, human stamps, tombstones and mounts (\<^verbatim>\<open>packages/brain/brain.go\<close>), and the gate of its governance
  (\<^verbatim>\<open>packages/brain/governance.go\<close>). JSON encoding and SHA-256 are the record \<open>hasher\<close>, a parameter. Content is what the JSON decoder makes: the walk over
  struct fields, pointers and cycles of other Go values has no counterpart. Error texts are dropped; an error without a sentinel is \<open>BrainShape\<close>.
\<close>

section \<open>Paths\<close>

definition org_char :: "char \<Rightarrow> bool" where
  "org_char c \<longleftrightarrow> is_hex c \<or> c = CHR ''-''"

definition name_char :: "char \<Rightarrow> bool" where
  "name_char c \<longleftrightarrow> is_digit c \<or> (65 \<le> (of_char c :: nat) \<and> (of_char c :: nat) \<le> 90) \<or> (97 \<le> (of_char c :: nat) \<and> (of_char c :: nat) \<le> 122)
     \<or> c = CHR ''_'' \<or> c = CHR ''/'' \<or> c = CHR ''-''"

definition collections :: "string list" where
  "collections = [''missions'', ''decisions'', ''capabilities'', ''evidence'', ''notes'']"

text \<open>The organisation of a path and what follows its slash.\<close>

definition split_org :: "string \<Rightarrow> (string \<times> string) option" where
  "split_org p = (let r = drop 5 p; org = takeWhile org_char r; r1 = dropWhile org_char r in
     if HasPrefix p ''/org/'' \<and> org \<noteq> [] \<and> take 1 r1 = ''/'' then Some (org, drop 1 r1) else None)"

definition collection_tail :: "string \<Rightarrow> string option" where
  "collection_tail r = map_option (\<lambda>c. drop (length c) r) (find (HasPrefix r) collections)"

text \<open>\<^verbatim>\<open>^/org/[a-f0-9-]+/(missions|decisions|capabilities|evidence|notes)/[A-Za-z0-9_/-]+$\<close>\<close>

definition pathPattern :: "string \<Rightarrow> bool" where
  "pathPattern p = (case split_org p of None \<Rightarrow> False | Some (_, r) \<Rightarrow> (case collection_tail r of None \<Rightarrow> False
     | Some t \<Rightarrow> take 1 t = ''/'' \<and> drop 1 t \<noteq> [] \<and> list_all name_char (drop 1 t)))"

text \<open>\<^verbatim>\<open>^/org/([a-f0-9-]+)/(missions|decisions|capabilities|evidence|notes)(/[A-Za-z0-9_/-]*)?$\<close>, with the organisation it captures.\<close>

definition mountPrefixPattern :: "string \<Rightarrow> string option" where
  "mountPrefixPattern p = (case split_org p of None \<Rightarrow> None | Some (org, r) \<Rightarrow> (case collection_tail r of None \<Rightarrow> None
     | Some t \<Rightarrow> if t = [] \<or> take 1 t = ''/'' \<and> list_all name_char (drop 1 t) then Some org else None))"

definition orgSegmentPattern :: "string \<Rightarrow> string option" where
  "orgSegmentPattern p = map_option fst (split_org p)"

definition cleanSegments :: "string \<Rightarrow> bool" where
  "cleanSegments p \<longleftrightarrow> p \<noteq> [] \<and> last p \<noteq> CHR ''/'' \<and> \<not> Contains p ''//'' \<and> \<not> Contains p ''..''"

definition MatchMount :: "string \<Rightarrow> string \<Rightarrow> bool" where
  "MatchMount path mountPrefix = (case mountPrefixPattern mountPrefix of None \<Rightarrow> False
     | Some pm \<Rightarrow>
       if \<not> cleanSegments mountPrefix then False
       else if \<not> pathPattern path \<or> \<not> cleanSegments path then False
       else case orgSegmentPattern path of None \<Rightarrow> False
       | Some om \<Rightarrow> if om \<noteq> pm then False else if path = mountPrefix then True else HasPrefix path (mountPrefix @ ''/''))"

section \<open>Objects\<close>

definition ClassImmutable :: string where "ClassImmutable = ''immutable''"
definition ClassMutable :: string where "ClassMutable = ''mutable_with_revision''"
definition ClassEphemeral :: string where "ClassEphemeral = ''ephemeral''"
definition PromotionNone :: string where "PromotionNone = ''none''"
definition PromotionHumanStamped :: string where "PromotionHumanStamped = ''human_stamped''"

lemmas brain_words = ClassImmutable_def ClassMutable_def ClassEphemeral_def PromotionNone_def PromotionHumanStamped_def

lemma brain_words_differ [simp]:
  "ClassImmutable \<noteq> ClassMutable" "ClassMutable \<noteq> ClassImmutable" "ClassImmutable \<noteq> ClassEphemeral" "ClassEphemeral \<noteq> ClassImmutable"
  "ClassMutable \<noteq> ClassEphemeral" "ClassEphemeral \<noteq> ClassMutable" "PromotionNone \<noteq> PromotionHumanStamped" "PromotionHumanStamped \<noteq> PromotionNone"
  "ClassImmutable \<noteq> []" "ClassMutable \<noteq> []" "ClassEphemeral \<noteq> []" "PromotionNone \<noteq> []" "PromotionHumanStamped \<noteq> []"
  by (simp_all add: brain_words)

datatype brain_error =
    BrainNoEvidence | BrainImmutable | BrainExpired | BrainTombstoned | BrainBadPath | BrainBadClass | BrainNoHumanStamp | BrainEphemeralAuthority
  | BrainIneligibleKind | BrainPersonalContext | BrainAuthoritySubstitution | BrainQuittanceForgery | BrainEvidenceShape | BrainShape

record hasher =
  hs_marshal :: "json \<Rightarrow> string option"
  hs_sha :: "string \<Rightarrow> string"

record Object =
  bo_Path :: string
  bo_Class :: string
  bo_Revision :: int
  bo_Content :: "json gomap option"
  bo_ContentHash :: string
  bo_Authoritative :: bool
  bo_Promotion :: string
  bo_HumanStamp :: string
  bo_Tombstone :: bool
  bo_EvidenceRef :: string
  bo_CreatedAt :: time
  bo_UpdatedAt :: time
  bo_ExpiresAt :: "time option"

text \<open>Whether no nil occurs, at any depth.\<close>

fun rejectNilValues :: "json \<Rightarrow> bool" and reject_items :: "json list \<Rightarrow> bool" and reject_fields :: "(string \<times> json) list \<Rightarrow> bool" where
  "rejectNilValues JNull = False"
| "rejectNilValues (JObj kvs) = reject_fields kvs"
| "rejectNilValues (JArr js) = reject_items js"
| "rejectNilValues (JBool _) = True"
| "rejectNilValues (JNum _) = True"
| "rejectNilValues (JStr _) = True"
| "reject_items [] = True"
| "reject_items (j # js) = (rejectNilValues j \<and> reject_items js)"
| "reject_fields [] = True"
| "reject_fields ((k, j) # kvs) = (rejectNilValues j \<and> reject_fields kvs)"

definition ContentHashOf :: "hasher \<Rightarrow> json gomap option \<Rightarrow> brain_error + string" where
  "ContentHashOf h content = (case content of None \<Rightarrow> Inl BrainShape
     | Some m \<Rightarrow> if \<not> rejectNilValues (JObj m) then Inl BrainShape
         else case hs_marshal h (JObj m) of None \<Rightarrow> Inl BrainShape | Some b \<Rightarrow> Inr (hs_sha h b))"

definition ObjectValidate :: "hasher \<Rightarrow> Object \<Rightarrow> brain_error option" where
  "ObjectValidate h ob =
     (if \<not> pathPattern (bo_Path ob) \<or> \<not> cleanSegments (bo_Path ob) then Some BrainBadPath
      else if bo_Class ob \<noteq> ClassImmutable \<and> bo_Class ob \<noteq> ClassMutable \<and> bo_Class ob \<noteq> ClassEphemeral then Some BrainBadClass
      else if bo_Promotion ob \<noteq> PromotionNone \<and> bo_Promotion ob \<noteq> PromotionHumanStamped then Some BrainShape
      else if bo_Revision ob < 1 then Some BrainShape
      else if bo_EvidenceRef ob = [] then Some BrainNoEvidence
      else if bo_Content ob = None then Some BrainShape
      else case ContentHashOf h (bo_Content ob) of Inl x \<Rightarrow> Some x
      | Inr want \<Rightarrow>
        if bo_ContentHash ob = [] then Some BrainShape
        else if bo_ContentHash ob \<noteq> want then Some BrainShape
        else if bo_Authoritative ob \<and> bo_Promotion ob \<noteq> PromotionHumanStamped then Some BrainNoHumanStamp
        else if bo_Promotion ob = PromotionHumanStamped \<and> bo_HumanStamp ob = [] then Some BrainNoHumanStamp
        else if bo_Authoritative ob \<and> bo_Class ob = ClassEphemeral then Some BrainEphemeralAuthority
        else if bo_Tombstone ob \<and> bo_Authoritative ob then Some BrainTombstoned
        else if bo_ExpiresAt ob \<noteq> None \<and> bo_Class ob \<noteq> ClassEphemeral then Some BrainShape
        else if IsZero (bo_CreatedAt ob) \<or> IsZero (bo_UpdatedAt ob) then Some BrainShape
        else if bo_UpdatedAt ob < bo_CreatedAt ob then Some BrainShape
        else None)"

text \<open>The result of a constructor: the object when it is valid.\<close>

definition checked :: "hasher \<Rightarrow> Object \<Rightarrow> brain_error + Object" where
  "checked h ob = (case ObjectValidate h ob of Some x \<Rightarrow> Inl x | None \<Rightarrow> Inr ob)"

definition NewObject :: "hasher \<Rightarrow> string \<Rightarrow> string \<Rightarrow> json gomap option \<Rightarrow> string \<Rightarrow> time \<Rightarrow> brain_error + Object" where
  "NewObject h path cls content evidenceRef now =
     (if evidenceRef = [] then Inl BrainNoEvidence
      else case ContentHashOf h content of Inl x \<Rightarrow> Inl x
      | Inr hash \<Rightarrow> checked h \<lparr>bo_Path = path, bo_Class = cls, bo_Revision = 1, bo_Content = content, bo_ContentHash = hash, bo_Authoritative = False,
          bo_Promotion = PromotionNone, bo_HumanStamp = [], bo_Tombstone = False, bo_EvidenceRef = evidenceRef, bo_CreatedAt = now, bo_UpdatedAt = now,
          bo_ExpiresAt = None\<rparr>)"

text \<open>Whether the class of an object lets it be revised at \<open>now\<close>.\<close>

definition revision_refusal :: "Object \<Rightarrow> time \<Rightarrow> brain_error option" where
  "revision_refusal prev now =
     (if bo_Class prev = ClassImmutable then Some BrainImmutable
      else if bo_Class prev = ClassEphemeral then
        (case bo_ExpiresAt prev of None \<Rightarrow> Some BrainExpired | Some t \<Rightarrow> if now < t then None else Some BrainExpired)
      else if bo_Tombstone prev then Some BrainTombstoned else None)"

definition NextRevision :: "hasher \<Rightarrow> Object \<Rightarrow> json gomap option \<Rightarrow> string \<Rightarrow> time \<Rightarrow> brain_error + Object" where
  "NextRevision h prev content evidenceRef now = (case ObjectValidate h prev of Some x \<Rightarrow> Inl x
     | None \<Rightarrow>
       if evidenceRef = [] then Inl BrainNoEvidence
       else case revision_refusal prev now of Some x \<Rightarrow> Inl x
       | None \<Rightarrow> (case ContentHashOf h content of Inl x \<Rightarrow> Inl x
         | Inr hash \<Rightarrow> checked h \<lparr>bo_Path = bo_Path prev, bo_Class = bo_Class prev, bo_Revision = bo_Revision prev + 1, bo_Content = content,
             bo_ContentHash = hash, bo_Authoritative = False, bo_Promotion = PromotionNone, bo_HumanStamp = [], bo_Tombstone = False,
             bo_EvidenceRef = evidenceRef, bo_CreatedAt = bo_CreatedAt prev, bo_UpdatedAt = now, bo_ExpiresAt = bo_ExpiresAt prev\<rparr>))"

definition PromoteToAuthoritative :: "hasher \<Rightarrow> Object \<Rightarrow> string \<Rightarrow> string \<Rightarrow> time \<Rightarrow> brain_error + Object" where
  "PromoteToAuthoritative h ob humanID note now = (case ObjectValidate h ob of Some x \<Rightarrow> Inl x
     | None \<Rightarrow>
       if bo_Class ob = ClassEphemeral then Inl BrainEphemeralAuthority
       else if humanID = [] then Inl BrainNoHumanStamp
       else if note = [] then Inl BrainNoHumanStamp
       else if bo_Tombstone ob then Inl BrainTombstoned
       else if bo_Class ob = ClassImmutable then
         (if bo_Authoritative ob then Inl BrainShape
          else checked h (ob\<lparr>bo_Authoritative := True, bo_Promotion := PromotionHumanStamped, bo_HumanStamp := humanID, bo_UpdatedAt := now\<rparr>))
       else case NextRevision h ob (bo_Content ob) (bo_EvidenceRef ob) now of Inl x \<Rightarrow> Inl x
       | Inr next \<Rightarrow> checked h (next\<lparr>bo_Authoritative := True, bo_Promotion := PromotionHumanStamped, bo_HumanStamp := humanID\<rparr>))"

definition TombstoneObject :: "hasher \<Rightarrow> Object \<Rightarrow> string \<Rightarrow> time \<Rightarrow> brain_error + Object" where
  "TombstoneObject h ob evidenceRef now = (case ObjectValidate h ob of Some x \<Rightarrow> Inl x
     | None \<Rightarrow>
       if bo_Class ob = ClassImmutable then Inl BrainImmutable
       else if bo_Class ob = ClassEphemeral then Inl BrainTombstoned
       else if bo_Tombstone ob then Inl BrainTombstoned
       else case NextRevision h ob (bo_Content ob) evidenceRef now of Inl x \<Rightarrow> Inl x
       | Inr next \<Rightarrow> checked h (next\<lparr>bo_Tombstone := True, bo_Authoritative := False, bo_Promotion := PromotionNone, bo_HumanStamp := []\<rparr>))"

section \<open>Governance\<close>

definition personalMarkers :: "string list" where
  "personalMarkers = [''live_personal_context'', ''personal_context'', ''live_context'', ''session_context'']"

definition authorityMarkers :: "string list" where
  "authorityMarkers = [''authority'', ''grant'', ''grants'', ''mission_authority'', ''mission_envelope'', ''delegation'', ''permission'', ''permissions'',
     ''consent'', ''approval'']"

definition evidenceSchemePrefix :: string where "evidenceSchemePrefix = ''evidence:''"
definition quittanceLayer :: string where "quittanceLayer = ''quittance''"

definition parseEvidenceRef :: "string \<Rightarrow> (string \<times> string) option" where
  "parseEvidenceRef ref = (let rest = drop (length evidenceSchemePrefix) ref; layer = takeWhile (\<lambda>c. c \<noteq> CHR ''/'') rest;
       tail = dropWhile (\<lambda>c. c \<noteq> CHR ''/'') rest in
     if HasPrefix ref evidenceSchemePrefix \<and> tail \<noteq> [] \<and> layer \<noteq> [] \<and> drop 1 tail \<noteq> [] then Some (layer, drop 1 tail) else None)"

text \<open>
  The depth-first scan for the first marked key: the path to it and the key as written. Siblings are visited in the order of their lower-cased keys, a hit
  below a key before the next sibling; here every sibling is scanned and the first hit in that order is taken.
\<close>

definition sub_path :: "string \<Rightarrow> string \<Rightarrow> string" where
  "sub_path path name = (if path = [] then name else path @ ''.'' @ name)"

definition sortedKeys :: "(string \<times> 'a) list \<Rightarrow> (string \<times> 'a) list" where
  "sortedKeys kvs = sort_key (\<lambda>(k, _). (ToLower k, k)) kvs"

definition first_hit :: "'a option list \<Rightarrow> 'a option" where
  "first_hit hits = (case find (\<lambda>x. x \<noteq> None) hits of None \<Rightarrow> None | Some x \<Rightarrow> x)"

fun scanValue :: "string list \<Rightarrow> string \<Rightarrow> json \<Rightarrow> (string \<times> string) option"
  and scan_fields :: "string list \<Rightarrow> string \<Rightarrow> (string \<times> json) list \<Rightarrow> (string \<times> (string \<times> string) option) list"
  and scanSlice :: "string list \<Rightarrow> string \<Rightarrow> nat \<Rightarrow> json list \<Rightarrow> (string \<times> string) option" where
  "scanValue markers path (JObj kvs) = first_hit (map snd (sortedKeys (scan_fields markers path kvs)))"
| "scanValue markers path (JArr js) = scanSlice markers path 0 js"
| "scanValue markers path JNull = None"
| "scanValue markers path (JBool _) = None"
| "scanValue markers path (JNum _) = None"
| "scanValue markers path (JStr _) = None"
| "scan_fields markers path [] = []"
| "scan_fields markers path ((k, j) # kvs) =
     (k, if ToLower k \<in> set markers then Some (sub_path path k, k) else scanValue markers (sub_path path k) j) # scan_fields markers path kvs"
| "scanSlice markers path i [] = None"
| "scanSlice markers path i (j # js) = (case scanValue markers (path @ ''['' @ dec_nat i @ '']'') j of Some hit \<Rightarrow> Some hit | None \<Rightarrow> scanSlice markers path (Suc i) js)"

record Admission =
  am_Kind :: string
  am_Content :: "json gomap option"
  am_EvidenceRef :: string

definition knowledge_kinds :: "string list" where
  "knowledge_kinds = [''settled_evidence'', ''quittance'', ''promoted_know_how'']"

definition Admit :: "Admission \<Rightarrow> brain_error option" where
  "Admit a = (case am_Content a of None \<Rightarrow> Some BrainShape
     | Some m \<Rightarrow>
       if am_Kind a \<notin> set knowledge_kinds then Some BrainIneligibleKind
       else if am_EvidenceRef a = [] then Some BrainNoEvidence
       else case parseEvidenceRef (am_EvidenceRef a) of None \<Rightarrow> Some BrainEvidenceShape
       | Some (layer, _) \<Rightarrow>
         if am_Kind a = ''quittance'' \<and> layer \<noteq> quittanceLayer then Some BrainQuittanceForgery
         else if scanValue personalMarkers [] (JObj m) \<noteq> None then Some BrainPersonalContext
         else if scanValue authorityMarkers [] (JObj m) \<noteq> None then Some BrainAuthoritySubstitution
         else None)"

section \<open>The lineage of an object\<close>

text \<open>The revisions of one path, newest first. The service that writes an ephemeral object sets its expiry.\<close>

inductive lineage :: "hasher \<Rightarrow> Object list \<Rightarrow> bool" for h where
  new: "NewObject h path c content ev now = Inr ob \<Longrightarrow> lineage h [ob]"
| expiry: "lineage h [ob] \<Longrightarrow> bo_Class ob = ClassEphemeral \<Longrightarrow> lineage h [ob\<lparr>bo_ExpiresAt := Some t\<rparr>]"
| revise: "lineage h (ob # obs) \<Longrightarrow> NextRevision h ob content ev now = Inr ob' \<Longrightarrow> lineage h (ob' # ob # obs)"
| stamp: "lineage h (ob # obs) \<Longrightarrow> bo_Class ob = ClassImmutable \<Longrightarrow> PromoteToAuthoritative h ob humanID note now = Inr ob' \<Longrightarrow> lineage h (ob' # obs)"
| promote: "lineage h (ob # obs) \<Longrightarrow> bo_Class ob \<noteq> ClassImmutable \<Longrightarrow> PromoteToAuthoritative h ob humanID note now = Inr ob' \<Longrightarrow> lineage h (ob' # ob # obs)"
| bury: "lineage h (ob # obs) \<Longrightarrow> TombstoneObject h ob ev now = Inr ob' \<Longrightarrow> lineage h (ob' # ob # obs)"

definition valid_object :: "hasher \<Rightarrow> Object \<Rightarrow> bool" where
  "valid_object h ob \<longleftrightarrow> ObjectValidate h ob = None"

lemma checked_Inr [simp]: "checked h ob = Inr ob' \<longleftrightarrow> ob' = ob \<and> valid_object h ob"
  by (auto simp: checked_def valid_object_def split: option.splits)

lemma valid_iff_laws:
  "valid_object h ob \<Longrightarrow> bo_Class ob \<in> {ClassImmutable, ClassMutable, ClassEphemeral} \<and> (bo_Authoritative ob \<longrightarrow> bo_Promotion ob = PromotionHumanStamped
     \<and> bo_HumanStamp ob \<noteq> [] \<and> bo_Class ob \<noteq> ClassEphemeral \<and> \<not> bo_Tombstone ob) \<and> bo_EvidenceRef ob \<noteq> []
     \<and> ContentHashOf h (bo_Content ob) = Inr (bo_ContentHash ob) \<and> pathPattern (bo_Path ob)"
  by (auto simp: valid_object_def ObjectValidate_def split: if_splits sum.splits)

lemma New_Inr:
  assumes "NewObject h path c content ev now = Inr ob"
  shows "valid_object h ob" "bo_Path ob = path" "bo_Class ob = c" "bo_Revision ob = 1" "\<not> bo_Authoritative ob" "\<not> bo_Tombstone ob"
  using assms by (auto simp: NewObject_def split: if_splits sum.splits)

lemma Next_Inr:
  assumes "NextRevision h prev content ev now = Inr ob"
  shows "valid_object h prev" "valid_object h ob" "bo_Path ob = bo_Path prev" "bo_Class ob = bo_Class prev" "bo_Revision ob = bo_Revision prev + 1"
    "\<not> bo_Authoritative ob" "\<not> bo_Tombstone ob" "revision_refusal prev now = None" "bo_Content ob = content"
  using assms by (auto simp: NextRevision_def valid_object_def split: if_splits sum.splits option.splits)

lemma Promote_Inr:
  assumes "PromoteToAuthoritative h ob humanID note now = Inr ob'"
  shows "valid_object h ob" "valid_object h ob'" "bo_Path ob' = bo_Path ob" "bo_Class ob' = bo_Class ob" "bo_Authoritative ob'" "bo_HumanStamp ob' = humanID"
    "humanID \<noteq> []" "note \<noteq> []" "\<not> bo_Tombstone ob" "\<not> bo_Tombstone ob'" "bo_Content ob' = bo_Content ob"
    "bo_Revision ob' = (if bo_Class ob = ClassImmutable then bo_Revision ob else bo_Revision ob + 1)" "bo_Class ob \<noteq> ClassEphemeral"
proof -
  have v: "valid_object h ob" and g: "bo_Class ob \<noteq> ClassEphemeral" "humanID \<noteq> []" "note \<noteq> []" "\<not> bo_Tombstone ob"
    using assms by (auto simp: PromoteToAuthoritative_def valid_object_def split: option.splits if_splits)
  have eq: "PromoteToAuthoritative h ob humanID note now = (if bo_Class ob = ClassImmutable then
         (if bo_Authoritative ob then Inl BrainShape
          else checked h (ob\<lparr>bo_Authoritative := True, bo_Promotion := PromotionHumanStamped, bo_HumanStamp := humanID, bo_UpdatedAt := now\<rparr>))
       else case NextRevision h ob (bo_Content ob) (bo_EvidenceRef ob) now of Inl x \<Rightarrow> Inl x
       | Inr next \<Rightarrow> checked h (next\<lparr>bo_Authoritative := True, bo_Promotion := PromotionHumanStamped, bo_HumanStamp := humanID\<rparr>))"
    using v g by (simp add: PromoteToAuthoritative_def valid_object_def)
  show "valid_object h ob" "valid_object h ob'" "bo_Path ob' = bo_Path ob" "bo_Class ob' = bo_Class ob" "bo_Authoritative ob'" "bo_HumanStamp ob' = humanID"
    "humanID \<noteq> []" "note \<noteq> []" "\<not> bo_Tombstone ob" "\<not> bo_Tombstone ob'" "bo_Content ob' = bo_Content ob"
    "bo_Revision ob' = (if bo_Class ob = ClassImmutable then bo_Revision ob else bo_Revision ob + 1)" "bo_Class ob \<noteq> ClassEphemeral"
    using assms v g unfolding eq by (auto split: if_splits sum.splits dest: Next_Inr)
qed

lemma Tombstone_Inr:
  assumes "TombstoneObject h ob ev now = Inr ob'"
  shows "valid_object h ob" "valid_object h ob'" "bo_Path ob' = bo_Path ob" "bo_Class ob' = bo_Class ob" "bo_Revision ob' = bo_Revision ob + 1"
    "\<not> bo_Authoritative ob'" "bo_Tombstone ob'" "bo_Class ob = ClassMutable" "\<not> bo_Tombstone ob"
proof -
  have v: "valid_object h ob" and g: "bo_Class ob \<noteq> ClassEphemeral" "bo_Class ob \<noteq> ClassImmutable" "\<not> bo_Tombstone ob"
    using assms by (auto simp: TombstoneObject_def valid_object_def split: option.splits if_splits)
  have eq: "TombstoneObject h ob ev now = (case NextRevision h ob (bo_Content ob) ev now of Inl x \<Rightarrow> Inl x
       | Inr next \<Rightarrow> checked h (next\<lparr>bo_Tombstone := True, bo_Authoritative := False, bo_Promotion := PromotionNone, bo_HumanStamp := []\<rparr>))"
    using v g by (simp add: TombstoneObject_def valid_object_def)
  show "valid_object h ob" "valid_object h ob'" "bo_Path ob' = bo_Path ob" "bo_Class ob' = bo_Class ob" "bo_Revision ob' = bo_Revision ob + 1"
    "\<not> bo_Authoritative ob'" "bo_Tombstone ob'" "\<not> bo_Tombstone ob"
    using assms v g unfolding eq by (auto split: sum.splits dest: Next_Inr)
  show "bo_Class ob = ClassMutable" using v g valid_iff_laws by blast
qed

text \<open>What a lineage looks like: revisions without gaps, of one path and class, valid, an immutable one alone, a dead one newest.\<close>

definition lineage_ok :: "hasher \<Rightarrow> Object list \<Rightarrow> bool" where
  "lineage_ok h obs \<longleftrightarrow> obs \<noteq> [] \<and> list_all (valid_object h) obs \<and> map bo_Revision obs = rev [1..int (length obs)]
     \<and> list_all (\<lambda>ob. bo_Path ob = bo_Path (hd obs) \<and> bo_Class ob = bo_Class (hd obs)) obs \<and> (bo_Class (hd obs) = ClassImmutable \<longrightarrow> length obs = 1)
     \<and> list_all (\<lambda>ob. \<not> bo_Tombstone ob) (tl obs) \<and> (bo_Tombstone (hd obs) \<longrightarrow> bo_Class (hd obs) = ClassMutable)"

lemma lineage_ok_push:
  assumes "lineage_ok h (ob # obs)" "valid_object h ob'" "bo_Path ob' = bo_Path ob" "bo_Class ob' = bo_Class ob" "bo_Revision ob' = bo_Revision ob + 1"
    "bo_Class ob \<noteq> ClassImmutable" "\<not> bo_Tombstone ob" "bo_Tombstone ob' \<longrightarrow> bo_Class ob = ClassMutable"
  shows "lineage_ok h (ob' # ob # obs)"
proof -
  have revs: "map bo_Revision (ob # obs) = rev [1..int (length (ob # obs))]" using assms(1) by (simp only: lineage_ok_def)
  have "bo_Revision ob = int (length (ob # obs))" using revs by (simp add: upto_rec2)
  moreover have "[1..int n + 2] = [1..1 + int n] @ [int n + 2]" for n by (subst upto_rec2) (simp_all add: algebra_simps)
  ultimately have "map bo_Revision (ob' # ob # obs) = rev [1..int (length (ob' # ob # obs))]" using revs assms(5) by (simp add: algebra_simps)
  then show ?thesis using assms by (auto simp: lineage_ok_def list_all_iff)
qed

lemma lineage_is_ok: "lineage h obs \<Longrightarrow> lineage_ok h obs"
proof (induction rule: lineage.induct)
  case (new path c content ev now ob)
  then show ?case using New_Inr [OF new] by (simp add: lineage_ok_def)
next
  case (expiry ob t)
  have "valid_object h ob" "bo_Class ob = ClassEphemeral" using expiry by (simp_all add: lineage_ok_def)
  then have "valid_object h (ob\<lparr>bo_ExpiresAt := Some t\<rparr>)" by (simp add: valid_object_def ObjectValidate_def split: if_splits sum.splits)
  then show ?case using expiry by (simp add: lineage_ok_def)
next
  case (revise ob obs content ev now ob')
  have "bo_Class ob \<noteq> ClassImmutable" "\<not> bo_Tombstone ob \<or> bo_Class ob = ClassEphemeral" using Next_Inr(8) [OF revise(2)] by (auto simp: revision_refusal_def split: if_splits)
  moreover have "bo_Class ob = ClassEphemeral \<Longrightarrow> \<not> bo_Tombstone ob" using revise.IH by (auto simp: lineage_ok_def)
  ultimately show ?case using lineage_ok_push [OF revise.IH] Next_Inr [OF revise(2)] by blast
next
  case (stamp ob obs humanID remark now ob')
  then show ?case using Promote_Inr [OF stamp(3)] by (auto simp: lineage_ok_def)
next
  case (promote ob obs humanID remark now ob')
  then show ?case using lineage_ok_push [OF promote.IH] Promote_Inr [OF promote(3)] by auto
next
  case (bury ob obs ev now ob')
  then show ?case using lineage_ok_push [OF bury.IH] Tombstone_Inr [OF bury(2)] by auto
qed

lemma authority_is_promoted:
  "lineage h obs \<Longrightarrow> list_all (\<lambda>ob. bo_Authoritative ob \<longrightarrow> (\<exists>prev humanID remark now. PromoteToAuthoritative h prev humanID remark now = Inr ob)) obs"
proof (induction rule: lineage.induct)
  case (expiry ob t)
  have "valid_object h ob" using lineage_is_ok [OF expiry(1)] by (simp add: lineage_ok_def)
  then have "\<not> bo_Authoritative ob" using valid_iff_laws [of h ob] expiry(2) by blast
  then show ?case by simp
qed (auto dest: New_Inr(5) Next_Inr(6) Tombstone_Inr(6))

section \<open>Keys at any depth\<close>

fun all_keys :: "json \<Rightarrow> string set" and item_keys :: "json list \<Rightarrow> string set" and field_keys :: "(string \<times> json) list \<Rightarrow> string set" where
  "all_keys (JObj kvs) = field_keys kvs"
| "all_keys (JArr js) = item_keys js"
| "all_keys JNull = {}"
| "all_keys (JBool _) = {}"
| "all_keys (JNum _) = {}"
| "all_keys (JStr _) = {}"
| "item_keys [] = {}"
| "item_keys (j # js) = all_keys j \<union> item_keys js"
| "field_keys [] = {}"
| "field_keys ((k, j) # kvs) = insert k (all_keys j \<union> field_keys kvs)"

definition claims_nothing :: "json gomap \<Rightarrow> bool" where
  "claims_nothing m \<longleftrightarrow> (\<forall>k \<in> all_keys (JObj m). ToLower k \<notin> set personalMarkers \<and> ToLower k \<notin> set authorityMarkers)"

lemma first_hit_None: "first_hit hits = None \<longleftrightarrow> (\<forall>x \<in> set hits. x = None)"
  by (auto simp: first_hit_def find_None_iff find_Some_iff split: option.splits) (metis nth_mem option.distinct(1))

lemma set_sortedKeys [simp]: "set (sortedKeys kvs) = set kvs"
  by (simp add: sortedKeys_def)

lemma scan_keys:
  "scanValue markers path j = None \<longleftrightarrow> (\<forall>k \<in> all_keys j. ToLower k \<notin> set markers)"
  "(\<forall>x \<in> set (scan_fields markers path kvs). snd x = None) \<longleftrightarrow> (\<forall>k \<in> field_keys kvs. ToLower k \<notin> set markers)"
  "scanSlice markers path i js = None \<longleftrightarrow> (\<forall>k \<in> item_keys js. ToLower k \<notin> set markers)"
proof (induction markers path j and markers path kvs and markers path i js rule: scanValue_scan_fields_scanSlice.induct)
  case (8 markers path k j kvs)
  then show ?case by (cases "ToLower k \<in> set markers") auto
next
  case (10 markers path i j js)
  then show ?case by (auto split: option.splits)
qed (auto simp: first_hit_None)

section \<open>Prefixes of paths\<close>

lemma HasPrefix_iff: "HasPrefix s p \<longleftrightarrow> (\<exists>t. s = p @ t)"
  by (auto simp: HasPrefix_def) (metis append_take_drop_id)

lemma split_org_append: "split_org p = Some (org, r) \<Longrightarrow> split_org (p @ t) = Some (org, r @ t)"
proof -
  assume s: "split_org p = Some (org, r)"
  let ?r = "drop 5 p"
  have p: "HasPrefix p ''/org/''" "takeWhile org_char ?r = org" "org \<noteq> []" "take 1 (dropWhile org_char ?r) = ''/''" "r = drop 1 (dropWhile org_char ?r)"
    using s by (auto simp: split_org_def Let_def split: if_splits)
  have len: "length p \<ge> 5" using p(1) by (auto simp: HasPrefix_iff)
  obtain u where u: "dropWhile org_char ?r = CHR ''/'' # u" using p(4) by (cases "dropWhile org_char ?r") auto
  have "?r = org @ CHR ''/'' # u" using takeWhile_dropWhile_id [of org_char ?r] by (simp add: p(2) u)
  moreover have "\<not> org_char CHR ''/''" by (simp add: org_char_def is_hex_def)
  moreover have "list_all org_char org" using p(2) by (auto simp: list_all_iff dest: set_takeWhileD)
  ultimately have "takeWhile org_char (?r @ t) = org \<and> dropWhile org_char (?r @ t) = CHR ''/'' # u @ t" by (auto simp: list_all_iff takeWhile_append2 dropWhile_append2)
  moreover have "HasPrefix (p @ t) ''/org/''" "drop 5 (p @ t) = ?r @ t" using p(1) len by (auto simp: HasPrefix_iff)
  ultimately show ?thesis using p(3,5) u by (simp add: split_org_def Let_def)
qed

section \<open>Properties\<close>

text \<open>The laws of the namespace hold along every lineage: revisions are numbered without gaps and never change path or class, an immutable object has one
  revision, a tombstone is the last revision and nothing can revise, promote or bury it again, every revision is valid, and a revision is authoritative only if
  a promotion with a named human and a recorded note made it, never if it is ephemeral or dead.\<close>

theorem brain_lineage_laws:
  assumes "lineage h (ob # obs)"
  shows "lineage_ok h (ob # obs) \<and> (bo_Tombstone ob \<longrightarrow> isl (NextRevision h ob content ev now) \<and> isl (PromoteToAuthoritative h ob humanID remark now)
      \<and> isl (TombstoneObject h ob ev now))
    \<and> (\<forall>x \<in> set (ob # obs). bo_Authoritative x \<longrightarrow> bo_Class x \<noteq> ClassEphemeral \<and> \<not> bo_Tombstone x \<and> (\<exists>prev who why at0.
        PromoteToAuthoritative h prev who why at0 = Inr x \<and> who \<noteq> [] \<and> why \<noteq> [] \<and> bo_HumanStamp x = who \<and> bo_Content x = bo_Content prev))"
proof (intro conjI impI ballI)
  show ok: "lineage_ok h (ob # obs)" by (rule lineage_is_ok [OF assms])
  assume dead: "bo_Tombstone ob"
  then have "bo_Class ob = ClassMutable" using ok by (simp add: lineage_ok_def)
  then have "revision_refusal ob now = Some BrainTombstoned" using dead by (simp add: revision_refusal_def)
  then show "isl (NextRevision h ob content ev now)" by (auto simp: NextRevision_def split: option.splits)
  show "isl (PromoteToAuthoritative h ob humanID remark now)"
    using Promote_Inr(9) dead by (metis sum.collapse(2))
  show "isl (TombstoneObject h ob ev now)" using Tombstone_Inr(9) dead by (metis sum.collapse(2))
next
  fix x assume x: "x \<in> set (ob # obs)" "bo_Authoritative x"
  have "list_all (valid_object h) (ob # obs)" using lineage_is_ok [OF assms] unfolding lineage_ok_def by blast
  then have "valid_object h x" using x(1) unfolding list_all_iff by blast
  then show "bo_Class x \<noteq> ClassEphemeral" "\<not> bo_Tombstone x" using valid_iff_laws [of h x] x(2) by simp_all
  obtain prev who why at0 where p: "PromoteToAuthoritative h prev who why at0 = Inr x"
    using authority_is_promoted [OF assms] x by (auto simp: list_all_iff)
  then show "\<exists>prev who why at0. PromoteToAuthoritative h prev who why at0 = Inr x \<and> who \<noteq> [] \<and> why \<noteq> [] \<and> bo_HumanStamp x = who \<and> bo_Content x = bo_Content prev"
    using Promote_Inr [OF p] by blast
qed

text \<open>A mount sees exactly the well-formed paths at or below its prefix, compared by whole segments; such a path is always of the mount's organisation.\<close>

theorem mount_sees_subtree:
  "MatchMount path m \<longleftrightarrow> mountPrefixPattern m \<noteq> None \<and> cleanSegments m \<and> pathPattern path \<and> cleanSegments path \<and> (path = m \<or> (\<exists>t. path = m @ ''/'' @ t))"
proof -
  have org: "orgSegmentPattern path = Some org" if m: "mountPrefixPattern m = Some org" and p: "path = m @ t" for org t
  proof -
    obtain r where "split_org m = Some (org, r)"
      using m unfolding mountPrefixPattern_def by (cases "split_org m") (fastforce split: option.splits if_splits)+
    then show ?thesis using p split_org_append by (simp add: orgSegmentPattern_def)
  qed
  have "orgSegmentPattern path = mountPrefixPattern m" if "mountPrefixPattern m \<noteq> None" "path = m \<or> (\<exists>t. path = m @ ''/'' @ t)"
    using that org [of _ "[]"] org [of _ "''/'' @ t" for t] by fastforce
  then show ?thesis by (auto simp: MatchMount_def HasPrefix_iff split: option.splits)
qed

text \<open>The governance gate admits exactly durable knowledge with well-shaped evidence whose content has, at any depth and in any case, no key that claims
  personal context or authority; a quittance must cite the quittance layer.\<close>

theorem admission_gate_exact:
  "Admit a = None \<longleftrightarrow> (\<exists>m layer ident. am_Content a = Some m \<and> am_Kind a \<in> set knowledge_kinds \<and> parseEvidenceRef (am_EvidenceRef a) = Some (layer, ident)
     \<and> am_EvidenceRef a = ''evidence:'' @ layer @ ''/'' @ ident \<and> layer \<noteq> [] \<and> ident \<noteq> [] \<and> (am_Kind a = ''quittance'' \<longrightarrow> layer = ''quittance'')
     \<and> claims_nothing m)"
proof -
  have shape: "am_EvidenceRef a = ''evidence:'' @ layer @ ''/'' @ ident \<and> layer \<noteq> [] \<and> ident \<noteq> []" if p: "parseEvidenceRef (am_EvidenceRef a) = Some (layer, ident)" for layer ident
  proof -
    let ?r = "drop 9 (am_EvidenceRef a)"
    have r: "am_EvidenceRef a = ''evidence:'' @ ?r" "layer = takeWhile (\<lambda>c. c \<noteq> CHR ''/'') ?r" "ident = drop 1 (dropWhile (\<lambda>c. c \<noteq> CHR ''/'') ?r)"
      "layer \<noteq> []" "ident \<noteq> []" "dropWhile (\<lambda>c. c \<noteq> CHR ''/'') ?r \<noteq> []"
      using p by (auto simp: parseEvidenceRef_def evidenceSchemePrefix_def Let_def HasPrefix_iff split: if_splits)
    have "dropWhile (\<lambda>c. c \<noteq> CHR ''/'') ?r = ''/'' @ ident"
      using r(3,6) hd_dropWhile [of "\<lambda>c. c \<noteq> CHR ''/''" ?r] by (cases "dropWhile (\<lambda>c. c \<noteq> CHR ''/'') ?r") auto
    then have "?r = layer @ ''/'' @ ident" using takeWhile_dropWhile_id [of "\<lambda>c. c \<noteq> CHR ''/''" ?r] r(2) by simp
    then show ?thesis using r(1,4,5) by simp
  qed
  have "parseEvidenceRef [] = None" by (simp add: parseEvidenceRef_def evidenceSchemePrefix_def HasPrefix_def)
  then have ne: "am_EvidenceRef a \<noteq> []" if "parseEvidenceRef (am_EvidenceRef a) = Some x" for x using that by auto
  show ?thesis
  proof (cases "am_Content a")
    case (Some m)
    have scan: "scanValue markers [] (JObj m) = None \<longleftrightarrow> (\<forall>k \<in> all_keys (JObj m). ToLower k \<notin> set markers)" for markers by (rule scan_keys(1))
    define personal authority where "personal = scanValue personalMarkers [] (JObj m)" and "authority = scanValue authorityMarkers [] (JObj m)"
    have keys: "personal = None \<and> authority = None \<longleftrightarrow> claims_nothing m" unfolding personal_def authority_def scan claims_nothing_def by blast
    have "Admit a = (if am_Kind a \<notin> set knowledge_kinds then Some BrainIneligibleKind else if am_EvidenceRef a = [] then Some BrainNoEvidence
       else case parseEvidenceRef (am_EvidenceRef a) of None \<Rightarrow> Some BrainEvidenceShape
       | Some (layer, _) \<Rightarrow> if am_Kind a = ''quittance'' \<and> layer \<noteq> quittanceLayer then Some BrainQuittanceForgery
         else if personal \<noteq> None then Some BrainPersonalContext else if authority \<noteq> None then Some BrainAuthoritySubstitution else None)"
      unfolding Admit_def Some option.case personal_def authority_def by (rule refl)
    then have "Admit a = None \<longleftrightarrow> am_Kind a \<in> set knowledge_kinds \<and> (\<exists>layer ident. parseEvidenceRef (am_EvidenceRef a) = Some (layer, ident)
        \<and> (am_Kind a = ''quittance'' \<longrightarrow> layer = ''quittance'') \<and> personal = None \<and> authority = None)"
      using ne by (auto simp: quittanceLayer_def split: option.splits if_splits)
    also have "\<dots> \<longleftrightarrow> (\<exists>layer ident. am_Content a = Some m \<and> am_Kind a \<in> set knowledge_kinds \<and> parseEvidenceRef (am_EvidenceRef a) = Some (layer, ident)
        \<and> am_EvidenceRef a = ''evidence:'' @ layer @ ''/'' @ ident \<and> layer \<noteq> [] \<and> ident \<noteq> [] \<and> (am_Kind a = ''quittance'' \<longrightarrow> layer = ''quittance'') \<and> claims_nothing m)"
      using Some shape keys by metis
    also have "\<dots> \<longleftrightarrow> (\<exists>m' layer ident. am_Content a = Some m' \<and> am_Kind a \<in> set knowledge_kinds \<and> parseEvidenceRef (am_EvidenceRef a) = Some (layer, ident)
        \<and> am_EvidenceRef a = ''evidence:'' @ layer @ ''/'' @ ident \<and> layer \<noteq> [] \<and> ident \<noteq> [] \<and> (am_Kind a = ''quittance'' \<longrightarrow> layer = ''quittance'') \<and> claims_nothing m')"
      by (simp add: Some del: append_Cons)
    finally show ?thesis .
  qed (simp add: Admit_def)
qed

section \<open>An example\<close>

definition demo_hasher :: hasher where
  "demo_hasher = \<lparr>hs_marshal = (\<lambda>_. Some ''{}''), hs_sha = (\<lambda>s. CHR ''h'' # s)\<rparr>"

definition demo_note :: Object where
  "demo_note = \<lparr>bo_Path = ''/org/a1/notes/x'', bo_Class = ClassMutable, bo_Revision = 1, bo_Content = Some [(''t'', JStr ''v'')], bo_ContentHash = ''h{}'',
     bo_Authoritative = False, bo_Promotion = PromotionNone, bo_HumanStamp = [], bo_Tombstone = False, bo_EvidenceRef = ''ev'', bo_CreatedAt = 5, bo_UpdatedAt = 5,
     bo_ExpiresAt = None\<rparr>"

lemma demo_note_new: "NewObject demo_hasher ''/org/a1/notes/x'' ClassMutable (Some [(''t'', JStr ''v'')]) ''ev'' 5 = Inr demo_note"
  by code_simp

theorem brain_lineage_laws_witness:
  "\<exists>ob. PromoteToAuthoritative demo_hasher demo_note ''ada'' ''agreed'' 6 = Inr ob \<and> lineage_ok demo_hasher [ob, demo_note] \<and> bo_HumanStamp ob = ''ada''"
proof -
  have "\<not> isl (PromoteToAuthoritative demo_hasher demo_note ''ada'' ''agreed'' 6)" by code_simp
  then obtain ob where ob: "PromoteToAuthoritative demo_hasher demo_note ''ada'' ''agreed'' 6 = Inr ob" by (metis sum.collapse(2))
  have "lineage demo_hasher [demo_note]" by (rule lineage.new [OF demo_note_new])
  then have l: "lineage demo_hasher [ob, demo_note]" by (rule lineage.promote [OF _ _ ob]) (simp add: demo_note_def)
  from brain_lineage_laws [OF l] show ?thesis using ob Promote_Inr(6) [OF ob] by blast
qed

definition demo_quittance :: Admission where
  "demo_quittance = \<lparr>am_Kind = ''quittance'', am_Content = Some [(''total'', JStr ''12'')], am_EvidenceRef = ''evidence:quittance/q1''\<rparr>"

theorem admission_gate_exact_witness:
  "Admit demo_quittance = None \<and> claims_nothing (the (am_Content demo_quittance))"
proof -
  have "Admit demo_quittance = None" by code_simp
  with admission_gate_exact [of demo_quittance] show ?thesis by auto
qed

end
