(* ===== verification/Brain_Store.thy ===== *)
theory Brain_Store
  imports Brain_Laws Worker_Auth
begin

text \<open>
  The stored brain and its routes: the tables (\<^verbatim>\<open>services/work/store/brain_store.go\<close>), the adapter between them and the routes
  (\<^verbatim>\<open>services/api/brain_store_backend.go\<close>) and the routes (\<^verbatim>\<open>services/api/brain_handler.go\<close>). The JSON encoding of scalars and strings, its validity check and
  SHA-256 are the record \<open>brain_codec\<close>, a parameter; the canonical encoding of objects and lists is the code's own. Timestamps are stored in a layout of
  fixed width, so the column is the time itself. A body that does not decode is \<open>None\<close>, and a reply carries the
  stored row, of which the code renders a projection. Corrupt columns, which the reads refuse, cannot occur here.
\<close>

section \<open>Canonical content\<close>

record brain_codec = hasher +
  bc_valid :: "string \<Rightarrow> bool"

fun hasNilMember :: "json \<Rightarrow> bool" and nil_items :: "json list \<Rightarrow> bool" and nil_fields :: "(string \<times> json) list \<Rightarrow> bool" where
  "hasNilMember (JObj kvs) = nil_fields kvs"
| "hasNilMember (JArr js) = nil_items js"
| "hasNilMember JNull = False"
| "hasNilMember (JBool _) = False"
| "hasNilMember (JNum _) = False"
| "hasNilMember (JStr _) = False"
| "nil_items [] = False"
| "nil_items (j # js) = (j = JNull \<or> hasNilMember j \<or> nil_items js)"
| "nil_fields [] = False"
| "nil_fields ((k, j) # kvs) = (j = JNull \<or> hasNilMember j \<or> nil_fields kvs)"

text \<open>An object's members are written in the order of their keys; the members are encoded first here and sorted after.\<close>

fun marshalCanonical :: "(json \<Rightarrow> string option) \<Rightarrow> json \<Rightarrow> string option"
  and canonical_fields :: "(json \<Rightarrow> string option) \<Rightarrow> (string \<times> json) list \<Rightarrow> (string \<times> string) list option"
  and canonical_items :: "(json \<Rightarrow> string option) \<Rightarrow> json list \<Rightarrow> string list option" where
  "marshalCanonical enc (JObj kvs) = (case canonical_fields enc kvs of None \<Rightarrow> None
     | Some parts \<Rightarrow> Some (''{'' @ Join (map snd (sort_key fst parts)) '','' @ ''}''))"
| "marshalCanonical enc (JArr js) = (case canonical_items enc js of None \<Rightarrow> None | Some parts \<Rightarrow> Some (''['' @ Join parts '','' @ '']''))"
| "marshalCanonical enc JNull = enc JNull"
| "marshalCanonical enc (JBool b) = enc (JBool b)"
| "marshalCanonical enc (JNum n) = enc (JNum n)"
| "marshalCanonical enc (JStr s) = enc (JStr s)"
| "canonical_fields enc [] = Some []"
| "canonical_fields enc ((k, j) # kvs) = (case enc (JStr k) of None \<Rightarrow> None | Some kb \<Rightarrow> (case marshalCanonical enc j of None \<Rightarrow> None
     | Some vb \<Rightarrow> (case canonical_fields enc kvs of None \<Rightarrow> None | Some parts \<Rightarrow> Some ((k, kb @ '':'' @ vb) # parts))))"
| "canonical_items enc [] = Some []"
| "canonical_items enc (j # js) = (case marshalCanonical enc j of None \<Rightarrow> None
     | Some vb \<Rightarrow> (case canonical_items enc js of None \<Rightarrow> None | Some parts \<Rightarrow> Some (vb # parts)))"

datatype canonical_result = Canonical string | NotRoundtripSafe | NotEncodable

text \<open>A missing content is Go's nil map, which encodes as null.\<close>

definition canonicalContentJSON :: "brain_codec \<Rightarrow> json gomap option \<Rightarrow> canonical_result" where
  "canonicalContentJSON bc content = (let v = (case content of None \<Rightarrow> JNull | Some m \<Rightarrow> JObj m) in
     if hasNilMember v then NotRoundtripSafe
     else case marshalCanonical (hs_marshal bc) v of None \<Rightarrow> NotEncodable | Some out \<Rightarrow> Canonical out)"

section \<open>Tables\<close>

record BrainObject =
  br_Path :: string
  br_Revision :: int
  br_Class :: string
  br_ContentJSON :: string
  br_ContentHash :: string
  br_Authoritative :: bool
  br_Promotion :: string
  br_HumanStamp :: string
  br_Tombstone :: bool
  br_EvidenceRef :: string
  br_ExpiresAt :: "time option"
  br_CreatedAt :: time
  br_UpdatedAt :: time

record BrainMount =
  mt_ID :: string
  mt_Subject :: string
  mt_PathPrefix :: string
  mt_Scopes :: "string list"
  mt_CreatedAt :: time
  mt_ExpiresAt :: time
  mt_Revoked :: bool

record brain_db =
  objects :: "BrainObject list"
  bmounts :: "BrainMount list"

datatype brain_store_error = BrainInvalidRow | ErrBrainRevisionExists | BrainCheckFailed | BrainNotStampable | BrainNotFound

definition valid_classes :: "string list" where "valid_classes = [ClassImmutable, ClassMutable, ClassEphemeral]"

text \<open>The row as it is inserted: defaults for the promotion and the times, and a zero expiry is none.\<close>

definition stored_row :: "time \<Rightarrow> BrainObject \<Rightarrow> BrainObject" where
  "stored_row now r = r\<lparr>br_Promotion := (if br_Promotion r = [] then PromotionNone else br_Promotion r),
     br_CreatedAt := (if IsZero (br_CreatedAt r) then now else br_CreatedAt r), br_UpdatedAt := (if IsZero (br_UpdatedAt r) then now else br_UpdatedAt r),
     br_ExpiresAt := (case br_ExpiresAt r of None \<Rightarrow> None | Some t \<Rightarrow> if IsZero t then None else Some t)\<rparr>"

definition PutBrainObject :: "brain_codec \<Rightarrow> time \<Rightarrow> BrainObject \<Rightarrow> brain_db \<Rightarrow> brain_store_error option \<times> brain_db" where
  "PutBrainObject bc now r s =
     (if br_Path r = [] then (Some BrainInvalidRow, s)
      else if br_Revision r < 1 then (Some BrainInvalidRow, s)
      else if \<not> bc_valid bc (br_ContentJSON r) then (Some BrainInvalidRow, s)
      else if br_EvidenceRef r = [] then (Some BrainInvalidRow, s)
      else let r' = stored_row now r in
      if br_Promotion r' = PromotionHumanStamped \<and> br_HumanStamp r' = [] then (Some BrainInvalidRow, s)
      else if list_ex (\<lambda>x. br_Path x = br_Path r' \<and> br_Revision x = br_Revision r') (objects s) then (Some ErrBrainRevisionExists, s)
      else if br_Class r' \<notin> set valid_classes \<or> br_Promotion r' \<noteq> PromotionNone \<and> br_Promotion r' \<noteq> PromotionHumanStamped then (Some BrainCheckFailed, s)
      else (None, s\<lparr>objects := objects s @ [r']\<rparr>))"

definition stampable :: "string \<Rightarrow> BrainObject \<Rightarrow> bool" where
  "stampable path r \<longleftrightarrow> br_Path r = path \<and> br_Revision r = 1 \<and> br_Class r = ClassImmutable \<and> \<not> br_Authoritative r \<and> \<not> br_Tombstone r"

definition stamp_row :: "time \<Rightarrow> string \<Rightarrow> BrainObject \<Rightarrow> BrainObject" where
  "stamp_row now humanStamp r = r\<lparr>br_Authoritative := True, br_Promotion := PromotionHumanStamped, br_HumanStamp := humanStamp, br_UpdatedAt := now\<rparr>"

definition StampBrainPromotion :: "time \<Rightarrow> string \<Rightarrow> string \<Rightarrow> brain_db \<Rightarrow> brain_store_error option \<times> brain_db" where
  "StampBrainPromotion now path humanStamp s =
     (if humanStamp = [] then (Some BrainInvalidRow, s)
      else if list_ex (stampable path) (objects s) then (None, s\<lparr>objects := update_where (stampable path) (stamp_row now humanStamp) (objects s)\<rparr>)
      else if list_ex (\<lambda>r. br_Path r = path \<and> br_Revision r = 1) (objects s) then (Some BrainNotStampable, s)
      else (Some BrainNotFound, s))"

definition LatestRevision :: "string \<Rightarrow> brain_db \<Rightarrow> int" where
  "LatestRevision path s = fold max (map br_Revision (filter (\<lambda>r. br_Path r = path) (objects s))) 0"

text \<open>Revision 0 reads the latest.\<close>

definition GetBrainObject :: "string \<Rightarrow> int \<Rightarrow> brain_db \<Rightarrow> BrainObject option" where
  "GetBrainObject path revision s = (let rev = (if revision = 0 then LatestRevision path s else revision) in
     find (\<lambda>r. br_Path r = path \<and> br_Revision r = rev) (objects s))"

definition Tombstoned :: "string \<Rightarrow> brain_db \<Rightarrow> bool" where
  "Tombstoned path s = (case GetBrainObject path 0 s of None \<Rightarrow> False | Some r \<Rightarrow> br_Tombstone r)"

definition ListBrainPathsWithPrefix :: "string \<Rightarrow> int \<Rightarrow> brain_db \<Rightarrow> string list" where
  "ListBrainPathsWithPrefix prefix limit s =
     (let limit = (if limit \<le> 0 then 50 else limit); limit = (if limit > 500 then 500 else limit);
          newest = filter (\<lambda>r. HasPrefix (br_Path r) prefix \<and> br_Revision r = LatestRevision (br_Path r) s) (objects s) in
      take (nat limit) (map br_Path (sort_key (\<lambda>r. (- br_UpdatedAt r, br_Path r)) newest)))"

definition CreateBrainMount :: "time \<Rightarrow> BrainMount \<Rightarrow> brain_db \<Rightarrow> brain_store_error option \<times> brain_db" where
  "CreateBrainMount now m s =
     (if mt_ID m = [] \<or> mt_Subject m = [] \<or> mt_PathPrefix m = [] then (Some BrainInvalidRow, s)
      else if mt_Scopes m = [] then (Some BrainInvalidRow, s)
      else let m' = m\<lparr>mt_CreatedAt := (if IsZero (mt_CreatedAt m) then now else mt_CreatedAt m)\<rparr> in
      if IsZero (mt_ExpiresAt m) then (Some BrainInvalidRow, s)
      else if list_ex (\<lambda>x. mt_ID x = mt_ID m) (bmounts s) then (Some BrainCheckFailed, s)
      else (None, s\<lparr>bmounts := bmounts s @ [m']\<rparr>))"

definition RevokeBrainMount :: "string \<Rightarrow> brain_db \<Rightarrow> brain_db" where
  "RevokeBrainMount mid s = s\<lparr>bmounts := update_where (\<lambda>m. mt_ID m = mid) (\<lambda>m. m\<lparr>mt_Revoked := True\<rparr>) (bmounts s)\<rparr>"

definition ListBrainMounts :: "string \<Rightarrow> bool \<Rightarrow> brain_db \<Rightarrow> BrainMount list" where
  "ListBrainMounts subject includeRevoked s =
     sort_key mt_CreatedAt (filter (\<lambda>m. mt_Subject m = subject \<and> (includeRevoked \<or> \<not> mt_Revoked m)) (bmounts s))"

section \<open>The adapter\<close>

record BrainPut =
  bp_Path :: string
  bp_Revision :: int
  bp_Class :: string
  bp_ContentJSON :: string
  bp_EvidenceRef :: string
  bp_Authoritative :: bool
  bp_Promotion :: string
  bp_HumanStamp :: string
  bp_Tombstone :: bool
  bp_ExpiresAt :: "time option"
  bp_ContentHash :: string

definition mapPromotion :: "string \<Rightarrow> string" where
  "mapPromotion p = (if p = [] then PromotionNone else p)"

text \<open>The row an append asks for: the next revision, and the stamp as the evidence of a promotion.\<close>

definition put_row :: "BrainPut \<Rightarrow> int \<Rightarrow> BrainObject" where
  "put_row p latest = \<lparr>br_Path = bp_Path p, br_Revision = (if bp_Revision p = 0 then latest + 1 else bp_Revision p), br_Class = bp_Class p,
     br_ContentJSON = (if bp_ContentJSON p = [] then ''{}'' else bp_ContentJSON p), br_ContentHash = bp_ContentHash p,
     br_Authoritative = bp_Authoritative p, br_Promotion = mapPromotion (bp_Promotion p), br_HumanStamp = bp_HumanStamp p, br_Tombstone = bp_Tombstone p,
     br_EvidenceRef = (if bp_EvidenceRef p = [] \<and> bp_Authoritative p then ''human-stamp:'' @ bp_HumanStamp p else bp_EvidenceRef p),
     br_ExpiresAt = bp_ExpiresAt p, br_CreatedAt = 0, br_UpdatedAt = 0\<rparr>"

definition BackendPut :: "brain_codec \<Rightarrow> time \<Rightarrow> BrainPut \<Rightarrow> brain_db \<Rightarrow> (brain_store_error + BrainObject) \<times> brain_db" where
  "BackendPut bc now p s =
     (if bp_Revision p = 1 \<and> bp_Authoritative p \<and> bp_Promotion p = PromotionHumanStamped \<and> bp_Class p = ClassImmutable then
        (case StampBrainPromotion now (bp_Path p) (bp_HumanStamp p) s of (Some x, s') \<Rightarrow> (Inl x, s')
         | (None, s') \<Rightarrow> (case GetBrainObject (bp_Path p) 1 s' of None \<Rightarrow> (Inl BrainNotFound, s') | Some r \<Rightarrow> (Inr r, s')))
      else let r = put_row p (LatestRevision (bp_Path p) s) in
        (case PutBrainObject bc now r s of (Some x, s') \<Rightarrow> (Inl x, s') | (None, s') \<Rightarrow> (Inr (stored_row now r), s')))"

section \<open>Routes\<close>

definition brainPathRe :: "string \<Rightarrow> bool" where "brainPathRe = pathPattern"

text \<open>\<^verbatim>\<open>^/org/[a-f0-9-]+/(missions|decisions|capabilities|evidence|notes)(/[A-Za-z0-9_/-]+)?$\<close>\<close>

definition brainMountPrefixRe :: "string \<Rightarrow> bool" where
  "brainMountPrefixRe p = (case split_org p of None \<Rightarrow> False | Some (_, r) \<Rightarrow> (case collection_tail r of None \<Rightarrow> False
     | Some t \<Rightarrow> t = [] \<or> take 1 t = ''/'' \<and> drop 1 t \<noteq> [] \<and> list_all name_char (drop 1 t)))"

definition validBrainClass :: "string \<Rightarrow> bool" where
  "validBrainClass c \<longleftrightarrow> c = ClassMutable \<or> c = ClassImmutable \<or> c = ClassEphemeral"

record brainCreateBody =
  cb_Path :: string
  cb_Class :: string
  cb_Content :: "json gomap option"
  cb_EvidenceRef :: string

record brainPromoteBody =
  pb_Path :: string
  pb_HumanID :: string
  pb_Note :: string

record brainTombstoneBody =
  tb_Path :: string
  tb_EvidenceRef :: string

record brainCreateMountBody =
  mb_Subject :: string
  mb_PathPrefix :: string
  mb_Scopes :: "string list"
  mb_TTLSeconds :: int

datatype brain_reply =
    BrainRefused api_error
  | BrainWritten BrainObject
  | BrainPaths "string list"
  | BrainMounted BrainMount
  | BrainMounts "BrainMount list"
  | BrainRevoked string

definition unknown_work :: "string \<Rightarrow> db \<Rightarrow> bool" where
  "unknown_work ref db \<longleftrightarrow> HasPrefix ref ''wrk_'' \<and> (case GetWork ref db of Inl _ \<Rightarrow> True | Inr _ \<Rightarrow> False)"

text \<open>Whether the latest revision lets a path be written again.\<close>

definition create_conflict :: "time \<Rightarrow> string \<Rightarrow> brain_db \<Rightarrow> api_error option" where
  "create_conflict now path s = (if LatestRevision path s > 0 then (case GetBrainObject path 0 s of None \<Rightarrow> None
     | Some r \<Rightarrow> if br_Class r = ClassImmutable then Some (ApiError 409 ''immutable_no_new_revision'')
         else if br_Tombstone r then Some (ApiError 409 ''tombstoned'')
         else if br_Class r = ClassEphemeral \<and> (case br_ExpiresAt r of None \<Rightarrow> False | Some t \<Rightarrow> t < now) then Some (ApiError 409 ''expired'')
         else None) else None)"

definition create_put :: "brain_codec \<Rightarrow> env \<Rightarrow> brainCreateBody \<Rightarrow> string \<Rightarrow> BrainPut" where
  "create_put bc e b canon = \<lparr>bp_Path = cb_Path b, bp_Revision = 0, bp_Class = cb_Class b, bp_ContentJSON = canon, bp_EvidenceRef = cb_EvidenceRef b,
     bp_Authoritative = False, bp_Promotion = PromotionNone, bp_HumanStamp = [], bp_Tombstone = False,
     bp_ExpiresAt = (if cb_Class b = ClassEphemeral then Some (Now e 1 + Hour) else None), bp_ContentHash = hs_sha bc canon\<rparr>"

definition written :: "(brain_store_error + BrainObject) \<times> brain_db \<Rightarrow> brain_reply \<times> brain_db" where
  "written out = (case out of (Inl _, s) \<Rightarrow> (BrainRefused (ApiError 500 ''store_error''), s) | (Inr r, s) \<Rightarrow> (BrainWritten r, s))"

definition brainCreateObject :: "brain_codec \<Rightarrow> env \<Rightarrow> db \<Rightarrow> brainCreateBody option \<Rightarrow> brain_db \<Rightarrow> brain_reply \<times> brain_db" where
  "brainCreateObject bc e db body s = (case body of None \<Rightarrow> (BrainRefused (ApiError 400 ''invalid_json''), s)
     | Some b \<Rightarrow>
       if \<not> brainPathRe (cb_Path b) then (BrainRefused (ApiError 400 ''invalid_path''), s)
       else if cb_EvidenceRef b = [] then (BrainRefused (ApiError 400 ''evidence_required''), s)
       else if \<not> validBrainClass (cb_Class b) then (BrainRefused (ApiError 400 ''invalid_class''), s)
       else if unknown_work (cb_EvidenceRef b) db then (BrainRefused (ApiError 404 ''unknown_work''), s)
       else case canonicalContentJSON bc (cb_Content b) of NotEncodable \<Rightarrow> (BrainRefused (ApiError 400 ''invalid_content''), s)
       | NotRoundtripSafe \<Rightarrow> (BrainRefused (ApiError 400 ''not_roundtrip_safe''), s)
       | Canonical canon \<Rightarrow> (case create_conflict (Now e 0) (cb_Path b) s of Some x \<Rightarrow> (BrainRefused x, s)
         | None \<Rightarrow> written (BackendPut bc (Now e 2) (create_put bc e b canon) s)))"

definition brainGetOrListObjects :: "string \<Rightarrow> string \<Rightarrow> brain_db \<Rightarrow> brain_reply" where
  "brainGetOrListObjects path prefix s =
     (if path = [] \<and> prefix = [] then BrainRefused (ApiError 400 ''missing_query'')
      else if path \<noteq> [] then
        (if \<not> brainPathRe path then BrainRefused (ApiError 400 ''invalid_path'')
         else case GetBrainObject path 0 s of None \<Rightarrow> BrainRefused (ApiError 404 ''not_found'') | Some r \<Rightarrow> BrainWritten r)
      else BrainPaths (ListBrainPathsWithPrefix prefix 0 s))"

definition promote_put :: "string \<Rightarrow> string \<Rightarrow> BrainObject \<Rightarrow> BrainPut" where
  "promote_put path humanID r = \<lparr>bp_Path = path, bp_Revision = (if br_Class r = ClassImmutable then 1 else 0), bp_Class = br_Class r,
     bp_ContentJSON = br_ContentJSON r, bp_EvidenceRef = [], bp_Authoritative = True, bp_Promotion = PromotionHumanStamped, bp_HumanStamp = humanID,
     bp_Tombstone = False, bp_ExpiresAt = None, bp_ContentHash = br_ContentHash r\<rparr>"

definition brainPromoteObject :: "brain_codec \<Rightarrow> env \<Rightarrow> brainPromoteBody option \<Rightarrow> brain_db \<Rightarrow> brain_reply \<times> brain_db" where
  "brainPromoteObject bc e body s = (case body of None \<Rightarrow> (BrainRefused (ApiError 400 ''invalid_json''), s)
     | Some b \<Rightarrow>
       if pb_HumanID b = [] \<or> pb_Note b = [] then (BrainRefused (ApiError 400 ''human_stamp_required''), s)
       else if \<not> brainPathRe (pb_Path b) then (BrainRefused (ApiError 400 ''invalid_path''), s)
       else if LatestRevision (pb_Path b) s \<le> 0 then (BrainRefused (ApiError 404 ''not_found''), s)
       else case GetBrainObject (pb_Path b) 0 s of None \<Rightarrow> (BrainRefused (ApiError 404 ''not_found''), s)
       | Some r \<Rightarrow>
         if br_Class r = ClassEphemeral then (BrainRefused (ApiError 409 ''ephemeral_cannot_promote''), s)
         else if br_Authoritative r then (BrainRefused (ApiError 409 ''already_authoritative''), s)
         else written (BackendPut bc (Now e 0) (promote_put (pb_Path b) (pb_HumanID b) r) s))"

definition objClassForTombstone :: "string \<Rightarrow> brain_db \<Rightarrow> string" where
  "objClassForTombstone path s = (case GetBrainObject path 0 s of None \<Rightarrow> ClassMutable | Some r \<Rightarrow> br_Class r)"

definition tombstone_put :: "brainTombstoneBody \<Rightarrow> string \<Rightarrow> BrainPut" where
  "tombstone_put b c = \<lparr>bp_Path = tb_Path b, bp_Revision = 0, bp_Class = c, bp_ContentJSON = [], bp_EvidenceRef = tb_EvidenceRef b,
     bp_Authoritative = False, bp_Promotion = PromotionNone, bp_HumanStamp = [], bp_Tombstone = True, bp_ExpiresAt = None, bp_ContentHash = []\<rparr>"

definition brainTombstoneObject :: "brain_codec \<Rightarrow> env \<Rightarrow> db \<Rightarrow> brainTombstoneBody option \<Rightarrow> brain_db \<Rightarrow> brain_reply \<times> brain_db" where
  "brainTombstoneObject bc e db body s = (case body of None \<Rightarrow> (BrainRefused (ApiError 400 ''invalid_json''), s)
     | Some b \<Rightarrow>
       if \<not> brainPathRe (tb_Path b) then (BrainRefused (ApiError 400 ''invalid_path''), s)
       else if tb_EvidenceRef b = [] then (BrainRefused (ApiError 400 ''evidence_required''), s)
       else if unknown_work (tb_EvidenceRef b) db then (BrainRefused (ApiError 404 ''unknown_work''), s)
       else written (BackendPut bc (Now e 0) (tombstone_put b (objClassForTombstone (tb_Path b) s)) s))"

definition brainDefaultTTLSeconds :: int where "brainDefaultTTLSeconds = 3600"
definition brainMaxTTLSeconds :: int where "brainMaxTTLSeconds = 86400"
definition brainScopeRead :: string where "brainScopeRead = ''read''"

definition brainCreateMount :: "env \<Rightarrow> brainCreateMountBody option \<Rightarrow> brain_db \<Rightarrow> brain_reply \<times> brain_db" where
  "brainCreateMount e body s = (case body of None \<Rightarrow> (BrainRefused (ApiError 400 ''invalid_json''), s)
     | Some b \<Rightarrow>
       if mb_Subject b = [] then (BrainRefused (ApiError 400 ''missing_subject''), s)
       else if \<not> brainMountPrefixRe (mb_PathPrefix b) then (BrainRefused (ApiError 400 ''invalid_path_prefix''), s)
       else if mb_Scopes b = [] then (BrainRefused (ApiError 400 ''scope_unsupported''), s)
       else if list_ex (\<lambda>sc. sc \<noteq> brainScopeRead) (mb_Scopes b) then (BrainRefused (ApiError 400 ''scope_unsupported''), s)
       else let ttl = (if mb_TTLSeconds b = 0 then brainDefaultTTLSeconds else mb_TTLSeconds b) in
       if ttl < 0 \<or> ttl > brainMaxTTLSeconds then (BrainRefused (ApiError 400 ''ttl_out_of_range''), s)
       else let m = \<lparr>mt_ID = fresh e 0 ''bmt'', mt_Subject = mb_Subject b, mt_PathPrefix = mb_PathPrefix b, mt_Scopes = mb_Scopes b, mt_CreatedAt = Now e 1,
           mt_ExpiresAt = Now e 0 + wrap64 (ttl * Second), mt_Revoked = False\<rparr> in
       (case CreateBrainMount (Now e 2) m s of (Some _, s') \<Rightarrow> (BrainRefused (ApiError 500 ''store_error''), s') | (None, s') \<Rightarrow> (BrainMounted m, s')))"

definition brainListMounts :: "string \<Rightarrow> brain_db \<Rightarrow> brain_reply" where
  "brainListMounts subject s = (if subject = [] then BrainRefused (ApiError 400 ''missing_subject'') else BrainMounts (ListBrainMounts subject False s))"

definition brainRevokeMount :: "string option \<Rightarrow> brain_db \<Rightarrow> brain_reply \<times> brain_db" where
  "brainRevokeMount body s = (case body of None \<Rightarrow> (BrainRefused (ApiError 400 ''invalid_json''), s)
     | Some mid \<Rightarrow> if mid = [] then (BrainRefused (ApiError 400 ''id_required''), s) else (BrainRevoked mid, RevokeBrainMount mid s))"

datatype brain_request =
    ObjectsPost "brainCreateBody option"
  | ObjectsGet string string
  | PromotePost "brainPromoteBody option"
  | TombstonePost "brainTombstoneBody option"
  | MountsPost "brainCreateMountBody option"
  | MountsGet string
  | MountsRevoke "string option"
  | OtherRoute

text \<open>The service may not be wired, or its store may not serve it.\<close>

datatype brain_service = BrainNotMounted | BrainDisabled | BrainLive

definition brainRouter :: "brain_service \<Rightarrow> brain_codec \<Rightarrow> env \<Rightarrow> db \<Rightarrow> brain_request \<Rightarrow> brain_db \<Rightarrow> brain_reply \<times> brain_db" where
  "brainRouter svc bc e db q s = (case svc of BrainNotMounted \<Rightarrow> (BrainRefused (ApiError 404 ''not_found''), s)
     | BrainDisabled \<Rightarrow> (BrainRefused (ApiError 503 ''brain_unavailable''), s)
     | BrainLive \<Rightarrow> (case q of
         ObjectsPost b \<Rightarrow> brainCreateObject bc e db b s
       | ObjectsGet path prefix \<Rightarrow> (brainGetOrListObjects path prefix s, s)
       | PromotePost b \<Rightarrow> brainPromoteObject bc e b s
       | TombstonePost b \<Rightarrow> brainTombstoneObject bc e db b s
       | MountsPost b \<Rightarrow> brainCreateMount e b s
       | MountsGet subject \<Rightarrow> (brainListMounts subject s, s)
       | MountsRevoke b \<Rightarrow> brainRevokeMount b s
       | OtherRoute \<Rightarrow> (BrainRefused (ApiError 404 ''not_found''), s)))"

end
