(* ===== verification/Brain_Runs.thy ===== *)
theory Brain_Runs
  imports Brain_Store
begin

text \<open>
  What the routes of the brain keep in every sequence of requests: authority needs a human, revisions are appended and never rewritten, and where the routes
  leave the laws of the namespace: they never call them, and a promotion revives a buried object.
\<close>

section \<open>What one request does to the objects\<close>

definition row_lawful :: "BrainObject \<Rightarrow> bool" where
  "row_lawful r \<longleftrightarrow> (br_Authoritative r \<longrightarrow> br_Promotion r = PromotionHumanStamped \<and> br_HumanStamp r \<noteq> [] \<and> \<not> br_Tombstone r \<and> br_Class r \<noteq> ClassEphemeral)
     \<and> br_EvidenceRef r \<noteq> [] \<and> 1 \<le> br_Revision r"

definition human_asks :: "brain_request \<Rightarrow> string \<Rightarrow> string \<Rightarrow> bool" where
  "human_asks q path who \<longleftrightarrow> (\<exists>b. q = PromotePost (Some b) \<and> pb_Path b = path \<and> pb_HumanID b = who \<and> who \<noteq> [] \<and> pb_Note b \<noteq> [])"

inductive object_step :: "brain_request \<Rightarrow> brain_db \<Rightarrow> BrainObject list \<Rightarrow> bool" where
  same: "object_step q s (objects s)"
| append: "row_lawful r \<Longrightarrow> \<not> br_Authoritative r \<Longrightarrow> br_Revision r = LatestRevision (br_Path r) s + 1 \<Longrightarrow> object_step q s (objects s @ [r])"
| promote: "row_lawful r \<Longrightarrow> human_asks q (br_Path r) (br_HumanStamp r) \<Longrightarrow> br_Revision r = LatestRevision (br_Path r) s + 1 \<Longrightarrow> object_step q s (objects s @ [r])"
| stamp: "human_asks q path who \<Longrightarrow> object_step q s (update_where (stampable path) (stamp_row now who) (objects s))"

lemma Put_cases:
  "PutBrainObject bc now r s = (x, s') \<Longrightarrow> s' = s \<or> (x = None \<and> s' = s\<lparr>objects := objects s @ [stored_row now r]\<rparr> \<and> br_EvidenceRef r \<noteq> [] \<and> 1 \<le> br_Revision r)"
  by (auto simp: PutBrainObject_def Let_def split: if_splits)

lemma stored_row_fields [simp]:
  "br_Path (stored_row now r) = br_Path r" "br_Revision (stored_row now r) = br_Revision r" "br_Class (stored_row now r) = br_Class r"
  "br_Authoritative (stored_row now r) = br_Authoritative r" "br_HumanStamp (stored_row now r) = br_HumanStamp r" "br_Tombstone (stored_row now r) = br_Tombstone r"
  "br_EvidenceRef (stored_row now r) = br_EvidenceRef r" "br_ContentHash (stored_row now r) = br_ContentHash r" "br_ContentJSON (stored_row now r) = br_ContentJSON r"
  "br_Promotion r \<noteq> [] \<Longrightarrow> br_Promotion (stored_row now r) = br_Promotion r"
  by (simp_all add: stored_row_def)

lemma append_objects:
  assumes "\<not> (bp_Revision p = 1 \<and> bp_Authoritative p \<and> bp_Promotion p = PromotionHumanStamped \<and> bp_Class p = ClassImmutable)" "bp_Revision p = 0"
  shows "snd (BackendPut bc now p s) = s \<or> (\<exists>r. r = stored_row now (put_row p (LatestRevision (bp_Path p) s)) \<and> br_EvidenceRef r \<noteq> [] \<and> 1 \<le> br_Revision r
    \<and> br_Revision r = LatestRevision (br_Path r) s + 1 \<and> snd (BackendPut bc now p s) = s\<lparr>objects := objects s @ [r]\<rparr>)"
proof -
  let ?r = "put_row p (LatestRevision (bp_Path p) s)"
  have rev: "br_Revision ?r = LatestRevision (br_Path ?r) s + 1" using assms(2) by (simp add: put_row_def)
  obtain x s' where put: "PutBrainObject bc now ?r s = (x, s')" by (rule prod.exhaust)
  have "snd (BackendPut bc now p s) = s'" using assms(1) put by (auto simp: BackendPut_def Let_def split: option.splits)
  then show ?thesis using Put_cases [OF put] rev by auto
qed

lemma snd_written [simp]: "snd (written out) = snd out"
  by (cases out) (auto simp: written_def split: sum.splits)

lemma create_step: "object_step q s (objects (snd (brainCreateObject bc e db b s)))"
proof (cases "snd (brainCreateObject bc e db b s) = s")
  case False
  then obtain c canon where out: "snd (brainCreateObject bc e db b s) = snd (BackendPut bc (Now e 2) (create_put bc e c canon) s)"
    by (auto simp: brainCreateObject_def split: option.splits canonical_result.splits if_splits)
  let ?p = "create_put bc e c canon"
  have p: "bp_Revision ?p = 0" "\<not> bp_Authoritative ?p" by (simp_all add: create_put_def)
  from append_objects [of ?p bc "Now e 2" s] p False out obtain r where
    r: "r = stored_row (Now e 2) (put_row ?p (LatestRevision (bp_Path ?p) s))" "br_EvidenceRef r \<noteq> []" "1 \<le> br_Revision r"
      "br_Revision r = LatestRevision (br_Path r) s + 1" "snd (brainCreateObject bc e db b s) = s\<lparr>objects := objects s @ [r]\<rparr>" by auto
  have "\<not> br_Authoritative r" using p(2) by (simp add: r(1) put_row_def)
  then show ?thesis using r object_step.append [of r s q] by (simp add: row_lawful_def)
qed (simp add: object_step.same)

lemma tombstone_step: "object_step q s (objects (snd (brainTombstoneObject bc e db b s)))"
proof (cases "snd (brainTombstoneObject bc e db b s) = s")
  case False
  then obtain c where out: "snd (brainTombstoneObject bc e db b s) = snd (BackendPut bc (Now e 0) (tombstone_put c (objClassForTombstone (tb_Path c) s)) s)"
    by (auto simp: brainTombstoneObject_def split: option.splits if_splits)
  let ?p = "tombstone_put c (objClassForTombstone (tb_Path c) s)"
  have p: "bp_Revision ?p = 0" "\<not> bp_Authoritative ?p" by (simp_all add: tombstone_put_def)
  from append_objects [of ?p bc "Now e 0" s] p False out obtain r where
    r: "r = stored_row (Now e 0) (put_row ?p (LatestRevision (bp_Path ?p) s))" "br_EvidenceRef r \<noteq> []" "1 \<le> br_Revision r"
      "br_Revision r = LatestRevision (br_Path r) s + 1" "snd (brainTombstoneObject bc e db b s) = s\<lparr>objects := objects s @ [r]\<rparr>" by auto
  have "\<not> br_Authoritative r" using p(2) by (simp add: r(1) put_row_def)
  then show ?thesis using r object_step.append [of r s q] by (simp add: row_lawful_def)
qed (simp add: object_step.same)

lemma promote_step: "object_step (PromotePost b) s (objects (snd (brainPromoteObject bc e b s)))"
proof (cases "snd (brainPromoteObject bc e b s) = s")
  case False
  then obtain c r where c: "b = Some c" "pb_HumanID c \<noteq> []" "pb_Note c \<noteq> []" "br_Class r \<noteq> ClassEphemeral"
    and out: "snd (brainPromoteObject bc e b s) = snd (BackendPut bc (Now e 0) (promote_put (pb_Path c) (pb_HumanID c) r) s)"
    by (auto simp: brainPromoteObject_def split: option.splits if_splits)
  have asks: "human_asks (PromotePost b) (pb_Path c) (pb_HumanID c)" using c by (simp add: human_asks_def)
  let ?p = "promote_put (pb_Path c) (pb_HumanID c) r"
  show ?thesis
  proof (cases "br_Class r = ClassImmutable")
    case True
    then have "snd (BackendPut bc (Now e 0) ?p s) = snd (StampBrainPromotion (Now e 0) (pb_Path c) (pb_HumanID c) s)"
      by (auto simp: BackendPut_def promote_put_def split: prod.splits option.splits)
    then have "snd (brainPromoteObject bc e b s) = s\<lparr>objects := update_where (stampable (pb_Path c)) (stamp_row (Now e 0) (pb_HumanID c)) (objects s)\<rparr>"
      using False out by (auto simp: StampBrainPromotion_def split: if_splits)
    then show ?thesis using object_step.stamp [OF asks, of s "Now e 0"] by simp
  next
    case mutable: False
    have p: "bp_Revision ?p = 0" "bp_Authoritative ?p" "bp_Promotion ?p = PromotionHumanStamped" "bp_HumanStamp ?p = pb_HumanID c" "bp_Path ?p = pb_Path c"
      "\<not> bp_Tombstone ?p" "bp_Class ?p = br_Class r" using mutable by (simp_all add: promote_put_def)
    from append_objects [of ?p bc "Now e 0" s] p False out mutable obtain n where
      n: "n = stored_row (Now e 0) (put_row ?p (LatestRevision (bp_Path ?p) s))" "br_EvidenceRef n \<noteq> []" "1 \<le> br_Revision n"
        "br_Revision n = LatestRevision (br_Path n) s + 1" "snd (brainPromoteObject bc e b s) = s\<lparr>objects := objects s @ [n]\<rparr>" by auto
    have "br_Path n = pb_Path c" "br_HumanStamp n = pb_HumanID c" "br_Promotion n = PromotionHumanStamped" "\<not> br_Tombstone n" "br_Class n \<noteq> ClassEphemeral"
      using p c by (simp_all add: n(1) put_row_def mapPromotion_def)
    then show ?thesis using n c asks object_step.promote [of n "PromotePost b" s] by (simp add: row_lawful_def)
  qed
qed (simp add: object_step.same)

section \<open>Sequences of requests\<close>

type_synonym brain_call = "env \<times> db \<times> brain_request"

fun exec_brain :: "brain_codec \<Rightarrow> brain_call \<Rightarrow> brain_db \<Rightarrow> brain_db" where
  "exec_brain bc (e, db, q) s = snd (brainRouter BrainLive bc e db q s)"

lemma exec_step: "object_step q s (objects (exec_brain bc (e, db, q) s))"
proof (cases q)
  case (MountsPost b)
  have "objects (snd (brainCreateMount e b s)) = objects s"
    by (auto simp: brainCreateMount_def CreateBrainMount_def Let_def split: option.splits if_splits)
  then show ?thesis using MountsPost object_step.same [of q s] by (simp add: brainRouter_def)
next
  case (MountsRevoke b)
  have "objects (snd (brainRevokeMount b s)) = objects s" by (auto simp: brainRevokeMount_def RevokeBrainMount_def split: option.splits)
  then show ?thesis using MountsRevoke object_step.same [of q s] by (simp add: brainRouter_def)
qed (simp_all add: brainRouter_def create_step tombstone_step promote_step object_step.same)

lemma exec_step_call: "object_step (snd (snd c)) s (objects (exec_brain bc c s))"
proof -
  obtain e db q where "c = (e, db, q)" by (rule prod_cases3)
  then show ?thesis using exec_step [of q s bc e db] by simp
qed

text \<open>The revisions of a path, in the order they were written.\<close>

definition revs :: "string \<Rightarrow> BrainObject list \<Rightarrow> int list" where
  "revs path rs = map br_Revision (filter (\<lambda>r. br_Path r = path) rs)"

definition objects_ok :: "brain_db \<Rightarrow> bool" where
  "objects_ok s \<longleftrightarrow> list_all row_lawful (objects s) \<and> (\<forall>path. revs path (objects s) = [1..int (length (revs path (objects s)))])"

lemma fold_max_upto: "fold max [1..int n] 0 = int n"
proof (induction n)
  case (Suc n)
  have "[1..int (Suc n)] = [1..int n] @ [int (Suc n)]" by (subst upto_rec2) simp_all
  then show ?case using Suc by simp
qed simp

lemma Latest_ok: "objects_ok s \<Longrightarrow> LatestRevision path s = int (length (revs path (objects s)))"
  unfolding LatestRevision_def objects_ok_def revs_def [symmetric] by (metis fold_max_upto)

lemma stamp_keeps [simp]: "br_Path (stamp_row now who r) = br_Path r" "br_Revision (stamp_row now who r) = br_Revision r"
  "br_EvidenceRef (stamp_row now who r) = br_EvidenceRef r" "br_Class (stamp_row now who r) = br_Class r" "br_Tombstone (stamp_row now who r) = br_Tombstone r"
  "br_HumanStamp (stamp_row now who r) = who" "br_Promotion (stamp_row now who r) = PromotionHumanStamped" "br_Authoritative (stamp_row now who r)"
  "br_ContentHash (stamp_row now who r) = br_ContentHash r" "br_ContentJSON (stamp_row now who r) = br_ContentJSON r" "br_CreatedAt (stamp_row now who r) = br_CreatedAt r"
  by (simp_all add: stamp_row_def)

lemma revs_stamp: "revs p (update_where P (stamp_row now who) rs) = revs p rs"
  by (induction rs) (auto simp: revs_def update_where_def)

lemma revs_append: "revs p (rs @ [r]) = revs p rs @ (if br_Path r = p then [br_Revision r] else [])"
  by (simp add: revs_def)

lemma step_ok:
  assumes "objects_ok s" "object_step q s rs"
  shows "objects_ok (s'\<lparr>objects := rs\<rparr>)"
proof -
  have grow: "objects_ok (s'\<lparr>objects := objects s @ [r]\<rparr>)" if r: "row_lawful r" "br_Revision r = LatestRevision (br_Path r) s + 1" for r
  proof -
    have "[1..int n + 1] = [1..int n] @ [int n + 1]" for n by (subst upto_rec2) simp_all
    then have "revs p (objects s @ [r]) = [1..int (length (revs p (objects s @ [r])))]" for p
      using assms(1) r(2) Latest_ok [OF assms(1), of p] by (auto simp: revs_append objects_ok_def add.commute)
    then show ?thesis using assms(1) r(1) by (simp add: objects_ok_def)
  qed
  from assms(2) show ?thesis
  proof cases
    case (stamp path who now)
    have "row_lawful (stamp_row now who r)" if "row_lawful r" "stampable path r" for r
      using that stamp(2) by (auto simp: row_lawful_def stampable_def human_asks_def)
    then have "list_all row_lawful rs" using assms(1) by (auto simp: stamp(1) objects_ok_def list_all_iff update_where_def)
    then show ?thesis using assms(1) by (simp add: objects_ok_def stamp(1) revs_stamp)
  qed (use assms(1) grow in \<open>simp_all add: objects_ok_def\<close>)
qed

interpretation brain_table: invariant_ops "exec_brain bc" objects_ok for bc
proof unfold_locales
  fix s c assume "objects_ok s"
  from step_ok [OF this exec_step_call [of c s bc], of "exec_brain bc c s"] show "objects_ok (exec_brain bc c s)" by simp
qed

definition empty_brain :: brain_db where
  "empty_brain = \<lparr>objects = [], bmounts = []\<rparr>"

lemma empty_brain_ok: "objects_ok empty_brain"
  by (simp add: objects_ok_def empty_brain_def revs_def)

text \<open>How a row may differ later: not at all, or by the stamp of an immutable first revision.\<close>

definition row_kept :: "BrainObject \<Rightarrow> BrainObject \<Rightarrow> bool" where
  "row_kept r r' \<longleftrightarrow> r' = r \<or> (br_Class r = ClassImmutable \<and> br_Revision r = 1 \<and> \<not> br_Authoritative r \<and> \<not> br_Tombstone r \<and> (\<exists>now who. who \<noteq> [] \<and> r' = stamp_row now who r))"

definition rows_kept :: "BrainObject list \<Rightarrow> BrainObject list \<Rightarrow> bool" where
  "rows_kept rs rs' \<longleftrightarrow> length rs \<le> length rs' \<and> list_all2 row_kept rs (take (length rs) rs')"

lemma row_kept_trans: "row_kept a b \<Longrightarrow> row_kept b c \<Longrightarrow> row_kept a c"
  by (auto simp: row_kept_def)

lemma rows_kept_refl [simp]: "rows_kept rs rs" "rows_kept rs (rs @ rs1)"
  by (simp_all add: rows_kept_def row_kept_def list.rel_refl)

lemma rows_kept_trans: "rows_kept a b \<Longrightarrow> rows_kept b c \<Longrightarrow> rows_kept a c"
proof -
  assume ab: "rows_kept a b" and bc: "rows_kept b c"
  have "list_all2 row_kept (take (length a) b) (take (length a) c)"
    using bc ab list_all2_takeI [of row_kept b "take (length b) c" "length a"] by (simp add: rows_kept_def min_def)
  then show ?thesis using ab bc list_all2_trans [OF row_kept_trans] by (auto simp: rows_kept_def)
qed

lemma step_kept:
  assumes "object_step q s rs"
  shows "rows_kept (objects s) rs"
  using assms
proof cases
  case (stamp path who now)
  have "list_all2 row_kept xs (update_where (stampable path) (stamp_row now who) xs)" for xs
    using stamp(2) by (induction xs) (auto simp: update_where_def row_kept_def stampable_def human_asks_def)
  then show ?thesis by (simp add: stamp rows_kept_def)
qed simp_all

section \<open>Reading the latest revision\<close>

lemma get_latest:
  assumes "GetBrainObject path 0 s = Some r"
  shows "r \<in> set (objects s)" "br_Path r = path" "br_Revision r = LatestRevision path s"
  using assms by (auto simp: GetBrainObject_def find_Some_iff)

lemma no_later_revision:
  assumes "objects_ok s" "x \<in> set (objects s)" "br_Path x = path"
  shows "br_Revision x \<le> LatestRevision path s"
proof -
  have "br_Revision x \<in> set (revs path (objects s))" using assms(2,3) by (auto simp: revs_def)
  then have "br_Revision x \<in> set [1..int (length (revs path (objects s)))]" using assms(1) unfolding objects_ok_def by metis
  then show ?thesis using Latest_ok [OF assms(1), of path] by simp
qed

lemma get_appended:
  assumes "objects_ok s" "br_Path r = path" "br_Revision r = LatestRevision path s + 1" "objects_ok (s\<lparr>objects := objects s @ [r]\<rparr>)"
  shows "GetBrainObject path 0 (s\<lparr>objects := objects s @ [r]\<rparr>) = Some r"
proof -
  have "LatestRevision path (s\<lparr>objects := objects s @ [r]\<rparr>) = LatestRevision path s + 1"
    using Latest_ok [OF assms(1), of path] Latest_ok [OF assms(4), of path] assms(2) by (simp add: revs_append)
  moreover have "find (\<lambda>x. br_Path x = path \<and> br_Revision x = LatestRevision path s + 1) (objects s) = None"
    using no_later_revision [OF assms(1)] by (fastforce simp: find_None_iff)
  moreover have "find P (xs @ [x]) = Some x" if "find P xs = None" "P x" for P xs and x :: BrainObject using that by (induction xs) (auto split: if_splits)
  ultimately show ?thesis using assms(2,3) by (simp add: GetBrainObject_def)
qed

section \<open>Content as maps\<close>

text \<open>The fields of every object in the order of their keys: two contents are equal as Go values when these are.\<close>

fun norm_json :: "json \<Rightarrow> json" and norm_items :: "json list \<Rightarrow> json list" and norm_fields :: "(string \<times> json) list \<Rightarrow> (string \<times> json) list" where
  "norm_json (JObj kvs) = JObj (sort_key fst (norm_fields kvs))"
| "norm_json (JArr js) = JArr (norm_items js)"
| "norm_json JNull = JNull"
| "norm_json (JBool b) = JBool b"
| "norm_json (JNum n) = JNum n"
| "norm_json (JStr s) = JStr s"
| "norm_items [] = []"
| "norm_items (j # js) = norm_json j # norm_items js"
| "norm_fields [] = []"
| "norm_fields ((k, j) # kvs) = (k, norm_json j) # norm_fields kvs"

definition canonical_field :: "(json \<Rightarrow> string option) \<Rightarrow> string \<times> json \<Rightarrow> (string \<times> string) option" where
  "canonical_field enc kv = (case enc (JStr (fst kv)) of None \<Rightarrow> None | Some kb \<Rightarrow> map_option (\<lambda>vb. (fst kv, kb @ '':'' @ vb)) (marshalCanonical enc (snd kv)))"

lemma canonical_fields_all:
  "canonical_fields enc kvs = (if list_all (\<lambda>kv. canonical_field enc kv \<noteq> None) kvs then Some (map (the \<circ> canonical_field enc) kvs) else None)"
proof (induction kvs)
  case (Cons kv kvs)
  obtain k j where kv: "kv = (k, j)" by (rule prod.exhaust)
  have "canonical_fields enc (kv # kvs) = (case canonical_field enc kv of None \<Rightarrow> None | Some p \<Rightarrow> map_option ((#) p) (canonical_fields enc kvs))"
    by (auto simp: kv canonical_field_def split: option.splits)
  then show ?case using Cons by (auto split: option.splits)
qed simp

lemma canonical_field_key: "canonical_field enc kv \<noteq> None \<Longrightarrow> fst (the (canonical_field enc kv)) = fst kv"
  by (auto simp: canonical_field_def split: option.splits)

lemma sort_key_map_in: "(\<And>x. x \<in> set xs \<Longrightarrow> f (g x) = k x) \<Longrightarrow> sort_key f (map g xs) = map g (sort_key k xs)"
proof (induction xs)
  case (Cons x xs)
  have ins: "insort_key f (g x) (map g ys) = map g (insort_key k x ys)" if "set ys \<subseteq> set (x # xs)" for ys
    using that Cons.prems by (induction ys) auto
  show ?case using Cons ins [of "sort_key k xs"] by auto
qed simp

lemma canonical_sorted: "map_option (sort_key fst) (canonical_fields enc (sort_key fst kvs)) = map_option (sort_key fst) (canonical_fields enc kvs)"
proof -
  have "sort_key fst (map (the \<circ> canonical_field enc) xs) = map (the \<circ> canonical_field enc) (sort_key fst xs)"
    if "list_all (\<lambda>kv. canonical_field enc kv \<noteq> None) xs" for xs
    using that by (intro sort_key_map_in) (auto simp: list_all_iff canonical_field_key)
  moreover have "sort_key fst (sort_key fst kvs) = sort_key fst kvs" by (rule sort_key_id_if_sorted) simp
  ultimately show ?thesis by (auto simp: canonical_fields_all list_all_iff)
qed

lemma norm_canonical:
  "marshalCanonical enc (norm_json j) = marshalCanonical enc j"
  "canonical_items enc (norm_items js) = canonical_items enc js"
  "canonical_fields enc (norm_fields kvs) = canonical_fields enc kvs"
proof (induction j and js and kvs rule: norm_json_norm_items_norm_fields.induct)
  case (1 kvs)
  have m: "marshalCanonical enc (JObj xs) = map_option (\<lambda>parts. ''{'' @ Join (map snd parts) '','' @ ''}'') (map_option (sort_key fst) (canonical_fields enc xs))" for xs
    by (simp split: option.splits)
  show ?case by (simp only: norm_json.simps m canonical_sorted 1)
qed (auto split: option.splits)

lemma nil_fields_iff: "nil_fields kvs \<longleftrightarrow> (\<exists>kv \<in> set kvs. snd kv = JNull \<or> hasNilMember (snd kv))"
  by (induction kvs) auto

lemma norm_nil:
  "norm_json j = JNull \<longleftrightarrow> j = JNull" "hasNilMember (norm_json j) = hasNilMember j"
  "nil_items (norm_items js) = nil_items js" "nil_fields (norm_fields kvs) = nil_fields kvs"
proof -
  show "norm_json j = JNull \<longleftrightarrow> j = JNull" for j by (cases j) simp_all
  then show "hasNilMember (norm_json j) = hasNilMember j" "nil_items (norm_items js) = nil_items js" "nil_fields (norm_fields kvs) = nil_fields kvs"
  proof (induction j and js and kvs rule: norm_json_norm_items_norm_fields.induct)
    case (1 kvs)
    then show ?case by (simp add: nil_fields_iff)
  qed auto
qed

section \<open>Properties\<close>

text \<open>C29. Authority needs a human: in every sequence of requests from an empty brain, every authoritative revision carries the stamp of a promotion request
  for its path with that human and a note, is neither ephemeral nor a tombstone, and every revision names its evidence.\<close>

theorem brain_authority_needs_human:
  assumes "r \<in> set (objects (fold (exec_brain bc) cs empty_brain))"
  shows "row_lawful r \<and> (br_Authoritative r \<longrightarrow> (\<exists>c \<in> set cs. human_asks (snd (snd c)) (br_Path r) (br_HumanStamp r)))"
proof
  have "objects_ok (fold (exec_brain bc) cs empty_brain)" by (rule brain_table.inv_run [OF empty_brain_ok])
  then show "row_lawful r" using assms by (simp add: objects_ok_def list_all_iff)
  show "br_Authoritative r \<longrightarrow> (\<exists>c \<in> set cs. human_asks (snd (snd c)) (br_Path r) (br_HumanStamp r))"
    using assms
  proof (induction cs arbitrary: r rule: rev_induct)
    case (snoc c cs)
    let ?s = "fold (exec_brain bc) cs empty_brain"
    have "object_step (snd (snd c)) ?s (objects (exec_brain bc c ?s))" by (rule exec_step_call)
    then show ?case using snoc.prems
    proof cases
      case (stamp path who now)
      then obtain r0 where r0: "r0 \<in> set (objects ?s)" "r = (if stampable path r0 then stamp_row now who r0 else r0)"
        using snoc.prems by (auto simp: update_where_def)
      show ?thesis using r0 snoc.IH [OF r0(1)] stamp(2) by (auto simp: stampable_def)
    qed (use snoc.IH in auto)
  qed (simp add: empty_brain_def)
qed

text \<open>C30. The history of the brain is append-only: whatever requests follow, every stored revision keeps its place, path, number, class, content, evidence and
  tombstone mark, except that the one revision of an immutable object may be stamped once; and the revisions of a path are numbered from one without gaps.\<close>

theorem brain_history_is_kept:
  assumes "s = fold (exec_brain bc) cs empty_brain"
  shows "rows_kept (objects s) (objects (fold (exec_brain bc) cs' s)) \<and> revs path (objects s) = [1..LatestRevision path s]"
proof
  show "rows_kept (objects s) (objects (fold (exec_brain bc) cs' s))"
  proof (induction cs' rule: rev_induct)
    case (snoc c cs')
    then show ?case using rows_kept_trans [OF _ step_kept [OF exec_step_call]] by simp
  qed simp
  have "objects_ok s" unfolding assms by (rule brain_table.inv_run [OF empty_brain_ok])
  then show "revs path (objects s) = [1..LatestRevision path s]" using Latest_ok [of s path] by (simp add: objects_ok_def)
qed

text \<open>The content address does not depend on the order of keys: contents that are equal as maps, at every depth, are refused alike or have the same canonical
  text, and so the same hash.\<close>

theorem content_address_order_free:
  assumes "norm_json (JObj m) = norm_json (JObj m')"
  shows "canonicalContentJSON bc (Some m) = canonicalContentJSON bc (Some m')"
proof -
  have "hasNilMember (JObj m) = hasNilMember (JObj m')" using norm_nil(2) [of "JObj m"] norm_nil(2) [of "JObj m'"] assms by simp
  moreover have "marshalCanonical enc (JObj m) = marshalCanonical enc (JObj m')" for enc
    using norm_canonical(1) [of enc "JObj m"] norm_canonical(1) [of enc "JObj m'"] assms by simp
  ultimately show ?thesis by (simp add: canonicalContentJSON_def del: hasNilMember.simps marshalCanonical.simps)
qed

text \<open>The promotion route revives the dead: when the latest revision of a path is a tombstone, a promotion is accepted and appends an authoritative revision
  that is no tombstone and has the empty content of the tombstone, which the law of promotion refuses for every tombstoned object; and the tombstone route
  appends a second revision to an immutable object, which the law refuses too.\<close>

theorem promotion_revives_tombstone:
  assumes "objects_ok s" and "GetBrainObject path 0 s = Some r" and "br_Tombstone r" and "br_Class r = ClassMutable" and "brainPathRe path"
    and "who \<noteq> []" and "why \<noteq> []" and "bc_valid bc (br_ContentJSON r)" and "br_ContentJSON r \<noteq> []"
  shows "(\<exists>r' s'. brainRouter BrainLive bc e db (PromotePost (Some \<lparr>pb_Path = path, pb_HumanID = who, pb_Note = why\<rparr>)) s = (BrainWritten r', s')
      \<and> GetBrainObject path 0 s' = Some r' \<and> br_Authoritative r' \<and> \<not> br_Tombstone r' \<and> br_Revision r' = br_Revision r + 1 \<and> br_ContentHash r' = br_ContentHash r)
    \<and> (bo_Tombstone ob \<longrightarrow> isl (PromoteToAuthoritative h ob who why now)) \<and> (bo_Class ob = ClassImmutable \<longrightarrow> isl (TombstoneObject h ob ev now))"
proof (intro conjI impI)
  let ?q = "PromotePost (Some \<lparr>pb_Path = path, pb_HumanID = who, pb_Note = why\<rparr>)" and ?p = "promote_put path who r"
  have r: "br_Revision r = LatestRevision path s" "row_lawful r" "r \<in> set (objects s)" "br_Path r = path"
    using get_latest [OF assms(2)] assms(1) by (auto simp: objects_ok_def list_all_iff)
  define n where "n = put_row ?p (LatestRevision path s)"
  have nf: "br_Path n = path" "br_Revision n = LatestRevision path s + 1" "br_Authoritative n" "\<not> br_Tombstone n" "br_ContentHash n = br_ContentHash r"
    "br_Class n = ClassMutable" "br_Promotion n = PromotionHumanStamped" "br_HumanStamp n = who" "br_EvidenceRef n \<noteq> []" "br_ContentJSON n = br_ContentJSON r"
    using assms(4,6,9) by (simp_all add: n_def put_row_def promote_put_def mapPromotion_def)
  have "path \<noteq> []" using assms(5) by (auto simp: brainPathRe_def pathPattern_def split_org_def HasPrefix_def)
  moreover have "\<not> list_ex (\<lambda>x. br_Path x = path \<and> br_Revision x = LatestRevision path s + 1) (objects s)"
    using no_later_revision [OF assms(1)] by (fastforce simp: list_ex_iff)
  moreover have "1 \<le> br_Revision n" using r(1,2) nf(2) by (simp add: row_lawful_def)
  ultimately have put: "PutBrainObject bc (Now e 0) n s = (None, s\<lparr>objects := objects s @ [stored_row (Now e 0) n]\<rparr>)"
    using nf assms(6,8) by (simp add: PutBrainObject_def Let_def valid_classes_def)
  have bput: "BackendPut bc (Now e 0) ?p s = (Inr (stored_row (Now e 0) n), s\<lparr>objects := objects s @ [stored_row (Now e 0) n]\<rparr>)"
    using put assms(4) by (simp add: BackendPut_def promote_put_def n_def Let_def)
  have "\<not> br_Authoritative r" "0 < LatestRevision path s" using r assms(3) by (auto simp: row_lawful_def)
  then have out: "brainRouter BrainLive bc e db ?q s = (BrainWritten (stored_row (Now e 0) n), s\<lparr>objects := objects s @ [stored_row (Now e 0) n]\<rparr>)"
    using assms(2,4-7) bput by (simp add: brainRouter_def brainPromoteObject_def written_def)
  have "objects_ok (s\<lparr>objects := objects s @ [stored_row (Now e 0) n]\<rparr>)"
    using step_ok [OF assms(1) exec_step [of ?q s bc e db], of "s\<lparr>objects := objects s @ [stored_row (Now e 0) n]\<rparr>"] out by simp
  from get_appended [OF assms(1) _ _ this] out nf r(1)
  show "\<exists>r' s'. brainRouter BrainLive bc e db ?q s = (BrainWritten r', s') \<and> GetBrainObject path 0 s' = Some r' \<and> br_Authoritative r' \<and> \<not> br_Tombstone r'
      \<and> br_Revision r' = br_Revision r + 1 \<and> br_ContentHash r' = br_ContentHash r" by auto
  show "isl (PromoteToAuthoritative h ob who why now)" if "bo_Tombstone ob" using that Promote_Inr(9) by (metis sum.collapse(2))
  show "isl (TombstoneObject h ob ev now)" if "bo_Class ob = ClassImmutable" using that Tombstone_Inr(8) by (metis brain_words_differ(1) sum.collapse(2))
qed

section \<open>Examples\<close>

definition demo_brain_codec :: brain_codec where
  "demo_brain_codec = \<lparr>hs_marshal = (\<lambda>j. case j of JStr t \<Rightarrow> Some t | _ \<Rightarrow> Some ''0''), hs_sha = (\<lambda>t. CHR ''h'' # t), bc_valid = (\<lambda>_. True)\<rparr>"

definition brain_env :: env where
  "brain_env = \<lparr>nows = (\<lambda>_. 7), idents = (\<lambda>_. [])\<rparr>"

definition demo_requests :: "brain_call list" where
  "demo_requests =
     [(brain_env, empty_db, ObjectsPost (Some \<lparr>cb_Path = ''/org/a1/notes/x'', cb_Class = ClassMutable, cb_Content = Some [], cb_EvidenceRef = ''ev''\<rparr>)),
      (brain_env, empty_db, TombstonePost (Some \<lparr>tb_Path = ''/org/a1/notes/x'', tb_EvidenceRef = ''ev''\<rparr>))]"

definition demo_stamp :: brain_call where
  "demo_stamp = (brain_env, empty_db, PromotePost (Some \<lparr>pb_Path = ''/org/a1/notes/x'', pb_HumanID = ''ada'', pb_Note = ''agreed''\<rparr>))"

definition demo_brain :: brain_db where
  "demo_brain = fold (exec_brain demo_brain_codec) demo_requests empty_brain"

lemma demo_brain_run: "map br_Revision (objects demo_brain) = [1, 2]" "map br_Tombstone (objects demo_brain) = [False, True]"
  "map_option (\<lambda>r. (br_Tombstone r, br_Class r, br_ContentJSON r)) (GetBrainObject ''/org/a1/notes/x'' 0 demo_brain) = Some (True, ClassMutable, ''{}'')"
  by code_simp+

theorem brain_authority_needs_human_witness:
  "\<exists>r \<in> set (objects (fold (exec_brain demo_brain_codec) (demo_requests @ [demo_stamp]) empty_brain)). br_Authoritative r
     \<and> (\<exists>c \<in> set (demo_requests @ [demo_stamp]). human_asks (snd (snd c)) (br_Path r) (br_HumanStamp r))"
proof -
  have "list_ex br_Authoritative (objects (fold (exec_brain demo_brain_codec) (demo_requests @ [demo_stamp]) empty_brain))" by code_simp
  then obtain r where "r \<in> set (objects (fold (exec_brain demo_brain_codec) (demo_requests @ [demo_stamp]) empty_brain))" "br_Authoritative r" by (auto simp: list_ex_iff)
  then show ?thesis using brain_authority_needs_human [of r demo_brain_codec "demo_requests @ [demo_stamp]"] by blast
qed

theorem brain_history_is_kept_witness:
  "rows_kept (objects demo_brain) (objects (fold (exec_brain demo_brain_codec) [demo_stamp] demo_brain)) \<and> revs ''/org/a1/notes/x'' (objects demo_brain) = [1..2]"
proof -
  have "LatestRevision ''/org/a1/notes/x'' demo_brain = 2" by code_simp
  then show ?thesis using brain_history_is_kept [OF demo_brain_def, of "[demo_stamp]" "''/org/a1/notes/x''"] by simp
qed

theorem content_address_order_free_witness:
  "canonicalContentJSON demo_brain_codec (Some [(''b'', JStr ''2''), (''a'', JStr ''1'')]) = canonicalContentJSON demo_brain_codec (Some [(''a'', JStr ''1''), (''b'', JStr ''2'')])"
proof (rule content_address_order_free)
  show "norm_json (JObj [(''b'', JStr ''2''), (''a'', JStr ''1'')]) = norm_json (JObj [(''a'', JStr ''1''), (''b'', JStr ''2'')])" by code_simp
qed

theorem promotion_revives_tombstone_witness:
  "\<exists>r' s'. brainRouter BrainLive demo_brain_codec brain_env empty_db
       (PromotePost (Some \<lparr>pb_Path = ''/org/a1/notes/x'', pb_HumanID = ''ada'', pb_Note = ''agreed''\<rparr>)) demo_brain = (BrainWritten r', s')
     \<and> br_Authoritative r' \<and> \<not> br_Tombstone r' \<and> isl (PromoteToAuthoritative demo_hasher (demo_note\<lparr>bo_Tombstone := True\<rparr>) ''ada'' ''agreed'' 9)"
proof -
  obtain r where r: "GetBrainObject ''/org/a1/notes/x'' 0 demo_brain = Some r" "br_Tombstone r" "br_Class r = ClassMutable" "br_ContentJSON r = ''{}''"
    using demo_brain_run(3) by auto
  have ok: "objects_ok demo_brain" unfolding demo_brain_def by (rule brain_table.inv_run [OF empty_brain_ok])
  have p: "brainPathRe ''/org/a1/notes/x''" by code_simp
  have "bc_valid demo_brain_codec (br_ContentJSON r)" "br_ContentJSON r \<noteq> []" using r(4) by (simp_all add: demo_brain_codec_def)
  from promotion_revives_tombstone [OF ok r(1-3) p _ _ this, of "''ada''" "''agreed''" brain_env empty_db "demo_note\<lparr>bo_Tombstone := True\<rparr>" demo_hasher 9 "[]"]
  show ?thesis by (auto simp: demo_note_def)
qed

end
