(* ===== verification/Creation_Intent.thy ===== *)
theory Creation_Intent
  imports Admission "HOL-Library.Multiset"
begin

text \<open>
  The identity of a creation request (\<^verbatim>\<open>services/api/work_create_idempotency.go\<close>): the canonical form of what a caller asked for, its hash under the admission
  defaults in force, and the comparison of a replayed request with the Work its idempotency key is bound to. The JSON text of an intent, the text of a defaults
  snapshot and SHA-256 in hex are fields of \<open>intent_codec\<close>. \<^verbatim>\<open>json.Marshal\<close> writes maps with sorted keys, so the maps of a canonical intent are
  sorted lists; copying a value through its JSON text is the identity here. An empty slice or map and a nil one are the same value.
\<close>

section \<open>Canonical intents\<close>

record creationIntent =
  ci_Source :: Source
  ci_Objective :: Objective
  ci_Graph :: "Node gomap"
  ci_Requirements :: Requirements
  ci_Policy :: Policy
  ci_Mission :: "MissionContract option"

record admissionDefaultsSnapshot =
  TimeoutSeconds :: int
  RetryMaxAttempts :: int
  ad_Backoff :: string
  CacheScope :: string
  DefaultPermissions :: "string list"

record intent_codec =
  intent_text :: "creationIntent \<Rightarrow> string"
  defaults_text :: "admissionDefaultsSnapshot \<Rightarrow> string"
  defaults_of_text :: "string \<Rightarrow> admissionDefaultsSnapshot option"
  sha_hex :: "string \<Rightarrow> string"

definition currentAdmissionDefaults :: admissionDefaultsSnapshot where
  "currentAdmissionDefaults = \<lparr>TimeoutSeconds = DefaultTimeoutSeconds, RetryMaxAttempts = DefaultRetryMaxAttempts,
     ad_Backoff = DefaultBackoff, CacheScope = DefaultCacheScope, DefaultPermissions = [''read'']\<rparr>"

definition encodeAdmissionDefaults :: "intent_codec \<Rightarrow> admissionDefaultsSnapshot \<Rightarrow> string" where
  "encodeAdmissionDefaults c d = defaults_text c d"

definition decodeAdmissionDefaults :: "intent_codec \<Rightarrow> string \<Rightarrow> admissionDefaultsSnapshot option" where
  "decodeAdmissionDefaults c raw =
     (if raw = [] then None
      else case defaults_of_text c raw of None \<Rightarrow> None
      | Some d \<Rightarrow> if TimeoutSeconds d \<le> 0 \<or> RetryMaxAttempts d \<le> 0 \<or> ad_Backoff d = [] \<or> CacheScope d = [] \<or> DefaultPermissions d = []
          then None else Some d)"

fun equalStrings :: "string list \<Rightarrow> string list \<Rightarrow> bool" where
  "equalStrings [] [] = True"
| "equalStrings (a # as) (b # bs) = (a = b \<and> equalStrings as bs)"
| "equalStrings _ _ = False"

definition by_key :: "'v gomap \<Rightarrow> 'v gomap" where
  "by_key m = sort_key fst m"

fun sorted_json :: "json \<Rightarrow> json" where
  "sorted_json (JArr xs) = JArr (map sorted_json xs)"
| "sorted_json (JObj kvs) = JObj (by_key (map (\<lambda>kv. (fst kv, sorted_json (snd kv))) kvs))"
| "sorted_json j = j"

definition canonical_retries :: "admissionDefaultsSnapshot \<Rightarrow> RetrySpec option \<Rightarrow> RetrySpec option" where
  "canonical_retries d ro = (case ro of None \<Rightarrow> None
     | Some r \<Rightarrow>
        let r = (if Backoff r = [] then r\<lparr>Backoff := ad_Backoff d\<rparr> else r);
            r = r\<lparr>RetryOn := sort (RetryOn r)\<rparr>
        in if MaxAttempts r = RetryMaxAttempts d \<and> Backoff r = ad_Backoff d \<and> RetryOn r = [] then None else Some r)"

definition canonical_cache :: "admissionDefaultsSnapshot \<Rightarrow> CacheSpec option \<Rightarrow> CacheSpec option" where
  "canonical_cache d co = (case co of None \<Rightarrow> None
     | Some s \<Rightarrow>
        let s = (if Scope s = [] then s\<lparr>Scope := CacheScope d\<rparr> else s);
            s = s\<lparr>KeyInputs := sort (KeyInputs s)\<rparr>
        in if \<not> Enabled s \<and> Scope s = CacheScope d \<and> KeyInputs s = [] then None else Some s)"

definition sort_lists :: "Node \<Rightarrow> Node" where
  "sort_lists n = n\<lparr>Needs := sort (Needs n), Permissions := sort (Permissions n), SideEffects := sort (SideEffects n),
     node_Evidence := (node_Evidence n)\<lparr>Types := sort (Types (node_Evidence n))\<rparr>\<rparr>"

definition canonical_intent_node :: "admissionDefaultsSnapshot \<Rightarrow> Node \<Rightarrow> Node" where
  "canonical_intent_node d n =
     (let n = sort_lists n;
          n = (if TimeoutS n = TimeoutSeconds d then n\<lparr>TimeoutS := 0\<rparr> else n);
          n = (if equalStrings (Permissions n) (sort (DefaultPermissions d)) then n\<lparr>Permissions := []\<rparr> else n);
          n = n\<lparr>Retries := canonical_retries d (Retries n)\<rparr>;
          n = n\<lparr>node_CacheSpec := canonical_cache d (node_CacheSpec n)\<rparr>
      in n\<lparr>Env := by_key (Env n)\<rparr>)"

definition canonical_mission :: "MissionContract option \<Rightarrow> MissionContract option" where
  "canonical_mission mo = (case mo of None \<Rightarrow> None
     | Some m \<Rightarrow> if mc_BudgetCeiling m = None \<and> Verification m = [] \<and> PurposeBindings m = [] \<and> KillSwitch m = [] then None else Some m)"

definition canonicalCreationIntentWithDefaults :: "Work \<Rightarrow> admissionDefaultsSnapshot \<Rightarrow> creationIntent" where
  "canonicalCreationIntentWithDefaults w d =
     \<lparr>ci_Source = work_Source w,
      ci_Objective = (work_Objective w)\<lparr>Constraints := by_key (map (\<lambda>kv. (fst kv, sorted_json (snd kv))) (Constraints (work_Objective w)))\<rparr>,
      ci_Graph = by_key (map (\<lambda>p. (fst p, canonical_intent_node d (snd p))) (Graph w)),
      ci_Requirements = work_Requirements w,
      ci_Policy = (work_Policy w)\<lparr>SecretsScope := sort (SecretsScope (work_Policy w))\<rparr>,
      ci_Mission = canonical_mission (Mission w)\<rparr>"

definition canonicalCreationIntent :: "Work \<Rightarrow> creationIntent" where
  "canonicalCreationIntent w = canonicalCreationIntentWithDefaults w currentAdmissionDefaults"

definition sameWorkCreationIdentity :: "intent_codec \<Rightarrow> Work \<Rightarrow> Work \<Rightarrow> bool" where
  "sameWorkCreationIdentity c a b \<longleftrightarrow> intent_text c (canonicalCreationIntent a) = intent_text c (canonicalCreationIntent b)"

definition creationIntentHashWithDefaults :: "intent_codec \<Rightarrow> Work \<Rightarrow> admissionDefaultsSnapshot \<Rightarrow> string" where
  "creationIntentHashWithDefaults c w d = sha_hex c (intent_text c (canonicalCreationIntentWithDefaults w d))"

section \<open>Replayed requests\<close>

definition replayMatchesDurableIntent :: "intent_codec \<Rightarrow> Work option \<Rightarrow> Work option \<Rightarrow> bool \<Rightarrow> bool" where
  "replayMatchesDurableIntent c eo ro queue =
     (case (eo, ro) of
        (Some existing, Some request) \<Rightarrow>
          if CreationIntentHash existing \<noteq> [] \<or> AdmissionDefaultsJSON existing \<noteq> [] \<or> QueueRequested existing \<noteq> None then
            (case QueueRequested existing of None \<Rightarrow> False
             | Some q \<Rightarrow>
                if CreationIntentHash existing = [] \<or> AdmissionDefaultsJSON existing = [] then False
                else case decodeAdmissionDefaults c (AdmissionDefaultsJSON existing) of None \<Rightarrow> False
                | Some defaults \<Rightarrow> CreationIntentHash existing = creationIntentHashWithDefaults c request defaults \<and> q = queue)
          else sameWorkCreationIdentity c existing request
      | _ \<Rightarrow> False)"

definition replayMatchesAcceptedHash :: "Work option \<Rightarrow> string \<Rightarrow> bool \<Rightarrow> bool" where
  "replayMatchesAcceptedHash eo requestHash queue =
     (case eo of None \<Rightarrow> False
      | Some existing \<Rightarrow> (case QueueRequested existing of None \<Rightarrow> False
        | Some q \<Rightarrow> if CreationIntentHash existing = [] \<or> AdmissionDefaultsJSON existing = [] then False
            else CreationIntentHash existing = requestHash \<and> q = queue))"

section \<open>Canonical form and admission\<close>

lemma equalStrings_iff [simp]: "equalStrings as bs \<longleftrightarrow> as = bs"
  by (induction as bs rule: equalStrings.induct) auto

lemma insort_map_snd:
  "insort_key fst (fst p, f (snd p)) (map (\<lambda>q. (fst q, f (snd q))) g) = map (\<lambda>q. (fst q, f (snd q))) (insort_key fst p g)"
  by (induction g) auto

lemma by_key_map: "by_key (map (\<lambda>q. (fst q, f (snd q))) g) = map (\<lambda>q. (fst q, f (snd q))) (by_key g)"
  by (induction g) (auto simp: by_key_def insort_map_snd)

lemma set_by_key [simp]: "set (by_key g) = set g"
  by (simp add: by_key_def)

lemma sort_Nil_iff [simp]: "sort xs = [] \<longleftrightarrow> xs = []" "[] = sort xs \<longleftrightarrow> xs = []"
  by (metis length_0_conv length_sort)+

text \<open>Admission does not change the canonical form of a node, since the form erases exactly the defaults admission writes.\<close>

lemma canonical_intent_node_enriched:
  assumes "validateAndEnrichNode nid n = Inr n'"
  shows "canonical_intent_node currentAdmissionDefaults n' = canonical_intent_node currentAdmissionDefaults n"
proof -
  let ?d = currentAdmissionDefaults
  let ?n1 = "if TimeoutS n = 0 then n\<lparr>TimeoutS := DefaultTimeoutSeconds\<rparr> else n"
  let ?n2 = "if Permissions ?n1 = [] then ?n1\<lparr>Permissions := [''read'']\<rparr> else ?n1"
  obtain r s where r: "enrich_retries (Retries n) = Some r" and s: "enrich_cache (node_CacheSpec n) = Some s"
    and n': "n' = ?n2\<lparr>Retries := Some r, node_CacheSpec := Some s\<rparr>"
    using assms by (auto simp: validateAndEnrichNode_def Let_def split: if_splits option.splits)
  have "canonical_retries ?d (Some r) = canonical_retries ?d (Retries n)"
    using r by (auto simp: enrich_retries_def canonical_retries_def currentAdmissionDefaults_def admission_defaults Let_def split: option.splits if_splits)
  moreover have "canonical_cache ?d (Some s) = canonical_cache ?d (node_CacheSpec n)"
    using s by (auto simp: enrich_cache_def canonical_cache_def currentAdmissionDefaults_def admission_defaults Let_def split: option.splits if_splits)
  ultimately show ?thesis
    by (auto simp: n' canonical_intent_node_def sort_lists_def Let_def currentAdmissionDefaults_def admission_defaults)
qed

text \<open>What two persisted Works have in common, independent of the order in lists and maps. Two JSON values are the same up to the order of keys.\<close>

inductive same_json :: "json \<Rightarrow> json \<Rightarrow> bool" where
  null: "same_json JNull JNull"
| bool: "same_json (JBool b) (JBool b)"
| num: "same_json (JNum x) (JNum x)"
| str: "same_json (JStr s) (JStr s)"
| arr: "list_all2 same_json xs ys \<Longrightarrow> same_json (JArr xs) (JArr ys)"
| obj: "(\<And>k. rel_option same_json (map_of a k) (map_of b k)) \<Longrightarrow> same_json (JObj a) (JObj b)"
  monos list_all2_mono option.rel_mono_strong

inductive_simps same_json_simps [simp]:
  "same_json JNull j" "same_json (JBool x) j" "same_json (JNum y) j" "same_json (JStr s) j" "same_json (JArr xs) j" "same_json (JObj a) j"

definition same_retries :: "RetrySpec \<Rightarrow> RetrySpec \<Rightarrow> bool" where
  "same_retries r s \<longleftrightarrow> MaxAttempts r = MaxAttempts s \<and> Backoff r = Backoff s \<and> mset (RetryOn r) = mset (RetryOn s)"

definition same_cache :: "CacheSpec \<Rightarrow> CacheSpec \<Rightarrow> bool" where
  "same_cache r s \<longleftrightarrow> Enabled r = Enabled s \<and> Scope r = Scope s \<and> mset (KeyInputs r) = mset (KeyInputs s)"

definition same_node :: "Node \<Rightarrow> Node \<Rightarrow> bool" where
  "same_node n m \<longleftrightarrow> node_ID n = node_ID m \<and> Run n = Run m \<and> mset (Needs n) = mset (Needs m) \<and> Cache n = Cache m
     \<and> Required (node_Evidence n) = Required (node_Evidence m) \<and> mset (Types (node_Evidence n)) = mset (Types (node_Evidence m))
     \<and> map_of (Env n) = map_of (Env m) \<and> TimeoutS n = TimeoutS m \<and> RuntimeImage n = RuntimeImage m
     \<and> mset (Permissions n) = mset (Permissions m) \<and> mset (SideEffects n) = mset (SideEffects m)
     \<and> rel_option same_retries (Retries n) (Retries m) \<and> rel_option same_cache (node_CacheSpec n) (node_CacheSpec m)"

text \<open>No mission contract, or one with nothing in it.\<close>

definition no_contract :: "MissionContract option \<Rightarrow> bool" where
  "no_contract mo \<longleftrightarrow> (\<forall>m. mo = Some m \<longrightarrow> m = \<lparr>mc_BudgetCeiling = None, Verification = [], PurposeBindings = [], KillSwitch = []\<rparr>)"

definition same_persisted :: "Work \<Rightarrow> Work \<Rightarrow> bool" where
  "same_persisted w v \<longleftrightarrow> work_Source w = work_Source v \<and> work_Requirements w = work_Requirements v
     \<and> obj_Type (work_Objective w) = obj_Type (work_Objective v) \<and> Description (work_Objective w) = Description (work_Objective v)
     \<and> (\<forall>k. rel_option same_json (map_of (Constraints (work_Objective w)) k) (map_of (Constraints (work_Objective v)) k))
     \<and> (\<forall>k. rel_option same_node (map_of (Graph w) k) (map_of (Graph v) k))
     \<and> ProductionAccess (work_Policy w) = ProductionAccess (work_Policy v) \<and> ForkPolicy (work_Policy w) = ForkPolicy (work_Policy v)
     \<and> TrustClass (work_Policy w) = TrustClass (work_Policy v) \<and> mset (SecretsScope (work_Policy w)) = mset (SecretsScope (work_Policy v))
     \<and> (Mission w = Mission v \<or> no_contract (Mission w) \<and> no_contract (Mission v))"

text \<open>The association lists of a request stand for Go maps: no key is repeated.\<close>

fun json_maps :: "json \<Rightarrow> bool" where
  "json_maps (JArr xs) = (\<forall>x \<in> set xs. json_maps x)"
| "json_maps (JObj kvs) = (wf_map kvs \<and> (\<forall>kv \<in> set kvs. json_maps (snd kv)))"
| "json_maps j = True"

definition go_maps :: "Work \<Rightarrow> bool" where
  "go_maps w \<longleftrightarrow> wf_map (Graph w) \<and> (\<forall>p \<in> set (Graph w). wf_map (Env (snd p)))
     \<and> wf_map (Constraints (work_Objective w)) \<and> (\<forall>kv \<in> set (Constraints (work_Objective w)). json_maps (snd kv))"

lemma sort_eq_iff: "sort xs = sort ys \<longleftrightarrow> mset xs = mset (ys :: string list)"
  by (metis mset_sort properties_for_sort sorted_sort)

lemma by_key_eq_iff:
  assumes "wf_map a" "wf_map b"
  shows "by_key a = by_key b \<longleftrightarrow> map_of a = map_of b"
proof -
  have "by_key a = by_key b" if s: "set a = set b"
  proof (rule map_sorted_distinct_set_unique [of fst])
    show "inj_on fst (set (by_key a) \<union> set (by_key b))" using assms s by (simp add: wf_map_def distinct_map)
    have "distinct (map fst (sort_key fst m))" if "distinct (map fst m)" for m :: "(string \<times> 'a) list"
      using that by (simp add: distinct_map)
    then show "distinct (map fst (by_key a))" "distinct (map fst (by_key b))" using assms by (auto simp: by_key_def wf_map_def)
  qed (use s in \<open>simp_all add: by_key_def\<close>)
  moreover have "set a = set b" if "by_key a = by_key b" using that by (metis set_by_key)
  ultimately show ?thesis using assms map_of_inject_set [of a b] by (auto simp: wf_map_def)
qed

lemma by_key_map_eq_iff:
  assumes "wf_map a" "wf_map b"
  shows "by_key (map (\<lambda>p. (fst p, f (snd p))) a) = by_key (map (\<lambda>p. (fst p, f (snd p))) b) \<longleftrightarrow> (\<forall>k. map_option f (map_of a k) = map_option f (map_of b k))"
proof -
  have "map_of (map (\<lambda>p. (fst p, f (snd p))) m) = map_option f \<circ> map_of m" for m :: "(string \<times> 'a) list"
    by (induction m) auto
  moreover have "wf_map (map (\<lambda>p. (fst p, f (snd p))) m) \<longleftrightarrow> wf_map m" for m :: "(string \<times> 'a) list"
    by (simp add: wf_map_def comp_def)
  ultimately show ?thesis using assms by (simp add: by_key_eq_iff fun_eq_iff)
qed

lemma option_map_eq_rel:
  assumes "\<And>x y. x \<in> set_option a \<Longrightarrow> y \<in> set_option b \<Longrightarrow> f x = f y \<longleftrightarrow> R x y"
  shows "map_option f a = map_option f b \<longleftrightarrow> rel_option R a b"
  using assms by (cases a; cases b) auto

lemma sorted_json_eq_iff: "json_maps j \<Longrightarrow> json_maps k \<Longrightarrow> sorted_json j = sorted_json k \<longleftrightarrow> same_json j k"
proof (induction j arbitrary: k rule: sorted_json.induct)
  case (1 xs)
  show ?case
  proof (cases k)
    case (JArr ys)
    have "list_all2 (\<lambda>x y. sorted_json x = sorted_json y) xs ys \<longleftrightarrow> list_all2 same_json xs ys"
      using 1 JArr by (intro iffI) (erule list.rel_mono_strong, simp)+
    moreover have "map sorted_json xs = map sorted_json ys \<longleftrightarrow> list_all2 (\<lambda>x y. sorted_json x = sorted_json y) xs ys"
      by (auto simp: list_all2_conv_all_nth list_eq_iff_nth_eq)
    ultimately show ?thesis by (simp add: JArr)
  qed simp_all
next
  case (2 kvs)
  show ?case
  proof (cases k)
    case (JObj b)
    have "map_option sorted_json (map_of kvs q) = map_option sorted_json (map_of b q) \<longleftrightarrow> rel_option same_json (map_of kvs q) (map_of b q)" for q
    proof (rule option_map_eq_rel)
      fix x y
      assume "x \<in> set_option (map_of kvs q)" "y \<in> set_option (map_of b q)"
      then have m: "(q, x) \<in> set kvs" "(q, y) \<in> set b" by (auto dest: map_of_SomeD)
      then have "json_maps x" "json_maps y" using "2.prems" JObj by (force dest: bspec)+
      then show "sorted_json x = sorted_json y \<longleftrightarrow> same_json x y" using "2.IH" [of "(q, x)" y] m(1) by simp
    qed
    then show ?thesis using "2.prems" by (simp add: JObj by_key_map_eq_iff)
  qed simp_all
qed (simp_all, (case_tac k; auto)+)

lemma Node_eq_iff:
  "(n :: Node) = m \<longleftrightarrow> node_ID n = node_ID m \<and> Run n = Run m \<and> Needs n = Needs m \<and> Cache n = Cache m
     \<and> node_Evidence n = node_Evidence m \<and> Env n = Env m \<and> TimeoutS n = TimeoutS m \<and> RuntimeImage n = RuntimeImage m
     \<and> Permissions n = Permissions m \<and> SideEffects n = SideEffects m \<and> Retries n = Retries m \<and> node_CacheSpec n = node_CacheSpec m"
  by (cases n, cases m) auto

lemma canonical_intent_node_fields [simp]:
  "node_ID (canonical_intent_node d n) = node_ID n" "Run (canonical_intent_node d n) = Run n" "Needs (canonical_intent_node d n) = sort (Needs n)"
  "Cache (canonical_intent_node d n) = Cache n" "Env (canonical_intent_node d n) = by_key (Env n)"
  "TimeoutS (canonical_intent_node d n) = (if TimeoutS n = TimeoutSeconds d then 0 else TimeoutS n)"
  "node_Evidence (canonical_intent_node d n) = (node_Evidence n)\<lparr>Types := sort (Types (node_Evidence n))\<rparr>"
  "RuntimeImage (canonical_intent_node d n) = RuntimeImage n"
  "Permissions (canonical_intent_node d n) = (if sort (Permissions n) = sort (DefaultPermissions d) then [] else sort (Permissions n))"
  "SideEffects (canonical_intent_node d n) = sort (SideEffects n)"
  "Retries (canonical_intent_node d n) = canonical_retries d (Retries n)" "node_CacheSpec (canonical_intent_node d n) = canonical_cache d (node_CacheSpec n)"
  by (simp_all add: canonical_intent_node_def sort_lists_def Let_def)

text \<open>On admitted values the erased default is the only value that reads as absent.\<close>

lemma canonical_retries_inj:
  assumes "Backoff r \<noteq> []" "Backoff r' \<noteq> []"
  shows "canonical_retries d (Some r) = canonical_retries d (Some r') \<longleftrightarrow> same_retries r r'"
  using assms by (cases r, cases r') (auto simp: canonical_retries_def Let_def same_retries_def sort_eq_iff)

lemma canonical_cache_inj:
  assumes "Scope s \<noteq> []" "Scope s' \<noteq> []"
  shows "canonical_cache d (Some s) = canonical_cache d (Some s') \<longleftrightarrow> same_cache s s'"
  using assms by (cases s, cases s') (auto simp: canonical_cache_def Let_def same_cache_def sort_eq_iff)

lemma EvidenceSpec_eq_iff: "(x :: EvidenceSpec) = y \<longleftrightarrow> Required x = Required y \<and> Types x = Types y"
  by (cases x, cases y) auto

lemma canonical_intent_node_inj:
  assumes "admitted_node n" "admitted_node m" "wf_map (Env n)" "wf_map (Env m)"
  shows "canonical_intent_node d n = canonical_intent_node d m \<longleftrightarrow> same_node n m"
proof -
  obtain r r' s s' where rs: "Retries n = Some r" "Retries m = Some r'" "node_CacheSpec n = Some s" "node_CacheSpec m = Some s'"
    and nonempty: "Backoff r \<noteq> []" "Backoff r' \<noteq> []" "Scope s \<noteq> []" "Scope s' \<noteq> []"
    using assms by (auto simp: admitted_node_def admission_defaults)
  have p: "Permissions n \<noteq> []" "Permissions m \<noteq> []" and t: "TimeoutS n \<noteq> 0" "TimeoutS m \<noteq> 0"
    using assms by (auto simp: admitted_node_def)
  have perms: "Permissions (canonical_intent_node d n) = Permissions (canonical_intent_node d m) \<longleftrightarrow> mset (Permissions n) = mset (Permissions m)"
    using p by (auto simp: sort_eq_iff [symmetric])
  have times: "TimeoutS (canonical_intent_node d n) = TimeoutS (canonical_intent_node d m) \<longleftrightarrow> TimeoutS n = TimeoutS m"
    using t by auto
  show ?thesis
    unfolding Node_eq_iff perms times
    by (simp add: EvidenceSpec_eq_iff same_node_def rs canonical_retries_inj [OF nonempty(1,2)] canonical_cache_inj [OF nonempty(3,4)] sort_eq_iff
        by_key_eq_iff [OF assms(3,4)] conj_ac)
qed

lemma canonical_mission_eq_iff: "canonical_mission a = canonical_mission b \<longleftrightarrow> a = b \<or> no_contract a \<and> no_contract b"
proof -
  have "canonical_mission c = (if no_contract c then None else c)" for c
    by (cases c) (auto simp: canonical_mission_def no_contract_def)
  moreover have "no_contract None" by (simp add: no_contract_def)
  ultimately show ?thesis by auto
qed

lemma canonical_graph_enriched:
  assumes "wf_map (Graph w)" "ValidateAndEnrich (Some w) = (Some w', None)"
  shows "canonicalCreationIntent w' = canonicalCreationIntent w" "\<forall>p \<in> set (Graph w'). admitted_node (snd p)"
proof -
  have w': "w' = w\<lparr>Graph := map node_outcome (Graph w)\<rparr>" and ok: "\<forall>p \<in> set (Graph w). node_ok p"
    using ValidateAndEnrich_result [OF assms] by auto
  have "canonical_intent_node currentAdmissionDefaults (snd (node_outcome p)) = canonical_intent_node currentAdmissionDefaults (snd p)"
    if "p \<in> set (Graph w)" for p
    using ok that by (auto simp: node_outcome_def node_ok_def canonical_intent_node_enriched split: sum.splits)
  then have "map (\<lambda>p. (fst p, canonical_intent_node currentAdmissionDefaults (snd p))) (map node_outcome (Graph w))
      = map (\<lambda>p. (fst p, canonical_intent_node currentAdmissionDefaults (snd p))) (Graph w)"
    by (simp add: node_outcome_def)
  then show "canonicalCreationIntent w' = canonicalCreationIntent w"
    unfolding w' canonicalCreationIntent_def canonicalCreationIntentWithDefaults_def by (simp del: map_map)
  show "\<forall>p \<in> set (Graph w'). admitted_node (snd p)"
    using ok by (auto simp: w' node_outcome_admitted)
qed

lemma go_maps_enriched:
  assumes "go_maps w" "ValidateAndEnrich (Some w) = (Some w', None)"
  shows "go_maps w'"
proof -
  have w': "w' = w\<lparr>Graph := map node_outcome (Graph w)\<rparr>"
    using ValidateAndEnrich_result [of w "Some w'"] assms by (simp add: go_maps_def)
  have "Env (snd (node_outcome p)) = Env (snd p)" for p
    by (auto simp: node_outcome_def validateAndEnrichNode_keeps split: sum.splits)
  then show ?thesis using assms(1) by (auto simp: w' go_maps_def wf_map_def)
qed

text \<open>C35. The canonical intent is exactly what admission persists: of two requests that admission accepts, the canonical intents are equal if and only if the Works that are persisted
  agree in source, requirements, type and description of the objective, policy, mission contract (where a contract with nothing in it counts as none) and, key by key, in the constraints and in
  the nodes of the enriched graph. Lists of a node and the secret scopes are compared as multisets, maps as maps; the lists inside the requirements and the mission contract are compared in
  their order. So a key can only be replayed with a request the platform would have treated the same way, and a caller may spell out or leave out a default.\<close>

theorem intent_is_what_admission_persists:
  assumes "go_maps w" "ValidateAndEnrich (Some w) = (Some w', None)"
    and "go_maps v" "ValidateAndEnrich (Some v) = (Some v', None)"
  shows "canonicalCreationIntent w = canonicalCreationIntent v \<longleftrightarrow> same_persisted w' v'"
proof -
  let ?c = "canonical_intent_node currentAdmissionDefaults"
  have wf: "wf_map (Graph w)" "wf_map (Graph v)" using assms(1,3) by (simp_all add: go_maps_def)
  note we = canonical_graph_enriched [OF wf(1) assms(2)] and ve = canonical_graph_enriched [OF wf(2) assms(4)]
  note m = go_maps_enriched [OF assms(1,2)] go_maps_enriched [OF assms(3,4)]
  have g: "map_option ?c (map_of (Graph w') k) = map_option ?c (map_of (Graph v') k) \<longleftrightarrow> rel_option same_node (map_of (Graph w') k) (map_of (Graph v') k)" for k
    by (rule option_map_eq_rel, rule canonical_intent_node_inj) (use we(2) ve(2) m in \<open>auto simp: go_maps_def dest!: map_of_SomeD\<close>)
  have o: "map_option sorted_json (map_of (Constraints (work_Objective w')) k) = map_option sorted_json (map_of (Constraints (work_Objective v')) k)
      \<longleftrightarrow> rel_option same_json (map_of (Constraints (work_Objective w')) k) (map_of (Constraints (work_Objective v')) k)" for k
    by (rule option_map_eq_rel, rule sorted_json_eq_iff) (use m in \<open>auto simp: go_maps_def dest!: map_of_SomeD\<close>)
  have ob: "(x :: Objective) = y \<longleftrightarrow> obj_Type x = obj_Type y \<and> Description x = Description y \<and> Constraints x = Constraints y" for x y
    by (cases x, cases y) auto
  have po: "(x :: Policy) = y \<longleftrightarrow> ProductionAccess x = ProductionAccess y \<and> SecretsScope x = SecretsScope y \<and> ForkPolicy x = ForkPolicy y \<and> TrustClass x = TrustClass y" for x y
    by (cases x, cases y) auto
  have "canonicalCreationIntent w' = canonicalCreationIntent v' \<longleftrightarrow> same_persisted w' v'"
    using m by (auto simp: canonicalCreationIntent_def canonicalCreationIntentWithDefaults_def same_persisted_def go_maps_def by_key_map_eq_iff g o ob po
        sort_eq_iff canonical_mission_eq_iff)
  then show ?thesis by (simp add: we(1) ve(1))
qed

definition demo_request_work :: Work where
  "demo_request_work = zero_Work\<lparr>Graph := [(''build'', zero_Node\<lparr>Run := ''make''\<rparr>)]\<rparr>"

definition demo_spelled_out :: Work where
  "demo_spelled_out = zero_Work\<lparr>Graph := [(''build'', zero_Node\<lparr>Run := ''make'', TimeoutS := 600, Permissions := [''read'']\<rparr>)]\<rparr>"

theorem intent_is_what_admission_persists_witness:
  "demo_request_work \<noteq> demo_spelled_out \<and> canonicalCreationIntent demo_request_work = canonicalCreationIntent demo_spelled_out"
proof -
  have wf: "go_maps demo_request_work" "go_maps demo_spelled_out"
    by (simp_all add: go_maps_def wf_map_def demo_request_work_def demo_spelled_out_def zero_Work_def zero_Node_def)
  have admit: "ValidateAndEnrich (Some demo_request_work) = (Some (the (fst (ValidateAndEnrich (Some demo_request_work)))), None)"
    "ValidateAndEnrich (Some demo_spelled_out) = (Some (the (fst (ValidateAndEnrich (Some demo_request_work)))), None)"
    by (simp_all add: ValidateAndEnrich_def validateAndEnrichNode_def zero_Node_def zero_Work_def enrich_retries_def
        enrich_cache_def admission_defaults demo_request_work_def demo_spelled_out_def)
  have "demo_request_work \<noteq> demo_spelled_out"
    by (simp add: demo_request_work_def demo_spelled_out_def zero_Work_def zero_Node_def)
  moreover have "rel_option same_node x x" for x
    by (cases x) (auto simp: same_node_def same_retries_def same_cache_def option.rel_refl intro: option.rel_refl)
  then have "same_persisted w w" if "Constraints (work_Objective w) = []" for w
    using that by (simp add: same_persisted_def)
  moreover have "Constraints (work_Objective (the (fst (ValidateAndEnrich (Some demo_request_work))))) = []" by code_simp
  ultimately show ?thesis using intent_is_what_admission_persists [OF wf(1) admit(1) wf(2) admit(2)] by blast
qed

end
