(* ===== verification/Work_Routes.thy ===== *)
theory Work_Routes
  imports Lease_Api Creation_Intent
begin

text \<open>
  The routes that create, read, queue and cancel a Work (\<^verbatim>\<open>services/api/api.go\<close>) with the reconciliation of replayed creations
  (\<^verbatim>\<open>work_create_idempotency.go\<close>) and its audit record (\<^verbatim>\<open>reliability_telemetry.go\<close>, \<^verbatim>\<open>packages/protocol\<close>). A creation makes several store calls, each a transaction of its own;
  \<open>between i\<close> is what other requests did to the store before the \<open>i\<close>-th of them. A body is \<open>None\<close> when it does not decode, the limit of a query \<open>None\<close> when it is absent or not a
  number. Error texts, log lines and Prometheus counters have no counterpart.
\<close>

section \<open>Recovery causes\<close>

definition allowedRecoveryCauses :: "string list" where
  "allowedRecoveryCauses = [''ambiguous_transport'', ''ambiguous_response_read'', ''transient_status'', ''auth_renewal'', ''controller_reconnect'']"

definition NormalizeRecoveryCause :: "string \<Rightarrow> string" where
  "NormalizeRecoveryCause v = (let v = ToLower (TrimSpace v) in if v \<in> set allowedRecoveryCauses then v else [])"

definition IsAmbiguousAckCause :: "string \<Rightarrow> bool" where
  "IsAmbiguousAckCause v = (let v = NormalizeRecoveryCause v in v = ''ambiguous_transport'' \<or> v = ''ambiguous_response_read'')"

section \<open>The audit record of a replay\<close>

record ReliabilityReplayData =
  rd_WorkID :: string
  rd_Outcome :: string
  rd_Reason :: string
  rd_RecoveryCause :: string
  rd_State :: string
  rd_QueueRepaired :: bool
  rd_DurableMetadata :: bool
  rd_DurationMS :: float64

text \<open>The store, and the payloads of the replay events in the audit table by event id.\<close>

record route_state =
  rs_db :: db
  rs_replays :: "(string \<times> ReliabilityReplayData) list"

record create_config =
  cf_codec :: intent_codec
  cf_audit :: bool

definition TypeReliabilityReplayOutcome :: string where
  "TypeReliabilityReplayOutcome = ''com.works-execution.reliability.replay_outcome''"

text \<open>\<^verbatim>\<open>Duration.Microseconds\<close> truncates towards zero.\<close>

definition Microseconds :: "duration \<Rightarrow> int" where
  "Microseconds d = (if d < 0 then - ((- d) div 1000) else d div 1000)"

definition replay_data :: "env \<Rightarrow> Work option \<Rightarrow> string \<Rightarrow> string \<Rightarrow> string \<Rightarrow> bool \<Rightarrow> time \<Rightarrow> ReliabilityReplayData" where
  "replay_data e wo outcome_text reason cause repaired started =
     \<lparr>rd_WorkID = (case wo of None \<Rightarrow> [] | Some w \<Rightarrow> work_ID w), rd_Outcome = outcome_text, rd_Reason = reason,
      rd_RecoveryCause = NormalizeRecoveryCause cause, rd_State = (case wo of None \<Rightarrow> [] | Some w \<Rightarrow> state_text (work_State w)),
      rd_QueueRepaired = repaired,
      rd_DurableMetadata = (case wo of None \<Rightarrow> False
        | Some w \<Rightarrow> CreationIntentHash w \<noteq> [] \<and> AdmissionDefaultsJSON w \<noteq> [] \<and> QueueRequested w \<noteq> None),
      rd_DurationMS = f_div (f_of_int (Microseconds (Sub (Now e 0) started))) (f_of_int 1000)\<rparr>"

definition recordReliabilityReplay ::
  "create_config \<Rightarrow> env \<Rightarrow> Work option \<Rightarrow> string \<Rightarrow> string \<Rightarrow> string \<Rightarrow> bool \<Rightarrow> time \<Rightarrow> route_state \<Rightarrow> route_state" where
  "recordReliabilityReplay cf e wo outcome_text reason cause repaired started st =
     (if \<not> cf_audit cf then st
      else let data = replay_data e wo outcome_text reason cause repaired started;
               ev = \<lparr>ce_ID = NewID ''evt'' (idents e [0]), ce_Time = Now e 1, ce_Type = TypeReliabilityReplayOutcome, ce_Subject = rd_WorkID data,
                 ce_WorkID = rd_WorkID data, FromState = [], ToState = [], ce_CorrelationID = []\<rparr>
        in case Emit ev (rs_db st) of
          (Inl _, db') \<Rightarrow> st\<lparr>rs_db := db'\<rparr>
        | (Inr _, db') \<Rightarrow> st\<lparr>rs_db := db', rs_replays := rs_replays st @ [(ce_ID ev, data)]\<rparr>)"

section \<open>Creation\<close>

datatype work_reply = WError nat string | WCreated Work | WReplay Work | WOne Work | WMany "Work list"

text \<open>Decoding a body leaves the three fields tagged \<^verbatim>\<open>json:"-"\<close> empty, and so does the copy through JSON.\<close>

definition cloneWorkCreationRequest :: "Work \<Rightarrow> Work" where
  "cloneWorkCreationRequest w = w\<lparr>CreationIntentHash := [], AdmissionDefaultsJSON := [], QueueRequested := None\<rparr>"

definition lookupIdempotentWork :: "string \<Rightarrow> db \<Rightarrow> Work option result" where
  "lookupIdempotentWork key db =
     (if key = [] then Inr None
      else case GetWorkByIdempotencyKey key db of Inl ErrNotFound \<Rightarrow> Inr None | Inl x \<Rightarrow> Inl x | Inr w \<Rightarrow> Inr (Some w))"

text \<open>\<^verbatim>\<open>reconcileReplayQueue\<close> on a Work that is there; the callers have ruled out nil.\<close>

definition reconcileReplayQueue :: "env \<Rightarrow> (nat \<Rightarrow> db \<Rightarrow> db) \<Rightarrow> Work \<Rightarrow> db \<Rightarrow> Work result \<times> db" where
  "reconcileReplayQueue e between existing db =
     (if QueueRequested existing \<noteq> Some True \<or> work_State existing \<noteq> StateCreated then (Inr existing, db)
      else case UpdateState e (work_ID existing) StateQueued (between 0 db) of
        (Inr updated, db') \<Rightarrow> (Inr updated, db')
      | (Inl x, db') \<Rightarrow>
          let db'' = between 1 db' in
          (case GetWork (work_ID existing) db'' of
             Inr latest \<Rightarrow> if work_State latest \<noteq> StateCreated then (Inr latest, db'') else (Inl x, db'')
           | Inl _ \<Rightarrow> (Inl x, db'')))"

text \<open>What a request asks for: its immutable intent, whether to queue, the hash and the defaults under which it is accepted, the cause it reports and when it arrived.\<close>

record creation =
  cr_request :: Work
  cr_queue :: bool
  cr_hash :: string
  cr_defaults :: string
  cr_cause :: string
  cr_started :: time

definition creation_of :: "create_config \<Rightarrow> env \<Rightarrow> string \<Rightarrow> Work \<Rightarrow> bool \<Rightarrow> creation" where
  "creation_of cf e cause w queue =
     (let request = cloneWorkCreationRequest w
      in \<lparr>cr_request = request, cr_queue = queue,
          cr_hash = creationIntentHashWithDefaults (cf_codec cf) request currentAdmissionDefaults,
          cr_defaults = encodeAdmissionDefaults (cf_codec cf) currentAdmissionDefaults,
          cr_cause = NormalizeRecoveryCause cause, cr_started = Now e 0\<rparr>)"

text \<open>The end of both replay paths: complete the queueing, record it, answer with the Work.\<close>

definition finish_replay ::
  "create_config \<Rightarrow> env \<Rightarrow> (nat \<Rightarrow> db \<Rightarrow> db) \<Rightarrow> creation \<Rightarrow> string \<Rightarrow> string \<Rightarrow> Work \<Rightarrow> route_state \<Rightarrow> work_reply \<times> route_state" where
  "finish_replay cf e between r failure_reason reason existing st =
     (case reconcileReplayQueue (call 0 e) between existing (rs_db st) of
        (Inl _, db') \<Rightarrow> (WError 500 ''queue_reconcile_failed'',
          recordReliabilityReplay cf (call 1 e) None ''failure'' failure_reason (cr_cause r) False (cr_started r) (st\<lparr>rs_db := db'\<rparr>))
      | (Inr w, db') \<Rightarrow>
          (let repaired = (work_State existing = StateCreated \<and> work_State w = StateQueued)
           in (WReplay w, recordReliabilityReplay cf (call 1 e) (Some w) ''recovered'' reason (cr_cause r) repaired (cr_started r) (st\<lparr>rs_db := db'\<rparr>))))"

definition replay_existing ::
  "create_config \<Rightarrow> env \<Rightarrow> (nat \<Rightarrow> db \<Rightarrow> db) \<Rightarrow> creation \<Rightarrow> Work \<Rightarrow> route_state \<Rightarrow> work_reply \<times> route_state" where
  "replay_existing cf e between r existing st =
     (if \<not> replayMatchesDurableIntent (cf_codec cf) (Some existing) (Some (cr_request r)) (cr_queue r) then
        (WError 409 ''idempotency_conflict'',
         recordReliabilityReplay cf (call 1 e) (Some existing) ''conflict'' ''intent_or_queue_mismatch'' (cr_cause r) False (cr_started r) st)
      else finish_replay cf e between r ''queue_reconcile_failed'' ''canonical_replay'' existing st)"

text \<open>The store refused the insert because another request bound the key meanwhile.\<close>

definition replay_concurrent ::
  "create_config \<Rightarrow> env \<Rightarrow> (nat \<Rightarrow> db \<Rightarrow> db) \<Rightarrow> creation \<Rightarrow> route_state \<Rightarrow> work_reply \<times> route_state" where
  "replay_concurrent cf e between r st =
     (let existing = (case lookupIdempotentWork (IdempotencyKey (cr_request r)) (rs_db st) of Inl _ \<Rightarrow> None | Inr wo \<Rightarrow> wo) in
      case existing of
        Some w \<Rightarrow> if replayMatchesAcceptedHash (Some w) (cr_hash r) (cr_queue r)
          then finish_replay cf e between r ''concurrent_queue_reconcile_failed'' ''concurrent_create_replay'' w st
          else (WError 409 ''idempotency_conflict'',
            recordReliabilityReplay cf (call 1 e) (Some w) ''conflict'' ''concurrent_intent_mismatch'' (cr_cause r) False (cr_started r) st)
      | None \<Rightarrow> (WError 409 ''idempotency_conflict'',
          recordReliabilityReplay cf (call 1 e) None ''conflict'' ''concurrent_intent_mismatch'' (cr_cause r) False (cr_started r) st))"

text \<open>After an insert under a key the canonical row is read back and compared with the request.\<close>

definition answer_canonical ::
  "create_config \<Rightarrow> env \<Rightarrow> (nat \<Rightarrow> db \<Rightarrow> db) \<Rightarrow> creation \<Rightarrow> route_state \<Rightarrow> work_reply \<times> route_state" where
  "answer_canonical cf e between r st =
     (case lookupIdempotentWork (IdempotencyKey (cr_request r)) (rs_db st) of
        Inl _ \<Rightarrow> (WError 500 ''idempotency_lookup_failed'', st)
      | Inr None \<Rightarrow> (WError 500 ''idempotency_lookup_failed'', st)
      | Inr (Some canonical) \<Rightarrow>
          if \<not> replayMatchesAcceptedHash (Some canonical) (cr_hash r) (cr_queue r) then
            (WError 409 ''idempotency_conflict'',
             recordReliabilityReplay cf (call 1 e) (Some canonical) ''conflict'' ''post_create_canonical_mismatch'' (cr_cause r) False (cr_started r) st)
          else if cr_queue r then
            (case reconcileReplayQueue (call 0 e) between canonical (rs_db st) of
               (Inl _, db') \<Rightarrow> (WError 500 ''queue_reconcile_failed'', st\<lparr>rs_db := db'\<rparr>)
             | (Inr w, db') \<Rightarrow> (WCreated w, st\<lparr>rs_db := db'\<rparr>))
          else (WCreated canonical, st))"

definition admit_creation :: "env \<Rightarrow> creation \<Rightarrow> work_reply + Work" where
  "admit_creation e r =
     (let w = cr_request r;
          w = (if work_ID w = [] then w\<lparr>work_ID := fresh e 1 ''wrk''\<rparr> else w);
          w = (if work_State w = StateOther [] then w\<lparr>work_State := StateCreated\<rparr> else w)
      in case Validate w of Some _ \<Rightarrow> Inl (WError 400 ''validation_failed'')
      | None \<Rightarrow> (case ValidateAndEnrich (Some w) of
          (Some w', None) \<Rightarrow> Inr (if IdempotencyKey w' = [] then w'
            else w'\<lparr>CreationIntentHash := cr_hash r, AdmissionDefaultsJSON := cr_defaults r, QueueRequested := Some (cr_queue r)\<rparr>)
        | _ \<Rightarrow> Inl (WError 400 ''admission_rejected'')))"

definition create_new ::
  "create_config \<Rightarrow> env \<Rightarrow> (nat \<Rightarrow> db \<Rightarrow> db) \<Rightarrow> creation \<Rightarrow> route_state \<Rightarrow> work_reply \<times> route_state" where
  "create_new cf e between r st =
     (case admit_creation e r of Inl reply \<Rightarrow> (reply, st)
      | Inr w \<Rightarrow> (case CreateWork (call 2 e) w (between 1 (rs_db st)) of
          (Inl ErrIdempotencyConflict, db1) \<Rightarrow> replay_concurrent cf (call 3 e) (\<lambda>i. between (3 + i)) r (st\<lparr>rs_db := between 2 db1\<rparr>)
        | (Inl _, db1) \<Rightarrow> (WError 500 ''create_failed'', st\<lparr>rs_db := db1\<rparr>)
        | (Inr w', db1) \<Rightarrow>
            if IdempotencyKey (cr_request r) \<noteq> [] then answer_canonical cf (call 3 e) (\<lambda>i. between (3 + i)) r (st\<lparr>rs_db := between 2 db1\<rparr>)
            else if cr_queue r then
              (case UpdateState (call 4 e) (work_ID w') StateQueued (between 2 db1) of
                 (Inl _, db2) \<Rightarrow> (WCreated w', st\<lparr>rs_db := db2\<rparr>)
               | (Inr queued, db2) \<Rightarrow> (WCreated queued, st\<lparr>rs_db := db2\<rparr>))
            else (WCreated w', st\<lparr>rs_db := db1\<rparr>)))"

definition createWork ::
  "create_config \<Rightarrow> env \<Rightarrow> (nat \<Rightarrow> db \<Rightarrow> db) \<Rightarrow> string \<Rightarrow> (Work \<times> bool) option \<Rightarrow> route_state \<Rightarrow> work_reply \<times> route_state" where
  "createWork cf e between cause body st =
     (case body of None \<Rightarrow> (WError 400 ''invalid_json'', st)
      | Some (w, queue) \<Rightarrow>
        let r = creation_of cf e cause w queue;
            st = (if IdempotencyKey (cr_request r) = [] then st else st\<lparr>rs_db := between 0 (rs_db st)\<rparr>)
        in case lookupIdempotentWork (IdempotencyKey (cr_request r)) (rs_db st) of
          Inl _ \<Rightarrow> (WError 500 ''idempotency_lookup_failed'', st)
        | Inr (Some existing) \<Rightarrow> replay_existing cf (call 5 e) (\<lambda>i. between (1 + i)) r existing st
        | Inr None \<Rightarrow> create_new cf e between r st)"

section \<open>The other routes\<close>

definition listWorks :: "int option \<Rightarrow> db \<Rightarrow> work_reply" where
  "listWorks n db = WMany (ListWorks (case n of None \<Rightarrow> 50 | Some n \<Rightarrow> if n > 0 \<and> n \<le> 500 then n else 50) db)"

definition getWork :: "string \<Rightarrow> db \<Rightarrow> work_reply" where
  "getWork wid db = (case GetWork wid db of Inl ErrNotFound \<Rightarrow> WError 404 ''not_found'' | Inl _ \<Rightarrow> WError 500 ''get_failed'' | Inr w \<Rightarrow> WOne w)"

definition cancelWork :: "env \<Rightarrow> string \<Rightarrow> db \<Rightarrow> work_reply \<times> db" where
  "cancelWork e wid db = (case UpdateState e wid StateCancelled db of
     (Inl ErrNotFound, db') \<Rightarrow> (WError 404 ''not_found'', db') | (Inl _, db') \<Rightarrow> (WError 409 ''cancel_failed'', db') | (Inr w, db') \<Rightarrow> (WOne w, db'))"

definition queueWork :: "env \<Rightarrow> string \<Rightarrow> db \<Rightarrow> work_reply \<times> db" where
  "queueWork e wid db = (case UpdateState e wid StateQueued db of
     (Inl ErrNotFound, db') \<Rightarrow> (WError 404 ''not_found'', db') | (Inl _, db') \<Rightarrow> (WError 409 ''queue_failed'', db') | (Inr w, db') \<Rightarrow> (WOne w, db'))"

text \<open>\<open>path\<close> is what follows \<^verbatim>\<open>/v1/works/\<close>.\<close>

definition workItemHandler :: "env \<Rightarrow> string \<Rightarrow> string \<Rightarrow> db \<Rightarrow> work_reply \<times> db" where
  "workItemHandler e httpMethod path db =
     (let parts = Split path CHR ''/''; wid = hd parts; action = (if length parts > 1 then parts ! 1 else [])
      in if wid = [] then (WError 400 ''missing_id'', db)
      else if httpMethod = ''GET'' \<and> action = [] then (getWork wid db, db)
      else if httpMethod = ''POST'' \<and> action = ''cancel'' then cancelWork e wid db
      else if httpMethod = ''POST'' \<and> action = ''queue'' then queueWork e wid db
      else (WError 404 ''not_found'', db))"

definition worksHandler ::
  "create_config \<Rightarrow> env \<Rightarrow> (nat \<Rightarrow> db \<Rightarrow> db) \<Rightarrow> string \<Rightarrow> string \<Rightarrow> (Work \<times> bool) option \<Rightarrow> int option \<Rightarrow> route_state \<Rightarrow> work_reply \<times> route_state" where
  "worksHandler cf e between httpMethod cause body n st =
     (if httpMethod = ''POST'' then createWork cf e between cause body st
      else if httpMethod = ''GET'' then (listWorks n (rs_db st), st)
      else (WError 405 ''method_not_allowed'', st))"

section \<open>The store under the routes\<close>

text \<open>What other requests may do between two store calls of a handler.\<close>

definition peers :: "(State \<Rightarrow> State \<Rightarrow> bool) \<Rightarrow> (nat \<Rightarrow> db \<Rightarrow> db) \<Rightarrow> bool" where
  "peers R between \<longleftrightarrow> (\<forall>i db. advances R db (between i db)) \<and> (\<forall>a b. CanTransition a b \<longrightarrow> R a b)"

lemma peers_between: "peers R between \<Longrightarrow> advances R db (between i db)"
  by (simp add: peers_def)

lemma peers_shift: "peers R between \<Longrightarrow> peers R (\<lambda>i. between (k + i))"
  by (simp add: peers_def)

lemma peers_UpdateState: "peers R between \<Longrightarrow> advances R db (snd (UpdateState e wid to db))"
  using advances_mono [OF UpdateState_advances] by (simp add: peers_def)

lemma advances_audit: "advances R db (auditEmit ev db)"
  by (rule advancesI) (simp_all add: evolves_same_works store_ok_auditEmit)

lemma recordReliabilityReplay_db:
  "rs_db (recordReliabilityReplay cf e wo out reason cause rep started st) = rs_db st
   \<or> (\<exists>ev. rs_db (recordReliabilityReplay cf e wo out reason cause rep started st) = auditEmit ev (rs_db st))"
proof (cases "cf_audit cf")
  case True
  let ?d = "replay_data e wo out reason cause rep started"
  let ?ev = "\<lparr>ce_ID = NewID ''evt'' (idents e [0]), ce_Time = Now e 1, ce_Type = TypeReliabilityReplayOutcome, ce_Subject = rd_WorkID ?d,
                 ce_WorkID = rd_WorkID ?d, FromState = [], ToState = [], ce_CorrelationID = []\<rparr>"
  have "rs_db (recordReliabilityReplay cf e wo out reason cause rep started st) = auditEmit ?ev (rs_db st)"
    using True by (simp add: recordReliabilityReplay_def auditEmit_def Let_def split: prod.split sum.split)
  then show ?thesis by blast
qed (simp add: recordReliabilityReplay_def)

lemma recordReliabilityReplay_frame [simp]:
  "works (rs_db (recordReliabilityReplay cf e wo out reason cause rep started st)) = works (rs_db st)"
  "leases (rs_db (recordReliabilityReplay cf e wo out reason cause rep started st)) = leases (rs_db st)"
  "events (rs_db (recordReliabilityReplay cf e wo out reason cause rep started st)) = events (rs_db st)"
  using recordReliabilityReplay_db [of cf e wo out reason cause rep started st] by auto

lemma recordReliabilityReplay_advances:
  "advances R (rs_db st) (rs_db (recordReliabilityReplay cf e wo out reason cause rep started st))"
  using recordReliabilityReplay_db [of cf e wo out reason cause rep started st] advances_audit by (metis advances_refl)

lemma then_advances: "advances R a (rs_db st) \<Longrightarrow> advances R a (rs_db (recordReliabilityReplay cf e wo out reason cause rep started st))"
  using advances_trans recordReliabilityReplay_advances by blast

lemma reconcile_advances:
  assumes "peers R between"
  shows "advances R db (snd (reconcileReplayQueue e between x db))"
proof -
  let ?u = "UpdateState e (work_ID x) StateQueued (between 0 db)"
  have u: "advances R db (snd ?u)" and l: "advances R db (between 1 (snd ?u))"
    using advances_trans [OF peers_between [OF assms] peers_UpdateState [OF assms]] advances_trans [OF _ peers_between [OF assms]] by blast+
  show ?thesis
    using u l by (auto simp: reconcileReplayQueue_def Let_def split: prod.splits sum.splits)
qed

lemma finish_replay_advances:
  assumes "peers R between"
  shows "advances R (rs_db st) (rs_db (snd (finish_replay cf e between r fr reason x st)))"
  using reconcile_advances [OF assms, of "rs_db st" "call 0 e" x]
  by (auto simp: finish_replay_def Let_def intro: then_advances split: prod.split sum.split)

lemma replay_existing_advances: "peers R between \<Longrightarrow> advances R (rs_db st) (rs_db (snd (replay_existing cf e between r x st)))"
  by (simp add: replay_existing_def finish_replay_advances recordReliabilityReplay_advances)

lemma replay_concurrent_advances: "peers R between \<Longrightarrow> advances R (rs_db st) (rs_db (snd (replay_concurrent cf e between r st)))"
  by (auto simp: replay_concurrent_def Let_def finish_replay_advances recordReliabilityReplay_advances split: option.split)

lemma answer_canonical_advances: "peers R between \<Longrightarrow> advances R (rs_db st) (rs_db (snd (answer_canonical cf e between r st)))"
  using reconcile_advances [of R between "rs_db st" "call 0 e"]
  by (auto simp: answer_canonical_def recordReliabilityReplay_advances split: sum.split option.split prod.split) (metis snd_conv)+

lemma create_new_advances:
  assumes "peers R between"
  shows "advances R (rs_db st) (rs_db (snd (create_new cf e between r st)))"
proof (cases "admit_creation e r")
  case (Inr w)
  obtain res db1 where c: "CreateWork (call 2 e) w (between 1 (rs_db st)) = (res, db1)" by (cases "CreateWork (call 2 e) w (between 1 (rs_db st))")
  have "advances R (between 1 (rs_db st)) db1" using CreateWork_advances [of R "between 1 (rs_db st)" "call 2 e" w] c by simp
  then have db1: "advances R (rs_db st) db1" using advances_trans [OF peers_between [OF assms]] by blast
  then have db2: "advances R (rs_db st) (between 2 db1)" using advances_trans [OF _ peers_between [OF assms]] by blast
  have up: "advances R (rs_db st) (snd (UpdateState e' wid to (between 2 db1)))" for e' wid to
    using advances_trans [OF db2 peers_UpdateState [OF assms]] .
  have conc: "advances R (rs_db st) (rs_db (snd (replay_concurrent cf e' (\<lambda>i. between (3 + i)) r (st\<lparr>rs_db := between 2 db1\<rparr>))))" for e'
    using advances_trans [OF db2] replay_concurrent_advances [OF peers_shift [OF assms], of "st\<lparr>rs_db := between 2 db1\<rparr>" cf e' 3 r] by simp
  have canon: "advances R (rs_db st) (rs_db (snd (answer_canonical cf e' (\<lambda>i. between (3 + i)) r (st\<lparr>rs_db := between 2 db1\<rparr>))))" for e'
    using advances_trans [OF db2] answer_canonical_advances [OF peers_shift [OF assms], of "st\<lparr>rs_db := between 2 db1\<rparr>" cf e' 3 r] by simp
  show ?thesis
  proof (cases res)
    case (Inl x)
    then show ?thesis using db1 conc by (cases x) (simp_all add: create_new_def Inr c del: One_nat_def)
  next
    case (Inr w')
    with \<open>admit_creation e r = Inr w\<close> show ?thesis
      using db1 canon up [of "call 4 e" "work_ID w'" StateQueued] by (auto simp: create_new_def c simp del: One_nat_def split: prod.split sum.split)
  qed
qed (simp add: create_new_def)

definition first_read :: "(nat \<Rightarrow> db \<Rightarrow> db) \<Rightarrow> creation \<Rightarrow> route_state \<Rightarrow> route_state" where
  "first_read between r st = (if IdempotencyKey (cr_request r) = [] then st else st\<lparr>rs_db := between 0 (rs_db st)\<rparr>)"

lemma createWork_unfold:
  assumes "r = creation_of cf e cause w queue" "st1 = first_read between r st"
  shows "createWork cf e between cause (Some (w, queue)) st = (case lookupIdempotentWork (IdempotencyKey (cr_request r)) (rs_db st1) of
          Inl _ \<Rightarrow> (WError 500 ''idempotency_lookup_failed'', st1)
        | Inr (Some existing) \<Rightarrow> replay_existing cf (call 5 e) (\<lambda>i. between (1 + i)) r existing st1
        | Inr None \<Rightarrow> create_new cf e between r st1)"
  unfolding createWork_def Let_def option.case prod.case assms first_read_def by (rule refl)

lemma first_read_advances: "peers R between \<Longrightarrow> advances R (rs_db st) (rs_db (first_read between r st))"
  using peers_between by (simp add: first_read_def)

text \<open>Whatever a creation request does and whatever its peers do meanwhile, the store only advances.\<close>

lemma createWork_advances:
  assumes "peers R between"
  shows "advances R (rs_db st) (rs_db (snd (createWork cf e between cause body st)))"
proof (cases body)
  case (Some p)
  obtain w queue where p: "p = (w, queue)" by (cases p)
  note st1 = first_read_advances [OF assms, of st "creation_of cf e cause w queue"]
  show ?thesis
    unfolding Some p createWork_unfold [OF refl refl]
    using st1 advances_trans [OF st1 replay_existing_advances [OF peers_shift [OF assms]]] advances_trans [OF st1 create_new_advances [OF assms]]
    by (simp del: One_nat_def plus_1_eq_Suc split: sum.split option.split)
qed (simp add: createWork_def)

text \<open>Peers are at least the calls of the store, in any number and order between any two steps; so any run of creations among them keeps the tables well-formed.\<close>

definition interleaved :: "codec \<Rightarrow> (time \<Rightarrow> string) \<Rightarrow> (nat \<Rightarrow> store_call list) \<Rightarrow> nat \<Rightarrow> db \<Rightarrow> db" where
  "interleaved c fmt cs i = fold (exec_store c fmt) (cs i)"

lemma interleaved_peers: "peers store_moves (interleaved c fmt cs)"
  using run_advances table_moves by (auto simp: peers_def interleaved_def)

definition exec_create ::
  "create_config \<Rightarrow> codec \<Rightarrow> (time \<Rightarrow> string) \<Rightarrow> env \<times> (nat \<Rightarrow> store_call list) \<times> string \<times> (Work \<times> bool) option \<Rightarrow> route_state \<Rightarrow> route_state" where
  "exec_create cf c fmt q st = snd (createWork cf (fst q) (interleaved c fmt (fst (snd q))) (fst (snd (snd q))) (snd (snd (snd q))) st)"

interpretation create_ops: invariant_ops "exec_create cf c fmt" "\<lambda>st. store_ok (rs_db st)" for cf c fmt
  by unfold_locales (use createWork_advances [OF interleaved_peers] in \<open>auto simp: exec_create_def advances_def\<close>)

section \<open>What a creation answers\<close>

text \<open>The Work of a reply is a row of the store up to its state, its update time and its children.\<close>

definition shows_row :: "Work \<Rightarrow> Work \<Rightarrow> bool" where
  "shows_row v row \<longleftrightarrow> work_frame (work_columns v) = work_frame row"

lemma frame_fields:
  "work_ID (work_frame w) = work_ID w" "IdempotencyKey (work_frame w) = IdempotencyKey w" "CreationIntentHash (work_frame w) = CreationIntentHash w"
  "AdmissionDefaultsJSON (work_frame w) = AdmissionDefaultsJSON w" "QueueRequested (work_frame w) = QueueRequested w"
  "canonicalCreationIntentWithDefaults (work_frame w) d = canonicalCreationIntentWithDefaults w d"
  "work_ID (work_columns w) = work_ID w" "IdempotencyKey (work_columns w) = IdempotencyKey w" "CreationIntentHash (work_columns w) = CreationIntentHash w"
  "AdmissionDefaultsJSON (work_columns w) = AdmissionDefaultsJSON w" "QueueRequested (work_columns w) = QueueRequested w"
  "canonicalCreationIntentWithDefaults (work_columns w) d = canonicalCreationIntentWithDefaults w d"
  by (simp_all add: work_frame_def work_columns_def canonicalCreationIntentWithDefaults_def)

lemma shows_row_field:
  assumes "shows_row v row" "\<And>w. f (work_frame w) = f w" "\<And>w. f (work_columns w) = f w"
  shows "f v = f row"
  using arg_cong [OF assms(1) [unfolded shows_row_def], of f] assms(2,3) by simp

lemma shows_row_trans: "shows_row v row \<Longrightarrow> work_frame row' = work_frame row \<Longrightarrow> shows_row v row'"
  by (simp add: shows_row_def)

lemma GetWork_row:
  assumes "store_ok db" "GetWork wid db = Inr v"
  shows "\<exists>row. get_row wid db = Some row \<and> work_ID v = wid \<and> shows_row v row \<and> work_State v = work_State row"
proof -
  obtain row where row: "get_row wid db = Some row"
    and v: "v = row\<lparr>Attempts := attempts_of wid db, Artifacts := artifacts_of wid db, work_Evidence := evidence_of wid db\<rparr>"
    using assms(2) by (auto simp: GetWork_def split: option.splits)
  have "bare row" "work_ID row = wid" using get_row_in [OF row] assms(1) by (auto simp: store_ok_def works_ok_def)
  then have "shows_row v row" by (cases row) (simp add: shows_row_def v work_frame_def work_columns_def bare_def)
  with row v \<open>work_ID row = wid\<close> show ?thesis by simp
qed

lemma lookup_row:
  assumes "store_ok db" "lookupIdempotentWork key db = Inr (Some v)"
  shows "\<exists>row. get_row (work_ID v) db = Some row \<and> shows_row v row \<and> IdempotencyKey row = key \<and> work_State v = work_State row"
proof -
  obtain x where x: "find_row IdempotencyKey key (works db) = Some x" "GetWork (work_ID x) db = Inr v"
    using assms(2) by (auto simp: lookupIdempotentWork_def GetWorkByIdempotencyKey_def split: if_splits option.splits sum.splits store_error.splits)
  have "get_row (work_ID x) db = Some x"
    using find_row_Some [OF x(1)] assms(1) find_row_distinct [of work_ID "works db" x] by (simp add: get_row_def store_ok_def works_ok_def)
  with GetWork_row [OF assms(1) x(2)] find_row_Some [OF x(1)] show ?thesis by auto
qed

lemma advances_row:
  assumes "advances R db db'" "store_ok db" "get_row wid db = Some row"
  shows "store_ok db'" "\<exists>row'. get_row wid db' = Some row' \<and> work_frame row' = work_frame row"
  using assms by (auto simp: advances_def evolves_def)

lemma UpdateState_Inr: "UpdateState e wid to db = (Inr v, db') \<Longrightarrow> GetWork wid db' = Inr v"
  by (auto simp: UpdateState_def Let_def split: option.splits if_splits)

lemma reconcile_shows:
  assumes "store_ok db" "peers R between" "get_row (work_ID x) db = Some row" "shows_row x row"
    and "reconcileReplayQueue e between x db = (Inr v, db')"
  shows "work_ID v = work_ID x" "\<exists>row'. get_row (work_ID x) db' = Some row' \<and> work_frame row' = work_frame row \<and> shows_row v row'"
proof -
  have adv: "advances R db db'" using reconcile_advances [OF assms(2), of db e x] assms(5) by simp
  obtain row' where row': "store_ok db'" "get_row (work_ID x) db' = Some row'" "work_frame row' = work_frame row"
    using advances_row [OF adv assms(1,3)] by blast
  have "v = x \<or> GetWork (work_ID x) db' = Inr v"
    using assms(5) UpdateState_Inr by (auto simp: reconcileReplayQueue_def Let_def split: if_splits prod.splits sum.splits)
  then have "work_ID v = work_ID x \<and> shows_row v row'"
    using GetWork_row [OF row'(1), of "work_ID x" v] row' assms(4) shows_row_trans by auto
  then show "work_ID v = work_ID x" "\<exists>row'. get_row (work_ID x) db' = Some row' \<and> work_frame row' = work_frame row \<and> shows_row v row'"
    using row' by auto
qed

text \<open>The row answers the request: it was accepted with the same queue flag and with the hash the request has under the defaults of its acceptance (which are
  the current ones or those stored in the row); a row without creation metadata has the same canonical intent.\<close>

definition accepted_as :: "intent_codec \<Rightarrow> Work \<Rightarrow> bool \<Rightarrow> Work \<Rightarrow> bool" where
  "accepted_as c request queue row \<longleftrightarrow>
     (if CreationIntentHash row = [] then AdmissionDefaultsJSON row = [] \<and> QueueRequested row = None \<and> sameWorkCreationIdentity c row request
      else QueueRequested row = Some queue \<and> (\<exists>d. CreationIntentHash row = creationIntentHashWithDefaults c request d
        \<and> (d = currentAdmissionDefaults \<or> decodeAdmissionDefaults c (AdmissionDefaultsJSON row) = Some d)))"

lemma durable_accepted: "replayMatchesDurableIntent c (Some x) (Some request) queue \<Longrightarrow> accepted_as c request queue x"
  by (auto simp: replayMatchesDurableIntent_def accepted_as_def split: if_splits option.splits)

lemma hash_accepted:
  "replayMatchesAcceptedHash (Some x) (creationIntentHashWithDefaults c request currentAdmissionDefaults) queue \<Longrightarrow> accepted_as c request queue x"
  by (auto simp: replayMatchesAcceptedHash_def accepted_as_def split: if_splits option.splits)

lemma accepted_as_field:
  "accepted_as c request queue (work_frame w) = accepted_as c request queue w" "accepted_as c request queue (work_columns w) = accepted_as c request queue w"
  by (simp_all add: accepted_as_def frame_fields sameWorkCreationIdentity_def canonicalCreationIntent_def)

text \<open>A reply that carries a Work names a row under the request's key that answers the request.\<close>

definition truthful :: "intent_codec \<Rightarrow> creation \<Rightarrow> work_reply \<times> route_state \<Rightarrow> bool" where
  "truthful c r out \<longleftrightarrow> (\<forall>v. fst out = WCreated v \<or> fst out = WReplay v \<longrightarrow> (\<exists>row. get_row (work_ID v) (rs_db (snd out)) = Some row
     \<and> shows_row v row \<and> IdempotencyKey row = IdempotencyKey (cr_request r) \<and> accepted_as c (cr_request r) (cr_queue r) row))"

lemma reconciled_truth:
  assumes "store_ok db" "peers R between" "lookupIdempotentWork (IdempotencyKey (cr_request r)) db = Inr (Some x)" "accepted_as c (cr_request r) (cr_queue r) x"
    and "reconcileReplayQueue e between x db = (Inr v, db')"
  shows "\<exists>row. get_row (work_ID v) db' = Some row \<and> shows_row v row \<and> IdempotencyKey row = IdempotencyKey (cr_request r)
    \<and> accepted_as c (cr_request r) (cr_queue r) row"
proof -
  obtain row where row: "get_row (work_ID x) db = Some row" "shows_row x row" "IdempotencyKey row = IdempotencyKey (cr_request r)"
    using lookup_row [OF assms(1,3)] by blast
  from reconcile_shows [OF assms(1,2) row(1,2) assms(5)] obtain row' where
    v: "work_ID v = work_ID x" "get_row (work_ID x) db' = Some row'" "work_frame row' = work_frame row" "shows_row v row'" by blast
  have "IdempotencyKey row' = IdempotencyKey row" using arg_cong [OF v(3), of IdempotencyKey] by (simp add: frame_fields)
  moreover have "accepted_as c (cr_request r) (cr_queue r) row'"
    using assms(4) shows_row_field [OF shows_row_trans [OF row(2) v(3)], of "accepted_as c (cr_request r) (cr_queue r)"] by (simp add: accepted_as_field)
  ultimately show ?thesis using v row(3) by auto
qed

lemma truthful_error [simp]: "truthful c r (WError n x, st)"
  by (simp add: truthful_def)

lemma get_row_recorded [simp]:
  "get_row wid (rs_db (recordReliabilityReplay cf e wo out reason cause rep started st)) = get_row wid (rs_db st)"
  by (rule get_row_cong) simp

lemma finish_replay_truthful:
  assumes "store_ok (rs_db st)" "peers R between" "lookupIdempotentWork (IdempotencyKey (cr_request r)) (rs_db st) = Inr (Some x)"
    "accepted_as c (cr_request r) (cr_queue r) x"
  shows "truthful c r (finish_replay cf e between r fr reason x st)"
  using reconciled_truth [OF assms(1,2,3,4), of "call 0 e"]
  by (auto simp: finish_replay_def truthful_def Let_def split: prod.split sum.split)

lemma replay_existing_truthful:
  assumes "store_ok (rs_db st)" "peers R between" "lookupIdempotentWork (IdempotencyKey (cr_request r)) (rs_db st) = Inr (Some x)"
  shows "truthful (cf_codec cf) r (replay_existing cf e between r x st)"
  using finish_replay_truthful [OF assms] durable_accepted by (simp add: replay_existing_def)

lemma replay_concurrent_truthful:
  assumes "store_ok (rs_db st)" "peers R between" "cr_hash r = creationIntentHashWithDefaults c (cr_request r) currentAdmissionDefaults"
  shows "truthful c r (replay_concurrent cf e between r st)"
proof (cases "lookupIdempotentWork (IdempotencyKey (cr_request r)) (rs_db st)")
  case (Inr wo)
  then show ?thesis
    using finish_replay_truthful [OF assms(1,2)] hash_accepted [of _ c "cr_request r" "cr_queue r"] assms(3)
    by (cases wo) (simp_all add: replay_concurrent_def)
qed (simp add: replay_concurrent_def)

lemma answer_canonical_truthful:
  assumes "store_ok (rs_db st)" "peers R between" "cr_hash r = creationIntentHashWithDefaults c (cr_request r) currentAdmissionDefaults"
  shows "truthful c r (answer_canonical cf e between r st)"
proof (cases "\<exists>x. lookupIdempotentWork (IdempotencyKey (cr_request r)) (rs_db st) = Inr (Some x) \<and> replayMatchesAcceptedHash (Some x) (cr_hash r) (cr_queue r)")
  case True
  then obtain x where x: "lookupIdempotentWork (IdempotencyKey (cr_request r)) (rs_db st) = Inr (Some x)"
    and match: "replayMatchesAcceptedHash (Some x) (cr_hash r) (cr_queue r)" by blast
  have acc: "accepted_as c (cr_request r) (cr_queue r) x" using hash_accepted match assms(3) by simp
  obtain row where row: "get_row (work_ID x) (rs_db st) = Some row" "shows_row x row" "IdempotencyKey row = IdempotencyKey (cr_request r)"
    using lookup_row [OF assms(1) x] by blast
  have "accepted_as c (cr_request r) (cr_queue r) row"
    using acc shows_row_field [OF row(2), of "accepted_as c (cr_request r) (cr_queue r)"] by (simp add: accepted_as_field)
  with row reconciled_truth [OF assms(1,2) x acc, of "call 0 e"] show ?thesis
    by (auto simp: answer_canonical_def x match truthful_def split: prod.split sum.split)
qed (auto simp: answer_canonical_def split: sum.split option.split)

lemma create_new_truthful:
  assumes "store_ok (rs_db st)" "peers R between" "cr_hash r = creationIntentHashWithDefaults c (cr_request r) currentAdmissionDefaults"
    "IdempotencyKey (cr_request r) \<noteq> []"
  shows "truthful c r (create_new cf e between r st)"
proof (cases "admit_creation e r")
  case (Inl reply)
  then have "\<exists>n x. reply = WError n x"
    by (auto simp: admit_creation_def Let_def split: option.splits prod.splits)
  with Inl show ?thesis by (auto simp: create_new_def)
next
  case (Inr w)
  obtain res db1 where c: "CreateWork (call 2 e) w (between 1 (rs_db st)) = (res, db1)" by (cases "CreateWork (call 2 e) w (between 1 (rs_db st))")
  have "store_ok (between 1 (rs_db st))" using peers_between [OF assms(2)] assms(1) by (auto simp: advances_def)
  then have "store_ok db1" using CreateWork_ok [of "between 1 (rs_db st)" "call 2 e" w] c by simp
  then have ok: "store_ok (rs_db (st\<lparr>rs_db := between 2 db1\<rparr>))" using peers_between [OF assms(2)] by (auto simp: advances_def)
  note both = replay_concurrent_truthful [OF ok peers_shift [OF assms(2)] assms(3)] answer_canonical_truthful [OF ok peers_shift [OF assms(2)] assms(3)]
  show ?thesis
  proof (cases res)
    case (Inl x)
    with Inr both show ?thesis by (cases x) (simp_all add: create_new_def c del: One_nat_def)
  next
    case (Inr w')
    with \<open>admit_creation e r = Inr w\<close> both assms(4) show ?thesis by (simp add: create_new_def c del: One_nat_def)
  qed
qed

text \<open>C33. A keyed creation answers only with persisted truth. Whatever other requests do to the store between its steps, when the route answers with a Work, created or
  replayed, then that Work is in the store under the request's idempotency key with the content of the reply, and it was accepted for this very intent and queue flag: its stored hash is
  the hash of the request under the defaults of its acceptance, or, for a row that predates the metadata, its canonical intent is that of the request. The loser of a race never sees its own unstored payload.\<close>

theorem create_returns_persisted_truth:
  assumes "store_ok (rs_db st)" "peers R between" "IdempotencyKey w \<noteq> []"
    and "createWork cf e between cause (Some (w, queue)) st = (reply, st')" "reply = WCreated v \<or> reply = WReplay v"
  shows "\<exists>row. get_row (work_ID v) (rs_db st') = Some row \<and> shows_row v row \<and> IdempotencyKey row = IdempotencyKey w
    \<and> accepted_as (cf_codec cf) (cloneWorkCreationRequest w) queue row"
proof -
  define r where "r = creation_of cf e cause w queue"
  define st1 where "st1 = first_read between r st"
  have r: "cr_request r = cloneWorkCreationRequest w" "cr_queue r = queue" "IdempotencyKey (cr_request r) = IdempotencyKey w"
    "cr_hash r = creationIntentHashWithDefaults (cf_codec cf) (cr_request r) currentAdmissionDefaults"
    by (simp_all add: r_def creation_of_def Let_def cloneWorkCreationRequest_def)
  have ok: "store_ok (rs_db st1)" using first_read_advances [OF assms(2)] assms(1) by (auto simp: st1_def advances_def)
  have "truthful (cf_codec cf) r (createWork cf e between cause (Some (w, queue)) st)"
    unfolding createWork_unfold [OF r_def st1_def]
    using replay_existing_truthful [OF ok peers_shift [OF assms(2)]] create_new_truthful [OF ok assms(2) r(4)] assms(3)
    by (simp add: r(3) del: One_nat_def plus_1_eq_Suc split: sum.split option.split)
  then show ?thesis using assms(4,5) r(3) [unfolded r(1)] by (auto simp: truthful_def r(1,2))
qed

section \<open>Requests on their own\<close>

text \<open>A request no other request interferes with.\<close>

definition alone :: "nat \<Rightarrow> db \<Rightarrow> db" where
  "alone i db = db"

lemma first_read_alone [simp]: "first_read alone r st = st"
  by (simp add: first_read_def alone_def)

lemma UpdateState_moves:
  assumes "get_row wid db = Some row" "CanTransition (work_State row) to"
  shows "\<exists>v t. fst (UpdateState e wid to db) = Inr v \<and> work_ID v = wid \<and> work_State v = to \<and> works (snd (UpdateState e wid to db)) = works (set_state wid to t db)
    \<and> leases (snd (UpdateState e wid to db)) = leases db \<and> events (snd (UpdateState e wid to db)) = events db"
proof -
  obtain ev where u: "UpdateState e wid to db = (GetWork wid (auditEmit ev (set_state wid to (Now e 0) db)), auditEmit ev (set_state wid to (Now e 0) db))"
    using assms by (simp add: UpdateState_def Let_def)
  have "get_row wid (auditEmit ev (set_state wid to (Now e 0) db)) = Some (row\<lparr>work_State := to, UpdatedAt := Now e 0\<rparr>)"
    using assms(1) get_row_in [OF assms(1)] get_row_cong [of "auditEmit ev (set_state wid to (Now e 0) db)" "set_state wid to (Now e 0) db" wid]
    by (simp add: get_row_set_state)
  then show ?thesis using get_row_in [OF assms(1)] by (simp add: u GetWork_def) (auto simp: set_state_def)
qed

lemma reconcile_alone:
  assumes "get_row (work_ID x) db = Some row" "work_State x = work_State row" "between' 0 db = db"
  shows "\<exists>v t. fst (reconcileReplayQueue e between' x db) = Inr v \<and> work_ID v = work_ID x
    \<and> work_State v = (if QueueRequested x = Some True \<and> work_State x = StateCreated then StateQueued else work_State x)
    \<and> works (snd (reconcileReplayQueue e between' x db)) =
       works (if QueueRequested x = Some True \<and> work_State x = StateCreated then set_state (work_ID x) StateQueued t db else db)"
proof (cases "QueueRequested x = Some True \<and> work_State x = StateCreated")
  case True
  then have "CanTransition (work_State row) StateQueued" using assms(2) by (simp add: CanTransition_def)
  from UpdateState_moves [OF assms(1) this, of e] obtain v t where
    "fst (UpdateState e (work_ID x) StateQueued db) = Inr v" "work_ID v = work_ID x" "work_State v = StateQueued"
    "works (snd (UpdateState e (work_ID x) StateQueued db)) = works (set_state (work_ID x) StateQueued t db)" by blast
  with True assms(3) show ?thesis
    by (cases "UpdateState e (work_ID x) StateQueued db") (auto simp: reconcileReplayQueue_def)
qed (auto simp: reconcileReplayQueue_def)

text \<open>C34. A replay is decided by its intent alone. When the key is bound to a Work with creation metadata, the request is replayed exactly if its hash under the defaults stored with
  that Work and its queue flag are the accepted ones: the reply is that Work, and the only change to any Work is the missing move from CREATED to QUEUED of this one, so a crash between creation and
  queueing is repaired and a later state is never moved back. Otherwise the request is refused as a conflict and no Work, lease or journal entry changes.\<close>

theorem replay_decided_by_intent:
  assumes "store_ok (rs_db st)" "lookupIdempotentWork (IdempotencyKey w) (rs_db st) = Inr (Some x)"
    and "CreationIntentHash x \<noteq> []" "decodeAdmissionDefaults (cf_codec cf) (AdmissionDefaultsJSON x) = Some d"
  shows "if CreationIntentHash x = creationIntentHashWithDefaults (cf_codec cf) (cloneWorkCreationRequest w) d \<and> QueueRequested x = Some queue
    then \<exists>v t st'. createWork cf e alone cause (Some (w, queue)) st = (WReplay v, st') \<and> work_ID v = work_ID x
      \<and> work_State v = (if queue \<and> work_State x = StateCreated then StateQueued else work_State x)
      \<and> works (rs_db st') = works (if queue \<and> work_State x = StateCreated then set_state (work_ID x) StateQueued t (rs_db st) else rs_db st)
    else \<exists>st'. createWork cf e alone cause (Some (w, queue)) st = (WError 409 ''idempotency_conflict'', st')
      \<and> works (rs_db st') = works (rs_db st) \<and> leases (rs_db st') = leases (rs_db st) \<and> events (rs_db st') = events (rs_db st)"
proof -
  define r where "r = creation_of cf e cause w queue"
  have r: "cr_request r = cloneWorkCreationRequest w" "cr_queue r = queue" "IdempotencyKey (cr_request r) = IdempotencyKey w"
    by (simp_all add: r_def creation_of_def Let_def cloneWorkCreationRequest_def)
  let ?run = "createWork cf e alone cause (Some (w, queue)) st"
  have run: "?run = replay_existing cf (call 5 e) (\<lambda>i. alone (1 + i)) r x st"
    unfolding createWork_unfold [OF r_def refl] first_read_alone r(3) assms(2) by simp
  have stored: "AdmissionDefaultsJSON x \<noteq> []" using assms(4) by (auto simp: decodeAdmissionDefaults_def)
  have decide: "replayMatchesDurableIntent (cf_codec cf) (Some x) (Some (cr_request r)) (cr_queue r) \<longleftrightarrow>
      CreationIntentHash x = creationIntentHashWithDefaults (cf_codec cf) (cloneWorkCreationRequest w) d \<and> QueueRequested x = Some queue"
    using assms(3,4) stored by (auto simp: replayMatchesDurableIntent_def r split: option.split)
  obtain row where row: "get_row (work_ID x) (rs_db st) = Some row" "work_State x = work_State row"
    using lookup_row [OF assms(1,2)] by blast
  let ?rec = "reconcileReplayQueue (call 0 (call 5 e)) (\<lambda>i. alone (1 + i)) x (rs_db st)"
  show ?thesis
  proof (cases "replayMatchesDurableIntent (cf_codec cf) (Some x) (Some (cr_request r)) (cr_queue r)")
    case True
    obtain v t where v: "fst ?rec = Inr v" "work_ID v = work_ID x"
      "work_State v = (if queue \<and> work_State x = StateCreated then StateQueued else work_State x)"
      "works (snd ?rec) = works (if queue \<and> work_State x = StateCreated then set_state (work_ID x) StateQueued t (rs_db st) else rs_db st)"
      using reconcile_alone [OF row, of "\<lambda>i. alone (1 + i)" "call 0 (call 5 e)"] True decide by (auto simp: alone_def)
    have "?rec = (Inr v, snd ?rec)" using v(1) by (metis prod.collapse)
    then have "\<exists>st'. ?run = (WReplay v, st') \<and> works (rs_db st') = works (snd ?rec)"
      using True by (cases ?rec) (simp add: run replay_existing_def finish_replay_def Let_def)
    with v True decide show ?thesis by (metis (no_types, lifting))
  next
    case False
    with decide show ?thesis by (auto simp: run replay_existing_def)
  qed
qed

text \<open>A request chooses the state it is created in: a body that carries a state other than the empty one is stored in that state, so a Work can be born SUCCEEDED without an attempt
  or evidence, past every edge of the state machine, although the comment says that it is queued at once or stays in CREATED.\<close>

theorem create_accepts_any_state:
  assumes "Validate (cloneWorkCreationRequest w) = None" "ValidateAndEnrich (Some (cloneWorkCreationRequest w)) = (Some (cloneWorkCreationRequest w), None)"
    and "IdempotencyKey w = []" "work_ID w \<noteq> []" "get_row (work_ID w) (rs_db st) = None" "work_State w \<noteq> StateOther []"
  shows "\<exists>v row st'. createWork cf e alone cause (Some (w, False)) st = (WCreated v, st') \<and> get_row (work_ID w) (rs_db st') = Some row
    \<and> work_State v = work_State w \<and> work_State row = work_State w"
proof -
  define r where "r = creation_of cf e cause w False"
  have r: "cr_request r = cloneWorkCreationRequest w" "\<not> cr_queue r"
    by (simp_all add: r_def creation_of_def Let_def)
  have f: "work_ID (cloneWorkCreationRequest w) = work_ID w" "work_State (cloneWorkCreationRequest w) = work_State w" "IdempotencyKey (cloneWorkCreationRequest w) = []"
    using assms(3) by (simp_all add: cloneWorkCreationRequest_def)
  have admit: "admit_creation e r = Inr (cloneWorkCreationRequest w)"
    using assms by (simp add: admit_creation_def r f)
  let ?w = "stamp_work (call 2 e) (cloneWorkCreationRequest w)"
  have stamp: "work_ID ?w = work_ID w" "work_State ?w = work_State w" "IdempotencyKey ?w = []"
    using assms(6) by (simp_all add: stamp_work_def Let_def f)
  obtain ev where c: "CreateWork (call 2 e) (cloneWorkCreationRequest w) (rs_db st) = (Inr ?w, auditEmit ev ((rs_db st)\<lparr>works := works (rs_db st) @ [work_columns ?w]\<rparr>))"
    using assms(1,4,5) by (auto simp: CreateWork_def Let_def f stamp)
  have run: "createWork cf e alone cause (Some (w, False)) st = (WCreated ?w, st\<lparr>rs_db := auditEmit ev ((rs_db st)\<lparr>works := works (rs_db st) @ [work_columns ?w]\<rparr>)\<rparr>)"
    unfolding createWork_unfold [OF r_def refl] first_read_alone
    by (simp add: lookupIdempotentWork_def r f create_new_def admit c alone_def)
  have "get_row (work_ID w) (auditEmit ev ((rs_db st)\<lparr>works := works (rs_db st) @ [work_columns ?w]\<rparr>)) = Some (work_columns ?w)"
    using assms(5) by (simp add: get_row_def find_row_append work_columns_def stamp f)
  with run stamp show ?thesis by (auto simp: work_columns_def)
qed

section \<open>Examples\<close>

definition demo_intent_codec :: intent_codec where
  "demo_intent_codec = \<lparr>intent_text = (\<lambda>i. concat (map (\<lambda>p. fst p @ Run (snd p)) (ci_Graph i))), defaults_text = (\<lambda>_. ''d''),
     defaults_of_text = (\<lambda>_. Some currentAdmissionDefaults), sha_hex = (\<lambda>s. ''h'' @ s)\<rparr>"

definition demo_create_config :: create_config where
  "demo_create_config = \<lparr>cf_codec = demo_intent_codec, cf_audit = True\<rparr>"

definition demo_routes :: "db \<Rightarrow> route_state" where
  "demo_routes db = \<lparr>rs_db = db, rs_replays = []\<rparr>"

text \<open>The store after a crash between the insert of a request that asked to be queued and its queueing.\<close>

definition demo_seam :: db where
  "demo_seam = snd (CreateWork demo_env (demo_work\<lparr>CreationIntentHash := ''hbuildmake'', AdmissionDefaultsJSON := ''d'', QueueRequested := Some True\<rparr>) empty_db)"

fun created_state :: "work_reply \<Rightarrow> State option" where
  "created_state (WCreated v) = Some (work_State v)"
| "created_state _ = None"

lemma peers_alone: "peers CanTransition alone"
  by (simp add: peers_def alone_def)

lemma demo_seam_ok: "store_ok demo_seam"
  by (simp add: demo_seam_def CreateWork_ok empty_db_ok)

theorem create_returns_persisted_truth_witness:
  "\<exists>v st'. createWork demo_create_config demo_env alone [] (Some (demo_work, True)) (demo_routes empty_db) = (WCreated v, st') \<and> work_State v = StateQueued
     \<and> (\<exists>row. get_row (work_ID v) (rs_db st') = Some row \<and> shows_row v row \<and> IdempotencyKey row = ''k1''
         \<and> accepted_as demo_intent_codec (cloneWorkCreationRequest demo_work) True row)"
proof -
  have "created_state (fst (createWork demo_create_config demo_env alone [] (Some (demo_work, True)) (demo_routes empty_db))) = Some StateQueued"
    by code_simp
  then obtain v st' where run: "createWork demo_create_config demo_env alone [] (Some (demo_work, True)) (demo_routes empty_db) = (WCreated v, st')" "work_State v = StateQueued"
    by (metis created_state.elims option.distinct(1) option.inject prod.collapse)
  have key: "IdempotencyKey demo_work = ''k1''" and ok: "store_ok (rs_db (demo_routes empty_db))"
    by (simp_all add: demo_work_def demo_routes_def empty_db_ok)
  from create_returns_persisted_truth [OF ok peers_alone _ run(1), of v] run key show ?thesis
    by (simp add: demo_create_config_def)
qed

theorem replay_decided_by_intent_witness:
  "\<exists>v st'. createWork demo_create_config demo_env alone [] (Some (demo_work, True)) (demo_routes demo_seam) = (WReplay v, st') \<and> work_State v = StateQueued"
proof -
  define x where "x = (case lookupIdempotentWork ''k1'' demo_seam of Inr (Some y) \<Rightarrow> y | _ \<Rightarrow> zero_Work)"
  have "lookupIdempotentWork ''k1'' demo_seam = Inr (Some x)"
    unfolding x_def by code_simp
  then have look: "lookupIdempotentWork (IdempotencyKey demo_work) (rs_db (demo_routes demo_seam)) = Inr (Some x)"
    by (simp add: demo_work_def demo_routes_def)
  have x: "CreationIntentHash x = ''hbuildmake'' \<and> AdmissionDefaultsJSON x = ''d'' \<and> QueueRequested x = Some True \<and> work_State x = StateCreated"
    unfolding x_def by code_simp
  have dec: "decodeAdmissionDefaults (cf_codec demo_create_config) ''d'' = Some currentAdmissionDefaults"
    by code_simp
  have hash: "creationIntentHashWithDefaults (cf_codec demo_create_config) (cloneWorkCreationRequest demo_work) currentAdmissionDefaults = ''hbuildmake''"
    by code_simp
  have ok: "store_ok (rs_db (demo_routes demo_seam))" by (simp add: demo_routes_def demo_seam_ok)
  from replay_decided_by_intent [OF ok look, where cf = demo_create_config and e = demo_env and queue = True and cause = "[]" and d = currentAdmissionDefaults] x dec hash
  show ?thesis by auto
qed

definition demo_born_done :: Work where
  "demo_born_done = the (fst (ValidateAndEnrich (Some (demo_work\<lparr>IdempotencyKey := [], work_State := StateSucceeded\<rparr>))))"

theorem create_accepts_any_state_witness:
  "\<exists>v row st'. createWork demo_create_config demo_env alone [] (Some (demo_born_done, False)) (demo_routes empty_db) = (WCreated v, st')
    \<and> get_row ''w1'' (rs_db st') = Some row \<and> work_State v = StateSucceeded \<and> work_State row = StateSucceeded"
proof -
  let ?w = demo_born_done
  have "Validate (cloneWorkCreationRequest ?w) = None" "snd (ValidateAndEnrich (Some (cloneWorkCreationRequest ?w))) = None"
    "IdempotencyKey ?w = []" "work_ID ?w = ''w1''" "work_State ?w = StateSucceeded" "get_row ''w1'' (rs_db (demo_routes empty_db)) = None"
    by code_simp+
  moreover have "fst (ValidateAndEnrich (Some (cloneWorkCreationRequest ?w))) = Some (cloneWorkCreationRequest ?w)"
    by code_simp
  ultimately show ?thesis
    using create_accepts_any_state [of ?w "demo_routes empty_db" demo_create_config demo_env "[]"] by (simp add: prod_eq_iff)
qed

end
