(* ===== verification/Work_Cache.thy ===== *)
theory Work_Cache
  imports Creation_Intent Checkpoint_Codec Artifact_Cas
begin

text \<open>
  The result cache: fingerprints of a node's inputs and the store keyed by them (\<^verbatim>\<open>packages/cache/cache.go\<close>) and the two routes in front of it
  (\<^verbatim>\<open>services/api/cache_handler.go\<close>). The table \<^verbatim>\<open>work_cache\<close> is the list of its rows. The JSON document of a key is a tree whose map is sorted; its text and
  SHA-256 in hex come from the codec. A request body is \<open>None\<close> when the first MiB of it does not decode.
\<close>

section \<open>Fingerprints\<close>

record Key =
  key_Version :: int
  key_Run :: string
  key_Repository :: string
  key_Ref :: string
  key_SHA :: string
  key_Env :: "string gomap"
  key_OS :: string
  key_Arch :: string
  key_Scope :: string

definition env_json :: "string gomap \<Rightarrow> (string \<times> json) list" where
  "env_json m = (if m = [] then [] else [(''env'', JObj (by_key (map (\<lambda>kv. (fst kv, JStr (snd kv))) m)))])"

definition key_json :: "Key \<Rightarrow> json" where
  "key_json k = JObj ((if key_Version k = 0 then [] else [(''version'', JNum (f_of_int (key_Version k)))]) @ [(''run'', JStr (key_Run k))]
     @ omitempty ''repository'' (key_Repository k) @ omitempty ''ref'' (key_Ref k) @ omitempty ''sha'' (key_SHA k) @ env_json (key_Env k)
     @ omitempty ''os'' (key_OS k) @ omitempty ''arch'' (key_Arch k) @ [(''scope'', JStr (key_Scope k))])"

definition Fingerprint :: "codec \<Rightarrow> Key \<Rightarrow> string option" where
  "Fingerprint c k = map_option (sha c) (render c (key_json k))"

definition KeyFromNode :: "Work \<Rightarrow> Node \<Rightarrow> string \<Rightarrow> Key" where
  "KeyFromNode w n scope =
     (let k = \<lparr>key_Version = 2, key_Run = Run n, key_Repository = Repository (work_Source w), key_Ref = Ref (work_Source w),
            key_SHA = SHA (work_Source w), key_Env = Env n, key_OS = OS (work_Requirements w), key_Arch = Arch (work_Requirements w), key_Scope = scope\<rparr>
      in case node_CacheSpec n of None \<Rightarrow> k
      | Some s \<Rightarrow>
        if KeyInputs s = [] then k
        else let allowed = (\<lambda>f. f \<in> set (KeyInputs s));
                 k = (if allowed ''run'' then k else k\<lparr>key_Run := []\<rparr>);
                 k = (if allowed ''repository'' then k else k\<lparr>key_Repository := []\<rparr>);
                 k = (if allowed ''ref'' then k else k\<lparr>key_Ref := []\<rparr>);
                 k = (if allowed ''sha'' then k else k\<lparr>key_SHA := []\<rparr>);
                 k = (if allowed ''env'' then k else k\<lparr>key_Env := []\<rparr>);
                 k = (if allowed ''os'' then k else k\<lparr>key_OS := []\<rparr>);
                 k = (if allowed ''arch'' then k else k\<lparr>key_Arch := []\<rparr>)
             in k)"

section \<open>The store\<close>

record Entry =
  en_Fingerprint :: string
  en_WorkID :: string
  en_NodeID :: string
  en_ExitCode :: int
  en_LogTail :: string
  en_CreatedAt :: time

datatype cache_error = CacheMiss | CacheRefusesFailure int

definition Lookup :: "string \<Rightarrow> Entry list \<Rightarrow> cache_error + Entry" where
  "Lookup fingerprint rows = (case find_row en_Fingerprint fingerprint rows of None \<Rightarrow> Inl CacheMiss | Some e \<Rightarrow> Inr e)"

definition CachePut :: "time \<Rightarrow> Entry \<Rightarrow> Entry list \<Rightarrow> (cache_error + unit) \<times> Entry list" where
  "CachePut now e rows =
     (if en_ExitCode e \<noteq> 0 then (Inl (CacheRefusesFailure (en_ExitCode e)), rows)
      else let e = (if IsZero (en_CreatedAt e) then e\<lparr>en_CreatedAt := now\<rparr> else e)
        in (Inr (), insert_ignore en_Fingerprint e rows))"

definition LogTailMax :: nat where "LogTailMax = 4096"

definition TruncateLogTail :: "string \<Rightarrow> string" where
  "TruncateLogTail b = (if length b \<le> LogTailMax then b else drop (length b - LogTailMax) b)"

section \<open>The routes\<close>

record cacheEntryBody =
  cb_WorkID :: string
  cb_NodeID :: string
  cb_ExitCode :: int
  cb_LogTail :: string

datatype cache_reply = CacheError nat string | CacheHit cacheEntryBody | CacheStored

text \<open>The server's \<^verbatim>\<open>CacheStore\<close> is \<open>None\<close> where it is not configured.\<close>

definition cacheGet :: "string \<Rightarrow> Entry list option \<Rightarrow> cache_reply" where
  "cacheGet key store = (case store of None \<Rightarrow> CacheError 503 ''cache_disabled''
     | Some rows \<Rightarrow> (case Lookup key rows of
         Inl CacheMiss \<Rightarrow> CacheError 404 ''cache_miss''
       | Inl _ \<Rightarrow> CacheError 500 ''cache_lookup_failed''
       | Inr e \<Rightarrow> CacheHit \<lparr>cb_WorkID = en_WorkID e, cb_NodeID = en_NodeID e, cb_ExitCode = en_ExitCode e, cb_LogTail = en_LogTail e\<rparr>))"

definition cachePut :: "time \<Rightarrow> string \<Rightarrow> cacheEntryBody option \<Rightarrow> Entry list option \<Rightarrow> cache_reply \<times> Entry list option" where
  "cachePut now key body store = (case store of None \<Rightarrow> (CacheError 503 ''cache_disabled'', store)
     | Some rows \<Rightarrow> (case body of None \<Rightarrow> (CacheError 400 ''invalid_json'', store)
       | Some b \<Rightarrow>
         if cb_ExitCode b \<noteq> 0 then (CacheError 400 ''cache_refuses_failures'', store)
         else if cb_WorkID b = [] \<or> cb_NodeID b = [] then (CacheError 400 ''missing_field'', store)
         else case CachePut now \<lparr>en_Fingerprint = key, en_WorkID = cb_WorkID b, en_NodeID = cb_NodeID b, en_ExitCode = cb_ExitCode b,
             en_LogTail = TruncateLogTail (cb_LogTail b), en_CreatedAt = now\<rparr> rows of
           (Inl _, rows') \<Rightarrow> (CacheError 500 ''cache_put_failed'', Some rows')
         | (Inr _, rows') \<Rightarrow> (CacheStored, Some rows')))"

datatype cache_method = CacheGET | CachePUT "cacheEntryBody option" | CacheOther

definition cacheHandler :: "time \<Rightarrow> string \<Rightarrow> cache_method \<Rightarrow> Entry list option \<Rightarrow> cache_reply \<times> Entry list option" where
  "cacheHandler now key m store =
     (if key = [] \<or> CHR ''/'' \<in> set key then (CacheError 404 ''not_found'', store)
      else case m of CacheGET \<Rightarrow> (cacheGet key store, store)
      | CachePUT body \<Rightarrow> cachePut now key body store
      | CacheOther \<Rightarrow> (CacheError 405 ''method_not_allowed'', store))"

definition exec_cache :: "time \<times> string \<times> cache_method \<Rightarrow> Entry list option \<Rightarrow> Entry list option" where
  "exec_cache r store = snd (cacheHandler (fst r) (fst (snd r)) (snd (snd r)) store)"

section \<open>What a fingerprint binds\<close>

lemma by_key_env_inj: "by_key (map (\<lambda>kv. (fst kv, JStr (snd kv))) m) = by_key (map (\<lambda>kv. (fst kv, JStr (snd kv))) m') \<longleftrightarrow> by_key m = by_key m'"
proof -
  have "inj (\<lambda>kv :: string \<times> string. (fst kv, JStr (snd kv)))" by (auto intro: injI)
  then show ?thesis by (simp add: by_key_map [of JStr] inj_map_eq_map)
qed

lemma by_key_Nil_iff: "by_key m = [] \<longleftrightarrow> m = []"
  by (metis set_by_key set_empty)

text \<open>The optional members of the document, one lookup each.\<close>

lemma map_of_optional:
  "map_of (omitempty k s) k' = (if k' = k \<and> s \<noteq> [] then Some (JStr s) else None)"
  "map_of (env_json m) k' = (if k' = ''env'' \<and> m \<noteq> [] then Some (JObj (by_key (map (\<lambda>kv. (fst kv, JStr (snd kv))) m))) else None)"
  by (auto simp: omitempty_def env_json_def)

lemma optional_inj:
  "(if s \<noteq> [] then Some (JStr s) else None) = (if s' \<noteq> [] then Some (JStr s') else None) \<longleftrightarrow> s = s'"
  by auto

definition key_member :: "Key \<Rightarrow> string \<Rightarrow> json option" where
  "key_member k name = (case key_json k of JObj kvs \<Rightarrow> map_of kvs name | _ \<Rightarrow> None)"

lemma key_members:
  "key_member k ''run'' = Some (JStr (key_Run k))" "key_member k ''scope'' = Some (JStr (key_Scope k))"
  "key_member k ''repository'' = (if key_Repository k \<noteq> [] then Some (JStr (key_Repository k)) else None)"
  "key_member k ''ref'' = (if key_Ref k \<noteq> [] then Some (JStr (key_Ref k)) else None)"
  "key_member k ''sha'' = (if key_SHA k \<noteq> [] then Some (JStr (key_SHA k)) else None)"
  "key_member k ''os'' = (if key_OS k \<noteq> [] then Some (JStr (key_OS k)) else None)"
  "key_member k ''arch'' = (if key_Arch k \<noteq> [] then Some (JStr (key_Arch k)) else None)"
  "key_member k ''env'' = (if key_Env k \<noteq> [] then Some (JObj (by_key (map (\<lambda>kv. (fst kv, JStr (snd kv))) (key_Env k)))) else None)"
  by (simp_all add: key_member_def key_json_def map_add_def map_of_optional split: option.split)

lemma key_json_inj:
  assumes "key_json k = key_json k'"
  shows "key_Run k = key_Run k'" "key_Repository k = key_Repository k'" "key_Ref k = key_Ref k'" "key_SHA k = key_SHA k'"
    "by_key (key_Env k) = by_key (key_Env k')" "key_OS k = key_OS k'" "key_Arch k = key_Arch k'" "key_Scope k = key_Scope k'"
proof -
  have m: "key_member k name = key_member k' name" for name
    using assms by (simp add: key_member_def)
  show "key_Run k = key_Run k'" "key_Scope k = key_Scope k'"
    using m [of "''run''"] m [of "''scope''"] by (simp_all add: key_members)
  show "key_Repository k = key_Repository k'" "key_Ref k = key_Ref k'" "key_SHA k = key_SHA k'" "key_OS k = key_OS k'" "key_Arch k = key_Arch k'"
    using m [of "''repository''"] m [of "''ref''"] m [of "''sha''"] m [of "''os''"] m [of "''arch''"]
    unfolding key_members optional_inj by simp_all
  show "by_key (key_Env k) = by_key (key_Env k')"
    using m [of "''env''"] by (auto simp: key_members by_key_env_inj by_key_Nil_iff split: if_splits)
qed

lemma KeyFromNode_full:
  assumes "case node_CacheSpec n of None \<Rightarrow> True | Some s \<Rightarrow> KeyInputs s = []"
  shows "KeyFromNode w n scope = \<lparr>key_Version = 2, key_Run = Run n, key_Repository = Repository (work_Source w), key_Ref = Ref (work_Source w),
    key_SHA = SHA (work_Source w), key_Env = Env n, key_OS = OS (work_Requirements w), key_Arch = Arch (work_Requirements w), key_Scope = scope\<rparr>"
  using assms by (auto simp: KeyFromNode_def split: option.splits)

text \<open>What is relied on of the codec for two documents: both are written and read back, and their hashes do not collide.\<close>

definition texts_apart :: "codec \<Rightarrow> json \<Rightarrow> json \<Rightarrow> bool" where
  "texts_apart c j j' \<longleftrightarrow> json_round c j \<and> json_round c j'
     \<and> (map_option (sha c) (render c j) = map_option (sha c) (render c j') \<longrightarrow> render c j = render c j')"

lemma texts_apart_inj:
  assumes "texts_apart c j j'" "map_option (sha c) (render c j) = map_option (sha c) (render c j')"
  shows "j = j'"
  using assms by (auto simp: texts_apart_def json_round_def)

text \<open>A fingerprint binds the inputs it lists: when neither node restricts its key inputs and the fingerprints of two nodes are equal, the nodes have the same command
  and environment and their Works the same repository, ref, commit, operating system and architecture, in the same cache scope.\<close>

theorem fingerprint_binds_inputs:
  assumes "case node_CacheSpec n of None \<Rightarrow> True | Some s \<Rightarrow> KeyInputs s = []" "case node_CacheSpec n' of None \<Rightarrow> True | Some s \<Rightarrow> KeyInputs s = []"
    and "texts_apart c (key_json (KeyFromNode w n scope)) (key_json (KeyFromNode w' n' scope'))"
    and "Fingerprint c (KeyFromNode w n scope) = Fingerprint c (KeyFromNode w' n' scope')"
  shows "Run n = Run n' \<and> by_key (Env n) = by_key (Env n') \<and> Repository (work_Source w) = Repository (work_Source w') \<and> Ref (work_Source w) = Ref (work_Source w')
    \<and> SHA (work_Source w) = SHA (work_Source w') \<and> OS (work_Requirements w) = OS (work_Requirements w')
    \<and> Arch (work_Requirements w) = Arch (work_Requirements w') \<and> scope = scope'"
proof -
  have "key_json (KeyFromNode w n scope) = key_json (KeyFromNode w' n' scope')"
    using texts_apart_inj [OF assms(3)] assms(4) by (simp add: Fingerprint_def)
  from key_json_inj [OF this] show ?thesis
    by (simp add: KeyFromNode_full [OF assms(1)] KeyFromNode_full [OF assms(2)])
qed

section \<open>What the store keeps\<close>

definition entry_valid :: "Entry \<Rightarrow> bool" where
  "entry_valid e \<longleftrightarrow> en_ExitCode e = 0 \<and> length (en_LogTail e) \<le> LogTailMax \<and> en_WorkID e \<noteq> [] \<and> en_NodeID e \<noteq> []"

definition cache_ok :: "Entry list \<Rightarrow> bool" where
  "cache_ok rows \<longleftrightarrow> distinct (map en_Fingerprint rows) \<and> list_all entry_valid rows"

lemma length_TruncateLogTail: "length (TruncateLogTail b) \<le> LogTailMax"
  by (simp add: TruncateLogTail_def)

text \<open>One request: the table is unchanged, or one valid entry is offered to it.\<close>

lemma exec_cache_cases:
  obtains "exec_cache r store = store"
  | rows e where "store = Some rows" "entry_valid e" "exec_cache r store = Some (insert_ignore en_Fingerprint e rows)"
proof -
  obtain now key m where r: "r = (now, key, m)" by (cases r)
  show ?thesis
  proof (cases "exec_cache r store = store")
    case False
    then obtain rows b where "store = Some rows" "m = CachePUT (Some b)" "cb_ExitCode b = 0" "cb_WorkID b \<noteq> []" "cb_NodeID b \<noteq> []" "key \<noteq> []" "CHR ''/'' \<notin> set key"
      by (auto simp: exec_cache_def r cacheHandler_def cachePut_def split: option.splits cache_method.splits if_splits)
    then have "\<exists>e. entry_valid e \<and> exec_cache r store = Some (insert_ignore en_Fingerprint e rows)"
      by (intro exI [of _ "\<lparr>en_Fingerprint = key, en_WorkID = cb_WorkID b, en_NodeID = cb_NodeID b, en_ExitCode = 0,
            en_LogTail = TruncateLogTail (cb_LogTail b), en_CreatedAt = now\<rparr>"])
        (simp add: exec_cache_def r cacheHandler_def cachePut_def CachePut_def entry_valid_def length_TruncateLogTail Let_def)
    with \<open>store = Some rows\<close> show ?thesis using that(2) by blast
  qed (use that(1) in blast)
qed

definition cache_look :: "Entry list option \<Rightarrow> string \<Rightarrow> Entry option" where
  "cache_look store k = (case store of None \<Rightarrow> None | Some rows \<Rightarrow> find_row en_Fingerprint k rows)"

definition cache_inv :: "Entry list option \<Rightarrow> bool" where
  "cache_inv store \<longleftrightarrow> (case store of None \<Rightarrow> True | Some rows \<Rightarrow> cache_ok rows)"

interpretation cache_table: write_once exec_cache cache_look
proof unfold_locales
  fix s k v a assume look: "cache_look s k = Some v"
  show "cache_look (exec_cache a s) k = Some v"
    by (rule exec_cache_cases [of a s]) (use look in \<open>auto simp: cache_look_def insert_ignore_def find_row_append split: option.splits\<close>)
qed

interpretation cache_rows: invariant_ops exec_cache cache_inv
proof unfold_locales
  fix s a assume ok: "cache_inv s"
  have ins: "cache_ok (insert_ignore en_Fingerprint e rows)" if "cache_ok rows" "entry_valid e" for e rows
    using that distinct_insert_ignore [of en_Fingerprint rows e] set_insert_ignore [of en_Fingerprint e rows] by (auto simp: cache_ok_def list_all_iff split: if_splits)
  show "cache_inv (exec_cache a s)"
    by (rule exec_cache_cases [of a s]) (use ok ins in \<open>auto simp: cache_inv_def\<close>)
qed

text \<open>C37. Cached results are immutable: whatever requests the routes serve, an entry once stored is served unchanged ever after, there is one per fingerprint, and all of them are of
  executions that succeeded, name their Work and node, and keep at most 4096 bytes of log.\<close>

theorem cached_result_stands:
  assumes "cache_ok rows"
  shows "\<exists>rows'. fold exec_cache rs (Some rows) = Some rows' \<and> cache_ok rows'
    \<and> (\<forall>k e. Lookup k rows = Inr e \<longrightarrow> Lookup k rows' = Inr e \<and> en_ExitCode e = 0)"
proof -
  have "\<exists>rows'. exec_cache r (Some rows) = Some rows'" for r rows
    by (rule exec_cache_cases [of r "Some rows"]) auto
  then have "\<exists>rows'. fold exec_cache rs (Some rows) = Some rows'"
    by (induction rs arbitrary: rows) (simp, metis fold_simps(2))
  then obtain rows' where rows': "fold exec_cache rs (Some rows) = Some rows'" by blast
  have look: "Lookup k rows = Inr e \<longleftrightarrow> cache_look (Some rows) k = Some e" for k e rows
    by (simp add: Lookup_def cache_look_def split: option.split)
  have "cache_ok rows'"
    using cache_rows.inv_run [of "Some rows" rs] assms by (simp add: rows' cache_inv_def)
  moreover have "Lookup k rows' = Inr e" if "Lookup k rows = Inr e" for k e
    using cache_table.keeps_run [of "Some rows" k e rs] that by (simp add: look rows')
  moreover have "en_ExitCode e = 0" if "Lookup k rows = Inr e" for k e
    using that assms find_row_Some [of en_Fingerprint k rows e] by (auto simp: look cache_look_def cache_ok_def list_all_iff entry_valid_def)
  ultimately show ?thesis using rows' by blast
qed

text \<open>The container image is not an input of the fingerprint: the result one image produced for a command is served for the same command under any other image, although
  the package comment promises that everything that could change a node's outcome is bound.\<close>

theorem cache_serves_result_of_other_image:
  assumes "Fingerprint c (KeyFromNode w n scope) = Some f" "f \<noteq> []" "CHR ''/'' \<notin> set f" "find_row en_Fingerprint f rows = None"
    and "cb_ExitCode b = 0" "cb_WorkID b \<noteq> []" "cb_NodeID b \<noteq> []"
  shows "\<exists>f' store'. Fingerprint c (KeyFromNode w (n\<lparr>RuntimeImage := img\<rparr>) scope) = Some f'
    \<and> cacheHandler t f (CachePUT (Some b)) (Some rows) = (CacheStored, store')
    \<and> cacheHandler t' f' CacheGET store' = (CacheHit (b\<lparr>cb_LogTail := TruncateLogTail (cb_LogTail b)\<rparr>), store')"
proof -
  have key: "KeyFromNode w (n\<lparr>RuntimeImage := img\<rparr>) scope = KeyFromNode w n scope"
    by (simp add: KeyFromNode_def)
  show ?thesis
    unfolding key using assms
    by (auto simp: cacheHandler_def cachePut_def CachePut_def cacheGet_def Lookup_def insert_ignore_def find_row_append)
qed

section \<open>Examples\<close>

definition demo_key_text :: "json \<Rightarrow> string option" where
  "demo_key_text j = (case j of JObj kvs \<Rightarrow> (case map_of kvs ''run'' of Some (JStr s) \<Rightarrow> Some s | _ \<Rightarrow> None) | _ \<Rightarrow> None)"

definition demo_cached_node :: Node where
  "demo_cached_node = zero_Node\<lparr>Run := ''make'', RuntimeImage := ''go:1.22''\<rparr>"

text \<open>A codec that knows the one document at hand.\<close>

definition demo_key_codec :: codec where
  "demo_key_codec = \<lparr>render = demo_key_text, parse = (\<lambda>s. Some (key_json (KeyFromNode zero_Work demo_cached_node ''organization''))),
     time_text = (\<lambda>_. []), time_of_text = (\<lambda>_. None), sha = (\<lambda>s. ''h'' @ s)\<rparr>"

definition demo_result :: cacheEntryBody where
  "demo_result = \<lparr>cb_WorkID = ''w1'', cb_NodeID = ''build'', cb_ExitCode = 0, cb_LogTail = ''ok''\<rparr>"

lemma demo_key_rendered: "render demo_key_codec (key_json (KeyFromNode zero_Work demo_cached_node ''organization'')) = Some ''make''"
  by code_simp

theorem fingerprint_binds_inputs_witness:
  "Fingerprint demo_key_codec (KeyFromNode zero_Work demo_cached_node ''organization'') = Some ''hmake''
   \<and> Run (demo_cached_node\<lparr>RuntimeImage := ''go:1.23''\<rparr>) = Run demo_cached_node"
proof -
  let ?n = "demo_cached_node\<lparr>RuntimeImage := ''go:1.23''\<rparr>" and ?k = "\<lambda>n. KeyFromNode zero_Work n ''organization''"
  have spec: "node_CacheSpec demo_cached_node = None" "node_CacheSpec ?n = None" by (simp_all add: demo_cached_node_def zero_Node_def)
  have same: "?k ?n = ?k demo_cached_node" by (simp add: KeyFromNode_def)
  have round: "json_round demo_key_codec (key_json (?k demo_cached_node))"
    using demo_key_rendered by (simp add: json_round_def demo_key_codec_def)
  have "texts_apart demo_key_codec (key_json (?k ?n)) (key_json (?k demo_cached_node))"
    using round by (simp add: texts_apart_def same)
  moreover have "Fingerprint demo_key_codec (?k demo_cached_node) = Some ''hmake''"
    using demo_key_rendered by (simp add: Fingerprint_def) (simp add: demo_key_codec_def)
  ultimately show ?thesis
    using fingerprint_binds_inputs [of ?n demo_cached_node demo_key_codec zero_Work "''organization''" zero_Work "''organization''"] spec same by simp
qed

theorem cached_result_stands_witness:
  "\<exists>rows. fold exec_cache [(5, ''f1'', CachePUT (Some demo_result)), (6, ''f1'', CachePUT (Some (demo_result\<lparr>cb_LogTail := ''other''\<rparr>)))] (Some []) = Some rows
     \<and> cache_ok rows \<and> length rows = 1"
proof -
  let ?rs = "[(5, ''f1'', CachePUT (Some demo_result)), (6, ''f1'', CachePUT (Some (demo_result\<lparr>cb_LogTail := ''other''\<rparr>)))]"
  obtain rows where rows: "fold exec_cache ?rs (Some []) = Some rows" "cache_ok rows"
    using cached_result_stands [of "[]" ?rs] by (auto simp: cache_ok_def)
  have "map_option length (fold exec_cache ?rs (Some [])) = Some 1" by code_simp
  with rows show ?thesis by auto
qed

theorem cache_serves_result_of_other_image_witness:
  "\<exists>f' store'. Fingerprint demo_key_codec (KeyFromNode zero_Work (demo_cached_node\<lparr>RuntimeImage := ''go:1.23''\<rparr>) ''organization'') = Some f'
    \<and> cacheHandler 5 ''hmake'' (CachePUT (Some demo_result)) (Some []) = (CacheStored, store')
    \<and> cacheHandler 6 f' CacheGET store' = (CacheHit (demo_result\<lparr>cb_LogTail := TruncateLogTail (cb_LogTail demo_result)\<rparr>), store')"
proof -
  have f: "Fingerprint demo_key_codec (KeyFromNode zero_Work demo_cached_node ''organization'') = Some ''hmake''"
    using demo_key_rendered by (simp add: Fingerprint_def) (simp add: demo_key_codec_def)
  show ?thesis by (rule cache_serves_result_of_other_image [OF f]) (simp_all add: demo_result_def)
qed

end
