(* ===== verification/Ready_Poll.thy ===== *)
theory Ready_Poll
  imports Lease_Api Work_Cache
begin

text \<open>
  The poll of the scheduler (\<^verbatim>\<open>readyNodesHandler\<close> in \<^verbatim>\<open>services/api/api.go\<close>): the ready nodes of the schedulable Works, each placed by \<^verbatim>\<open>scheduler.Select\<close> on a runner of the
  pool its Work may use, with the fingerprint under which its result may be cached. \<open>vs\<close> gives the map iteration orders of each placement; the limit of the query is \<open>None\<close>
  when it is absent or not a number.
\<close>

section \<open>The handler\<close>

record readyItem =
  ri_WorkID :: string
  ri_NodeID :: string
  ri_Run :: string
  ri_Env :: "string gomap"
  ri_TimeoutS :: int
  ri_Image :: string
  ri_Source :: Source
  ri_Assignment :: "Assignment option"
  ri_SideEffects :: "string list"
  ri_CacheKey :: string

record unschedulable =
  un_WorkID :: string
  un_NodeID :: string
  un_Reason :: string
  un_Rejections :: "nat gomap"

type_synonym visits = "string \<Rightarrow> string \<Rightarrow> nat \<Rightarrow> visit"
type_synonym listing = "readyItem list \<times> unschedulable list"

definition node_of :: "Work \<Rightarrow> string \<Rightarrow> Node" where
  "node_of work nid = (case map_of (Graph work) nid of None \<Rightarrow> zero_Node | Some n \<Rightarrow> n)"

definition ready_item :: "Work \<Rightarrow> string \<Rightarrow> readyItem" where
  "ready_item work nid =
     (let n = node_of work nid in
      \<lparr>ri_WorkID = work_ID work, ri_NodeID = nid, ri_Run = Run n, ri_Env = Env n, ri_TimeoutS = TimeoutS n, ri_Image = RuntimeImage n, ri_Source = work_Source work,
       ri_Assignment = None, ri_SideEffects = SideEffects n, ri_CacheKey = []\<rparr>)"

definition cache_key :: "codec \<Rightarrow> Work \<Rightarrow> Node \<Rightarrow> string" where
  "cache_key c work n =
     (if Cache n \<or> node_CacheSpec n \<noteq> None then
        let scope = (case node_CacheSpec n of None \<Rightarrow> ''organization'' | Some s \<Rightarrow> if Scope s = ''worker-local'' then ''worker'' else ''organization'')
        in case Fingerprint c (KeyFromNode work n scope) of None \<Rightarrow> [] | Some fp \<Rightarrow> fp
      else [])"

fun node_loop :: "codec \<Rightarrow> visits \<Rightarrow> nat \<Rightarrow> Runner list \<Rightarrow> Work \<Rightarrow> string list \<Rightarrow> listing \<Rightarrow> listing" where
  "node_loop c vs limit pool work [] acc = acc"
| "node_loop c vs limit pool work (nid # nids) (items, skipped) =
     (let n = node_of work nid; item = ready_item work nid in
      if pool = [] then
        let items = items @ [item]
        in if length items \<ge> limit then (items, skipped) else node_loop c vs limit pool work nids (items, skipped)
      else let item = item\<lparr>ri_CacheKey := cache_key c work n\<rparr> in
        case Select (vs (work_ID work) nid) (Some work) (Some n) pool of
          (a, Some x) \<Rightarrow> node_loop c vs limit pool work nids (items, skipped @ [\<lparr>un_WorkID = work_ID work, un_NodeID = nid,
            un_Reason = scheduler_error_text x, un_Rejections = (case a of None \<Rightarrow> [] | Some a \<Rightarrow> RejectedConstraints a)\<rparr>])
        | (a, None) \<Rightarrow>
            let items = items @ [item\<lparr>ri_Assignment := a\<rparr>]
            in if length items \<ge> limit then (items, skipped) else node_loop c vs limit pool work nids (items, skipped))"

definition no_live_runner :: "Work \<Rightarrow> string \<Rightarrow> unschedulable" where
  "no_live_runner work nid = \<lparr>un_WorkID = work_ID work, un_NodeID = nid,
     un_Reason = ''pool-scoped work requires an active runner with a fresh heartbeat'', un_Rejections = []\<rparr>"

fun work_loop ::
  "codec \<Rightarrow> visits \<Rightarrow> nat \<Rightarrow> Runner list \<Rightarrow> Runner list \<Rightarrow> bool gomap gomap \<Rightarrow> Work list \<Rightarrow> listing \<Rightarrow> listing" where
  "work_loop c vs limit pool livePool active [] acc = acc"
| "work_loop c vs limit pool livePool active (work # ws) (items, skipped) =
     (let ready = ReadyNodes work (case map_of active (work_ID work) of None \<Rightarrow> [] | Some m \<Rightarrow> m);
          candidatePool = (if Pool (work_Requirements work) \<noteq> [] then livePool else pool)
      in if Pool (work_Requirements work) \<noteq> [] \<and> livePool = [] then
           work_loop c vs limit pool livePool active ws (items, skipped @ map (no_live_runner work) ready)
         else case node_loop c vs limit candidatePool work ready (items, skipped) of (items, skipped) \<Rightarrow>
           if length items \<ge> limit then (items, skipped) else work_loop c vs limit pool livePool active ws (items, skipped))"

definition legacy_eligible :: "time \<Rightarrow> Identity \<Rightarrow> bool" where
  "legacy_eligible now i = (case id_LastHeartbeatAt i of None \<Rightarrow> True | Some beat \<Rightarrow> \<not> beat < now - 3 * defaultHeartbeatInterval)"

definition scheduler_pools :: "time \<Rightarrow> runnerRegistry option \<Rightarrow> Runner list \<times> Runner list" where
  "scheduler_pools now reg = (case reg of None \<Rightarrow> ([], [])
     | Some _ \<Rightarrow> (let ids = reg_List reg in
         (runnersFromIdentities (map Some (filter (legacy_eligible now) ids)),
          runnersFromIdentities (map Some (filter (\<lambda>i. runnerHasFreshHeartbeat (Some i) now) ids)))))"

definition ready_limit :: "int option \<Rightarrow> nat" where
  "ready_limit n = (case n of None \<Rightarrow> 25 | Some n \<Rightarrow> if n > 0 \<and> n \<le> 100 then nat n else 25)"

definition readyNodesHandler ::
  "codec \<Rightarrow> visits \<Rightarrow> time \<Rightarrow> string \<Rightarrow> int option \<Rightarrow> runnerRegistry option \<Rightarrow> db \<Rightarrow> api_error + listing" where
  "readyNodesHandler c vs now httpMethod n reg db =
     (if httpMethod \<noteq> ''GET'' then Inl (ApiError 405 ''method_not_allowed'')
      else let ws = ListSchedulableWorks 100 db;
               active = ActiveLeasesByWorkIDs (map work_ID ws) db
        in case scheduler_pools now reg of (pool, livePool) \<Rightarrow> Inr (work_loop c vs (ready_limit n) pool livePool active ws ([], [])))"

section \<open>What the poll offers\<close>

text \<open>An offer of one node: what \<^verbatim>\<open>ReadyNodes\<close> lists, with the placement when there is a pool.\<close>

definition placed :: "Runner list \<Rightarrow> Work \<Rightarrow> string \<Rightarrow> Assignment option \<Rightarrow> bool" where
  "placed pool work nid ao = (case ao of None \<Rightarrow> pool = []
     | Some a \<Rightarrow> (\<exists>r. SelectedRunner a = Some r \<and> r \<in> set pool \<and> meets_requirements work (node_of work nid) r))"

lemma Select_placed:
  assumes "Select v (Some work) (Some (node_of work nid)) pool = (a, None)"
  shows "placed pool work nid a"
proof -
  obtain a' where a: "a = Some a'"
    using assms by (auto simp: Select_def Let_def split: if_splits option.splits prod.splits)
  from assms [unfolded a] obtain b where b: "best_scan None (entries v work (node_of work nid) 0 pool) = Some b"
    "SelectedRunner a' = Some (el_runner b)" by (rule Select_winner)
  from best_scan_in [OF b(1)] obtain j r where "b = entry work (node_of work nid) (v j) r" "r \<in> set pool" "hardFilter r work (node_of work nid) = []"
    by (rule entries_elim)
  with b(2) show ?thesis by (auto simp: placed_def a entry_def hardFilter_pass_iff)
qed

definition offer_of :: "codec \<Rightarrow> Runner list \<Rightarrow> Work \<Rightarrow> string \<Rightarrow> readyItem \<Rightarrow> bool" where
  "offer_of c pool work nid it \<longleftrightarrow> ri_WorkID it = work_ID work \<and> ri_NodeID it = nid \<and> ri_Run it = Run (node_of work nid) \<and> placed pool work nid (ri_Assignment it)
     \<and> (pool \<noteq> [] \<longrightarrow> ri_CacheKey it = cache_key c work (node_of work nid))"

text \<open>One node of the inner loop: at most one offer is added, and the loop ends only when the limit is reached.\<close>

lemma node_loop_step:
  "\<exists>acc'. (fst acc' = fst acc \<or> (\<exists>it. fst acc' = fst acc @ [it] \<and> offer_of c pool work nid it))
    \<and> (node_loop c vs limit pool work (nid # nids) acc = acc'
       \<or> node_loop c vs limit pool work (nid # nids) acc = node_loop c vs limit pool work nids acc' \<and> (fst acc' = fst acc \<or> length (fst acc') < limit))"
proof -
  obtain items skipped where acc: "acc = (items, skipped)" by (cases acc)
  let ?it = "ready_item work nid"
  have offer: "offer_of c pool work nid (?it\<lparr>ri_CacheKey := k, ri_Assignment := a\<rparr>)"
    if "placed pool work nid a" "pool = [] \<or> k = cache_key c work (node_of work nid)" for k a
    using that by (auto simp: offer_of_def ready_item_def Let_def)
  show ?thesis
  proof (cases "pool = []")
    case True
    have "?it\<lparr>ri_CacheKey := [], ri_Assignment := None\<rparr> = ?it" by (simp add: ready_item_def Let_def)
    with offer [of None "[]"] True have "offer_of c pool work nid ?it" by (simp add: placed_def)
    with True show ?thesis
      by (intro exI [of _ "(items @ [?it], skipped)"]) (auto simp: acc Let_def)
  next
    case False
    obtain a x where sel: "Select (vs (work_ID work) nid) (Some work) (Some (node_of work nid)) pool = (a, x)"
      by (cases "Select (vs (work_ID work) nid) (Some work) (Some (node_of work nid)) pool")
    show ?thesis
    proof (cases x)
      case None
      have "offer_of c pool work nid (?it\<lparr>ri_CacheKey := cache_key c work (node_of work nid), ri_Assignment := a\<rparr>)"
        using offer Select_placed sel None by blast
      with False sel None show ?thesis
        by (intro exI [of _ "(items @ [?it\<lparr>ri_CacheKey := cache_key c work (node_of work nid), ri_Assignment := a\<rparr>], skipped)"]) (auto simp: acc Let_def)
    next
      case (Some y)
      with False sel show ?thesis by (auto simp: acc Let_def)
    qed
  qed
qed

declare node_loop.simps(2) [simp del]

lemma node_loop_bounded:
  "length (fst acc) < limit \<Longrightarrow> length (fst (node_loop c vs limit pool work nids acc)) \<le> limit"
proof (induction nids arbitrary: acc)
  case (Cons nid nids)
  obtain acc' where "fst acc' = fst acc \<or> (\<exists>it. fst acc' = fst acc @ [it])"
    "node_loop c vs limit pool work (nid # nids) acc = acc'
       \<or> node_loop c vs limit pool work (nid # nids) acc = node_loop c vs limit pool work nids acc' \<and> (fst acc' = fst acc \<or> length (fst acc') < limit)"
    using node_loop_step [of acc c pool work nid vs limit nids] by blast
  with Cons.IH [of acc'] Cons.prems show ?case by auto
qed simp

text \<open>One Work of the outer loop.\<close>

definition ready_of :: "bool gomap gomap \<Rightarrow> Work \<Rightarrow> string list" where
  "ready_of active work = ReadyNodes work (case map_of active (work_ID work) of None \<Rightarrow> [] | Some m \<Rightarrow> m)"

definition pool_for :: "Runner list \<Rightarrow> Runner list \<Rightarrow> Work \<Rightarrow> Runner list" where
  "pool_for pool livePool work = (if Pool (work_Requirements work) \<noteq> [] then livePool else pool)"

lemma work_loop_Cons:
  "work_loop c vs limit pool livePool active (work # ws) acc =
     (if Pool (work_Requirements work) \<noteq> [] \<and> livePool = [] then
        work_loop c vs limit pool livePool active ws (fst acc, snd acc @ map (no_live_runner work) (ready_of active work))
      else let acc' = node_loop c vs limit (pool_for pool livePool work) work (ready_of active work) acc
        in if length (fst acc') \<ge> limit then acc' else work_loop c vs limit pool livePool active ws acc')"
  by (cases acc) (simp add: Let_def ready_of_def pool_for_def split: prod.split)

declare work_loop.simps(2) [simp del]

lemma work_loop_bounded:
  "length (fst acc) < limit \<Longrightarrow> length (fst (work_loop c vs limit pool livePool active ws acc)) \<le> limit"
proof (induction ws arbitrary: acc)
  case (Cons work ws)
  let ?acc = "node_loop c vs limit (pool_for pool livePool work) work (ready_of active work) acc"
  have "length (fst (work_loop c vs limit pool livePool active ws (fst acc, sk))) \<le> limit" for sk using Cons.IH [of "(fst acc, sk)"] Cons.prems by simp
  moreover have "length (fst (if length (fst ?acc) \<ge> limit then ?acc else work_loop c vs limit pool livePool active ws ?acc)) \<le> limit"
    using Cons.IH [of ?acc] node_loop_bounded [OF Cons.prems] by simp
  ultimately show ?case
    unfolding work_loop_Cons Let_def by (cases "Pool (work_Requirements work) \<noteq> [] \<and> livePool = []") (simp_all only: if_True if_False simp_thms)
qed simp

lemma node_loop_offers:
  "it \<in> set (fst (node_loop c vs limit pool work nids acc)) \<Longrightarrow> it \<in> set (fst acc) \<or> (\<exists>nid \<in> set nids. offer_of c pool work nid it)"
proof (induction nids arbitrary: acc)
  case (Cons nid nids)
  obtain acc' where acc': "fst acc' = fst acc \<or> (\<exists>it. fst acc' = fst acc @ [it] \<and> offer_of c pool work nid it)"
    "node_loop c vs limit pool work (nid # nids) acc = acc' \<or> node_loop c vs limit pool work (nid # nids) acc = node_loop c vs limit pool work nids acc'"
    using node_loop_step [of acc c pool work nid vs limit nids] by blast
  have "it \<in> set (fst acc') \<or> (\<exists>nid \<in> set nids. offer_of c pool work nid it)"
    using acc'(2) Cons.prems Cons.IH [of acc'] by auto
  with acc'(1) show ?case by auto
qed simp

lemma work_loop_offers:
  "it \<in> set (fst (work_loop c vs limit pool livePool active ws acc)) \<Longrightarrow>
     it \<in> set (fst acc) \<or> (\<exists>work \<in> set ws. \<exists>nid \<in> set (ready_of active work). offer_of c (pool_for pool livePool work) work nid it
        \<and> \<not> (Pool (work_Requirements work) \<noteq> [] \<and> livePool = []))"
proof (induction ws arbitrary: acc)
  case (Cons work ws)
  let ?acc = "node_loop c vs limit (pool_for pool livePool work) work (ready_of active work) acc"
  let ?skip = "(fst acc, snd acc @ map (no_live_runner work) (ready_of active work))"
  consider "it \<in> set (fst (work_loop c vs limit pool livePool active ws ?skip))"
    | "\<not> (Pool (work_Requirements work) \<noteq> [] \<and> livePool = [])" "it \<in> set (fst ?acc) \<or> it \<in> set (fst (work_loop c vs limit pool livePool active ws ?acc))"
    using Cons.prems unfolding work_loop_Cons Let_def by (auto split: if_splits)
  then show ?case
  proof cases
    case 1
    then show ?thesis using Cons.IH [of ?skip] by auto
  next
    case 2
    then show ?thesis using Cons.IH [of ?acc] node_loop_offers [of it c vs limit "pool_for pool livePool work" work "ready_of active work" acc] by auto
  qed
qed simp

text \<open>A placement on a pool of registered identities.\<close>

lemma runnersFromIdentities_Some: "runnersFromIdentities (map Some ids) = map runner_of ids"
  by (induction ids) (simp_all add: runnersFromIdentities_def)

definition registered :: "runnerRegistry option \<Rightarrow> Runner \<Rightarrow> (Identity \<Rightarrow> bool) \<Rightarrow> bool" where
  "registered reg r P \<longleftrightarrow> (\<exists>i \<in> set (reg_List reg). r = runner_of i \<and> P i)"

lemma scheduler_pools_registered:
  assumes "scheduler_pools now reg = (pool, livePool)"
  shows "r \<in> set livePool \<Longrightarrow> registered reg r (\<lambda>i. runnerHasFreshHeartbeat (Some i) now)"
    "r \<in> set pool \<Longrightarrow> registered reg r (legacy_eligible now)"
  using assms by (auto simp: scheduler_pools_def runnersFromIdentities_Some registered_def Let_def split: option.splits)

definition runnable :: "time \<Rightarrow> runnerRegistry option \<Rightarrow> db \<Rightarrow> readyItem \<Rightarrow> bool" where
  "runnable now reg db it \<longleftrightarrow> (\<exists>row nd. get_row (ri_WorkID it) db = Some row \<and> work_State row \<in> {StateQueued, StateRunning} \<and> (ri_NodeID it, nd) \<in> set (Graph row)
      \<and> (\<forall>l \<in> set (leases db). \<not> (lease_WorkID l = ri_WorkID it \<and> lease_NodeID l = ri_NodeID it \<and> lease_Status l = LeaseActive))
      \<and> ri_NodeID it \<notin> succeeded_nodes (attempts_of (ri_WorkID it) db) \<and> ri_NodeID it \<notin> in_flight_nodes (attempts_of (ri_WorkID it) db)
      \<and> set (Needs nd) \<subseteq> succeeded_nodes (attempts_of (ri_WorkID it) db)
      \<and> (case ri_Assignment it of None \<Rightarrow> Pool (work_Requirements row) = []
         | Some a \<Rightarrow> \<exists>r. SelectedRunner a = Some r \<and> meets_requirements row (node_of row (ri_NodeID it)) r
             \<and> registered reg r (if Pool (work_Requirements row) = [] then legacy_eligible now else (\<lambda>i. runnerHasFreshHeartbeat (Some i) now))))"

lemma ready_of_runnable:
  assumes "store_ok db" "work \<in> set (ListSchedulableWorks 100 db)" "nid \<in> set (ready_of (ActiveLeasesByWorkIDs (map work_ID (ListSchedulableWorks 100 db)) db) work)"
  shows "\<exists>row nd. get_row (work_ID work) db = Some row \<and> work = add_children db (list_columns row) \<and> work_State row \<in> {StateQueued, StateRunning} \<and> (nid, nd) \<in> set (Graph row)
    \<and> (\<forall>l \<in> set (leases db). \<not> (lease_WorkID l = work_ID work \<and> lease_NodeID l = nid \<and> lease_Status l = LeaseActive))
    \<and> nid \<notin> succeeded_nodes (attempts_of (work_ID work) db) \<and> nid \<notin> in_flight_nodes (attempts_of (work_ID work) db)
    \<and> set (Needs nd) \<subseteq> succeeded_nodes (attempts_of (work_ID work) db)"
proof -
  obtain row where row: "row \<in> set (take (nat 100) (order_desc UpdatedAt (filter (\<lambda>w. work_State w \<in> {StateQueued, StateRunning}) (works db))))"
    and work: "work = add_children db (list_columns row)"
    using assms(2) unfolding ListSchedulableWorks_def listWorksWhere_rows [OF assms(1)] by auto
  note r = listed_row [OF assms(1) row]
  have f: "work_ID work = work_ID row" "Graph work = Graph row" "work_State work = work_State row" "Attempts work = attempts_of (work_ID row) db"
    using r(4) by (simp_all add: work add_children_def list_columns_def bare_def)
  obtain nd where nd: "(nid, nd) \<in> set (Graph row)"
    and ready: "node_ready (attempts_of (work_ID row) db)
        (case map_of (ActiveLeasesByWorkIDs (map work_ID (ListSchedulableWorks 100 db)) db) (work_ID work) of None \<Rightarrow> [] | Some m \<Rightarrow> m) nid nd"
    using assms(3) by (auto simp: ready_of_def ReadyNodes_def f split: if_splits)
  have free: "\<forall>l \<in> set (leases db). \<not> (lease_WorkID l = work_ID work \<and> lease_NodeID l = nid \<and> lease_Status l = LeaseActive)"
    using ready assms(2) active_chunks_lookup [of db "map work_ID (ListSchedulableWorks 100 db)" "[]" "work_ID work" nid]
    by (auto simp: node_ready_def ActiveLeasesByWorkIDs_def split: if_splits)
  show ?thesis
    using r(2,3) nd ready free work f by (auto simp: node_ready_def list_all_iff split: if_splits)
qed

text \<open>C36. The poll offers only work that may run. It returns at most the limit, and every item names a stored Work in QUEUED or RUNNING and a node of it that no worker holds an ACTIVE lease on,
  that has neither succeeded nor an attempt running, and all of whose dependencies have succeeded. An item is placed on a registered runner that satisfies every hard requirement
  of the node, with a fresh heartbeat where the Work is bound to a pool; an item without a placement is only offered for a Work that is not bound to a pool.\<close>

theorem ready_poll_offers_runnable:
  assumes "store_ok db" "readyNodesHandler c vs now httpMethod n reg db = Inr (items, skipped)"
  shows "length items \<le> ready_limit n \<and> (\<forall>it \<in> set items. runnable now reg db it)"
proof (intro conjI ballI)
  let ?ws = "ListSchedulableWorks 100 db" and ?active = "ActiveLeasesByWorkIDs (map work_ID (ListSchedulableWorks 100 db)) db"
  obtain pool livePool where pools: "scheduler_pools now reg = (pool, livePool)" by (cases "scheduler_pools now reg")
  have run: "work_loop c vs (ready_limit n) pool livePool ?active ?ws ([], []) = (items, skipped)"
    using assms(2) by (auto simp: readyNodesHandler_def pools Let_def split: if_splits)
  have "0 < ready_limit n" by (auto simp: ready_limit_def split: option.split)
  then show "length items \<le> ready_limit n" using work_loop_bounded [of "([], [])" "ready_limit n" c vs pool livePool ?active ?ws] run by simp
  fix it assume "it \<in> set items"
  then obtain work nid where w: "work \<in> set ?ws" "nid \<in> set (ready_of ?active work)" and off: "offer_of c (pool_for pool livePool work) work nid it"
    and live: "\<not> (Pool (work_Requirements work) \<noteq> [] \<and> livePool = [])"
    using work_loop_offers [of it c vs "ready_limit n" pool livePool ?active ?ws "([], [])"] run by auto
  from ready_of_runnable [OF assms(1) w] obtain row nd where row: "get_row (work_ID work) db = Some row" "work = add_children db (list_columns row)"
    and rest: "work_State row \<in> {StateQueued, StateRunning}" "(nid, nd) \<in> set (Graph row)"
      "\<forall>l \<in> set (leases db). \<not> (lease_WorkID l = work_ID work \<and> lease_NodeID l = nid \<and> lease_Status l = LeaseActive)"
      "nid \<notin> succeeded_nodes (attempts_of (work_ID work) db)" "nid \<notin> in_flight_nodes (attempts_of (work_ID work) db)"
      "set (Needs nd) \<subseteq> succeeded_nodes (attempts_of (work_ID work) db)" by blast
  have f: "work_Requirements work = work_Requirements row" "node_of work = node_of row" "meets_requirements work = meets_requirements row"
    by (simp_all add: row(2) add_children_def list_columns_def node_of_def meets_requirements_def tenantOf_def fun_eq_iff)
  have "case ri_Assignment it of None \<Rightarrow> Pool (work_Requirements row) = []
         | Some a \<Rightarrow> \<exists>r. SelectedRunner a = Some r \<and> meets_requirements row (node_of row (ri_NodeID it)) r
             \<and> registered reg r (if Pool (work_Requirements row) = [] then legacy_eligible now else (\<lambda>i. runnerHasFreshHeartbeat (Some i) now))"
    using off live scheduler_pools_registered [OF pools] by (auto simp: offer_of_def placed_def pool_for_def f split: option.splits if_splits)
  moreover have "ri_WorkID it = work_ID work" "ri_NodeID it = nid" using off by (simp_all add: offer_of_def)
  ultimately show "runnable now reg db it"
    unfolding runnable_def using row(1) rest by (intro exI [of _ row] exI [of _ nd] conjI) simp_all
qed

text \<open>The cache key of an offer.\<close>

lemma poll_offer:
  assumes "store_ok db" "readyNodesHandler c vs now httpMethod n reg db = Inr (items, skipped)" "it \<in> set items"
  obtains pool work row where "get_row (ri_WorkID it) db = Some row" "work = add_children db (list_columns row)" "offer_of c pool work (ri_NodeID it) it"
proof -
  obtain pool livePool where pools: "scheduler_pools now reg = (pool, livePool)" by (cases "scheduler_pools now reg")
  let ?ws = "ListSchedulableWorks 100 db" and ?active = "ActiveLeasesByWorkIDs (map work_ID (ListSchedulableWorks 100 db)) db"
  have run: "work_loop c vs (ready_limit n) pool livePool ?active ?ws ([], []) = (items, skipped)"
    using assms(2) by (auto simp: readyNodesHandler_def pools Let_def split: if_splits)
  obtain work nid where w: "work \<in> set ?ws" "nid \<in> set (ready_of ?active work)" and off: "offer_of c (pool_for pool livePool work) work nid it"
    using work_loop_offers [of it c vs "ready_limit n" pool livePool ?active ?ws "([], [])"] run assms(3) by auto
  have ids: "ri_WorkID it = work_ID work" "ri_NodeID it = nid" using off by (simp_all add: offer_of_def)
  obtain row where "get_row (work_ID work) db = Some row" "work = add_children db (list_columns row)"
    using ready_of_runnable [OF assms(1) w] by blast
  with that off ids show ?thesis by simp
qed

text \<open>C38. A cache that was never asked for is offered all the same: the poll attaches a fingerprint whenever a node has a cache specification, and admission writes one, disabled, into every node that
  has none. So a node whose submitter said nothing about caching, placed on a runner, always carries the key under which the worker takes an earlier result instead of running the command.\<close>

theorem unrequested_cache_is_offered:
  assumes "store_ok db" "readyNodesHandler c vs now httpMethod n reg db = Inr (items, skipped)" "it \<in> set items" "ri_Assignment it \<noteq> None"
    and "get_row (ri_WorkID it) db = Some row" "validateAndEnrichNode (ri_NodeID it) submitted = Inr (node_of row (ri_NodeID it))"
    and "\<not> Cache submitted" "node_CacheSpec submitted = None"
    and "Fingerprint c (KeyFromNode row (node_of row (ri_NodeID it)) ''organization'') = Some fp"
  shows "ri_CacheKey it = fp"
proof -
  obtain pool work row' where row: "get_row (ri_WorkID it) db = Some row'" "work = add_children db (list_columns row')" and off: "offer_of c pool work (ri_NodeID it) it"
    by (rule poll_offer [OF assms(1,2,3)])
  have "row' = row" using row(1) assms(5) by simp
  have same: "node_of work = node_of row" "KeyFromNode work = KeyFromNode row"
    by (simp_all add: row(2) \<open>row' = row\<close> add_children_def list_columns_def node_of_def KeyFromNode_def fun_eq_iff)
  have "pool \<noteq> []" using off assms(4) by (auto simp: offer_of_def placed_def)
  then have "ri_CacheKey it = cache_key c work (node_of row (ri_NodeID it))" using off by (simp add: offer_of_def same)
  moreover have "node_CacheSpec n' = Some \<lparr>Enabled = False, KeyInputs = [], Scope = ''organization''\<rparr>" if "validateAndEnrichNode nid submitted = Inr n'" for nid n'
    using that assms(8) by (auto simp: validateAndEnrichNode_def enrich_cache_def DefaultCacheScope_def Let_def split: if_splits option.splits)
  note this [OF assms(6)]
  ultimately show ?thesis using assms(9) by (simp add: cache_key_def same)
qed

section \<open>Example\<close>

definition demo_queued :: db where
  "demo_queued = snd (UpdateState demo_env ''w1'' StateQueued demo_db)"

fun offered :: "api_error + listing \<Rightarrow> (string \<times> string \<times> bool) list option" where
  "offered (Inr (items, _)) = Some (map (\<lambda>it. (ri_WorkID it, ri_NodeID it, ri_Assignment it \<noteq> None)) items)"
| "offered (Inl _) = None"

lemma demo_offered:
  "offered (readyNodesHandler demo_key_codec (\<lambda>_ _ _. std_visit) 5 ''GET'' None (Some demo_registry) demo_queued) = Some [(''w1'', ''build'', True)]"
  by code_simp

theorem ready_poll_offers_runnable_witness:
  "\<exists>it skipped. readyNodesHandler demo_key_codec (\<lambda>_ _ _. std_visit) 5 ''GET'' None (Some demo_registry) demo_queued = Inr ([it], skipped)
     \<and> ri_NodeID it = ''build'' \<and> runnable 5 (Some demo_registry) demo_queued it"
proof -
  obtain items skipped where run: "readyNodesHandler demo_key_codec (\<lambda>_ _ _. std_visit) 5 ''GET'' None (Some demo_registry) demo_queued = Inr (items, skipped)"
    and items: "map (\<lambda>it. (ri_WorkID it, ri_NodeID it, ri_Assignment it \<noteq> None)) items = [(''w1'', ''build'', True)]"
    using demo_offered by (auto elim: offered.elims)
  have "store_ok demo_queued" unfolding demo_queued_def by (rule UpdateState_ok [OF demo_db_ok])
  from ready_poll_offers_runnable [OF this run] items run show ?thesis by auto
qed

definition demo_admitted :: Work where
  "demo_admitted = the (fst (ValidateAndEnrich (Some demo_work)))"

definition demo_admitted_db :: db where
  "demo_admitted_db = snd (UpdateState demo_env ''w1'' StateQueued (snd (CreateWork demo_env demo_admitted empty_db)))"

theorem unrequested_cache_is_offered_witness:
  "\<exists>it skipped. readyNodesHandler demo_key_codec (\<lambda>_ _ _. std_visit) 5 ''GET'' None (Some demo_registry) demo_admitted_db = Inr ([it], skipped) \<and> ri_CacheKey it = ''hmake''"
proof -
  let ?poll = "readyNodesHandler demo_key_codec (\<lambda>_ _ _. std_visit) 5 ''GET'' None (Some demo_registry) demo_admitted_db"
  have "offered ?poll = Some [(''w1'', ''build'', True)]" by code_simp
  then obtain items skipped where poll: "?poll = Inr (items, skipped)"
    and items: "map (\<lambda>it. (ri_WorkID it, ri_NodeID it, ri_Assignment it \<noteq> None)) items = [(''w1'', ''build'', True)]"
    by (auto elim: offered.elims)
  then obtain it where run: "?poll = Inr ([it], skipped)" and it: "ri_WorkID it = ''w1''" "ri_NodeID it = ''build''" "ri_Assignment it \<noteq> None"
    by (cases items) auto
  have ok: "store_ok demo_admitted_db" unfolding demo_admitted_db_def by (intro UpdateState_ok CreateWork_ok empty_db_ok)
  define row where "row = the (get_row ''w1'' demo_admitted_db)"
  have "get_row ''w1'' demo_admitted_db \<noteq> None" by code_simp
  then have row: "get_row ''w1'' demo_admitted_db = Some row" by (simp add: row_def)
  have admitted: "validateAndEnrichNode ''build'' (node_of demo_work ''build'') = Inr (node_of row ''build'')" unfolding row_def by code_simp
  have silent: "\<not> Cache (node_of demo_work ''build'')" "node_CacheSpec (node_of demo_work ''build'') = None" by code_simp+
  have fp: "Fingerprint demo_key_codec (KeyFromNode row (node_of row ''build'') ''organization'') = Some ''hmake''" unfolding row_def by code_simp
  have here: "it \<in> set [it]" "get_row (ri_WorkID it) demo_admitted_db = Some row"
    "validateAndEnrichNode (ri_NodeID it) (node_of demo_work ''build'') = Inr (node_of row (ri_NodeID it))"
    "Fingerprint demo_key_codec (KeyFromNode row (node_of row (ri_NodeID it)) ''organization'') = Some ''hmake''"
    unfolding it(1,2) by (rule list.set_intros(1), rule row, rule admitted, rule fp)
  have "ri_CacheKey it = ''hmake''" by (rule unrequested_cache_is_offered [OF ok run here(1) it(3) here(2,3) silent here(4)])
  with run show ?thesis by blast
qed

end
