(* ===== verification/Webhook_Routes.thy ===== *)
theory Webhook_Routes
  imports Lease_Api Admission
begin

text \<open>
  Works that GitHub starts: signature, parsing and filtering of deliveries (\<^verbatim>\<open>services/webhook/github.go\<close>), the pipeline document of a repository
  (\<^verbatim>\<open>packages/pipeline/pipeline.go\<close>) and the route that turns a delivery into a queued Work once (\<^verbatim>\<open>services/api/webhook_handler.go\<close>). HMAC-SHA256, the decoders of the two JSON payloads,
  the YAML decoder and the download of the document are fields of the configuration. The map of a pipeline document is listed in the order of the loop that picks its first entry. A delivery is kept without
  its arrival time and its constant provider, which nothing reads.
\<close>

section \<open>Deliveries\<close>

record Delivery =
  dl_DeliveryID :: string
  dl_Event :: string
  RepoFullName :: string
  RepoHTMLURL :: string
  RepoCloneURL :: string
  dl_Ref :: string
  dl_SHA :: string
  dl_PRNumber :: int
  dl_PRAction :: string
  dl_PRHead :: string
  dl_PRBase :: string

datatype webhook_error = ErrMissingSignature | ErrInvalidSignature | ErrMissingDeliveryID | ErrMissingEvent | ErrUnsupportedEvent string | ErrPayload string

definition EventPush :: string where "EventPush = ''push''"
definition EventPR :: string where "EventPR = ''pull_request''"
definition EventPing :: string where "EventPing = ''ping''"
definition SignaturePrefix :: string where "SignaturePrefix = ''sha256=''"

record pushPayload =
  pp_Ref :: string
  pp_After :: string
  pp_FullName :: string
  pp_HTMLURL :: string
  pp_CloneURL :: string

record pullRequestPayload =
  pr_Action :: string
  pr_Number :: int
  pr_HeadSHA :: string
  pr_HeadRef :: string
  pr_HeadFullName :: string
  pr_HeadCloneURL :: string
  pr_BaseRef :: string
  pr_FullName :: string
  pr_HTMLURL :: string
  pr_CloneURL :: string

section \<open>Pipeline documents\<close>

record nodeDoc =
  nd_Run :: string
  nd_Needs :: "string list"
  nd_Cache :: bool
  nd_TimeoutS :: int
  nd_Env :: "string gomap"
  nd_CacheKeyInputs :: "string list"

record nodeGroup =
  ng_Triggers :: "string list"
  ng_Confidence :: string
  ng_OS :: string
  ng_Arch :: string
  ng_Pool :: string
  ng_Nodes :: "nodeDoc gomap"

type_synonym pipelineDoc = "nodeGroup gomap"

record WebhookConfig =
  wh_Secret :: string
  wh_AllowedRepos :: "bool gomap option"
  wh_ProductionAccess :: bool
  wh_GitHubToken :: string
  wh_hmac :: "string \<Rightarrow> string \<Rightarrow> string"
  wh_push :: "string \<Rightarrow> pushPayload option"
  wh_pull :: "string \<Rightarrow> pullRequestPayload option"
  wh_fetch :: "string \<Rightarrow> string \<Rightarrow> string \<Rightarrow> unit + string option"
  wh_yaml :: "string \<Rightarrow> pipelineDoc option"

datatype pipeline_error = PipelineYAML | PipelineEmpty | PipelineInvalid work_error | PipelineFetch | PipelineSkip

definition pipeline_node :: "string \<Rightarrow> nodeDoc \<Rightarrow> Node" where
  "pipeline_node nName n = zero_Node\<lparr>node_ID := nName, Run := nd_Run n, Needs := nd_Needs n, Cache := nd_Cache n, Env := nd_Env n, TimeoutS := nd_TimeoutS n,
     node_CacheSpec := (if nd_Cache n \<and> nd_CacheKeyInputs n \<noteq> [] then Some \<lparr>Enabled = True, KeyInputs = nd_CacheKeyInputs n, Scope = ''organization''\<rparr> else None)\<rparr>"

definition pipeline_Parse :: "WebhookConfig \<Rightarrow> env \<Rightarrow> string \<Rightarrow> pipeline_error + Work" where
  "pipeline_Parse cfg e raw =
     (case wh_yaml cfg raw of None \<Rightarrow> Inl PipelineYAML
      | Some [] \<Rightarrow> Inl PipelineEmpty
      | Some ((name, c) # _) \<Rightarrow>
          let w = zero_Work\<lparr>work_ID := fresh e 0 ''wrk'', work_State := StateCreated,
                work_Objective := (work_Objective zero_Work)\<lparr>obj_Type := ''verify_change''\<rparr>,
                work_Requirements := (work_Requirements zero_Work)\<lparr>OS := ng_OS c, Arch := ng_Arch c, Confidence := ng_Confidence c, Pool := ng_Pool c\<rparr>,
                Graph := map (\<lambda>p. (fst p, pipeline_node (fst p) (snd p))) (ng_Nodes c)\<rparr>
          in case Validate w of Some x \<Rightarrow> Inl (PipelineInvalid x) | None \<Rightarrow> Inr w)"

fun any_trigger :: "pipelineDoc \<Rightarrow> string \<Rightarrow> bool" where
  "any_trigger [] event = False"
| "any_trigger ((name, g) # rest) event = (if ng_Triggers g = [] then True else if event \<in> set (ng_Triggers g) then True else any_trigger rest event)"

definition MatchesTrigger :: "WebhookConfig \<Rightarrow> string \<Rightarrow> string \<Rightarrow> bool" where
  "MatchesTrigger cfg raw event = (case wh_yaml cfg raw of None \<Rightarrow> False | Some doc \<Rightarrow> any_trigger doc event)"

section \<open>Signature, parsing, filtering\<close>

definition ShouldCreateWork :: "Delivery \<Rightarrow> bool" where
  "ShouldCreateWork d =
     (if dl_Event d = EventPush then HasPrefix (dl_Ref d) ''refs/heads/'' \<and> dl_SHA d \<noteq> [] \<and> dl_SHA d \<noteq> replicate 40 (CHR ''0'')
      else if dl_Event d = EventPR \<and> dl_PRAction d \<in> {''opened'', ''synchronize'', ''reopened''} then dl_SHA d \<noteq> [] \<and> RepoFullName d \<noteq> []
      else False)"

definition VerifySignature :: "WebhookConfig \<Rightarrow> string \<Rightarrow> string \<Rightarrow> webhook_error option" where
  "VerifySignature cfg signatureHeader body =
     (if signatureHeader = [] then Some ErrMissingSignature
      else if \<not> HasPrefix signatureHeader SignaturePrefix then Some ErrInvalidSignature
      else case hex_decode (drop (length SignaturePrefix) signatureHeader) of None \<Rightarrow> Some ErrInvalidSignature
      | Some got \<Rightarrow> if got \<noteq> wh_hmac cfg (wh_Secret cfg) body then Some ErrInvalidSignature else None)"

definition zero_Delivery :: Delivery where
  "zero_Delivery = \<lparr>dl_DeliveryID = [], dl_Event = [], RepoFullName = [], RepoHTMLURL = [], RepoCloneURL = [], dl_Ref = [], dl_SHA = [], dl_PRNumber = 0,
     dl_PRAction = [], dl_PRHead = [], dl_PRBase = []\<rparr>"

definition ParseGitHubDelivery :: "WebhookConfig \<Rightarrow> string \<Rightarrow> string \<Rightarrow> string \<Rightarrow> webhook_error + Delivery" where
  "ParseGitHubDelivery cfg event deliveryID body =
     (if event = [] then Inl ErrMissingEvent
      else if deliveryID = [] then Inl ErrMissingDeliveryID
      else let d = zero_Delivery\<lparr>dl_DeliveryID := deliveryID, dl_Event := event\<rparr> in
      if event = EventPing then Inr d
      else if event = EventPush then
        (case wh_push cfg body of None \<Rightarrow> Inl (ErrPayload event)
         | Some p \<Rightarrow> Inr (d\<lparr>dl_Ref := pp_Ref p, dl_SHA := pp_After p, RepoFullName := pp_FullName p, RepoHTMLURL := pp_HTMLURL p, RepoCloneURL := pp_CloneURL p\<rparr>))
      else if event = EventPR then
        (case wh_pull cfg body of None \<Rightarrow> Inl (ErrPayload event)
         | Some p \<Rightarrow>
            let d = d\<lparr>dl_PRAction := pr_Action p, dl_PRNumber := pr_Number p, dl_SHA := pr_HeadSHA p, dl_PRHead := pr_HeadRef p, dl_PRBase := pr_BaseRef p,
                  dl_Ref := ''refs/pull/'' @ dec_int (pr_Number p) @ ''/head''\<rparr>
            in Inr (if pr_HeadFullName p \<noteq> [] then d\<lparr>RepoFullName := pr_HeadFullName p, RepoCloneURL := pr_HeadCloneURL p\<rparr>
                    else d\<lparr>RepoFullName := pr_FullName p, RepoHTMLURL := pr_HTMLURL p, RepoCloneURL := pr_CloneURL p\<rparr>))
      else Inl (ErrUnsupportedEvent event))"

section \<open>The route\<close>

definition verifyCommand :: "Delivery \<Rightarrow> string" where
  "verifyCommand d =
     (if RepoFullName d = ''JonasAbde/Renos-Control'' then ''npm ci && npm --prefix backend/operations ci && npm run verify''
      else if RepoFullName d = ''JonasAbde/works-execution'' then ''go vet ./... && go test ./...''
      else ''exit 78'')"

definition workFromPipeline :: "WebhookConfig \<Rightarrow> env \<Rightarrow> Delivery \<Rightarrow> pipeline_error + Work option" where
  "workFromPipeline cfg e d =
     (if wh_GitHubToken cfg = [] then Inr None
      else case wh_fetch cfg (wh_GitHubToken cfg) (RepoFullName d) (dl_SHA d) of Inl _ \<Rightarrow> Inl PipelineFetch
      | Inr None \<Rightarrow> Inr None
      | Inr (Some raw) \<Rightarrow> (case pipeline_Parse cfg e raw of Inl x \<Rightarrow> Inl x
          | Inr w \<Rightarrow> if \<not> MatchesTrigger cfg raw (dl_Event d) then Inl PipelineSkip else Inr (Some w)))"

definition sourceTypeFor :: "Delivery \<Rightarrow> string" where
  "sourceTypeFor d = (if dl_Event d = EventPush then ''github_push'' else if dl_Event d = EventPR then ''github_pull_request'' else ''github_'' @ dl_Event d)"

definition branchFromRef :: "string \<Rightarrow> string \<Rightarrow> string" where
  "branchFromRef ref event =
     (if HasPrefix ref ''refs/heads/'' then drop (length ''refs/heads/'') ref
      else if HasPrefix ref ''refs/pull/'' \<and> event = EventPR then ref
      else ref)"

definition webhookSource :: "Delivery \<Rightarrow> Source" where
  "webhookSource d = (work_Source zero_Work)\<lparr>src_Type := sourceTypeFor d, Repository := RepoFullName d, Ref := dl_Ref d, Actor := [], Branch := branchFromRef (dl_Ref d) (dl_Event d),
     SHA := dl_SHA d, HTMLURL := RepoHTMLURL d, CloneURL := RepoCloneURL d, PRNumber := dl_PRNumber d, PRAction := dl_PRAction d, PRHead := dl_PRHead d, PRBase := dl_PRBase d\<rparr>"

definition webhook_policy :: "WebhookConfig \<Rightarrow> Policy" where
  "webhook_policy cfg = (work_Policy zero_Work)\<lparr>ProductionAccess := wh_ProductionAccess cfg\<rparr>"

definition defaultWebhookWork :: "WebhookConfig \<Rightarrow> Delivery \<Rightarrow> string \<Rightarrow> Work" where
  "defaultWebhookWork cfg d workID = zero_Work\<lparr>work_ID := workID, work_State := StateQueued, work_Source := webhookSource d,
     work_Objective := (work_Objective zero_Work)\<lparr>obj_Type := ''verify_change''\<rparr>,
     Graph := [(''build'', zero_Node\<lparr>node_ID := ''build'', Run := verifyCommand d, TimeoutS := 600\<rparr>)], work_Policy := webhook_policy cfg\<rparr>"

text \<open>\<^verbatim>\<open>io.LimitReader\<close> at 1 MiB.\<close>

fun limit_read :: "int \<Rightarrow> string \<Rightarrow> string" where
  "limit_read n [] = []"
| "limit_read n (c # s) = (if n \<le> 0 then [] else c # limit_read (n - 1) s)"

definition LimitRead :: "string \<Rightarrow> string" where
  "LimitRead s = limit_read 1048576 s"

record webhook_request =
  wr_Body :: "string option"
  wr_Event :: string
  wr_Delivery :: string
  wr_Signature :: string
  wr_User :: string

datatype webhook_reply = HookError nat string | HookDuplicate string | HookIgnored | HookCreated string Delivery

definition webhook_work :: "WebhookConfig \<Rightarrow> env \<Rightarrow> webhook_request \<Rightarrow> Delivery \<Rightarrow> Work option \<Rightarrow> Work" where
  "webhook_work cfg e q d template =
     (let workID = fresh e 0 ''wrk'';
          g = (case template of None \<Rightarrow> defaultWebhookWork cfg d workID
               | Some w \<Rightarrow> w\<lparr>work_ID := workID, work_State := StateQueued, work_Source := webhookSource d, work_Policy := webhook_policy cfg\<rparr>)
      in g\<lparr>work_Source := (work_Source g)\<lparr>Actor := wr_User q\<rparr>, CorrelationID := fresh e 1 ''cor''\<rparr>)"

definition accept_delivery :: "WebhookConfig \<Rightarrow> env \<Rightarrow> webhook_request \<Rightarrow> string \<Rightarrow> Delivery \<Rightarrow> db \<Rightarrow> webhook_reply \<times> db" where
  "accept_delivery cfg e q body d db =
     (case workFromPipeline cfg (call 2 e) d of
        Inl PipelineSkip \<Rightarrow> (HookIgnored, db)
      | Inl _ \<Rightarrow> (HookError 502 ''pipeline_load_failed'', db)
      | Inr template \<Rightarrow>
          let g = webhook_work cfg e q d template in
          (case CreateWork (call 3 e) g db of
             (Inl _, db') \<Rightarrow> (HookError 500 ''create_work'', db')
           | (Inr _, db') \<Rightarrow> (HookCreated (fresh e 0 ''wrk'') d, snd (RecordWebhookDelivery (call 4 e) (wr_Delivery q) (wr_Event q) (fresh e 0 ''wrk'') body db'))))"

definition githubWebhookHandler :: "WebhookConfig option \<Rightarrow> env \<Rightarrow> webhook_request \<Rightarrow> db \<Rightarrow> webhook_reply \<times> db" where
  "githubWebhookHandler co e q db =
     (case co of None \<Rightarrow> (HookError 503 ''webhook_disabled'', db)
      | Some cfg \<Rightarrow>
        if wh_Secret cfg = [] then (HookError 503 ''webhook_disabled'', db)
        else case wr_Body q of None \<Rightarrow> (HookError 400 ''read_body'', db)
        | Some full \<Rightarrow>
          let body = LimitRead full in
          if VerifySignature cfg (wr_Signature q) body \<noteq> None then (HookError 401 ''invalid_signature'', db)
          else let existing = LookupWebhookDelivery (wr_Delivery q) db in
          if existing \<noteq> [] then (HookDuplicate existing, db)
          else case ParseGitHubDelivery cfg (wr_Event q) (wr_Delivery q) body of Inl _ \<Rightarrow> (HookIgnored, db)
          | Inr d \<Rightarrow>
            if \<not> ShouldCreateWork d then (HookIgnored, db)
            else if (case wh_AllowedRepos cfg of None \<Rightarrow> False | Some m \<Rightarrow> \<not> go_true m (RepoFullName d)) then (HookError 403 ''repo_not_allowed'', db)
            else accept_delivery cfg e q body d db)"

definition exec_webhook :: "WebhookConfig option \<Rightarrow> env \<times> webhook_request \<Rightarrow> db \<Rightarrow> db" where
  "exec_webhook co r db = snd (githubWebhookHandler co (fst r) (snd r) db)"

section \<open>What a delivery does\<close>

definition hook_signed :: "WebhookConfig \<Rightarrow> webhook_request \<Rightarrow> string \<Rightarrow> bool" where
  "hook_signed cfg q body \<longleftrightarrow> (\<exists>s. wr_Signature q = SignaturePrefix @ s \<and> hex_decode s = Some (wh_hmac cfg (wh_Secret cfg) body))"

definition repo_allowed :: "WebhookConfig \<Rightarrow> Delivery \<Rightarrow> bool" where
  "repo_allowed cfg d \<longleftrightarrow> (case wh_AllowedRepos cfg of None \<Rightarrow> True | Some m \<Rightarrow> go_true m (RepoFullName d))"

lemma VerifySignature_signed: "VerifySignature cfg (wr_Signature q) body = None \<Longrightarrow> hook_signed cfg q body"
proof -
  assume v: "VerifySignature cfg (wr_Signature q) body = None"
  then have "HasPrefix (wr_Signature q) SignaturePrefix" "hex_decode (drop (length SignaturePrefix) (wr_Signature q)) = Some (wh_hmac cfg (wh_Secret cfg) body)"
    by (auto simp: VerifySignature_def split: if_splits option.splits)
  then show ?thesis
    unfolding hook_signed_def HasPrefix_def by (metis append_take_drop_id)
qed

lemma ParseGitHubDelivery_id: "ParseGitHubDelivery cfg event did body = Inr d \<Longrightarrow> did \<noteq> [] \<and> dl_DeliveryID d = did \<and> dl_Event d = event"
  by (auto simp: ParseGitHubDelivery_def zero_Delivery_def Let_def split: if_splits option.splits)

lemma fresh_wrk: "fresh e i ''wrk'' \<noteq> []"
  by (simp add: fresh_def NewID_def)

lemma zero_Work_fields: "IdempotencyKey zero_Work = []" "Attempts zero_Work = []"
  by (simp_all add: zero_Work_def)

lemma pipeline_template:
  assumes "workFromPipeline cfg e d = Inr (Some w)"
  shows "IdempotencyKey w = []"
  using assms by (auto simp: workFromPipeline_def pipeline_Parse_def Let_def zero_Work_fields split: if_splits option.splits sum.splits list.splits)

lemma webhook_work_fields:
  assumes "workFromPipeline cfg e' d = Inr template"
  shows "work_ID (webhook_work cfg e q d template) = fresh e 0 ''wrk''" "work_State (webhook_work cfg e q d template) = StateQueued"
    "work_Source (webhook_work cfg e q d template) = (webhookSource d)\<lparr>Actor := wr_User q\<rparr>" "IdempotencyKey (webhook_work cfg e q d template) = []"
    "work_Policy (webhook_work cfg e q d template) = webhook_policy cfg"
  using assms pipeline_template by (auto simp: webhook_work_def defaultWebhookWork_def Let_def zero_Work_fields split: option.split)

lemma CreateWork_plain:
  assumes "IdempotencyKey g = []" "CreateWork e g db = (r, db')"
  shows "(\<exists>x. r = Inl x) \<and> db' = db \<or> (\<exists>ev. r = Inr (stamp_work e g) \<and> db' = auditEmit ev (db\<lparr>works := works db @ [work_columns (stamp_work e g)]\<rparr>))"
proof -
  have "IdempotencyKey (stamp_work e g) = []" using assms(1) by (simp add: stamp_work_def Let_def)
  then show ?thesis using assms(2) by (auto simp: CreateWork_def Let_def split: if_splits option.splits)
qed

lemma stamp_fields: "work_State g \<noteq> StateOther [] \<Longrightarrow> work_State (stamp_work e g) = work_State g" "work_ID (stamp_work e g) = work_ID g"
  "work_Source (stamp_work e g) = work_Source g" "work_Policy (stamp_work e g) = work_Policy g" "Graph (stamp_work e g) = Graph g"
  by (simp_all add: stamp_work_def Let_def)

lemma webhooks_auditEmit [simp]: "webhooks (auditEmit ev db) = webhooks db"
  by (simp add: auditEmit_def Emit_def)

text \<open>A delivery that asks for a Work: a push of a commit to a branch, or a pull request that was opened, reopened or given new commits.\<close>

definition wanted :: "Delivery \<Rightarrow> bool" where
  "wanted d \<longleftrightarrow>
     dl_Event d = ''push'' \<and> (\<exists>b. dl_Ref d = ''refs/heads/'' @ b) \<and> dl_SHA d \<noteq> [] \<and> dl_SHA d \<noteq> replicate 40 (CHR ''0'')
     \<or> dl_Event d = ''pull_request'' \<and> (dl_PRAction d = ''opened'' \<or> dl_PRAction d = ''synchronize'' \<or> dl_PRAction d = ''reopened'')
       \<and> dl_SHA d \<noteq> [] \<and> RepoFullName d \<noteq> []"

text \<open>Its fields are those of the payload; for a pull request the repository is that of the head, where the payload has it.\<close>

definition as_delivered :: "WebhookConfig \<Rightarrow> webhook_request \<Rightarrow> string \<Rightarrow> Delivery \<Rightarrow> bool" where
  "as_delivered cfg q body d \<longleftrightarrow> dl_DeliveryID d = wr_Delivery q \<and> dl_Event d = wr_Event q \<and>
     ((\<exists>p. wr_Event q = ''push'' \<and> wh_push cfg body = Some p \<and> dl_Ref d = pp_Ref p \<and> dl_SHA d = pp_After p
         \<and> RepoFullName d = pp_FullName p \<and> RepoHTMLURL d = pp_HTMLURL p \<and> RepoCloneURL d = pp_CloneURL p)
      \<or> (\<exists>p. wr_Event q = ''pull_request'' \<and> wh_pull cfg body = Some p \<and> dl_SHA d = pr_HeadSHA p \<and> dl_PRNumber d = pr_Number p
         \<and> dl_PRAction d = pr_Action p \<and> dl_PRHead d = pr_HeadRef p \<and> dl_PRBase d = pr_BaseRef p
         \<and> (RepoFullName d, RepoCloneURL d) = (if pr_HeadFullName p \<noteq> [] then (pr_HeadFullName p, pr_HeadCloneURL p) else (pr_FullName p, pr_CloneURL p))))"

lemma HasPrefix_split: "HasPrefix s p \<Longrightarrow> \<exists>r. s = p @ r"
  by (metis HasPrefix_def append_take_drop_id)

lemma ShouldCreateWork_wanted:
  assumes "ShouldCreateWork d"
  shows "wanted d"
proof (cases "dl_Event d = ''push''")
  case True
  then have "HasPrefix (dl_Ref d) ''refs/heads/''" "dl_SHA d \<noteq> []" "dl_SHA d \<noteq> replicate 40 (CHR ''0'')"
    using assms by (simp_all only: ShouldCreateWork_def EventPush_def if_True simp_thms)
  then show ?thesis using True HasPrefix_split unfolding wanted_def by blast
next
  case False
  then show ?thesis using assms by (auto simp: ShouldCreateWork_def EventPush_def EventPR_def wanted_def split: if_splits)
qed

lemma ParseGitHubDelivery_delivered:
  assumes "ParseGitHubDelivery cfg (wr_Event q) (wr_Delivery q) body = Inr d" "wanted d"
  shows "as_delivered cfg q body d"
proof -
  note i = ParseGitHubDelivery_id [OF assms(1)]
  consider "wr_Event q = ''push''" | "wr_Event q = ''pull_request''" using assms(2) i unfolding wanted_def by metis
  then show ?thesis
  proof cases
    case 1
    then obtain p where "wh_push cfg body = Some p" "d = zero_Delivery\<lparr>dl_DeliveryID := wr_Delivery q, dl_Event := ''push'', dl_Ref := pp_Ref p, dl_SHA := pp_After p,
        RepoFullName := pp_FullName p, RepoHTMLURL := pp_HTMLURL p, RepoCloneURL := pp_CloneURL p\<rparr>"
      using assms(1) i by (cases "wh_push cfg body") (simp_all add: ParseGitHubDelivery_def EventPing_def EventPush_def Let_def)
    then show ?thesis using 1 i by (simp add: as_delivered_def)
  next
    case 2
    then obtain p where p: "wh_pull cfg body = Some p" using assms(1) i
      by (cases "wh_pull cfg body") (simp_all add: ParseGitHubDelivery_def EventPing_def EventPush_def EventPR_def Let_def)
    then have "d = (let d = zero_Delivery\<lparr>dl_DeliveryID := wr_Delivery q, dl_Event := ''pull_request'', dl_PRAction := pr_Action p, dl_PRNumber := pr_Number p, dl_SHA := pr_HeadSHA p,
          dl_PRHead := pr_HeadRef p, dl_PRBase := pr_BaseRef p, dl_Ref := ''refs/pull/'' @ dec_int (pr_Number p) @ ''/head''\<rparr>
        in if pr_HeadFullName p \<noteq> [] then d\<lparr>RepoFullName := pr_HeadFullName p, RepoCloneURL := pr_HeadCloneURL p\<rparr>
           else d\<lparr>RepoFullName := pr_FullName p, RepoHTMLURL := pr_HTMLURL p, RepoCloneURL := pr_CloneURL p\<rparr>)"
      using assms(1) i 2 by (simp add: ParseGitHubDelivery_def EventPing_def EventPush_def EventPR_def Let_def)
    then show ?thesis using 2 i p by (simp add: as_delivered_def Let_def)
  qed
qed

text \<open>The source of a Work is that of the delivery; the actor is what the request header says, which the signature does not cover.\<close>

definition source_of :: "Delivery \<Rightarrow> string \<Rightarrow> Source \<Rightarrow> bool" where
  "source_of d actor src \<longleftrightarrow> src_Type src = (if dl_Event d = ''push'' then ''github_push'' else ''github_pull_request'')
     \<and> Repository src = RepoFullName d \<and> Ref src = dl_Ref d \<and> SHA src = dl_SHA d \<and> CloneURL src = RepoCloneURL d \<and> HTMLURL src = RepoHTMLURL d
     \<and> PRNumber src = dl_PRNumber d \<and> PRAction src = dl_PRAction d \<and> PRHead src = dl_PRHead d \<and> PRBase src = dl_PRBase d \<and> Actor src = actor"

lemma webhookSource_of: "wanted d \<Longrightarrow> source_of d actor ((webhookSource d)\<lparr>Actor := actor\<rparr>)"
  by (auto simp: wanted_def source_of_def webhookSource_def sourceTypeFor_def EventPush_def EventPR_def)

text \<open>One accepted delivery: a row for the Work it asks for, and the row that remembers the delivery.\<close>

definition takes_effect :: "WebhookConfig \<Rightarrow> webhook_request \<Rightarrow> Delivery \<Rightarrow> db \<Rightarrow> db \<Rightarrow> bool" where
  "takes_effect cfg q d db db' \<longleftrightarrow> (\<exists>v h. works db' = works db @ [v] \<and> work_State v = StateQueued \<and> work_Source v = (webhookSource d)\<lparr>Actor := wr_User q\<rparr>
     \<and> work_Policy v = webhook_policy cfg \<and> work_ID v \<noteq> [] \<and> wh_DeliveryID h = wr_Delivery q \<and> wh_WorkID h = work_ID v
     \<and> webhooks db' = insert_ignore wh_DeliveryID h (webhooks db) \<and> leases db' = leases db \<and> attempts db' = attempts db)"

lemma accept_delivery_effect:
  assumes "accept_delivery cfg e q body d db = (r, db')" "wr_Delivery q \<noteq> []"
  shows "(\<forall>w d'. r \<noteq> HookCreated w d') \<and> db' = db \<or> (\<exists>w. r = HookCreated w d) \<and> takes_effect cfg q d db db'"
proof (cases "workFromPipeline cfg (call 2 e) d")
  case (Inl x)
  then show ?thesis using assms(1) by (cases x) (auto simp: accept_delivery_def)
next
  case (Inr template)
  let ?g = "webhook_work cfg e q d template" and ?w = "stamp_work (call 3 e) (webhook_work cfg e q d template)"
  note g = webhook_work_fields [OF Inr, of e q]
  obtain res db1 where c: "CreateWork (call 3 e) ?g db = (res, db1)" by (cases "CreateWork (call 3 e) ?g db")
  from CreateWork_plain [OF g(4) c] consider x where "res = Inl x" "db1 = db"
    | ev where "res = Inr ?w" "db1 = auditEmit ev (db\<lparr>works := works db @ [work_columns ?w]\<rparr>)" by blast
  then show ?thesis
  proof cases
    case 1
    then show ?thesis using assms(1) c by (auto simp: accept_delivery_def Inr Let_def)
  next
    case 2
    let ?h = "\<lparr>wh_DeliveryID = wr_Delivery q, wh_Event = wr_Event q, wh_WorkID = fresh e 0 ''wrk'', wh_ReceivedAt = Now (call 4 e) 0, wh_Body = body\<rparr>"
    have db': "db' = db1\<lparr>webhooks := insert_ignore wh_DeliveryID ?h (webhooks db1)\<rparr>" and r: "\<exists>w. r = HookCreated w d"
      using assms 2(1) c by (auto simp: accept_delivery_def Inr Let_def RecordWebhookDelivery_def)
    have "works db' = works db @ [work_columns ?w]" "webhooks db' = insert_ignore wh_DeliveryID ?h (webhooks db)" "leases db' = leases db" "attempts db' = attempts db"
      by (simp_all add: db' 2(2))
    moreover have "work_State (work_columns ?w) = StateQueued" "work_Source (work_columns ?w) = (webhookSource d)\<lparr>Actor := wr_User q\<rparr>"
      "work_Policy (work_columns ?w) = webhook_policy cfg" "work_ID (work_columns ?w) = fresh e 0 ''wrk''"
      by (simp_all add: work_columns_def stamp_fields g)
    ultimately have "takes_effect cfg q d db db'"
      unfolding takes_effect_def using fresh_wrk by (intro exI [of _ "work_columns ?w"] exI [of _ ?h]) simp
    with r show ?thesis by blast
  qed
qed

lemma webhook_step:
  assumes "githubWebhookHandler co e q db = (r, db')"
  shows "(\<forall>w d. r \<noteq> HookCreated w d) \<and> db' = db
    \<or> (\<exists>cfg full d w. co = Some cfg \<and> wh_Secret cfg \<noteq> [] \<and> wr_Body q = Some full \<and> hook_signed cfg q (LimitRead full)
        \<and> ParseGitHubDelivery cfg (wr_Event q) (wr_Delivery q) (LimitRead full) = Inr d \<and> ShouldCreateWork d \<and> repo_allowed cfg d
        \<and> LookupWebhookDelivery (wr_Delivery q) db = [] \<and> r = HookCreated w d \<and> takes_effect cfg q d db db')"
proof -
  have "(\<forall>w d. r \<noteq> HookCreated w d) \<and> db' = db \<or> (\<exists>cfg full d. co = Some cfg \<and> wh_Secret cfg \<noteq> [] \<and> wr_Body q = Some full
      \<and> VerifySignature cfg (wr_Signature q) (LimitRead full) = None \<and> LookupWebhookDelivery (wr_Delivery q) db = []
      \<and> ParseGitHubDelivery cfg (wr_Event q) (wr_Delivery q) (LimitRead full) = Inr d \<and> ShouldCreateWork d \<and> repo_allowed cfg d
      \<and> accept_delivery cfg e q (LimitRead full) d db = (r, db'))"
    using assms unfolding githubWebhookHandler_def Let_def repo_allowed_def
    by (cases co; cases "wr_Body q") (auto split: if_splits sum.splits option.splits)
  then show ?thesis
  proof (elim disjE exE conjE)
    fix cfg full d
    assume a: "co = Some cfg" "wh_Secret cfg \<noteq> []" "wr_Body q = Some full" "VerifySignature cfg (wr_Signature q) (LimitRead full) = None"
      "LookupWebhookDelivery (wr_Delivery q) db = []" "ParseGitHubDelivery cfg (wr_Event q) (wr_Delivery q) (LimitRead full) = Inr d"
      "ShouldCreateWork d" "repo_allowed cfg d" "accept_delivery cfg e q (LimitRead full) d db = (r, db')"
    have "wr_Delivery q \<noteq> []" using ParseGitHubDelivery_id [OF a(6)] by simp
    from accept_delivery_effect [OF a(9) this] show ?thesis
    proof (elim disjE conjE exE)
      fix w assume "r = HookCreated w d" "takes_effect cfg q d db db'"
      with a VerifySignature_signed [OF a(4)] show ?thesis by blast
    qed blast
  qed blast
qed

text \<open>C39. A webhook changes the store only for a signed, wanted delivery. When a request to the webhook route changes anything, a secret is configured and the signature header is the HMAC of the
  body that was read under it. The delivery is the one in this body and in the headers that name its event and identifier: a push of a commit to a branch, not of its deletion, or a pull
  request that was opened, reopened or given new commits. Its repository is on the allow-list where there is one, and no Work was recorded for it before. The change is one queued Work with the repository, commit, clone
  address and pull request of that delivery, the actor named by a header the signature does not cover, and the configured production access, plus the record of the delivery,
  and no lease or attempt.\<close>

theorem webhook_work_is_signed:
  assumes "githubWebhookHandler co e q db = (r, db')" "db' \<noteq> db"
  shows "\<exists>cfg full d w. co = Some cfg \<and> wh_Secret cfg \<noteq> [] \<and> wr_Body q = Some full \<and> hook_signed cfg q (LimitRead full)
    \<and> as_delivered cfg q (LimitRead full) d \<and> wanted d
    \<and> (\<forall>m. wh_AllowedRepos cfg = Some m \<longrightarrow> map_of m (RepoFullName d) = Some True)
    \<and> (\<forall>h. find_row wh_DeliveryID (wr_Delivery q) (webhooks db) = Some h \<longrightarrow> wh_WorkID h = []) \<and> r = HookCreated w d
    \<and> (\<exists>v h. works db' = works db @ [v] \<and> work_State v = StateQueued \<and> work_ID v \<noteq> [] \<and> source_of d (wr_User q) (work_Source v)
         \<and> ProductionAccess (work_Policy v) = wh_ProductionAccess cfg \<and> wh_DeliveryID h = wr_Delivery q \<and> wh_WorkID h = work_ID v
         \<and> webhooks db' = insert_ignore wh_DeliveryID h (webhooks db) \<and> leases db' = leases db \<and> attempts db' = attempts db)"
proof -
  obtain cfg full d w where f: "co = Some cfg" "wh_Secret cfg \<noteq> []" "wr_Body q = Some full" "hook_signed cfg q (LimitRead full)"
    "ParseGitHubDelivery cfg (wr_Event q) (wr_Delivery q) (LimitRead full) = Inr d" "ShouldCreateWork d" "repo_allowed cfg d"
    "LookupWebhookDelivery (wr_Delivery q) db = []" "r = HookCreated w d" "takes_effect cfg q d db db'"
    using webhook_step [OF assms(1)] assms(2) by blast
  have wd: "wanted d" by (rule ShouldCreateWork_wanted [OF f(6)])
  have ad: "as_delivered cfg q (LimitRead full) d" by (rule ParseGitHubDelivery_delivered [OF f(5) wd])
  have al: "map_of m (RepoFullName d) = Some True" if "wh_AllowedRepos cfg = Some m" for m
    using f(7) that by (auto simp: repo_allowed_def go_true_def split: option.splits)
  obtain v h where e: "works db' = works db @ [v]" "work_State v = StateQueued" "work_Source v = (webhookSource d)\<lparr>Actor := wr_User q\<rparr>"
    "work_Policy v = webhook_policy cfg" "work_ID v \<noteq> []" "wh_DeliveryID h = wr_Delivery q" "wh_WorkID h = work_ID v"
    "webhooks db' = insert_ignore wh_DeliveryID h (webhooks db)" "leases db' = leases db" "attempts db' = attempts db"
    using f(10) unfolding takes_effect_def by blast
  have "source_of d (wr_User q) (work_Source v)" "ProductionAccess (work_Policy v) = wh_ProductionAccess cfg"
    unfolding e(3,4) using webhookSource_of [OF wd] by (simp_all add: webhook_policy_def)
  moreover have "wh_WorkID k = []" if "find_row wh_DeliveryID (wr_Delivery q) (webhooks db) = Some k" for k
    using f(8) ParseGitHubDelivery_id [OF f(5)] that by (simp add: LookupWebhookDelivery_def)
  ultimately show ?thesis using f(1-4,9) wd ad al e by blast
qed

section \<open>Sequences of deliveries\<close>

definition hooks_ok :: "db \<Rightarrow> bool" where
  "hooks_ok db \<longleftrightarrow> distinct (map wh_DeliveryID (webhooks db)) \<and> (\<forall>h \<in> set (webhooks db). wh_WorkID h \<noteq> [])"

lemma unseen_delivery:
  assumes "hooks_ok db" "LookupWebhookDelivery did db = []" "did \<noteq> []"
  shows "find_row wh_DeliveryID did (webhooks db) = None"
  using assms find_row_Some [of wh_DeliveryID did "webhooks db"] by (auto simp: LookupWebhookDelivery_def hooks_ok_def split: option.splits)

lemma exec_webhook_step:
  assumes "hooks_ok db"
  obtains "exec_webhook co r db = db"
  | v h where "works (exec_webhook co r db) = works db @ [v]" "webhooks (exec_webhook co r db) = webhooks db @ [h]" "wh_WorkID h = work_ID v"
      "hooks_ok (exec_webhook co r db)"
proof -
  obtain res db' where run: "githubWebhookHandler co (fst r) (snd r) db = (res, db')" by (cases "githubWebhookHandler co (fst r) (snd r) db")
  have out: "exec_webhook co r db = db'" by (simp add: exec_webhook_def run)
  show ?thesis
  proof (cases "db' = db")
    case False
    then obtain cfg full d where d: "ParseGitHubDelivery cfg (wr_Event (snd r)) (wr_Delivery (snd r)) (LimitRead full) = Inr d"
      "LookupWebhookDelivery (wr_Delivery (snd r)) db = []" "takes_effect cfg (snd r) d db db'"
      using webhook_step [OF run] by blast
    obtain v h where vh: "works db' = works db @ [v]" "work_ID v \<noteq> []" "wh_DeliveryID h = wr_Delivery (snd r)" "wh_WorkID h = work_ID v"
      "webhooks db' = insert_ignore wh_DeliveryID h (webhooks db)"
      using d(3) unfolding takes_effect_def by blast
    have new: "find_row wh_DeliveryID (wh_DeliveryID h) (webhooks db) = None"
      using unseen_delivery [OF assms d(2)] ParseGitHubDelivery_id [OF d(1)] vh(3) by simp
    then have hs: "webhooks db' = webhooks db @ [h]" by (simp add: vh(5) insert_ignore_def)
    have ok: "hooks_ok db'"
      using assms new vh(2,4) by (auto simp: hooks_ok_def hs find_row_None)
    show ?thesis by (rule that(2) [unfolded out, OF vh(1) hs vh(4) ok])
  qed (use that(1) out in simp)
qed

text \<open>C40. Deliveries are effective at most once: along every sequence of webhook requests, genuine or not and repeated at will, the Works that appear and the delivery records that appear correspond one to
  one, and no delivery identifier is recorded twice; so a redelivered event never queues a second Work.\<close>

theorem delivery_queues_at_most_one_work:
  assumes "hooks_ok db"
  shows "\<exists>ws hs. works (fold (exec_webhook co) rs db) = works db @ ws \<and> webhooks (fold (exec_webhook co) rs db) = webhooks db @ hs
    \<and> map wh_WorkID hs = map work_ID ws \<and> distinct (map wh_DeliveryID (webhooks db @ hs))"
  using assms
proof (induction rs arbitrary: db)
  case Nil
  then show ?case by (auto simp: hooks_ok_def)
next
  case (Cons r rs)
  show ?case
  proof (rule exec_webhook_step [OF Cons.prems, of co r])
    assume "exec_webhook co r db = db"
    then show ?thesis using Cons.IH [OF Cons.prems] by simp
  next
    fix v h assume step: "works (exec_webhook co r db) = works db @ [v]" "webhooks (exec_webhook co r db) = webhooks db @ [h]" "wh_WorkID h = work_ID v"
      "hooks_ok (exec_webhook co r db)"
    from Cons.IH [OF step(4)] obtain ws hs where
      "works (fold (exec_webhook co) (r # rs) db) = works db @ v # ws" "webhooks (fold (exec_webhook co) (r # rs) db) = webhooks db @ h # hs"
      "map wh_WorkID (h # hs) = map work_ID (v # ws)" "distinct (map wh_DeliveryID (webhooks db @ h # hs))"
      using step(1-3) by auto
    then show ?thesis by blast
  qed
qed

text \<open>The webhook bypasses admission: a Work from a repository's pipeline document is queued with its graph as written, although admission would refuse that graph (an unbounded timeout, for
  instance) on the creation route.\<close>

theorem webhook_skips_admission:
  assumes "workFromPipeline cfg (call 2 e) d = Inr (Some t)" "ValidateAndEnrich (Some t) = (t', Some x)"
    and "get_row (fresh e 0 ''wrk'') db = None" "wr_Delivery q \<noteq> []"
  shows "\<exists>w db' v. accept_delivery cfg e q body d db = (HookCreated w d, db') \<and> get_row w db' = Some v \<and> work_State v = StateQueued \<and> Graph v = Graph t"
proof -
  let ?g = "webhook_work cfg e q d (Some t)" and ?w = "stamp_work (call 3 e) (webhook_work cfg e q d (Some t))"
  note g = webhook_work_fields [OF assms(1), of e q]
  have same: "Graph ?g = Graph t" "work_Objective ?g = work_Objective t" by (simp_all add: webhook_work_def Let_def)
  have "Validate t = None"
    using assms(1) by (auto simp: workFromPipeline_def pipeline_Parse_def Let_def split: if_splits option.splits sum.splits list.splits)
  then have valid: "Validate ?g = None" "work_ID ?g \<noteq> []"
    using fresh_wrk [of e 0] by (auto simp: Validate_def same g split: if_splits)
  have key: "IdempotencyKey ?w = []" "work_ID ?w = fresh e 0 ''wrk''" using g by (simp_all add: stamp_work_def Let_def)
  obtain ev where c: "CreateWork (call 3 e) ?g db = (Inr ?w, auditEmit ev (db\<lparr>works := works db @ [work_columns ?w]\<rparr>))"
    using valid assms(3) by (auto simp: CreateWork_def Let_def key g(1,4))
  let ?db = "snd (RecordWebhookDelivery (call 4 e) (wr_Delivery q) (wr_Event q) (fresh e 0 ''wrk'') body (auditEmit ev (db\<lparr>works := works db @ [work_columns ?w]\<rparr>)))"
  have "accept_delivery cfg e q body d db = (HookCreated (fresh e 0 ''wrk'') d, ?db)"
    by (simp add: accept_delivery_def assms(1) Let_def c)
  moreover have wks: "works ?db = works db @ [work_columns ?w]" using assms(4) by (simp add: RecordWebhookDelivery_def)
  have "work_ID (work_columns ?w) = fresh e 0 ''wrk''" by (simp add: work_columns_def stamp_fields g)
  then have "get_row (fresh e 0 ''wrk'') ?db = Some (work_columns ?w)"
    unfolding get_row_def wks find_row_append using assms(3) by (simp add: get_row_def)
  moreover have "work_State (work_columns ?w) = StateQueued" "Graph (work_columns ?w) = Graph t"
    by (simp_all add: work_columns_def stamp_fields g same)
  ultimately show ?thesis by blast
qed

section \<open>Examples\<close>

definition demo_hook :: WebhookConfig where
  "demo_hook = \<lparr>wh_Secret = ''s'', wh_AllowedRepos = Some [(''a/b'', True)], wh_ProductionAccess = False, wh_GitHubToken = ''t'', wh_hmac = (\<lambda>k m. k @ m),
     wh_push = (\<lambda>b. Some \<lparr>pp_Ref = ''refs/heads/main'', pp_After = ''c1'', pp_FullName = ''a/b'', pp_HTMLURL = [], pp_CloneURL = []\<rparr>), wh_pull = (\<lambda>_. None),
     wh_fetch = (\<lambda>_ _ _. Inr (Some ''y'')), wh_yaml = (\<lambda>_. Some [(''ci'', \<lparr>ng_Triggers = [], ng_Confidence = [], ng_OS = [], ng_Arch = [], ng_Pool = [],
       ng_Nodes = [(''build'', \<lparr>nd_Run = ''make'', nd_Needs = [], nd_Cache = False, nd_TimeoutS = 1000000, nd_Env = [], nd_CacheKeyInputs = []\<rparr>)]\<rparr>)])\<rparr>"

definition demo_push :: webhook_request where
  "demo_push = \<lparr>wr_Body = Some ''b'', wr_Event = ''push'', wr_Delivery = ''d1'', wr_Signature = ''sha256='' @ hex_encode ''sb'', wr_User = ''ada''\<rparr>"

definition demo_delivery :: Delivery where
  "demo_delivery = zero_Delivery\<lparr>dl_DeliveryID := ''d1'', dl_Event := ''push'', dl_Ref := ''refs/heads/main'', dl_SHA := ''c1'', RepoFullName := ''a/b''\<rparr>"

lemma demo_hook_run: "length (works (exec_webhook (Some demo_hook) (demo_env, demo_push) empty_db)) = 1"
  by code_simp

theorem webhook_work_is_signed_witness:
  "\<exists>r db'. githubWebhookHandler (Some demo_hook) demo_env demo_push empty_db = (r, db') \<and> db' \<noteq> empty_db \<and> hook_signed demo_hook demo_push ''b''"
proof -
  obtain r db' where run: "githubWebhookHandler (Some demo_hook) demo_env demo_push empty_db = (r, db')" by (rule prod.exhaust)
  have "length (works db') = 1" using demo_hook_run by (simp add: exec_webhook_def run)
  then have "works db' \<noteq> works empty_db" by (auto simp: empty_db_def)
  then have "db' \<noteq> empty_db" by auto
  from webhook_work_is_signed [OF run this] obtain cfg full where "Some demo_hook = Some cfg" "wr_Body demo_push = Some full" "hook_signed cfg demo_push (LimitRead full)" by blast
  moreover have "wr_Body demo_push = Some ''b''" "LimitRead ''b'' = ''b''" by (simp_all add: demo_push_def LimitRead_def)
  ultimately have "hook_signed demo_hook demo_push ''b''" by simp
  with run \<open>db' \<noteq> empty_db\<close> show ?thesis by blast
qed

theorem delivery_queues_at_most_one_work_witness:
  "length (works (fold (exec_webhook (Some demo_hook)) [(demo_env, demo_push), (demo_env, demo_push)] empty_db)) = 1
   \<and> (\<exists>hs. webhooks (fold (exec_webhook (Some demo_hook)) [(demo_env, demo_push), (demo_env, demo_push)] empty_db) = hs \<and> length hs = 1)"
proof -
  have "hooks_ok empty_db" by (simp add: hooks_ok_def empty_db_def)
  from delivery_queues_at_most_one_work [OF this, of "Some demo_hook" "[(demo_env, demo_push), (demo_env, demo_push)]"]
  obtain ws hs where f: "works (fold (exec_webhook (Some demo_hook)) [(demo_env, demo_push), (demo_env, demo_push)] empty_db) = works empty_db @ ws"
    "webhooks (fold (exec_webhook (Some demo_hook)) [(demo_env, demo_push), (demo_env, demo_push)] empty_db) = webhooks empty_db @ hs" "map wh_WorkID hs = map work_ID ws"
    by blast
  have len: "length (works (fold (exec_webhook (Some demo_hook)) [(demo_env, demo_push), (demo_env, demo_push)] empty_db)) = 1" by code_simp
  have "works empty_db = []" "webhooks empty_db = []" by (simp_all add: empty_db_def)
  then have "length ws = 1" "webhooks (fold (exec_webhook (Some demo_hook)) [(demo_env, demo_push), (demo_env, demo_push)] empty_db) = hs"
    using len unfolding f by simp_all
  moreover have "length hs = length ws" by (rule map_eq_imp_length_eq [OF f(3)])
  ultimately show ?thesis using len by (intro conjI exI [of _ hs]) simp_all
qed

theorem webhook_skips_admission_witness:
  "\<exists>w db' v. accept_delivery demo_hook demo_env demo_push ''b'' demo_delivery empty_db = (HookCreated w demo_delivery, db') \<and> get_row w db' = Some v \<and> work_State v = StateQueued"
proof -
  define t where "t = (case workFromPipeline demo_hook (call 2 demo_env) demo_delivery of Inr (Some t) \<Rightarrow> t | _ \<Rightarrow> zero_Work)"
  have t: "workFromPipeline demo_hook (call 2 demo_env) demo_delivery = Inr (Some t)" unfolding t_def by code_simp
  have "case snd (ValidateAndEnrich (Some t)) of None \<Rightarrow> False | Some x \<Rightarrow> True" unfolding t_def by code_simp
  then obtain t' x where "ValidateAndEnrich (Some t) = (t', Some x)" by (cases "ValidateAndEnrich (Some t)") (auto split: option.splits)
  moreover have "get_row (fresh demo_env 0 ''wrk'') empty_db = None" "wr_Delivery demo_push \<noteq> []" by (simp_all add: get_row_def empty_db_def demo_push_def)
  ultimately show ?thesis using webhook_skips_admission [OF t] by blast
qed

end
