(* ===== verification/Spec2Isabelle.thy ===== *)
theory Spec2Isabelle
  imports Scheduler Admission Budget_Ledger Governed_Resume Lease_Policy Runtime_Abi Link Release_Rings Dispatch_Runs Event_Stream Brain_Runs Work_Routes Ready_Poll Webhook_Routes
begin

text \<open>
  This development models the control plane of WORKS, the Go program under src/, and proves what the rest of the
  system relies on. A \<^emph>\<open>Work\<close> is a graph of nodes with a state machine; the control plane stores it, chooses a runner
  for each ready node, grants that runner a lease, records attempts, evidence and journal events, classifies failures,
  suspends and resumes missions through checkpoints, and lets paired devices mount missions until they are revoked.

  \<^bold>\<open>Theories and sources.\<close> Definitions keep the names of the code; a name shared by several structs carries a prefix
  (\<open>lease_ID\<close>, \<open>att_ID\<close>), methods of different types with one name carry the type (\<open>WireValidate\<close>).
  \<^item> \<open>Go_Prelude\<close>, \<open>Go_Float\<close>: what the code uses of Go. Times and durations are \<open>int\<close> nanoseconds, maps are association lists with
    distinct keys (\<open>gomap\<close>), \<open>env\<close> supplies the readings of the clock and the generated identifiers of one call, \<open>json\<close> is
    the tree of a JSON document, \<open>float64\<close> is a rational with infinities and NaN rounded to 53 bits.
  \<^item> \<open>Workgraph\<close>: packages/workgraph (types, \<open>CanTransition\<close>, \<open>Validate\<close>, \<open>ReadyNodes\<close>, evidence seals);
    \<open>Budget_Ledger\<close>: the mission ledger of the same package.
  \<^item> \<open>Admission\<close>: internal/manifest/admission.go. \<open>Scheduler\<close>: internal/scheduler/scheduler.go.
  \<^item> \<open>Work_Store\<close>: the tables of services/work/store as the record \<open>db\<close> (lists of rows in row-id order), store.go, events.go,
    the eventful calls of events_journal.go and the audit log of services/audit. A transaction that fails returns the
    database it started from. \<open>Lease_Store\<close>: leases.go, placement_lease.go and the reaper pass of services/api/leases.go.
  \<^item> \<open>Classifier\<close>: services/classifier, its ordered rules with the regular expressions as recognisers.
  \<^item> \<open>Verified_State\<close>: packages/verifiedstate, the dependency graph, its lifecycle calls and the reconciliation
    worklist. \<open>Checkpoint_Codec\<close>: the JSON forms of handoffs and checkpoints. \<open>Checkpoints\<close>: suspend, latest handoff, resume and resume
    receipts of the store (store.go, events_bridge.go, resume_reconciliation.go, link_suspend.go).
  \<^item> \<open>Store_Runs\<close>: the datatype \<open>store_call\<close> of every operation of the store that writes, and its execution.
  \<^item> \<open>Link\<close>: packages/link, link_store.go, the cascade of link_suspend.go and the HTTP routes of link_handler.go.
  \<^item> \<open>Governed_Resume\<close>: the resume route of services/api/work_resume.go with its receipts. \<open>Lease_Policy\<close>: services/api/policy.go and, as its
    specification, the rules its comments list. \<open>Runtime_Abi\<close>: packages/abi. \<open>Release_Rings\<close>: packages/release.
  \<^item> \<open>Runner_Registry\<close>: identities of runners, the in-memory registry and its routes (services/api/runner_register.go, runner_abi.go). \<open>Worker_Auth\<close>: worker tokens,
    the bearer middleware and enrolment (auth.go, enroll.go). \<open>Artifact_Cas\<close>: uploads with every file state between their system calls and verified reads
    (artifact_transfer.go, packages/workgraph/artifact.go). \<open>Lease_Api\<close>: the lease routes of services/api/leases.go with their gates and the placement reservation.
  \<^item> \<open>Execution_Context\<close>: packages/executioncontext, its table and routes. \<open>Dispatch_Seal\<close>: internal/dispatch/acceptance.go with the tables of dispatch_store.go and
    dispatch_v2_store.go and their routes; \<open>Dispatch_Runs\<close>: sequences of its calls. \<open>Event_Stream\<close>: the journal listing and the event stream of services/api/work_events.go.
  \<^item> \<open>Brain_Laws\<close>: packages/brain. \<open>Brain_Store\<close>: brain_store.go, its backend and the routes of brain_handler.go; \<open>Brain_Runs\<close>: sequences of requests to them.
  \<^item> \<open>Creation_Intent\<close>: the canonical form and the hash of a creation request (services/api/work_create_idempotency.go). \<open>Work_Routes\<close>: the Work routes of services/api/api.go,
    where other requests may change the store between any two store calls of a creation. \<open>Work_Cache\<close>: packages/cache and cache_handler.go. \<open>Ready_Poll\<close>: the poll that offers
    ready nodes to workers, composed of the store, the lease table, the registry, the scheduler and the cache keys.
    \<open>Webhook_Routes\<close>: GitHub deliveries, the pipeline document of a repository and the webhook route (services/webhook/github.go, packages/pipeline, webhook_handler.go).
  \<^bold>\<open>Interfaces.\<close> Locales state the contracts between parts and are interpreted on the model: an operation set with an invariant
  (\<open>invariant_ops\<close>, for the ledger, the store, the link service, the registry, the lease and creation routes, the artifact, dispatch, brain and cache tables),
  a store whose entries never change (\<open>write_once\<close>, for artifacts and cached results), a law that a Work moves only along allowed edges (\<open>transition_law\<close>),
  a device table that returns what was last put (\<open>device_store\<close>), among others named in the theories.

  \<^bold>\<open>What is shown.\<close> Store: the well-formedness of the tables is kept by every call; in every run an ACTIVE lease of a node is the
  only one, terminal Works and leases stay as they are and the journal only grows (below). Reads that are batched agree with single reads, in the order of whole seconds,
  creation and journal appends are idempotent, paging through the journal misses nothing. Leases: a grant is made exactly for a live Work and a free node;
  completion sets exactly one outcome; a reaper pass revokes every lease whose text has expired. Budget: consumption is never
  reported above the ceiling, in exact float64 arithmetic. Scheduler and admission: the selected runner meets every hard requirement,
  admitted Works are within the limits and admission is idempotent. Verified state: reconciliation computes exactly the
  least impact of the changed nodes over paths of edges, and only a fresh verification makes a node canonical. Checkpoints: resume after
  suspend returns the stored handoff if its text sorts last, and never happens without an intact checkpoint. Link: while a device is revoked no
  route but revocation serves it.
  Governed resume: every resume is bound to the bridge secret, the approved checkpoint and a fresh idempotency key, happens at
  most once per key, and is replayed afterwards. Policy: the engine decides by the rules it documents, with exactly one reason for a refusal. ABI: control is never negotiated without a token, and
  advertisements survive being written and read. Releases: stable is reached ring by ring, soaked and with a kill switch, and every downgrade is logged.
  Routes: registered runners are well-formed; a granted lease passed every gate and a worker changes only its own leases; an upload interrupted anywhere leaves no wrong
  bytes. Dispatch: spending never passes the ceiling in any run, VERIFIED needs a verdict on the sealed subject, a contextual acceptance is bound to a live lease; overlapping calls can lose updates.
  Event stream: a client that reconnects with its cursor sees every record exactly once, and the stream catches up. Brain: authority needs a human stamp in every run and revisions are never changed.
  Creation: two admissible requests have one canonical intent exactly if admission persists the same of them, stated field by field; a keyed creation answers only with the stored Work that was accepted for this intent,
  whatever its peers do; a replay is decided by the intent alone and repairs only a missing queueing. Poll: what is offered may run, on a runner that meets every requirement. Cache: a stored result never changes. Webhooks: only a signed, wanted delivery
  of an allowed repository changes anything, and along every sequence of requests each delivery queues at most one Work.
  Some theorems state that the code deviates from its comments (the manifest lists them as findings).

  \<^bold>\<open>Bounds and termination.\<close> No fuel is used where the code has an unbounded loop: the reconciliation worklist is a \<open>function\<close> whose
  termination is proved (each push raises a severity of at most 2), the chunked hydration recurses on the shorter
  list (chunks of 400, as in the code). \<open>BeginPair\<close> rolls a code at most 5 times because the code does.

  \<^bold>\<open>Parameters.\<close> SHA-256, HMAC, base64 and the text of JSON and times are fields of the records \<open>codec\<close> and \<open>TokenIssuer\<close>; theorems name
  what they need of them (a parser that inverts the renderer, an injective hash on the inputs at hand), and witnesses instantiate
  them with concrete functions.

  \<^bold>\<open>Not modelled.\<close> Schema migration, connection pools, locking and retries of SQLite (each call is one serialised
  transaction, as the single writer connection makes it); I/O failures of the database; error texts, of which the kind
  and the offending field are kept (except in \<open>Link\<close>, where a route looks at the text); letters outside ASCII; the order of rows where a query asks for none; what happens between the store calls
  of one resume request; panics on numbers JSON cannot express; the wiring of routes; processes, containers, Git and GitHub adapters; metrics, SBOM and
  provenance formats; command line programs.
  Of the remaining parts, economic settlement, billing, receipts, promotion, capabilities and golden missions check documents of their own schemas and share no state with
  the control plane; the worker, the sandbox, the workspaces and the publishers are processes and network calls; the web pages, DORA figures and reliability reports only render what the store holds.

  \<^bold>\<open>Order of the development.\<close> The store and its leases come first, then checkpoints and devices, then the routes that compose them
  (resume, leases, registry, artifacts, creation, poll), then the dispatch, event and brain stores.
\<close>

section \<open>Every run of the store\<close>

text \<open>C1. In every state the store can reach from an empty database, by any sequence of its operations with any clock readings and generated
  identifiers, two ACTIVE leases for the same node of the same Work are one lease, and every lease, attempt, artifact, evidence
  row, handoff and journal record belongs to a Work that exists.\<close>

theorem leases_exclusive_in_every_run:
  assumes "db = fold (exec_store c fmt) cs empty_db"
  shows "(\<forall>l \<in> set (leases db). \<forall>l' \<in> set (leases db). lease_Status l = LeaseActive \<and> lease_Status l' = LeaseActive
      \<and> lease_WorkID l = lease_WorkID l' \<and> lease_NodeID l = lease_NodeID l' \<longrightarrow> l = l')
    \<and> (\<forall>l \<in> set (leases db). get_row (lease_WorkID l) db \<noteq> None)
    \<and> (\<forall>r \<in> set (attempts db). get_row (ar_work r) db \<noteq> None)
    \<and> (\<forall>r \<in> set (artifacts db). get_row (fst r) db \<noteq> None)
    \<and> (\<forall>r \<in> set (evidences db). get_row (fst r) db \<noteq> None)
    \<and> (\<forall>h \<in> set (handoffs db). get_row (ho_WorkID h) db \<noteq> None)
    \<and> (\<forall>ev \<in> set (events db). get_row (we_WorkID ev) db \<noteq> None)"
proof -
  have ok: "store_ok db" unfolding assms(1) by (rule run_from_empty)
  let ?a = "filter (\<lambda>l. lease_Status l = LeaseActive) (leases db)"
  have "distinct (map (\<lambda>l. (lease_WorkID l, lease_NodeID l)) ?a)"
    using ok by (simp add: store_ok_def leases_ok_def exclusive_def)
  then have "inj_on (\<lambda>l. (lease_WorkID l, lease_NodeID l)) (set ?a)" by (simp only: distinct_map)
  then have "l = l'" if "l \<in> set ?a" "l' \<in> set ?a" "lease_WorkID l = lease_WorkID l'" "lease_NodeID l = lease_NodeID l'" for l l'
    by (rule inj_onD) (use that in simp_all)
  then show ?thesis
    using ok unfolding get_row_None by (simp add: store_ok_def leases_ok_def children_ok_def handoffs_ok_def journal_ok_def)
qed

text \<open>C2. History is kept: whatever calls follow on a reachable state, a Work that was in a terminal state is still there, in the same state and with the same
  contract, a lease in a terminal status is unchanged, and the journal has only grown at its end.\<close>

theorem history_is_kept:
  assumes "db = fold (exec_store c fmt) cs empty_db" and "db' = fold (exec_store c fmt) later db"
  shows "(\<forall>wid w. get_row wid db = Some w \<longrightarrow> IsTerminal (work_State w) \<longrightarrow>
        (\<exists>w'. get_row wid db' = Some w' \<and> work_State w' = work_State w \<and> work_frame w' = work_frame w))
    \<and> (\<forall>lid l. find_row lease_ID lid (leases db) = Some l \<longrightarrow> LeaseIsTerminal (lease_Status l) \<longrightarrow>
        find_row lease_ID lid (leases db') = Some l)
    \<and> (\<exists>new. events db' = events db @ new)"
proof -
  have "store_ok db" unfolding assms(1) by (rule run_from_empty)
  then have "evolves store_moves db db'" "leases_advance db db'" "journal_grows db db'"
    using run_advances [of db c fmt later] unfolding assms(2) advances_def by blast+
  then show ?thesis
    using terminal_work_kept unfolding leases_advance_def journal_grows_def by metis
qed

text \<open>Both at a run that creates a Work and leases its node.\<close>

definition demo_run :: "store_call list" where
  "demo_run = [CCreateWork demo_env demo_work, CGrantLease (clock 0) ''w1'' ''build'' ''worker'' 5250000000]"

lemma demo_run_db: "fold (exec_store demo_codec fmt) demo_run empty_db = leased_db"
  by (simp add: demo_run_def leased_db_def demo_db_def)

theorem leases_exclusive_in_every_run_witness:
  "demo_lease \<in> set (leases leased_db) \<and> lease_Status demo_lease = LeaseActive \<and> get_row (lease_WorkID demo_lease) leased_db \<noteq> None"
proof -
  have l: "demo_lease \<in> set (leases leased_db)" by (simp add: leased_db_leases)
  have a: "lease_Status demo_lease = LeaseActive" by (simp add: demo_lease_def new_lease_def)
  have run: "leased_db = fold (exec_store demo_codec (\<lambda>_. [])) demo_run empty_db" by (simp add: demo_run_db)
  show ?thesis using leases_exclusive_in_every_run [OF run] l a by blast
qed

theorem history_is_kept_witness:
  "\<exists>new. events (snd (reapOnce (clock 9) 100 leased_db)) = events leased_db @ new"
proof -
  have run: "leased_db = fold (exec_store demo_codec (\<lambda>_. [])) demo_run empty_db" by (simp add: demo_run_db)
  have later: "snd (reapOnce (clock 9) 100 leased_db) = fold (exec_store demo_codec (\<lambda>_. [])) [CReap (clock 9) 100] leased_db" by simp
  show ?thesis using history_is_kept [OF run later] by blast
qed

end
